(* ===== verification/Prelude.thy ===== *)
theory Prelude
  imports Complex_Main "HOL-Library.Word" "HOL-Library.Sublist"
begin

text \<open>
  Shared vocabulary of the development: the JavaScript string operations the sources use,
  the row tables that stand for the database, a transition-system interface for the
  protocols, and the lemma collections the component theories extend.

  Strings. A JavaScript string is a sequence of UTF-16 code units; \<open>string\<close> is a list of
  8-bit characters. The model covers the strings whose code units are below 256, one
  character per code unit, so that \<open>length\<close> is JavaScript's \<open>length\<close>.
  Instants and durations are milliseconds, as \<open>Date.now()\<close> returns them.
\<close>

named_theorems row_simps "reading a table after an update"
named_theorems world_simps "reading one part of the world after writing another"

type_synonym bytes = "8 word list"
type_synonym ms = int

subsection \<open>JavaScript strings\<close>

definition js_ws :: "char \<Rightarrow> bool" where
  "js_ws c = (of_char c \<in> {9, 10, 11, 12, 13, 32, 160 :: nat})"

definition js_trim :: "string \<Rightarrow> string" where
  "js_trim s = rev (dropWhile js_ws (rev (dropWhile js_ws s)))"

definition js_lower_char :: "char \<Rightarrow> char" where
  "js_lower_char c =
     (let n = of_char c :: nat
      in if (65 \<le> n \<and> n \<le> 90) \<or> (192 \<le> n \<and> n \<le> 222 \<and> n \<noteq> 215) then char_of (n + 32) else c)"

definition js_lower :: "string \<Rightarrow> string" where
  "js_lower s = map js_lower_char s"

definition js_starts_with :: "string \<Rightarrow> string \<Rightarrow> bool" where
  "js_starts_with s p = (take (length p) s = p)"

fun js_includes :: "string \<Rightarrow> string \<Rightarrow> bool" where
  "js_includes [] t = (t = [])"
| "js_includes (c # s) t = (js_starts_with (c # s) t \<or> js_includes s t)"

fun js_split :: "char \<Rightarrow> string \<Rightarrow> string list" where
  "js_split d [] = [[]]"
| "js_split d (c # s) =
     (if c = d then [] # js_split d s
      else (case js_split d s of [] \<Rightarrow> [[c]] | w # ws \<Rightarrow> (c # w) # ws))"

fun js_join :: "string \<Rightarrow> string list \<Rightarrow> string" where
  "js_join sep [] = []"
| "js_join sep [w] = w"
| "js_join sep (w # v # ws) = w @ sep @ js_join sep (v # ws)"

definition quoted :: "string \<Rightarrow> string" where
  "quoted s = [CHR 0x22] @ s @ [CHR 0x22]"

text \<open>\<open>s.split(pat).join(rep)\<close>, for a non-empty pattern.\<close>

function js_replace_all :: "string \<Rightarrow> string \<Rightarrow> string \<Rightarrow> string" where
  "js_replace_all pat rep [] = []"
| "js_replace_all pat rep (c # s) =
     (if pat \<noteq> [] \<and> js_starts_with (c # s) pat
      then rep @ js_replace_all pat rep (drop (length pat) (c # s))
      else c # js_replace_all pat rep s)"
  by pat_completeness auto
termination
  by (relation "measure (\<lambda>(pat, rep, s). length s)") auto

fun digit_char :: "nat \<Rightarrow> char" where
  "digit_char n = char_of (48 + n)"

fun show_nat :: "nat \<Rightarrow> string" where
  "show_nat n = (if n < 10 then [digit_char n] else show_nat (n div 10) @ [digit_char (n mod 10)])"

declare show_nat.simps [simp del]

definition show_int :: "int \<Rightarrow> string" where
  "show_int i = (if i < 0 then ''-'' @ show_nat (nat (- i)) else show_nat (nat i))"

lemma show_nat_nonempty [simp]: "show_nat n \<noteq> []"
  by (subst show_nat.simps) simp

lemma show_int_nonempty [simp]: "show_int i \<noteq> []"
  by (simp add: show_int_def)

lemma show_nat_digits: "set (show_nat n) \<subseteq> digit_char ` {..<10}"
proof (induction n rule: show_nat.induct)
  case (1 n)
  then show ?case by (subst show_nat.simps) auto
qed

lemma js_split_part: "d \<notin> set w \<Longrightarrow> js_split d (w @ d # s) = w # js_split d s" "d \<notin> set w \<Longrightarrow> js_split d w = [w]"
  by (induction w) auto

lemma js_split_join:
  "xs \<noteq> [] \<Longrightarrow> \<forall>x \<in> set xs. d \<notin> set x \<Longrightarrow> js_split d (js_join [d] xs) = xs"
  by (induction "[d]" xs rule: js_join.induct) (simp_all add: js_split_part)

lemma js_starts_with_append [simp]: "js_starts_with (p @ s) p"
  by (simp add: js_starts_with_def)

lemma js_starts_with_prefix: "js_starts_with s p \<longleftrightarrow> (\<exists>t. s = p @ t)"
  unfolding js_starts_with_def by (metis append_eq_conv_conj append_take_drop_id)

lemma js_includes_iff: "js_includes s t \<longleftrightarrow> (\<exists>xs ys. s = xs @ t @ ys)"
proof (induction s)
  case Nil
  then show ?case by auto
next
  case (Cons c s)
  show ?case
  proof
    assume "js_includes (c # s) t"
    then consider "js_starts_with (c # s) t" | "js_includes s t" by auto
    then show "\<exists>xs ys. c # s = xs @ t @ ys"
    proof cases
      case 1
      then obtain u where "c # s = [] @ t @ u" by (auto simp: js_starts_with_prefix)
      then show ?thesis by blast
    next
      case 2
      then obtain xs ys where "s = xs @ t @ ys" using Cons.IH by blast
      then have "c # s = (c # xs) @ t @ ys" by simp
      then show ?thesis by blast
    qed
  next
    assume "\<exists>xs ys. c # s = xs @ t @ ys"
    then obtain xs ys where eq: "c # s = xs @ t @ ys" by blast
    show "js_includes (c # s) t"
    proof (cases xs)
      case Nil
      with eq have "js_starts_with (c # s) t" by (auto simp: js_starts_with_prefix)
      then show ?thesis by simp
    next
      case (Cons x zs)
      with eq have "s = zs @ t @ ys" by simp
      then show ?thesis using Cons.IH by auto
    qed
  qed
qed

text \<open>\<open>value || other\<close> on a string that may be absent: an empty string is falsy.\<close>

definition str_or :: "string option \<Rightarrow> string \<Rightarrow> string" where
  "str_or v d = (case v of Some s \<Rightarrow> if s = [] then d else s | None \<Rightarrow> d)"

lemma str_or_nonempty: "d \<noteq> [] \<Longrightarrow> str_or v d \<noteq> []"
  by (auto simp: str_or_def split: option.splits)

subsection \<open>Fallible results\<close>

text \<open>A computation that may throw: \<open>Inl\<close> is the thrown value.\<close>

type_synonym ('e, 'a) result = "'e + 'a"

definition andThen :: "('e, 'a) result \<Rightarrow> ('a \<Rightarrow> ('e, 'b) result) \<Rightarrow> ('e, 'b) result" where
  "andThen m k = (case m of Inl e \<Rightarrow> Inl e | Inr x \<Rightarrow> k x)"

definition guardE :: "bool \<Rightarrow> 'e \<Rightarrow> ('e, unit) result" where
  "guardE ok e = (if ok then Inr () else Inl e)"

lemma andThen_simps [simp]:
  "andThen (Inl e) k = Inl e" "andThen (Inr x) k = k x"
  by (simp_all add: andThen_def)

lemma andThen_Inr_iff: "andThen m k = Inr y \<longleftrightarrow> (\<exists>x. m = Inr x \<and> k x = Inr y)"
  by (cases m) auto

lemma guardE_Inr_iff [simp]: "guardE b e = Inr u \<longleftrightarrow> b"
  by (simp add: guardE_def)

lemma guardE_Inl_iff [simp]: "guardE b e = Inl e' \<longleftrightarrow> \<not> b \<and> e' = e"
  by (auto simp: guardE_def)

lemma guardE_simps [simp]: "guardE True e = Inr ()" "guardE False e = Inl e"
  by (simp_all add: guardE_def)

subsection \<open>Tables\<close>

text \<open>
  A table is the list of its rows in insertion order. \<open>tfind\<close> is a lookup by key (Prisma's
  \<open>findUnique\<close>, and \<open>findFirst\<close> with an id in its filter), \<open>tupd\<close> an \<open>update\<close> by key.
\<close>

definition tfind :: "('r \<Rightarrow> 'k) \<Rightarrow> 'k \<Rightarrow> 'r list \<Rightarrow> 'r option" where
  "tfind key k t = List.find (\<lambda>r. key r = k) t"

definition tupd :: "('r \<Rightarrow> 'k) \<Rightarrow> 'k \<Rightarrow> ('r \<Rightarrow> 'r) \<Rightarrow> 'r list \<Rightarrow> 'r list" where
  "tupd key k f t = map (\<lambda>r. if key r = k then f r else r) t"

lemma find_SomeD: "List.find P xs = Some x \<Longrightarrow> x \<in> set xs \<and> P x"
  by (auto simp: find_Some_iff)

lemma tfind_Some: "tfind key k t = Some r \<Longrightarrow> r \<in> set t \<and> key r = k"
  by (auto simp: tfind_def dest: find_SomeD)

lemma tfind_None: "tfind key k t = None \<longleftrightarrow> k \<notin> key ` set t"
  by (auto simp: tfind_def find_None_iff)

lemma tfind_Nil [simp]: "tfind key k [] = None"
  by (simp add: tfind_def)

lemma tfind_Cons: "tfind key k (r # t) = (if key r = k then Some r else tfind key k t)"
  by (simp add: tfind_def)

lemma tfind_append:
  "tfind key k (t @ u) = (case tfind key k t of Some r \<Rightarrow> Some r | None \<Rightarrow> tfind key k u)"
  by (induction t) (auto simp: tfind_Cons)

lemma tfind_tupd [row_simps]:
  assumes "\<And>r. key (f r) = key r"
  shows "tfind key i (tupd key j f t) =
    (if i = j then map_option f (tfind key i t) else tfind key i t)"
  by (induction t) (auto simp: tfind_Cons tupd_def assms)

lemma tfind_distinct:
  "distinct (map key t) \<Longrightarrow> r \<in> set t \<Longrightarrow> tfind key (key r) t = Some r"
  by (induction t) (auto simp: tfind_Cons)

lemma filter_key_single:
  "distinct (map key t) \<Longrightarrow> r \<in> set t \<Longrightarrow> [x \<leftarrow> t. key x = key r] = [r]"
proof (induction t)
  case (Cons y t)
  show ?case
  proof (cases "y = r")
    case True
    with Cons.prems have "\<forall>x \<in> set t. key x \<noteq> key r" by (auto simp: image_iff)
    then have "[x \<leftarrow> t. key x = key r] = []" by (simp add: filter_empty_conv)
    with True show ?thesis by simp
  next
    case False
    with Cons.prems have "r \<in> set t" "key y \<noteq> key r" by auto
    with Cons show ?thesis by simp
  qed
qed simp

lemma length_tupd [simp]: "length (tupd key k f t) = length t"
  by (simp add: tupd_def)

lemma set_tupd: "set (tupd key k f t) = (\<lambda>r. if key r = k then f r else r) ` set t"
  by (simp add: tupd_def)

lemma map_tupd_same:
  assumes "\<And>r. g (f r) = g r"
  shows "map g (tupd key k f t) = map g t"
  by (induction t) (auto simp: tupd_def assms)

lemma tupd_fuse:
  assumes "\<And>r. key (f r) = key r"
  shows "tupd key k g (tupd key k f t) = tupd key k (g \<circ> f) t"
  by (simp add: tupd_def assms)

lemma tupd_id: "tfind key k t = None \<Longrightarrow> tupd key k f t = t"
  by (induction t) (auto simp: tfind_Cons tupd_def split: if_splits)

text \<open>
  What the components ask of the rows they keep: lookup by key, update by key. A store that
  obeys the law reads back what was written and leaves the other rows alone.
\<close>

locale row_store =
  fixes key :: "'row \<Rightarrow> 'id"
    and look :: "'id \<Rightarrow> 's \<Rightarrow> 'row option"
    and upd :: "'id \<Rightarrow> ('row \<Rightarrow> 'row) \<Rightarrow> 's \<Rightarrow> 's"
  assumes look_key: "look i s = Some r \<Longrightarrow> key r = i"
    and look_upd: "(\<And>r. key (f r) = key r) \<Longrightarrow>
      look i (upd j f s) = (if i = j then map_option f (look i s) else look i s)"
begin

lemma look_upd_same: "(\<And>r. key (f r) = key r) \<Longrightarrow> look i (upd i f s) = map_option f (look i s)"
  by (simp add: look_upd)

lemma look_upd_other: "(\<And>r. key (f r) = key r) \<Longrightarrow> i \<noteq> j \<Longrightarrow> look i (upd j f s) = look i s"
  by (simp add: look_upd)

lemma look_upd_upd:
  assumes "\<And>r. key (f r) = key r" and "\<And>r. key (g r) = key r"
  shows "look i (upd i g (upd i f s)) = map_option (g \<circ> f) (look i s)"
  by (simp add: look_upd_same assms option.map_comp)

lemma look_upd_Some:
  assumes "\<And>r. key (f r) = key r" and "look i s = Some r"
  shows "look i (upd i f s) = Some (f r)"
  by (simp add: look_upd_same assms)

text \<open>A predicate that an update establishes on its row and keeps on every other row.\<close>

lemma look_upd_all:
  assumes "\<And>r. key (f r) = key r" and "\<And>i r. look i s = Some r \<Longrightarrow> P r"
    and "\<And>r. look j s = Some r \<Longrightarrow> P (f r)" and "look i (upd j f s) = Some r"
  shows "P r"
  using assms by (auto simp: look_upd split: if_splits)

end

subsection \<open>Transition systems\<close>

inductive reach :: "('s \<Rightarrow> bool) \<Rightarrow> ('s \<Rightarrow> 's \<Rightarrow> bool) \<Rightarrow> 's \<Rightarrow> bool"
  for init :: "'s \<Rightarrow> bool" and step :: "'s \<Rightarrow> 's \<Rightarrow> bool" where
  reach_init: "init s \<Longrightarrow> reach init step s"
| reach_step: "reach init step s \<Longrightarrow> step s t \<Longrightarrow> reach init step t"

text \<open>The interface of a protocol with an inductive invariant.\<close>

locale inv_system =
  fixes init :: "'s \<Rightarrow> bool" and step :: "'s \<Rightarrow> 's \<Rightarrow> bool" and inv :: "'s \<Rightarrow> bool"
  assumes inv_init: "init s \<Longrightarrow> inv s"
    and inv_step: "inv s \<Longrightarrow> step s t \<Longrightarrow> inv t"
begin

lemma reach_inv: "reach init step s \<Longrightarrow> inv s"
  by (induction rule: reach.induct) (auto intro: inv_init inv_step)

lemma reach_inv_consequence: "reach init step s \<Longrightarrow> (inv s \<Longrightarrow> P) \<Longrightarrow> P"
  using reach_inv by blast

end

end
