(* ===== verification/Job_Logger.thy ===== *)
theory Job_Logger
  imports Prelude
begin

text \<open>
  \<open>lib/logging/jobLogger.ts\<close>: the JavaScript values a log line carries, the redaction every
  value goes through before it is stored, and the \<open>JobLog\<close> row a call writes.

  A call of \<open>debug\<close>, \<open>info\<close>, \<open>warn\<close> or \<open>error\<close> swallows a failed insert, so to its caller
  it always returns; the model writes the row.
\<close>

datatype js =
    JsNull
  | JsUndefined
  | JsBool bool
  | JsNum int
  | JsFrac rat \<comment> \<open>a number that is not an integer\<close>
  | JsBigInt int
  | JsStr string
  | JsDate ms
  | JsArr "js list"
  | JsObj "(string \<times> js) list"

subsection \<open>Date.prototype.toISOString\<close>

text \<open>The civil date of a day number counted from 1970-01-01 (Gregorian calendar).\<close>

definition civil_of_days :: "int \<Rightarrow> int \<times> int \<times> int" where
  "civil_of_days z0 =
     (let z = z0 + 719468;
          era = z div 146097;
          doe = z - era * 146097;
          yoe = (doe - doe div 1460 + doe div 36524 - doe div 146096) div 365;
          doy = doe - (365 * yoe + yoe div 4 - yoe div 100);
          mp = (5 * doy + 2) div 153;
          d = doy - (153 * mp + 2) div 5 + 1;
          m = (if mp < 10 then mp + 3 else mp - 9);
          y = yoe + era * 400 + (if m \<le> 2 then 1 else 0)
      in (y, m, d))"

definition pad_left :: "nat \<Rightarrow> string \<Rightarrow> string" where
  "pad_left n s = replicate (n - length s) (CHR ''0'') @ s"

definition iso_year :: "int \<Rightarrow> string" where
  "iso_year y =
     (if 0 \<le> y \<and> y \<le> 9999 then pad_left 4 (show_int y)
      else (if y < 0 then ''-'' else ''+'') @ pad_left 6 (show_int \<bar>y\<bar>))"

definition toISOString :: "ms \<Rightarrow> string" where
  "toISOString t =
     (let days = t div 86400000; r = t mod 86400000; (y, m, d) = civil_of_days days;
          two = (\<lambda>n. pad_left 2 (show_int n))
      in iso_year y @ ''-'' @ two m @ ''-'' @ two d @ ''T'' @ two (r div 3600000) @ '':''
         @ two (r mod 3600000 div 60000) @ '':'' @ two (r mod 60000 div 1000) @ ''.''
         @ pad_left 3 (show_int (r mod 1000)) @ ''Z'')"

lemma toISOString_epoch: "toISOString 0 = ''1970-01-01T00:00:00.000Z''"
  by code_simp

lemma toISOString_leap_day: "toISOString 1709208000123 = ''2024-02-29T12:00:00.123Z''"
  by code_simp

subsection \<open>Redaction\<close>

definition REDACTED :: string where
  "REDACTED = ''[redacted]''"

definition SENSITIVE_KEYS :: "string list" where
  "SENSITIVE_KEYS =
     [''credentials'', ''credential'', ''password'', ''passwd'', ''secret'', ''token'',
      ''accesstoken'', ''access_token'', ''refreshtoken'', ''refresh_token'',
      ''authorization'', ''apikey'', ''api_key'', ''cookie'', ''session'',
      ''proxy'', ''proxyurl'', ''proxy_url'']"

text \<open>
  \<open>depth > 6\<close> returns the value as it is (\<open>value ?? null\<close>): below seven levels nothing is
  redacted. Writing to \<open>output[key]\<close> keeps the keys' order and one entry per key.
\<close>

function redact :: "nat \<Rightarrow> js \<Rightarrow> js" where
  "redact depth v =
     (if depth > 6 \<or> v = JsNull \<or> v = JsUndefined
      then (if v = JsUndefined then JsNull else v)
      else case v of
        JsArr xs \<Rightarrow> JsArr (map (redact (Suc depth)) xs)
      | JsDate t \<Rightarrow> JsStr (toISOString t)
      | JsBigInt n \<Rightarrow> JsStr (show_int n)
      | JsObj kvs \<Rightarrow>
          JsObj (map (\<lambda>kv. (fst kv, if js_lower (fst kv) \<in> set SENSITIVE_KEYS then JsStr REDACTED
                                      else redact (Suc depth) (snd kv))) kvs)
      | _ \<Rightarrow> v)"
  by pat_completeness auto
termination
  by (relation "measure (\<lambda>(d, v). 7 - d)") auto

declare redact.simps [simp del]

subsection \<open>Log rows\<close>

datatype log_level = DEBUG | INFO | WARN | ERROR

record job_log =
  log_jobId :: string
  log_level :: log_level
  log_message :: string
  log_data :: "js option"

definition log_row :: "string \<Rightarrow> log_level \<Rightarrow> string \<Rightarrow> js option \<Rightarrow> job_log" where
  "log_row jid lvl msg data =
     \<lparr>log_jobId = jid, log_level = lvl, log_message = take 10000 msg,
      log_data = map_option (redact 0) data\<rparr>"

text \<open>
  The values a sensitive key guards in a value, down to the depth redaction reaches: the
  nesting levels \<open>0\<close> to \<open>6\<close>.
\<close>

fun depth_exposed :: "nat \<Rightarrow> js \<Rightarrow> js list" where
  "depth_exposed 0 v = []"
| "depth_exposed (Suc n) v =
     (case v of
        JsArr xs \<Rightarrow> concat (map (depth_exposed n) xs)
      | JsObj kvs \<Rightarrow>
          concat (map (\<lambda>kv. (if js_lower (fst kv) \<in> set SENSITIVE_KEYS then [snd kv] else [])
                            @ depth_exposed n (snd kv)) kvs)
      | _ \<Rightarrow> [])"

lemma depth_exposed_atoms [simp]:
  "depth_exposed n JsNull = []" "depth_exposed n (JsStr s) = []"
  by (cases n; simp)+

lemma redact_Arr: "depth \<le> 6 \<Longrightarrow> redact depth (JsArr xs) = JsArr (map (redact (Suc depth)) xs)"
  by (subst redact.simps) simp

lemma redact_Obj: "depth \<le> 6 \<Longrightarrow> redact depth (JsObj kvs) =
    JsObj (map (\<lambda>kv. (fst kv, if js_lower (fst kv) \<in> set SENSITIVE_KEYS then JsStr REDACTED
                                 else redact (Suc depth) (snd kv))) kvs)"
  by (subst redact.simps) simp

lemma redact_exposed_generic:
  assumes "n + depth \<le> 7" and "w \<in> set (depth_exposed n (redact depth v))"
  shows "w = JsStr REDACTED"
  using assms
proof (induction n arbitrary: depth v)
  case 0
  then show ?case by simp
next
  case (Suc n)
  then have le: "depth \<le> 6" "n + Suc depth \<le> 7" by auto
  note IH = Suc.IH [OF le(2)]
  show ?case
  proof (cases v)
    case (JsArr xs)
    with Suc.prems(2) show ?thesis by (auto simp: redact_Arr le intro: IH)
  next
    case (JsObj kvs)
    with Suc.prems(2) show ?thesis by (auto simp: redact_Obj le split: if_splits intro: IH)
  qed (use Suc.prems(2) le in \<open>auto simp: redact.simps\<close>)
qed

end
