(* ===== verification/Publish_Errors.thy ===== *)
theory Publish_Errors
  imports Job_Logger
begin

text \<open>
  \<open>lib/publisher/errors.ts\<close> and the error classes of the other modules: one datatype of
  everything the worker can see thrown, the constructors the drivers call, and the two
  functions the retry policy reads. \<open>lib/publisher/types.ts\<close>: the values a publisher takes
  and returns, with the contract the worker relies on as the locale \<open>publisher_contract\<close>.
\<close>

datatype ui_kind = NotFound | StillPresent | InteractionFailed

datatype exn =
    PublishError string bool "ms option" string \<comment> \<open>code, retryable, retryAfterMs, message\<close>
  | DeferJobError ms string                     \<comment> \<open>delayMs, message\<close>
  | UnrecoverableError string
  | DelayedError string
  | PackageNotInstalledError string
  | EgressLeakError string string               \<comment> \<open>deviceIp, directIp\<close>
  | EgressUnreachableError string
  | UiStepError ui_kind string nat string       \<comment> \<open>kind, stepName, stepIndex, message\<close>
  | AppiumTransportError string
  | AppiumProtocolError int string string       \<comment> \<open>status, appiumError, message\<close>
  | AdbError int string bool string             \<comment> \<open>code, stderr, unreachable, message\<close>
  | DockerError string string                   \<comment> \<open>message, stderr\<close>
  | GenericError string

fun exn_message :: "exn \<Rightarrow> string" where
  "exn_message (PublishError c r a m) = m"
| "exn_message (DeferJobError d m) = m"
| "exn_message (UnrecoverableError m) = m"
| "exn_message (DelayedError m) = m"
| "exn_message (PackageNotInstalledError p) =
     p @ '' is not installed on the device. For an ephemeral container this means ''
       @ ''the golden image was built without the app under test.''"
| "exn_message (EgressLeakError d h) =
     ''The device is reachable from '' @ d @ '', which is this host's own address - its traffic is ''
       @ ''not going through the assigned proxy. Refusing to drive the app from an unmasked address.''"
| "exn_message (EgressUnreachableError m) = m"
| "exn_message (UiStepError k n i m) = m"
| "exn_message (AppiumTransportError m) = m"
| "exn_message (AppiumProtocolError s e m) = m"
| "exn_message (AdbError c s u m) = m"
| "exn_message (DockerError m e) = m"
| "exn_message (GenericError m) = m"

definition permanent :: "string \<Rightarrow> string \<Rightarrow> exn" where
  "permanent code msg = PublishError code False None msg"

definition transient :: "string \<Rightarrow> string \<Rightarrow> exn" where
  "transient code msg = PublishError code True None msg"

definition rateLimited :: "string \<Rightarrow> ms \<Rightarrow> exn" where
  "rateLimited msg after = PublishError ''rate_limited'' True (Some after) msg"

definition needsReauth :: "string \<Rightarrow> exn" where
  "needsReauth msg = PublishError ''needs_reauth'' False None msg"

definition isRetryable :: "exn \<Rightarrow> bool" where
  "isRetryable e = (case e of PublishError c r a m \<Rightarrow> r | _ \<Rightarrow> True)"

definition retryAfterMs :: "exn \<Rightarrow> ms option" where
  "retryAfterMs e = (case e of PublishError c r a m \<Rightarrow> a | _ \<Rightarrow> None)"

lemma isRetryable_simps [simp]:
  "isRetryable (PublishError c r a m) = r"
  "\<not> isRetryable (permanent c m)" "isRetryable (transient c m)"
  "isRetryable (rateLimited m d)" "\<not> isRetryable (needsReauth m)"
  "isRetryable (DeferJobError d m)" "isRetryable (GenericError m)"
  "isRetryable (UnrecoverableError m)" "isRetryable (DelayedError m)"
  by (simp_all add: isRetryable_def permanent_def transient_def rateLimited_def needsReauth_def)

lemma exn_message_simps [simp]:
  "exn_message (permanent c m) = m" "exn_message (transient c m) = m"
  by (simp_all add: permanent_def transient_def)

subsection \<open>What a publisher takes and returns\<close>

datatype proxy_type = HTTP | SOCKS5

record proxy_runtime =
  rt_type :: proxy_type
  rt_host :: string
  rt_port :: int
  rt_username :: "string option"
  rt_password :: "string option"
  rt_timezone :: "string option"
  rt_locale :: "string option"

datatype platform = SPORT_REELS | TIKTOK

record publisher_account =
  pa_id :: string
  pa_name :: string
  pa_platform :: platform
  pa_externalId :: "string option"
  pa_credentials :: "js option"
  pa_proxy :: "proxy_runtime option"

record publisher_video =
  pv_id :: string
  pv_localPath :: string
  pv_fileName :: string
  pv_mimeType :: string
  pv_sizeBytes :: int
  pv_durationSeconds :: "rat option"
  pv_width :: "int option"
  pv_height :: "int option"

text \<open>\<open>pr_aborted\<close> is the state of the request's AbortSignal.\<close>

record publish_request =
  pr_jobId :: string
  pr_caption :: string
  pr_account :: publisher_account
  pr_video :: "publisher_video option"
  pr_flowType :: "string option"
  pr_aborted :: bool

record step_timing =
  st_name :: string
  st_action :: string
  st_ms :: ms
  st_skipped :: bool

record run_metrics =
  rm_totalMs :: ms
  rm_steps :: "step_timing list"

record publish_result =
  res_externalPostId :: string
  res_url :: "string option"
  res_metrics :: "run_metrics option"

datatype address_kind = Hosting | ProxyListed | Mobile | Unflagged

record device_endpoint =
  ep_serial :: string
  ep_adbHost :: "string option"
  ep_adbPort :: "int option"
  ep_viewerUrl :: "string option"
  ep_egressIp :: "string option"
  ep_egressLocation :: "string option"
  ep_egressKind :: "address_kind option"

text \<open>How a wait for the operator ended (\<open>lib/onboarding/signal.ts\<close>).\<close>

datatype human_outcome = Confirmed ms | HumanCancelled string | HumanExpired string

datatype onboarding_outcome = Verified | Unverified | Abandoned | Cancelled

record onboarding_result =
  or_outcome :: onboarding_outcome
  or_details :: "string option"

text \<open>
  The contract of \<open>Publisher.publish\<close> the worker relies on: a driver that returns names the
  post it made. The parameter is the driver as a function of the request and of the state of
  whatever it talks to.
\<close>

locale publisher_contract =
  fixes publish :: "publish_request \<Rightarrow> 's \<Rightarrow> (exn, publish_result) result \<times> 's"
  assumes names_post: "publish req s = (Inr res, s') \<Longrightarrow> res_externalPostId res \<noteq> []"
begin

lemma post_id_cases:
  "(\<exists>e s'. publish req s = (Inl e, s')) \<or>
   (\<exists>res s'. publish req s = (Inr res, s') \<and> res_externalPostId res \<noteq> [])"
  by (cases "publish req s"; cases "fst (publish req s)") (auto dest: names_post)

end

end
