(* ===== verification/Schema.thy ===== *)
theory Schema
  imports Publish_Errors
begin

text \<open>
  The rows of \<open>prisma/schema.prisma\<close> the job pipeline reads and writes, the tables as one
  state, and the services the pipeline calls as a parameter.

  BullMQ and the Redis list that wakes a waiting worker are not part of the repository: they
  are the operations of \<open>services\<close>, over a state of their own that the model never looks into.
\<close>

datatype account_status = ACTIVE | INACTIVE | NEEDS_REAUTH
datatype session_state = NONE | ONBOARDING | VERIFIED | EXPIRED
datatype job_type = PUBLISH_VIDEO | INTERACTIVE_ONBOARDING
datatype video_status = UPLOADING | VALIDATING | READY | INVALID
datatype job_status =
  QUEUED | SCHEDULED | PROCESSING | AWAITING_HUMAN | VERIFYING | COMPLETED | FAILED
  | CANCELLED | DEAD

record proxy =
  px_id :: string
  px_userId :: string
  px_label :: string
  px_type :: proxy_type
  px_host :: string
  px_port :: int
  px_username :: "string option"
  px_password :: "bytes option"
  px_timezone :: "string option"
  px_locale :: "string option"
  px_createdAt :: ms

record account =
  acc_id :: string
  acc_userId :: string
  acc_name :: string
  acc_platform :: platform
  acc_status :: account_status
  acc_externalId :: "string option"
  acc_credentials :: "bytes option"
  acc_tokenExpiresAt :: "ms option"
  acc_sessionState :: session_state
  acc_sessionVerifiedAt :: "ms option"
  acc_maxConcurrent :: int
  acc_minIntervalSeconds :: int
  acc_proxyId :: "string option"
  acc_createdAt :: ms

record video =
  vid_id :: string
  vid_userId :: string
  vid_fileName :: string
  vid_storageKey :: string
  vid_storageDriver :: string
  vid_mimeType :: string
  vid_sizeBytes :: int
  vid_durationSeconds :: "rat option"
  vid_width :: "int option"
  vid_height :: "int option"
  vid_checksum :: "string option"
  vid_thumbnailKey :: "string option"
  vid_status :: video_status
  vid_validationErrors :: "(string \<times> string) list option"

record job =
  job_id :: string
  job_userId :: string
  job_accountId :: string
  job_type :: job_type
  job_videoId :: "string option"
  job_caption :: "string option"
  job_status :: job_status
  job_deviceEndpoint :: "device_endpoint option"
  job_awaitingSince :: "ms option"
  job_expiresAt :: "ms option"
  job_humanConfirmedAt :: "ms option"
  job_idempotencyKey :: string
  job_bullJobId :: "string option"
  job_attempts :: int
  job_maxAttempts :: int
  job_scheduledAt :: "ms option"
  job_startedAt :: "ms option"
  job_completedAt :: "ms option"
  job_externalPostId :: "string option"
  job_errorMessage :: "string option"
  job_runProfile :: "string option"
  job_regionLabel :: "string option"
  job_metrics :: "run_metrics option"
  job_flowType :: "string option"
  job_proxyId :: "string option"

subsection \<open>The services the pipeline calls\<close>

text \<open>
  \<open>svc_add\<close>: add a publish job to the BullMQ queue, \<open>None\<close> when the call throws (Redis is
  down), else BullMQ's id for it. \<open>svc_state\<close>: \<open>getJob(id)\<close> and \<open>getState()\<close>, \<open>None\<close> when
  there is no such job or its state cannot be read. \<open>svc_remove\<close>: \<open>getJob(id)\<close> and
  \<open>remove()\<close> with the error ignored. \<open>svc_dead\<close>: park a job on the dead-letter queue.
  \<open>svc_signal\<close>: push the operator's confirmation, with the error ignored.
\<close>

datatype bull_state = BullActive | BullWaiting | BullDelayed | BullFailed | BullCompleted | BullOther

record bull_opts =
  opt_delay :: ms
  opt_attempts :: "int option" \<comment> \<open>\<open>None\<close>: the queue's default, \<open>RETRY_ATTEMPTS\<close>\<close>

record dead_letter =
  dl_jobId :: string
  dl_reason :: string
  dl_failedAt :: ms
  dl_bullId :: string

record 'q services =
  svc_add :: "string \<Rightarrow> bull_opts \<Rightarrow> 'q \<Rightarrow> (string \<times> 'q) option"
  svc_state :: "string \<Rightarrow> 'q \<Rightarrow> bull_state option"
  svc_remove :: "string \<Rightarrow> 'q \<Rightarrow> 'q"
  svc_dead :: "dead_letter \<Rightarrow> 'q \<Rightarrow> 'q option"
  svc_signal :: "string \<Rightarrow> 'q \<Rightarrow> 'q"

record 'q world =
  w_jobs :: "job list"
  w_accounts :: "account list"
  w_videos :: "video list"
  w_proxies :: "proxy list"
  w_logs :: "job_log list"
  w_queue :: 'q

text \<open>
  What the callers rely on, from BullMQ's documentation: a job id is added once, adding an id
  the queue holds changes nothing about it, a new job waits or is delayed, and \<open>remove\<close>
  deletes a job unless a worker holds its lock.
\<close>

definition queue_laws :: "'q services \<Rightarrow> bool" where
  "queue_laws S =
     ((\<forall>i q. svc_state S i (svc_remove S i q) \<in> {None, Some BullActive})
      \<and> (\<forall>i q. svc_state S i q \<noteq> Some BullActive \<longrightarrow> svc_state S i (svc_remove S i q) = None)
      \<and> (\<forall>i opts q b q'. svc_add S i opts q = Some (b, q') \<longrightarrow>
            b = i
            \<and> (svc_state S i q = None \<longrightarrow> svc_state S i q' \<in> {Some BullWaiting, Some BullDelayed})
            \<and> (svc_state S i q \<noteq> None \<longrightarrow> svc_state S i q' = svc_state S i q))
      \<and> (\<forall>i j opts q b q'. svc_add S j opts q = Some (b, q') \<longrightarrow> i \<noteq> j
            \<longrightarrow> svc_state S i q' = svc_state S i q)
      \<and> (\<forall>i j q. i \<noteq> j \<longrightarrow> svc_state S i (svc_remove S j q) = svc_state S i q))"

subsection \<open>Queries and updates\<close>

definition find_job :: "string \<Rightarrow> 'q world \<Rightarrow> job option" where
  "find_job i w = tfind job_id i (w_jobs w)"

definition upd_job :: "string \<Rightarrow> (job \<Rightarrow> job) \<Rightarrow> 'q world \<Rightarrow> 'q world" where
  "upd_job i f w = w\<lparr>w_jobs := tupd job_id i f (w_jobs w)\<rparr>"

definition find_account :: "string \<Rightarrow> 'q world \<Rightarrow> account option" where
  "find_account i w = tfind acc_id i (w_accounts w)"

definition upd_account :: "string \<Rightarrow> (account \<Rightarrow> account) \<Rightarrow> 'q world \<Rightarrow> 'q world" where
  "upd_account i f w = w\<lparr>w_accounts := tupd acc_id i f (w_accounts w)\<rparr>"

definition log_write ::
  "string \<Rightarrow> log_level \<Rightarrow> string \<Rightarrow> js option \<Rightarrow> 'q world \<Rightarrow> 'q world" where
  "log_write jid lvl msg data w = w\<lparr>w_logs := w_logs w @ [log_row jid lvl msg data]\<rparr>"

interpretation job_rows: row_store job_id find_job upd_job
  by unfold_locales (auto simp: find_job_def upd_job_def tfind_tupd dest: tfind_Some)

interpretation account_rows: row_store acc_id find_account upd_account
  by unfold_locales (auto simp: find_account_def upd_account_def tfind_tupd dest: tfind_Some)

lemma world_parts [world_simps]:
  "w_jobs (log_write j l m d w) = w_jobs w" "w_accounts (log_write j l m d w) = w_accounts w"
  "w_videos (log_write j l m d w) = w_videos w" "w_proxies (log_write j l m d w) = w_proxies w"
  "w_queue (log_write j l m d w) = w_queue w"
  "w_accounts (upd_job i f w) = w_accounts w" "w_videos (upd_job i f w) = w_videos w"
  "w_proxies (upd_job i f w) = w_proxies w" "w_logs (upd_job i f w) = w_logs w"
  "w_queue (upd_job i f w) = w_queue w" "w_jobs (upd_job i f w) = tupd job_id i f (w_jobs w)"
  "w_jobs (upd_account i g w) = w_jobs w" "w_videos (upd_account i g w) = w_videos w"
  "w_proxies (upd_account i g w) = w_proxies w" "w_logs (upd_account i g w) = w_logs w"
  "w_queue (upd_account i g w) = w_queue w"
  "w_accounts (upd_account i g w) = tupd acc_id i g (w_accounts w)"
  by (simp_all add: log_write_def upd_job_def upd_account_def)

lemma find_parts [world_simps]:
  "find_job i (log_write j l m d w) = find_job i w"
  "find_account i (log_write j l m d w) = find_account i w"
  "find_job i (upd_account k g w) = find_job i w"
  "find_account i (upd_job k f w) = find_account i w"
  "find_job i (w\<lparr>w_queue := q\<rparr>) = find_job i w"
  "find_account i (w\<lparr>w_queue := q\<rparr>) = find_account i w"
  by (simp_all add: find_job_def find_account_def world_simps)

lemma queue_write_parts [world_simps]:
  "w_queue (w\<lparr>w_queue := q\<rparr>) = q" "w_jobs (w\<lparr>w_queue := q\<rparr>) = w_jobs w"
  "w_accounts (w\<lparr>w_queue := q\<rparr>) = w_accounts w"
  by simp_all

text \<open>The unique constraints of the job table: its id and its idempotency key.\<close>

definition wf_jobs :: "'q world \<Rightarrow> bool" where
  "wf_jobs w = (distinct (map job_id (w_jobs w)) \<and> distinct (map job_idempotencyKey (w_jobs w)))"

lemma wf_jobs_upd [intro]:
  assumes "wf_jobs w" and "\<And>r. job_id (f r) = job_id r"
    and "\<And>r. job_idempotencyKey (f r) = job_idempotencyKey r"
  shows "wf_jobs (upd_job i f w)"
  using assms by (simp add: wf_jobs_def world_simps map_tupd_same)

lemma wf_jobs_parts [world_simps]:
  "wf_jobs (log_write j l m d w) = wf_jobs w" "wf_jobs (w\<lparr>w_queue := q\<rparr>) = wf_jobs w"
  "wf_jobs (upd_account i g w) = wf_jobs w"
  by (simp_all add: wf_jobs_def world_simps)

subsection \<open>Concrete values for the witnesses\<close>

text \<open>A queue that keeps what was added and ignores an id it has, and a world around it.\<close>

definition list_services :: "(string \<times> bull_opts) list services" where
  "list_services =
     \<lparr>svc_add = (\<lambda>i opts q. Some (i, if i \<in> fst ` set q then q else q @ [(i, opts)])),
      svc_state = (\<lambda>i q. if i \<in> fst ` set q then Some BullWaiting else None),
      svc_remove = (\<lambda>i q. [x \<leftarrow> q. fst x \<noteq> i]),
      svc_dead = (\<lambda>d q. Some q), svc_signal = (\<lambda>i q. q)\<rparr>"

lemma list_services_laws: "queue_laws list_services"
  by (auto simp: queue_laws_def list_services_def image_iff) force

definition ex_account :: account where
  "ex_account =
     \<lparr>acc_id = ''a1'', acc_userId = ''u1'', acc_name = ''main'', acc_platform = SPORT_REELS,
      acc_status = ACTIVE, acc_externalId = None, acc_credentials = Some [1],
      acc_tokenExpiresAt = None, acc_sessionState = NONE, acc_sessionVerifiedAt = None,
      acc_maxConcurrent = 1, acc_minIntervalSeconds = 60, acc_proxyId = None, acc_createdAt = 0\<rparr>"

definition ex_video :: video where
  "ex_video =
     \<lparr>vid_id = ''v1'', vid_userId = ''u1'', vid_fileName = ''clip.mp4'', vid_storageKey = ''k'',
      vid_storageDriver = ''local'', vid_mimeType = ''video/mp4'', vid_sizeBytes = 10,
      vid_durationSeconds = None, vid_width = None, vid_height = None, vid_checksum = None,
      vid_thumbnailKey = None, vid_status = READY, vid_validationErrors = None\<rparr>"

definition ex_job :: job where
  "ex_job =
     \<lparr>job_id = ''j1'', job_userId = ''u1'', job_accountId = ''a1'', job_type = PUBLISH_VIDEO,
      job_videoId = Some ''v1'', job_caption = Some ''hi'', job_status = QUEUED,
      job_deviceEndpoint = None, job_awaitingSince = None, job_expiresAt = None,
      job_humanConfirmedAt = None, job_idempotencyKey = ''key-0001'', job_bullJobId = None,
      job_attempts = 0, job_maxAttempts = 3, job_scheduledAt = None, job_startedAt = None,
      job_completedAt = None, job_externalPostId = None, job_errorMessage = None,
      job_runProfile = None, job_regionLabel = None, job_metrics = None, job_flowType = None,
      job_proxyId = None\<rparr>"

definition ex_world :: "job list \<Rightarrow> (string \<times> bull_opts) list world" where
  "ex_world js = \<lparr>w_jobs = js, w_accounts = [ex_account], w_videos = [ex_video], w_proxies = [],
                  w_logs = [], w_queue = []\<rparr>"

end
