(* ===== verification/Job_Service.thy ===== *)
theory Job_Service
  imports Schema
begin

text \<open>
  \<open>lib/jobs/service.ts\<close> and \<open>lib/jobs/flowType.ts\<close>: creating, confirming, cancelling and
  retrying jobs. Each operation is a function of the services, the readings of the clock it
  makes, its input and the world, and returns a result or the error it throws, with the world
  after it. An error's message is the constructor of its template with the values it shows.

  The two operations that create a job look rows up, then insert. Another request may commit in
  between, so the insert runs in the world \<open>env w\<close>, where \<open>env\<close> is whatever the others did.
  The unique constraint on the idempotency key is checked there, as the database checks it.
\<close>

datatype job_invalid =
    CaptionEmpty
  | CaptionTooLong nat
  | ScheduledAtInvalid
  | AccountMissing string
  | AccountIs string account_status
  | AccountWithoutCredentials string
  | ProxyMissing string
  | UploadNeedsVideo
  | VideoMissing string
  | VideoIs video_status
  | JobMissing string
  | NotOnboardingJob
  | NotAwaitingHuman job_status
  | CannotCancel job_status
  | OnlyFailedRetried job_status

datatype job_error =
    JobValidationError job_invalid
  | JobConflictError string job_status string \<comment> \<open>what is in flight, its status, \<open>existingJobId\<close>\<close>
  | QueueAddError
  | UniqueViolation

text \<open>A JavaScript \<open>Date\<close> built from input may be invalid (\<open>getTime()\<close> is \<open>NaN\<close>).\<close>

datatype js_date = InvalidDate | ValidDate ms

definition ACTIVE_STATUSES :: "job_status list" where
  "ACTIVE_STATUSES = [QUEUED, SCHEDULED, PROCESSING]"

definition DEFAULT_FLOW_TYPE :: string where
  "DEFAULT_FLOW_TYPE = ''upload''"

definition truthy :: "string option \<Rightarrow> bool" where
  "truthy v = (case v of Some s \<Rightarrow> s \<noteq> [] | None \<Rightarrow> False)"

definition isDefaultFlow :: "string option \<Rightarrow> bool" where
  "isDefaultFlow ft = (\<not> truthy ft \<or> ft = Some DEFAULT_FLOW_TYPE)"

definition flowRequiresVideo :: "string option \<Rightarrow> bool" where
  "flowRequiresVideo ft = isDefaultFlow ft"

record create_flow_input =
  in_userId :: string
  in_accountId :: string
  in_flowType :: "string option"
  in_videoId :: "string option"
  in_caption :: "string option"
  in_idempotencyKey :: "string option"
  in_scheduledAt :: "js_date option"
  in_runProfile :: "string option"
  in_regionLabel :: "string option"
  in_proxyId :: "string option"
  in_allowConcurrentDuplicate :: bool

definition input_caption :: "create_flow_input \<Rightarrow> string" where
  "input_caption inp = (case in_caption inp of Some c \<Rightarrow> js_trim c | None \<Rightarrow> [])"

text \<open>\<open>key?.trim() || randomUUID()\<close>, the UUID drawn being \<open>uuid\<close>.\<close>

definition input_key :: "string \<Rightarrow> string option \<Rightarrow> string" where
  "input_key uuid k = str_or (map_option js_trim k) uuid"

definition find_by_key :: "string \<Rightarrow> 'q world \<Rightarrow> job option" where
  "find_by_key k w = tfind job_idempotencyKey k (w_jobs w)"

definition find_own_account :: "string \<Rightarrow> string \<Rightarrow> 'q world \<Rightarrow> account option" where
  "find_own_account i u w = List.find (\<lambda>a. acc_id a = i \<and> acc_userId a = u) (w_accounts w)"

definition find_own_proxy :: "string \<Rightarrow> string \<Rightarrow> 'q world \<Rightarrow> proxy option" where
  "find_own_proxy i u w = List.find (\<lambda>p. px_id p = i \<and> px_userId p = u) (w_proxies w)"

definition find_own_video :: "string \<Rightarrow> string \<Rightarrow> 'q world \<Rightarrow> video option" where
  "find_own_video i u w = List.find (\<lambda>v. vid_id v = i \<and> vid_userId v = u) (w_videos w)"

definition find_own_job :: "string \<Rightarrow> string \<Rightarrow> 'q world \<Rightarrow> job option" where
  "find_own_job i u w = List.find (\<lambda>j. job_id j = i \<and> job_userId j = u) (w_jobs w)"

subsection \<open>Enqueueing\<close>

text \<open>\<open>now\<close> is the reading of the clock the delay is computed from.\<close>

definition enqueue ::
  "'q services \<Rightarrow> ms \<Rightarrow> job \<Rightarrow> 'q world \<Rightarrow> (job_error, unit) result \<times> 'q world" where
  "enqueue S now job w =
     (let delay = (case job_scheduledAt job of Some t \<Rightarrow> max 0 (t - now) | None \<Rightarrow> 0)
      in case svc_add S (job_id job)
                \<lparr>opt_delay = delay, opt_attempts = Some (job_maxAttempts job)\<rparr> (w_queue w) of
           None \<Rightarrow> (Inl QueueAddError, w)
         | Some (bullId, q) \<Rightarrow>
             (let w1 = upd_job (job_id job) (\<lambda>j. j\<lparr>job_bullJobId := Some bullId\<rparr>) (w\<lparr>w_queue := q\<rparr>)
              in (Inr (),
                  log_write (job_id job) INFO (if delay > 0 then ''Job scheduled'' else ''Job queued'')
                    (if delay > 0
                     then Some (JsObj [(''scheduledAt'',
                                  case job_scheduledAt job of Some t \<Rightarrow> JsStr (toISOString t)
                                                             | None \<Rightarrow> JsUndefined),
                                 (''delayMs'', JsNum delay)])
                     else None) w1)))"

subsection \<open>createFlowJob\<close>

text \<open>The checks that read only the input.\<close>

definition flow_input_ok :: "create_flow_input \<Rightarrow> (job_error, unit) result" where
  "flow_input_ok inp =
     (let caption = input_caption inp
      in andThen (guardE (\<not> (flowRequiresVideo (in_flowType inp) \<and> length caption = 0))
                    (JobValidationError CaptionEmpty)) (\<lambda>_.
         andThen (guardE (\<not> length caption > 2200)
                    (JobValidationError (CaptionTooLong (length caption)))) (\<lambda>_.
         guardE (in_scheduledAt inp \<noteq> Some InvalidDate) (JobValidationError ScheduledAtInvalid))))"

definition flow_account ::
  "create_flow_input \<Rightarrow> 'q world \<Rightarrow> (job_error, account) result" where
  "flow_account inp w =
     (case find_own_account (in_accountId inp) (in_userId inp) w of
        None \<Rightarrow> Inl (JobValidationError (AccountMissing (in_accountId inp)))
      | Some a \<Rightarrow>
          if acc_status a \<noteq> ACTIVE
          then Inl (JobValidationError (AccountIs (acc_name a) (acc_status a)))
          else if acc_credentials a = None
          then Inl (JobValidationError (AccountWithoutCredentials (acc_name a)))
          else Inr a)"

definition flow_proxy ::
  "create_flow_input \<Rightarrow> 'q world \<Rightarrow> (job_error, string option) result" where
  "flow_proxy inp w =
     (if truthy (in_proxyId inp)
      then (case find_own_proxy (the (in_proxyId inp)) (in_userId inp) w of
              None \<Rightarrow> Inl (JobValidationError (ProxyMissing (the (in_proxyId inp))))
            | Some p \<Rightarrow> Inr (Some (px_id p)))
      else Inr None)"

text \<open>
  The video the job carries, with the guard against publishing a video twice. The lookup of
  the job in flight is a \<open>findFirst\<close> without an order: the model takes the first row.
\<close>

definition in_flight ::
  "string \<Rightarrow> string \<Rightarrow> string \<Rightarrow> 'q world \<Rightarrow> job option" where
  "in_flight accId vidId key w =
     List.find (\<lambda>j. job_accountId j = accId \<and> job_videoId j = Some vidId
                   \<and> job_status j \<in> set ACTIVE_STATUSES \<and> job_idempotencyKey j \<noteq> key) (w_jobs w)"

definition flow_video ::
  "create_flow_input \<Rightarrow> string \<Rightarrow> account \<Rightarrow> 'q world \<Rightarrow> (job_error, string option) result" where
  "flow_video inp key acc w =
     (let needsVideo = flowRequiresVideo (in_flowType inp)
      in if needsVideo \<or> truthy (in_videoId inp)
         then if needsVideo \<and> \<not> truthy (in_videoId inp)
              then Inl (JobValidationError UploadNeedsVideo)
              else (case find_own_video (the (in_videoId inp)) (in_userId inp) w of
                      None \<Rightarrow> Inl (JobValidationError (VideoMissing (the (in_videoId inp))))
                    | Some v \<Rightarrow>
                        if vid_status v \<noteq> READY
                        then Inl (JobValidationError (VideoIs (vid_status v)))
                        else (case in_flight (acc_id acc) (vid_id v) key w of
                                Some j \<Rightarrow>
                                  if in_allowConcurrentDuplicate inp then Inr (Some (vid_id v))
                                  else Inl (JobConflictError (vid_id v) (job_status j) (job_id j))
                              | None \<Rightarrow> Inr (Some (vid_id v))))
         else Inr None)"

text \<open>The row \<open>prisma.job.create\<close> writes; the columns left out have the schema's defaults.\<close>

definition new_flow_row ::
  "string \<Rightarrow> string \<Rightarrow> ms \<Rightarrow> create_flow_input \<Rightarrow> account \<Rightarrow> string option \<Rightarrow> string option \<Rightarrow> job" where
  "new_flow_row newId key now inp acc videoId proxyId =
     (let caption = input_caption inp;
          scheduled = (case in_scheduledAt inp of Some (ValidDate t) \<Rightarrow> if t > now then Some t else None
                                                | _ \<Rightarrow> None)
      in \<lparr>job_id = newId, job_userId = in_userId inp, job_accountId = acc_id acc,
          job_type = PUBLISH_VIDEO, job_videoId = videoId,
          job_caption = (if length caption > 0 then Some caption else None),
          job_status = (if scheduled \<noteq> None then SCHEDULED else QUEUED),
          job_deviceEndpoint = None, job_awaitingSince = None, job_expiresAt = None,
          job_humanConfirmedAt = None, job_idempotencyKey = key, job_bullJobId = None,
          job_attempts = 0, job_maxAttempts = 3, job_scheduledAt = scheduled,
          job_startedAt = None, job_completedAt = None, job_externalPostId = None,
          job_errorMessage = None, job_runProfile = in_runProfile inp,
          job_regionLabel = in_regionLabel inp, job_metrics = None,
          job_flowType = (if isDefaultFlow (in_flowType inp) then None else in_flowType inp),
          job_proxyId = proxyId\<rparr>)"

text \<open>
  \<open>prisma.job.create\<close> with its \<open>catch\<close>, then \<open>enqueue\<close>: a violated unique constraint on the key
  (\<open>P2002\<close>) reads the winner's row.
\<close>

definition insert_or_winner ::
  "'q services \<Rightarrow> ms \<Rightarrow> job \<Rightarrow> 'q world \<Rightarrow> (job_error, job \<times> bool) result \<times> 'q world" where
  "insert_or_winner S now row w =
     (if job_idempotencyKey row \<in> job_idempotencyKey ` set (w_jobs w)
      then (case find_by_key (job_idempotencyKey row) w of
              Some winner \<Rightarrow> (Inr (winner, False), w)
            | None \<Rightarrow> (Inl UniqueViolation, w))
      else (let w1 = w\<lparr>w_jobs := w_jobs w @ [row]\<rparr>
            in case enqueue S now row w1 of
                 (Inl e, w2) \<Rightarrow> (Inl e, w2)
               | (Inr u, w2) \<Rightarrow> (Inr (row, True), w2)))"

definition createFlowJob ::
  "'q services \<Rightarrow> ('q world \<Rightarrow> 'q world) \<Rightarrow> string \<Rightarrow> string \<Rightarrow> ms \<Rightarrow> ms \<Rightarrow> create_flow_input
   \<Rightarrow> 'q world \<Rightarrow> (job_error, job \<times> bool) result \<times> 'q world" where
  "createFlowJob S env uuid newId now now' inp w =
     (case flow_input_ok inp of
        Inl e \<Rightarrow> (Inl e, w)
      | Inr _ \<Rightarrow>
          (let key = input_key uuid (in_idempotencyKey inp)
           in case find_by_key key w of
                Some existing \<Rightarrow> (Inr (existing, False), w)
              | None \<Rightarrow>
                  (case andThen (flow_account inp w) (\<lambda>acc.
                          andThen (flow_proxy inp w) (\<lambda>px.
                            andThen (flow_video inp key acc w) (\<lambda>vid. Inr (acc, px, vid)))) of
                     Inl e \<Rightarrow> (Inl e, w)
                   | Inr (acc, px, vid) \<Rightarrow>
                       insert_or_winner S now' (new_flow_row newId key now inp acc vid px) (env w))))"

record create_publish_input =
  pub_userId :: string
  pub_accountId :: string
  pub_videoId :: string
  pub_caption :: string
  pub_idempotencyKey :: "string option"
  pub_scheduledAt :: "js_date option"
  pub_runProfile :: "string option"
  pub_regionLabel :: "string option"
  pub_allowConcurrentDuplicate :: bool

definition createPublishJob ::
  "'q services \<Rightarrow> ('q world \<Rightarrow> 'q world) \<Rightarrow> string \<Rightarrow> string \<Rightarrow> ms \<Rightarrow> ms \<Rightarrow> create_publish_input
   \<Rightarrow> 'q world \<Rightarrow> (job_error, job \<times> bool) result \<times> 'q world" where
  "createPublishJob S env uuid newId now now' inp w =
     createFlowJob S env uuid newId now now'
       \<lparr>in_userId = pub_userId inp, in_accountId = pub_accountId inp,
        in_flowType = Some DEFAULT_FLOW_TYPE, in_videoId = Some (pub_videoId inp),
        in_caption = Some (pub_caption inp), in_idempotencyKey = pub_idempotencyKey inp,
        in_scheduledAt = pub_scheduledAt inp, in_runProfile = pub_runProfile inp,
        in_regionLabel = pub_regionLabel inp, in_proxyId = None,
        in_allowConcurrentDuplicate = pub_allowConcurrentDuplicate inp\<rparr> w"

subsection \<open>createOnboardingJob\<close>

definition onboarding_in_flight :: "string \<Rightarrow> string \<Rightarrow> 'q world \<Rightarrow> job option" where
  "onboarding_in_flight accId key w =
     List.find (\<lambda>j. job_accountId j = accId
                   \<and> job_status j \<in> set (ACTIVE_STATUSES @ [AWAITING_HUMAN, VERIFYING])
                   \<and> job_idempotencyKey j \<noteq> key) (w_jobs w)"

definition new_onboarding_row :: "string \<Rightarrow> string \<Rightarrow> string \<Rightarrow> string \<Rightarrow> job" where
  "new_onboarding_row newId key userId accId =
     \<lparr>job_id = newId, job_userId = userId, job_accountId = accId,
      job_type = INTERACTIVE_ONBOARDING, job_videoId = None, job_caption = None,
      job_status = QUEUED, job_deviceEndpoint = None, job_awaitingSince = None,
      job_expiresAt = None, job_humanConfirmedAt = None, job_idempotencyKey = key,
      job_bullJobId = None, job_attempts = 0, job_maxAttempts = 1, job_scheduledAt = None,
      job_startedAt = None, job_completedAt = None, job_externalPostId = None,
      job_errorMessage = None, job_runProfile = None, job_regionLabel = None,
      job_metrics = None, job_flowType = None, job_proxyId = None\<rparr>"

definition createOnboardingJob ::
  "'q services \<Rightarrow> ('q world \<Rightarrow> 'q world) \<Rightarrow> string \<Rightarrow> string \<Rightarrow> ms \<Rightarrow> string \<Rightarrow> string \<Rightarrow> string option
   \<Rightarrow> 'q world \<Rightarrow> (job_error, job \<times> bool) result \<times> 'q world" where
  "createOnboardingJob S env uuid newId now userId accountId idemKey w =
     (let key = input_key uuid idemKey
      in case find_by_key key w of
           Some existing \<Rightarrow> (Inr (existing, False), w)
         | None \<Rightarrow>
             (case find_own_account accountId userId w of
                None \<Rightarrow> (Inl (JobValidationError (AccountMissing accountId)), w)
              | Some acc \<Rightarrow>
                  if acc_status acc = INACTIVE
                  then (Inl (JobValidationError (AccountIs (acc_name acc) INACTIVE)), w)
                  else (case onboarding_in_flight (acc_id acc) key w of
                          Some j \<Rightarrow> (Inl (JobConflictError (acc_name acc) (job_status j) (job_id j)), w)
                        | None \<Rightarrow>
                            (let w1 = (if acc_sessionState acc = ONBOARDING
                                       then upd_account (acc_id acc)
                                              (\<lambda>a. a\<lparr>acc_sessionState := NONE\<rparr>) w
                                       else w)
                             in insert_or_winner S now
                                  (new_onboarding_row newId key userId (acc_id acc)) (env w1)))))"

subsection \<open>confirmOnboarding, cancelJob, retryJob\<close>

text \<open>These return the row \<open>prisma.job.update\<close> gives back.\<close>

definition confirmOnboarding ::
  "'q services \<Rightarrow> ms \<Rightarrow> string \<Rightarrow> string \<Rightarrow> 'q world \<Rightarrow> (job_error, job) result \<times> 'q world" where
  "confirmOnboarding S now userId jobId w =
     (case find_own_job jobId userId w of
        None \<Rightarrow> (Inl (JobValidationError (JobMissing jobId)), w)
      | Some job \<Rightarrow>
          if job_type job \<noteq> INTERACTIVE_ONBOARDING
          then (Inl (JobValidationError NotOnboardingJob), w)
          else if job_status job \<noteq> AWAITING_HUMAN
          then (Inl (JobValidationError (NotAwaitingHuman (job_status job))), w)
          else if job_humanConfirmedAt job \<noteq> None then (Inr job, w)
          else (let f = (\<lambda>j. j\<lparr>job_humanConfirmedAt := Some now\<rparr>);
                    w1 = upd_job (job_id job) f w;
                    w2 = log_write (job_id job) INFO ''Operator reported the login as finished'' None w1
                in (Inr (f job), w2\<lparr>w_queue := svc_signal S (job_id job) (w_queue w2)\<rparr>)))"

definition cancelJob ::
  "'q services \<Rightarrow> ms \<Rightarrow> string \<Rightarrow> string \<Rightarrow> 'q world \<Rightarrow> (job_error, job) result \<times> 'q world" where
  "cancelJob S now userId jobId w =
     (case find_own_job jobId userId w of
        None \<Rightarrow> (Inl (JobValidationError (JobMissing jobId)), w)
      | Some job \<Rightarrow>
          if job_status job \<notin> set ACTIVE_STATUSES \<and> job_status job \<noteq> AWAITING_HUMAN
          then (Inl (JobValidationError (CannotCancel (job_status job))), w)
          else (let w1 = (if truthy (job_bullJobId job)
                          then w\<lparr>w_queue := svc_remove S (the (job_bullJobId job)) (w_queue w)\<rparr>
                          else w);
                    f = (\<lambda>j. j\<lparr>job_status := CANCELLED, job_completedAt := Some now\<rparr>);
                    w2 = upd_job (job_id job) f w1
                in (Inr (f job), log_write (job_id job) WARN ''Job cancelled by user'' None w2)))"

definition retry_reset :: "job \<Rightarrow> job" where
  "retry_reset j = j\<lparr>job_status := QUEUED, job_attempts := 0, job_errorMessage := None,
     job_startedAt := None, job_completedAt := None, job_scheduledAt := None\<rparr>"

definition retryJob ::
  "'q services \<Rightarrow> ms \<Rightarrow> string \<Rightarrow> string \<Rightarrow> 'q world \<Rightarrow> (job_error, job) result \<times> 'q world" where
  "retryJob S now userId jobId w =
     (case find_own_job jobId userId w of
        None \<Rightarrow> (Inl (JobValidationError (JobMissing jobId)), w)
      | Some job \<Rightarrow>
          if job_status job \<noteq> FAILED \<and> job_status job \<noteq> DEAD
          then (Inl (JobValidationError (OnlyFailedRetried (job_status job))), w)
          else (let w1 = upd_job (job_id job) retry_reset w;
                    w2 = w1\<lparr>w_queue := svc_remove S (job_id job) (w_queue w1)\<rparr>;
                    w3 = log_write (job_id job) INFO ''Job re-queued manually'' None w2
                in case enqueue S now (retry_reset job) w3 of
                     (Inl e, w4) \<Rightarrow> (Inl e, w4)
                   | (Inr u, w4) \<Rightarrow> (Inr (retry_reset job), w4)))"

subsection \<open>Lookups\<close>

lemma find_own_account_Some:
  "find_own_account i u w = Some a \<Longrightarrow> a \<in> set (w_accounts w) \<and> acc_id a = i \<and> acc_userId a = u"
  by (auto simp: find_own_account_def dest: find_SomeD)

lemma find_own_proxy_Some:
  "find_own_proxy i u w = Some p \<Longrightarrow> p \<in> set (w_proxies w) \<and> px_id p = i \<and> px_userId p = u"
  by (auto simp: find_own_proxy_def dest: find_SomeD)

lemma find_own_video_Some:
  "find_own_video i u w = Some v \<Longrightarrow> v \<in> set (w_videos w) \<and> vid_id v = i \<and> vid_userId v = u"
  by (auto simp: find_own_video_def dest: find_SomeD)

lemma find_own_job_Some:
  "find_own_job i u w = Some j \<Longrightarrow> j \<in> set (w_jobs w) \<and> job_id j = i \<and> job_userId j = u"
  by (auto simp: find_own_job_def dest: find_SomeD)

lemmas own_lookups =
  find_own_account_Some find_own_proxy_Some find_own_video_Some find_own_job_Some

lemma find_own_job_find_job:
  "wf_jobs w \<Longrightarrow> find_own_job i u w = Some j \<Longrightarrow> find_job i w = Some j"
  by (auto simp: find_job_def wf_jobs_def dest!: find_own_job_Some intro: tfind_distinct)

lemma find_by_key_Some:
  "find_by_key k w = Some j \<Longrightarrow> j \<in> set (w_jobs w) \<and> job_idempotencyKey j = k"
  by (auto simp: find_by_key_def dest: tfind_Some)

lemma find_by_key_None: "find_by_key k w = None \<longleftrightarrow> k \<notin> job_idempotencyKey ` set (w_jobs w)"
  by (simp add: find_by_key_def tfind_None)

text \<open>
  What an operation may not change about the rows it finds: ids and keys, in order. Rows are
  only ever appended.
\<close>

definition keys_kept :: "'q world \<Rightarrow> 'q world \<Rightarrow> bool" where
  "keys_kept w w' =
     (map (\<lambda>j. (job_id j, job_idempotencyKey j)) (w_jobs w')
      = map (\<lambda>j. (job_id j, job_idempotencyKey j)) (w_jobs w))"

lemma keys_kept_refl [simp]: "keys_kept w w"
  by (simp add: keys_kept_def)

lemma keys_kept_trans: "keys_kept w w' \<Longrightarrow> keys_kept w' w'' \<Longrightarrow> keys_kept w w''"
  by (simp add: keys_kept_def)

lemma keys_kept_upd:
  "(\<And>r. job_id (f r) = job_id r) \<Longrightarrow> (\<And>r. job_idempotencyKey (f r) = job_idempotencyKey r)
   \<Longrightarrow> keys_kept w (upd_job i f w)"
  by (simp add: keys_kept_def world_simps map_tupd_same)

lemma keys_kept_same: "w_jobs w' = w_jobs w \<Longrightarrow> keys_kept w w'"
  by (simp add: keys_kept_def)

lemma keys_kept_wf: "keys_kept w w' \<Longrightarrow> wf_jobs w' = wf_jobs w"
proof -
  assume "keys_kept w w'"
  then have "map fst (map (\<lambda>j. (job_id j, job_idempotencyKey j)) (w_jobs w'))
      = map fst (map (\<lambda>j. (job_id j, job_idempotencyKey j)) (w_jobs w))"
    and "map snd (map (\<lambda>j. (job_id j, job_idempotencyKey j)) (w_jobs w'))
      = map snd (map (\<lambda>j. (job_id j, job_idempotencyKey j)) (w_jobs w))"
    unfolding keys_kept_def by (rule arg_cong)+
  then show ?thesis by (simp add: wf_jobs_def comp_def)
qed

lemma enqueue_jobs:
  "w_jobs (snd (enqueue S now job w)) =
     (case svc_add S (job_id job)
        \<lparr>opt_delay = (case job_scheduledAt job of Some t \<Rightarrow> max 0 (t - now) | None \<Rightarrow> 0),
         opt_attempts = Some (job_maxAttempts job)\<rparr> (w_queue w) of
        None \<Rightarrow> w_jobs w
      | Some (b, q) \<Rightarrow> tupd job_id (job_id job) (\<lambda>j. j\<lparr>job_bullJobId := Some b\<rparr>) (w_jobs w))"
  by (auto simp: enqueue_def Let_def world_simps split: option.splits)

lemma enqueue_keys: "keys_kept w (snd (enqueue S now job w))"
proof (cases "svc_add S (job_id job)
        \<lparr>opt_delay = (case job_scheduledAt job of Some t \<Rightarrow> max 0 (t - now) | None \<Rightarrow> 0),
         opt_attempts = Some (job_maxAttempts job)\<rparr> (w_queue w)")
  case None
  then show ?thesis by (simp add: keys_kept_def enqueue_jobs)
next
  case (Some bq)
  then show ?thesis
    by (cases bq) (simp add: keys_kept_def enqueue_jobs map_tupd_same)
qed

lemma enqueue_frame:
  "w_accounts (snd (enqueue S now job w)) = w_accounts w"
  "w_videos (snd (enqueue S now job w)) = w_videos w"
  "w_proxies (snd (enqueue S now job w)) = w_proxies w"
  by (auto simp: enqueue_def Let_def world_simps split: option.splits)

text \<open>The two outcomes of the insert: the winner's row, or the new row enqueued.\<close>

lemma insert_or_winner_cases:
  obtains
    (winner) j where "find_by_key (job_idempotencyKey row) w = Some j"
      "insert_or_winner S now row w = (Inr (j, False), w)"
  | (created) w' where "job_idempotencyKey row \<notin> job_idempotencyKey ` set (w_jobs w)"
      "enqueue S now row (w\<lparr>w_jobs := w_jobs w @ [row]\<rparr>) = (Inr (), w')"
      "insert_or_winner S now row w = (Inr (row, True), w')"
  | (unqueued) e w' where "job_idempotencyKey row \<notin> job_idempotencyKey ` set (w_jobs w)"
      "enqueue S now row (w\<lparr>w_jobs := w_jobs w @ [row]\<rparr>) = (Inl e, w')"
      "insert_or_winner S now row w = (Inl e, w')"
proof (cases "job_idempotencyKey row \<in> job_idempotencyKey ` set (w_jobs w)")
  case True
  then obtain j where "find_by_key (job_idempotencyKey row) w = Some j"
    by (metis find_by_key_None option.exhaust)
  with True that(1) show ?thesis by (simp add: insert_or_winner_def)
next
  case False
  show ?thesis
  proof (cases "enqueue S now row (w\<lparr>w_jobs := w_jobs w @ [row]\<rparr>)")
    case (Pair r w')
    with False that(2,3) show ?thesis
      by (cases r) (auto simp: insert_or_winner_def Let_def)
  qed
qed

lemma wf_jobs_append:
  "wf_jobs (w\<lparr>w_jobs := w_jobs w @ [row]\<rparr>) \<longleftrightarrow> wf_jobs w
     \<and> job_id row \<notin> job_id ` set (w_jobs w)
     \<and> job_idempotencyKey row \<notin> job_idempotencyKey ` set (w_jobs w)"
  by (auto simp: wf_jobs_def)

lemma insert_or_winner_wf:
  assumes "wf_jobs w" and "job_id row \<notin> job_id ` set (w_jobs w)"
  shows "wf_jobs (snd (insert_or_winner S now row w))"
proof (cases rule: insert_or_winner_cases [of row w S now])
  case winner
  with assms show ?thesis by simp
next
  case (created w')
  then have "keys_kept (w\<lparr>w_jobs := w_jobs w @ [row]\<rparr>) w'" by (metis enqueue_keys snd_conv)
  then have "wf_jobs w'" using assms created(1) by (simp add: keys_kept_wf wf_jobs_append)
  with created(3) show ?thesis by simp
next
  case (unqueued e w')
  then have "keys_kept (w\<lparr>w_jobs := w_jobs w @ [row]\<rparr>) w'" by (metis enqueue_keys snd_conv)
  then have "wf_jobs w'" using assms unqueued(1) by (simp add: keys_kept_wf wf_jobs_append)
  with unqueued(3) show ?thesis by simp
qed

lemma insert_or_winner_row:
  assumes "insert_or_winner S now row w = (Inr (j, c), w')"
  shows "job_idempotencyKey j = job_idempotencyKey row
         \<and> (job_id j, job_idempotencyKey j)
             \<in> (\<lambda>r. (job_id r, job_idempotencyKey r)) ` set (w_jobs w')"
proof (cases rule: insert_or_winner_cases [of row w S now])
  case (winner j')
  with assms show ?thesis by (auto dest: find_by_key_Some)
next
  case (created w'')
  then have "keys_kept (w\<lparr>w_jobs := w_jobs w @ [row]\<rparr>) w''" by (metis enqueue_keys snd_conv)
  then have "set (map (\<lambda>r. (job_id r, job_idempotencyKey r)) (w_jobs w''))
      = set (map (\<lambda>r. (job_id r, job_idempotencyKey r)) (w_jobs w @ [row]))"
    by (simp add: keys_kept_def)
  with assms created show ?thesis by auto
next
  case (unqueued e w'')
  with assms show ?thesis by simp
qed

lemma new_flow_row_ids [simp]:
  "job_id (new_flow_row i k t inp a v p) = i"
  "job_idempotencyKey (new_flow_row i k t inp a v p) = k"
  "job_userId (new_flow_row i k t inp a v p) = in_userId inp"
  "job_accountId (new_flow_row i k t inp a v p) = acc_id a"
  "job_videoId (new_flow_row i k t inp a v p) = v"
  "job_proxyId (new_flow_row i k t inp a v p) = p"
  "job_maxAttempts (new_flow_row i k t inp a v p) = 3"
  by (simp_all add: new_flow_row_def Let_def)

lemma new_onboarding_row_ids [simp]:
  "job_id (new_onboarding_row i k u a) = i"
  "job_idempotencyKey (new_onboarding_row i k u a) = k"
  by (simp_all add: new_onboarding_row_def)

subsection \<open>Idempotent creation\<close>

lemma flow_lookups_Inl:
  "flow_account inp w = Inl e \<Longrightarrow> e \<noteq> QueueAddError"
  "flow_proxy inp w = Inl e \<Longrightarrow> e \<noteq> QueueAddError"
  "flow_video inp k a w = Inl e \<Longrightarrow> e \<noteq> QueueAddError"
  by (auto simp: flow_account_def flow_proxy_def flow_video_def Let_def
      split: option.splits if_splits)

text \<open>A request that gets past the lookups inserts the row of its input.\<close>

lemma createFlowJob_cases:
  assumes "createFlowJob S env uuid newId now now' inp w = (r, w')"
  obtains (rejected) e where "flow_input_ok inp = Inl e" "r = Inl e" "w' = w"
  | (repeated) j where "flow_input_ok inp = Inr ()"
      "find_by_key (input_key uuid (in_idempotencyKey inp)) w = Some j" "r = Inr (j, False)" "w' = w"
  | (refused) e where "flow_input_ok inp = Inr ()"
      "find_by_key (input_key uuid (in_idempotencyKey inp)) w = None" "r = Inl e" "w' = w"
      "e \<noteq> QueueAddError"
  | (inserted) acc px vid where "flow_input_ok inp = Inr ()"
      "find_by_key (input_key uuid (in_idempotencyKey inp)) w = None"
      "flow_account inp w = Inr acc" "flow_proxy inp w = Inr px"
      "flow_video inp (input_key uuid (in_idempotencyKey inp)) acc w = Inr vid"
      "insert_or_winner S now'
         (new_flow_row newId (input_key uuid (in_idempotencyKey inp)) now inp acc vid px) (env w)
       = (r, w')"
  using assms
  by (auto simp: createFlowJob_def Let_def andThen_def dest: flow_lookups_Inl
      split: sum.splits option.splits)

lemma createFlowJob_row:
  assumes "wf_jobs w" and "\<And>v. wf_jobs v \<Longrightarrow> wf_jobs (env v)"
    and "newId \<notin> job_id ` set (w_jobs (env w))"
    and "createFlowJob S env uuid newId now now' inp w = (Inr (job, created), w')"
  shows "wf_jobs w' \<and> job_idempotencyKey job = input_key uuid (in_idempotencyKey inp)
    \<and> (\<exists>r \<in> set (w_jobs w'). job_id r = job_id job
         \<and> job_idempotencyKey r = input_key uuid (in_idempotencyKey inp))"
  using assms(4)
proof (cases rule: createFlowJob_cases)
  case (repeated j)
  with assms(1) show ?thesis by (auto dest: find_by_key_Some)
next
  case (inserted acc px vid)
  let ?row = "new_flow_row newId (input_key uuid (in_idempotencyKey inp)) now inp acc vid px"
  have "wf_jobs w'"
    using insert_or_winner_wf [of "env w" ?row S now'] inserted assms(1-3) by simp
  with insert_or_winner_row [OF inserted(6)] show ?thesis by auto
qed simp_all

text \<open>
  C1. Whatever other requests commit between its lookup and its insert, a request that
  succeeds returns the row of its idempotency key, and the table keeps its unique ids and keys:
  no interleaving turns one key into two jobs. The id of the new row is fresh.
\<close>

theorem createFlowJob_one_job_per_key:
  assumes "wf_jobs w" and "\<And>v. wf_jobs v \<Longrightarrow> wf_jobs (env v)"
    and "newId \<notin> job_id ` set (w_jobs (env w))"
    and "createFlowJob S env uuid newId now now' inp w = (Inr (job, created), w')"
  shows "wf_jobs w' \<and> [j \<leftarrow> w_jobs w'. job_idempotencyKey j = input_key uuid (in_idempotencyKey inp)]
           = [j \<leftarrow> w_jobs w'. job_id j = job_id job]
         \<and> length [j \<leftarrow> w_jobs w'. job_id j = job_id job] = 1
         \<and> job_idempotencyKey job = input_key uuid (in_idempotencyKey inp)"
proof -
  note row = createFlowJob_row [OF assms]
  then obtain r where r: "r \<in> set (w_jobs w')" "job_id r = job_id job"
    "job_idempotencyKey r = input_key uuid (in_idempotencyKey inp)" by auto
  have "distinct (map job_id (w_jobs w'))" "distinct (map job_idempotencyKey (w_jobs w'))"
    using row by (auto simp: wf_jobs_def)
  then have "[j \<leftarrow> w_jobs w'. job_id j = job_id r] = [r]"
    "[j \<leftarrow> w_jobs w'. job_idempotencyKey j = job_idempotencyKey r] = [r]"
    using r(1) by (auto intro: filter_key_single)
  with row r show ?thesis by simp
qed

text \<open>A request for the example's account and video.\<close>

definition ex_input :: create_flow_input where
  "ex_input =
     \<lparr>in_userId = ''u1'', in_accountId = ''a1'', in_flowType = None, in_videoId = Some ''v1'',
      in_caption = Some ''hello'', in_idempotencyKey = Some ''key-0001'', in_scheduledAt = None,
      in_runProfile = None, in_regionLabel = None, in_proxyId = None,
      in_allowConcurrentDuplicate = False\<rparr>"

lemmas ex_create_defs =
  createFlowJob_def flow_input_ok_def input_caption_def input_key_def str_or_def js_trim_def
  js_ws_def flowRequiresVideo_def isDefaultFlow_def truthy_def find_by_key_def tfind_def
  flow_account_def find_own_account_def flow_proxy_def flow_video_def find_own_video_def
  in_flight_def new_flow_row_def insert_or_winner_def enqueue_def list_services_def
  upd_job_def tupd_def log_write_def ex_input_def ex_world_def ex_account_def ex_video_def Let_def

lemma ex_create:
  "\<exists>job w'. createFlowJob list_services id ''uuid'' ''j9'' 0 0 ex_input (ex_world [])
     = (Inr (job, True), w') \<and> w_jobs w' = [job\<lparr>job_bullJobId := Some ''j9''\<rparr>]"
  by (simp add: ex_create_defs)

text \<open>At the empty table, with no interference.\<close>

theorem createFlowJob_one_job_per_key_witness:
  "\<exists>job w'. createFlowJob list_services id ''uuid'' ''j9'' 0 0 ex_input (ex_world [])
     = (Inr (job, True), w') \<and> wf_jobs w' \<and> job_idempotencyKey job = ''key-0001''"
proof -
  obtain job w' where eq: "createFlowJob list_services id ''uuid'' ''j9'' 0 0 ex_input (ex_world [])
     = (Inr (job, True), w')" using ex_create by blast
  have "wf_jobs (ex_world [])" by (simp add: wf_jobs_def ex_world_def)
  from createFlowJob_one_job_per_key [OF this _ _ eq] eq
  show ?thesis by (simp add: ex_world_def input_key_def str_or_def ex_input_def js_trim_def js_ws_def)
qed

text \<open>
  Submitting a key again, whatever else the second request asks for, returns the job the
  first one made, with \<open>created\<close> false, and changes nothing.
\<close>

theorem createFlowJob_resubmission:
  assumes "wf_jobs w" and "\<And>v. wf_jobs v \<Longrightarrow> wf_jobs (env v)"
    and "newId \<notin> job_id ` set (w_jobs (env w))"
    and "createFlowJob S env uuid newId now now' inp w = (Inr (job, created), w')"
    and "input_key uuid2 (in_idempotencyKey inp2) = input_key uuid (in_idempotencyKey inp)"
    and "flow_input_ok inp2 = Inr ()"
  shows "\<exists>again. createFlowJob S2 env2 uuid2 newId2 now2 now2' inp2 w' = (Inr (again, False), w')
           \<and> job_id again = job_id job"
proof -
  let ?k = "input_key uuid (in_idempotencyKey inp)"
  note C1 = createFlowJob_row [OF assms(1-4)]
  then obtain r where r: "r \<in> set (w_jobs w')" "job_id r = job_id job" "job_idempotencyKey r = ?k"
    by auto
  then have "find_by_key ?k w' = Some r"
    using C1 by (auto simp: find_by_key_def wf_jobs_def dest: tfind_distinct)
  with assms(5,6) r(2) show ?thesis by (simp add: createFlowJob_def Let_def)
qed

theorem createFlowJob_resubmission_witness:
  "\<exists>job again w'. createFlowJob list_services id ''uuid'' ''j9'' 0 0 ex_input (ex_world [])
       = (Inr (job, True), w')
     \<and> createFlowJob list_services id ''other'' ''j10'' 5 5 ex_input w' = (Inr (again, False), w')
     \<and> job_id again = job_id job"
proof -
  obtain job w' where eq: "createFlowJob list_services id ''uuid'' ''j9'' 0 0 ex_input (ex_world [])
     = (Inr (job, True), w')" using ex_create by blast
  have "wf_jobs (ex_world [])" by (simp add: wf_jobs_def ex_world_def)
  moreover have "flow_input_ok ex_input = Inr ()" by (simp add: ex_create_defs)
  ultimately show ?thesis
    using createFlowJob_resubmission [OF _ _ _ eq, of "''other''" ex_input list_services id "''j10''" 5 5] eq
    by (simp add: ex_world_def input_key_def str_or_def ex_input_def js_trim_def js_ws_def)
qed

subsection \<open>What a created job rests on\<close>

lemma insert_or_winner_created:
  "insert_or_winner S now row w = (Inr (j, True), w') \<Longrightarrow>
     j = row \<and> enqueue S now row (w\<lparr>w_jobs := w_jobs w @ [row]\<rparr>) = (Inr (), w')"
  by (cases rule: insert_or_winner_cases [of row w S now]) auto

lemma flow_account_Inr:
  "flow_account inp w = Inr a \<Longrightarrow> a \<in> set (w_accounts w) \<and> acc_id a = in_accountId inp
     \<and> acc_userId a = in_userId inp \<and> acc_status a = ACTIVE \<and> acc_credentials a \<noteq> None"
  by (auto simp: flow_account_def split: option.splits if_splits dest: own_lookups)

lemma flow_proxy_Inr:
  "flow_proxy inp w = Inr (Some p) \<Longrightarrow>
     \<exists>px \<in> set (w_proxies w). px_id px = p \<and> px_userId px = in_userId inp"
  by (auto simp: flow_proxy_def split: option.splits if_splits dest: own_lookups)

lemma flow_video_Inr:
  "flow_video inp key a w = Inr (Some v) \<Longrightarrow>
     (\<exists>vid \<in> set (w_videos w). vid_id vid = v \<and> vid_userId vid = in_userId inp \<and> vid_status vid = READY)
     \<and> (in_allowConcurrentDuplicate inp \<or> in_flight (acc_id a) v key w = None)"
  by (auto simp: flow_video_def Let_def split: option.splits if_splits dest: own_lookups)

lemma flow_video_needed:
  "flow_video inp key a w = Inr v \<Longrightarrow> flowRequiresVideo (in_flowType inp) \<Longrightarrow> v \<noteq> None"
  by (auto simp: flow_video_def Let_def split: option.splits if_splits)

lemma in_flight_None:
  "in_flight a v k w = None \<longleftrightarrow> (\<forall>j \<in> set (w_jobs w). job_accountId j = a \<longrightarrow> job_videoId j = Some v
     \<longrightarrow> job_status j \<in> set ACTIVE_STATUSES \<longrightarrow> job_idempotencyKey j = k)"
  by (auto simp: in_flight_def find_None_iff)

lemma created_is_new_row:
  assumes "createFlowJob S env uuid newId now now' inp w = (Inr (job, True), w')"
  obtains acc px vid where "flow_input_ok inp = Inr ()"
    "flow_account inp w = Inr acc" "flow_proxy inp w = Inr px"
    "flow_video inp (input_key uuid (in_idempotencyKey inp)) acc w = Inr vid"
    "job = new_flow_row newId (input_key uuid (in_idempotencyKey inp)) now inp acc vid px"
    "enqueue S now' job ((env w)\<lparr>w_jobs := w_jobs (env w) @ [job]\<rparr>) = (Inr (), w')"
  using assms
proof (cases rule: createFlowJob_cases)
  case (inserted acc px vid)
  with insert_or_winner_created [OF inserted(6)] that show ?thesis by metis
qed simp_all

text \<open>
  C26. Everything a newly created job refers to belongs to the caller: the account is the
  caller's, active and configured, the video the caller's and ready, the egress override one of
  the caller's proxies. Without the load-test flag, no other job of that account had that
  video in flight. The row itself is well formed: the upload flow has a video and a caption,
  and the caption fits the limit.
\<close>

theorem createFlowJob_scoped_to_caller:
  assumes "createFlowJob S env uuid newId now now' inp w = (Inr (job, True), w')"
  shows "job_userId job = in_userId inp
    \<and> (\<exists>a \<in> set (w_accounts w). acc_id a = job_accountId job \<and> acc_userId a = in_userId inp
          \<and> acc_status a = ACTIVE \<and> acc_credentials a \<noteq> None)
    \<and> (\<forall>v. job_videoId job = Some v \<longrightarrow>
          (\<exists>vid \<in> set (w_videos w). vid_id vid = v \<and> vid_userId vid = in_userId inp
             \<and> vid_status vid = READY)
          \<and> (in_allowConcurrentDuplicate inp
             \<or> (\<forall>j \<in> set (w_jobs w). job_accountId j = job_accountId job \<longrightarrow> job_videoId j = Some v
                   \<longrightarrow> job_status j \<in> set ACTIVE_STATUSES
                   \<longrightarrow> job_idempotencyKey j = job_idempotencyKey job)))
    \<and> (\<forall>p. job_proxyId job = Some p \<longrightarrow>
          (\<exists>px \<in> set (w_proxies w). px_id px = p \<and> px_userId px = in_userId inp))
    \<and> (flowRequiresVideo (job_flowType job) \<longrightarrow> job_videoId job \<noteq> None \<and> job_caption job \<noteq> None)
    \<and> (\<forall>c. job_caption job = Some c \<longrightarrow> length c \<le> 2200)"
  using assms
proof (cases rule: created_is_new_row)
  case (1 acc px vid)
  let ?k = "input_key uuid (in_idempotencyKey inp)"
  have own: "job_userId job = in_userId inp" "job_accountId job = acc_id acc"
    "job_videoId job = vid" "job_proxyId job = px" "job_idempotencyKey job = ?k"
    using 1(5) by simp_all
  have flow: "flowRequiresVideo (job_flowType job) \<Longrightarrow> flowRequiresVideo (in_flowType inp)"
    using 1(5) by (auto simp: new_flow_row_def Let_def flowRequiresVideo_def split: if_splits)
  have cap: "length (input_caption inp) \<le> 2200"
    "flowRequiresVideo (in_flowType inp) \<Longrightarrow> input_caption inp \<noteq> []"
    using 1(1) by (auto simp: flow_input_ok_def Let_def andThen_Inr_iff)
  have jc: "job_caption job = (if input_caption inp = [] then None else Some (input_caption inp))"
    using 1(5) by (simp add: new_flow_row_def Let_def)
  have video: "job_videoId job = Some v \<Longrightarrow> (\<exists>vid \<in> set (w_videos w). vid_id vid = v
        \<and> vid_userId vid = in_userId inp \<and> vid_status vid = READY)
      \<and> (in_allowConcurrentDuplicate inp \<or> in_flight (acc_id acc) v ?k w = None)" for v
    using flow_video_Inr [of inp ?k acc w v] 1(4) own(3) by simp
  show ?thesis
    using flow_account_Inr [OF 1(2)] flow_proxy_Inr [of inp w] 1(3) video flow cap jc
      flow_video_needed [OF 1(4)] own
    by (auto simp: in_flight_None)
qed

theorem createFlowJob_scoped_to_caller_witness:
  "\<exists>job w'. createFlowJob list_services id ''uuid'' ''j9'' 0 0 ex_input (ex_world [])
     = (Inr (job, True), w') \<and> job_userId job = ''u1''"
proof -
  obtain job w' where eq: "createFlowJob list_services id ''uuid'' ''j9'' 0 0 ex_input (ex_world [])
     = (Inr (job, True), w')" using ex_create by blast
  with createFlowJob_scoped_to_caller [OF eq] show ?thesis by (simp add: ex_input_def)
qed

subsection \<open>What reaches the queue\<close>

lemma enqueue_Inr:
  "enqueue S now job w = (Inr (), w') \<Longrightarrow>
     \<exists>b. svc_add S (job_id job)
           \<lparr>opt_delay = (case job_scheduledAt job of Some t \<Rightarrow> max 0 (t - now) | None \<Rightarrow> 0),
            opt_attempts = Some (job_maxAttempts job)\<rparr> (w_queue w) = Some (b, w_queue w')
       \<and> w_jobs w' = tupd job_id (job_id job) (\<lambda>j. j\<lparr>job_bullJobId := Some b\<rparr>) (w_jobs w)"
  by (auto simp: enqueue_def Let_def world_simps split: option.splits)

lemma enqueue_Inl:
  "enqueue S now job w = (Inl e, w') \<Longrightarrow> e = QueueAddError \<and> w' = w
     \<and> svc_add S (job_id job)
           \<lparr>opt_delay = (case job_scheduledAt job of Some t \<Rightarrow> max 0 (t - now) | None \<Rightarrow> 0),
            opt_attempts = Some (job_maxAttempts job)\<rparr> (w_queue w) = None"
  by (auto simp: enqueue_def Let_def split: option.splits)

lemma tupd_append: "tupd key k f (xs @ ys) = tupd key k f xs @ tupd key k f ys"
  by (simp add: tupd_def)

lemma new_flow_row_schedule:
  "job_scheduledAt (new_flow_row i k t inp a v p) =
     (case in_scheduledAt inp of Some (ValidDate d) \<Rightarrow> if d > t then Some d else None | _ \<Rightarrow> None)"
  "job_status (new_flow_row i k t inp a v p) =
     (if job_scheduledAt (new_flow_row i k t inp a v p) = None then QUEUED else SCHEDULED)"
  by (simp_all add: new_flow_row_def Let_def)

text \<open>
  A newly created job is on the queue under its own id, with its own attempt budget and a
  delay that ends at its scheduled time; it is SCHEDULED with a time in the future or QUEUED
  without one, and its row, the last of the table, holds the queue's id for it.
\<close>

theorem createFlowJob_enqueues:
  assumes "createFlowJob S env uuid newId now now' inp w = (Inr (job, True), w')"
    and "newId \<notin> job_id ` set (w_jobs (env w))" and "now \<le> now'"
  shows "\<exists>d b. svc_add S newId \<lparr>opt_delay = d, opt_attempts = Some 3\<rparr> (w_queue (env w))
            = Some (b, w_queue w')
       \<and> w_jobs w' = w_jobs (env w) @ [job\<lparr>job_bullJobId := Some b\<rparr>] \<and> job_id job = newId
       \<and> (case job_scheduledAt job of
            None \<Rightarrow> job_status job = QUEUED \<and> d = 0
          | Some t \<Rightarrow> job_status job = SCHEDULED \<and> in_scheduledAt inp = Some (ValidDate t)
                      \<and> t > now \<and> now' + d = max now' t)"
  using assms(1)
proof (cases rule: created_is_new_row)
  case (1 acc px vid)
  let ?d = "case job_scheduledAt job of Some t \<Rightarrow> max 0 (t - now') | None \<Rightarrow> 0"
  have ids: "job_id job = newId" "job_maxAttempts job = 3" using 1(5) by simp_all
  obtain b where b: "svc_add S newId \<lparr>opt_delay = ?d, opt_attempts = Some 3\<rparr> (w_queue (env w))
      = Some (b, w_queue w')"
    "w_jobs w' = tupd job_id newId (\<lambda>j. j\<lparr>job_bullJobId := Some b\<rparr>) (w_jobs (env w) @ [job])"
    using enqueue_Inr [OF 1(6)] ids by auto
  have "tfind job_id newId (w_jobs (env w)) = None" using assms(2) by (simp add: tfind_None)
  then have "w_jobs w' = w_jobs (env w) @ [job\<lparr>job_bullJobId := Some b\<rparr>]"
    using b(2) ids by (simp add: tupd_append tupd_id) (simp add: tupd_def)
  moreover have "case job_scheduledAt job of None \<Rightarrow> job_status job = QUEUED \<and> ?d = 0
      | Some t \<Rightarrow> job_status job = SCHEDULED \<and> in_scheduledAt inp = Some (ValidDate t)
                  \<and> t > now \<and> now' + ?d = max now' t"
    using 1(5) by (auto simp: new_flow_row_schedule split: option.splits js_date.splits if_splits)
  ultimately show ?thesis using b(1) ids by blast
qed

theorem createFlowJob_enqueues_witness:
  "\<exists>job w' b. createFlowJob list_services id ''uuid'' ''j9'' 0 0 ex_input (ex_world [])
     = (Inr (job, True), w') \<and> w_jobs w' = [job\<lparr>job_bullJobId := Some b\<rparr>] \<and> job_id job = ''j9''"
proof -
  obtain job w' where eq: "createFlowJob list_services id ''uuid'' ''j9'' 0 0 ex_input (ex_world [])
     = (Inr (job, True), w')" using ex_create by blast
  have "''j9'' \<notin> job_id ` set (w_jobs (id (ex_world [])))" by (simp add: ex_world_def)
  from createFlowJob_enqueues [OF eq this] eq show ?thesis by (auto simp: ex_world_def)
qed

text \<open>
  When the queue cannot take the job, the request fails but the row stays, without a queue
  id, and a later request with the key returns that row and queues nothing.
\<close>

theorem createFlowJob_queue_down:
  assumes "createFlowJob S env uuid newId now now' inp w = (Inl QueueAddError, w')"
    and "input_key uuid2 (in_idempotencyKey inp) = input_key uuid (in_idempotencyKey inp)"
  shows "\<exists>row. w_jobs w' = w_jobs (env w) @ [row] \<and> job_id row = newId \<and> job_bullJobId row = None
      \<and> job_status row \<in> {QUEUED, SCHEDULED} \<and> w_queue w' = w_queue (env w)
      \<and> createFlowJob S2 env2 uuid2 newId2 now2 now2' inp w' = (Inr (row, False), w')"
  using assms
proof (cases rule: createFlowJob_cases)
  case (rejected e)
  then show ?thesis by (auto simp: flow_input_ok_def Let_def andThen_def guardE_def split: if_splits)
next
  case (inserted acc px vid)
  let ?k = "input_key uuid (in_idempotencyKey inp)"
  let ?row = "new_flow_row newId ?k now inp acc vid px"
  from inserted(6) have "?k \<notin> job_idempotencyKey ` set (w_jobs (env w))
      \<and> enqueue S now' ?row ((env w)\<lparr>w_jobs := w_jobs (env w) @ [?row]\<rparr>) = (Inl QueueAddError, w')"
    by (cases rule: insert_or_winner_cases [of ?row "env w" S now']) auto
  then have new: "tfind job_idempotencyKey ?k (w_jobs (env w)) = None"
    and w': "w' = (env w)\<lparr>w_jobs := w_jobs (env w) @ [?row]\<rparr>"
    by (auto simp: tfind_None dest: enqueue_Inl)
  then have "find_by_key ?k w' = Some ?row"
    by (simp add: find_by_key_def tfind_append tfind_Cons)
  then have "createFlowJob S2 env2 uuid2 newId2 now2 now2' inp w' = (Inr (?row, False), w')"
    using inserted(1) assms(2) by (simp add: createFlowJob_def Let_def)
  moreover have "job_bullJobId ?row = None" by (simp add: new_flow_row_def Let_def)
  ultimately show ?thesis using w' by (auto simp: new_flow_row_schedule)
qed simp_all

lemma ex_create_down:
  "\<exists>w'. createFlowJob (list_services\<lparr>svc_add := \<lambda>i opts q. None\<rparr>) id ''uuid'' ''j9'' 0 0 ex_input (ex_world [])
     = (Inl QueueAddError, w')"
  by (simp add: ex_create_defs)

theorem createFlowJob_queue_down_witness:
  "\<exists>row w'. createFlowJob (list_services\<lparr>svc_add := \<lambda>i opts q. None\<rparr>) id ''uuid'' ''j9'' 0 0
       ex_input (ex_world []) = (Inl QueueAddError, w') \<and> w_jobs w' = [row]
     \<and> createFlowJob list_services id ''other'' ''j10'' 9 9 ex_input w' = (Inr (row, False), w')"
proof -
  obtain w' where eq: "createFlowJob (list_services\<lparr>svc_add := \<lambda>i opts q. None\<rparr>) id ''uuid'' ''j9'' 0 0
     ex_input (ex_world []) = (Inl QueueAddError, w')" using ex_create_down by blast
  have "input_key ''other'' (in_idempotencyKey ex_input) = input_key ''uuid'' (in_idempotencyKey ex_input)"
    by (simp add: ex_create_defs)
  from createFlowJob_queue_down [OF eq this, of list_services id "''j10''" 9 9] eq
  show ?thesis by (auto simp: ex_world_def)
qed

subsection \<open>One onboarding at a time\<close>

text \<open>
  When no other request touches the jobs and accounts between its lookups and its insert, a
  new onboarding job is for one of the caller's accounts that is not disabled and has no other
  live job, and is queued for exactly one attempt. An account left in ONBOARDING by an earlier
  run is out of it when the job is queued. (The guard is a lookup, not a constraint: two
  requests that interleave here can both pass it.)
\<close>

theorem createOnboardingJob_single_run:
  assumes "createOnboardingJob S env uuid newId now userId accountId idemKey w = (Inr (job, True), w')"
    and "newId \<notin> job_id ` set (w_jobs (env w))" and "\<And>v. w_jobs (env v) = w_jobs v"
    and "\<And>v. w_accounts (env v) = w_accounts v"
  shows "(\<exists>a \<in> set (w_accounts w). acc_id a = accountId \<and> acc_userId a = userId
           \<and> acc_status a \<noteq> INACTIVE)
    \<and> (\<forall>j \<in> set (w_jobs w). job_accountId j = accountId \<longrightarrow>
          job_status j \<in> {COMPLETED, FAILED, CANCELLED, DEAD})
    \<and> (\<exists>b. w_jobs w' = w_jobs w @ [job\<lparr>job_bullJobId := Some b\<rparr>])
    \<and> job_type job = INTERACTIVE_ONBOARDING \<and> job_status job = QUEUED \<and> job_maxAttempts job = 1
    \<and> (\<exists>b q. svc_add S newId \<lparr>opt_delay = 0, opt_attempts = Some 1\<rparr> q = Some (b, w_queue w'))
    \<and> (\<forall>a. find_account accountId w' = Some a \<longrightarrow> acc_userId a = userId
          \<longrightarrow> distinct (map acc_id (w_accounts w)) \<longrightarrow> acc_sessionState a \<noteq> ONBOARDING)"
proof -
  let ?k = "input_key uuid idemKey"
  from assms(1) obtain acc where acc: "find_own_account accountId userId w = Some acc"
    "find_by_key ?k w = None" "acc_status acc \<noteq> INACTIVE" "onboarding_in_flight (acc_id acc) ?k w = None"
    by (auto simp: createOnboardingJob_def Let_def split: option.splits if_splits)
  let ?row = "new_onboarding_row newId ?k userId (acc_id acc)"
  let ?w1 = "if acc_sessionState acc = ONBOARDING
             then upd_account (acc_id acc) (\<lambda>a. a\<lparr>acc_sessionState := NONE\<rparr>) w else w"
  from assms(1) acc have "insert_or_winner S now ?row (env ?w1) = (Inr (job, True), w')"
    by (simp add: createOnboardingJob_def Let_def)
  note ins = insert_or_winner_created [OF this]
  have a: "acc \<in> set (w_accounts w)" "acc_id acc = accountId" "acc_userId acc = userId"
    using acc(1) by (auto dest: own_lookups)
  have idle: "job_status j \<in> {COMPLETED, FAILED, CANCELLED, DEAD}"
    if "j \<in> set (w_jobs w)" "job_accountId j = accountId" for j
  proof -
    have "job_idempotencyKey j \<noteq> ?k" using that(1) acc(2) by (metis find_by_key_None imageI)
    with that acc(4) a(2) show ?thesis
      by (cases "job_status j") (auto simp: onboarding_in_flight_def find_None_iff ACTIVE_STATUSES_def)
  qed
  have job: "job_id job = newId" "job_maxAttempts job = 1" "job_scheduledAt job = None"
    "job_type job = INTERACTIVE_ONBOARDING" "job_status job = QUEUED"
    using ins by (simp_all add: new_onboarding_row_def)
  have jobs1: "w_jobs ?w1 = w_jobs w" by (simp add: world_simps)
  have "tfind job_id newId (w_jobs w) = None" using assms(2,3) by (simp add: tfind_None)
  moreover obtain b where b: "svc_add S newId \<lparr>opt_delay = 0, opt_attempts = Some 1\<rparr> (w_queue (env ?w1))
      = Some (b, w_queue w')"
    "w_jobs w' = tupd job_id newId (\<lambda>j. j\<lparr>job_bullJobId := Some b\<rparr>) (w_jobs w @ [job])"
    using enqueue_Inr [of S now job _ w'] ins job assms(3) jobs1 by fastforce
  ultimately have "w_jobs w' = w_jobs w @ [job\<lparr>job_bullJobId := Some b\<rparr>]"
    using job by (simp add: tupd_append tupd_id) (simp add: tupd_def)
  moreover have "acc_sessionState r \<noteq> ONBOARDING"
    if "find_account accountId w' = Some r" "distinct (map acc_id (w_accounts w))" for r
  proof -
    have accs: "w_accounts w' = w_accounts ?w1"
      using ins enqueue_frame(1) [of S now job] assms(4) by (metis (no_types, lifting) snd_conv world.select_convs(2) world.surjective world.update_convs(1))
    have "tfind acc_id accountId (w_accounts w) = Some acc"
      using tfind_distinct [OF that(2) a(1)] a(2) by simp
    with that(1) accs a show ?thesis
      by (auto simp: find_account_def world_simps tfind_tupd split: if_splits)
  qed
  ultimately show ?thesis using a acc(3) idle job b(1) by blast
qed

lemmas ex_onboard_defs =
  createOnboardingJob_def input_key_def str_or_def js_trim_def js_ws_def find_by_key_def tfind_def
  find_own_account_def onboarding_in_flight_def new_onboarding_row_def insert_or_winner_def
  enqueue_def list_services_def upd_job_def tupd_def log_write_def ex_world_def ex_account_def Let_def

lemma ex_onboard:
  "\<exists>job w'. createOnboardingJob list_services id ''uuid'' ''j9'' 0 ''u1'' ''a1'' None (ex_world [])
     = (Inr (job, True), w')"
  by (simp add: ex_onboard_defs)

theorem createOnboardingJob_single_run_witness:
  "\<exists>job w'. createOnboardingJob list_services id ''uuid'' ''j9'' 0 ''u1'' ''a1'' None (ex_world [])
     = (Inr (job, True), w') \<and> job_maxAttempts job = 1"
proof -
  obtain job w' where eq: "createOnboardingJob list_services id ''uuid'' ''j9'' 0 ''u1'' ''a1'' None
     (ex_world []) = (Inr (job, True), w')" using ex_onboard by blast
  have "''j9'' \<notin> job_id ` set (w_jobs (id (ex_world [])))" by (simp add: ex_world_def)
  from createOnboardingJob_single_run [OF eq this] eq show ?thesis by simp
qed

subsection \<open>The life cycle the API may drive\<close>

text \<open>
  The contract of the three operations on an existing job, on its type and status alone:
  \<open>None\<close> where the request is refused.
\<close>

datatype api_call = CallConfirm | CallCancel | CallRetry

fun lifecycle :: "api_call \<Rightarrow> job_type \<Rightarrow> job_status \<Rightarrow> job_status option" where
  "lifecycle CallConfirm t s =
     (if t = INTERACTIVE_ONBOARDING \<and> s = AWAITING_HUMAN then Some AWAITING_HUMAN else None)"
| "lifecycle CallCancel t s =
     (if s \<in> {QUEUED, SCHEDULED, PROCESSING, AWAITING_HUMAN} then Some CANCELLED else None)"
| "lifecycle CallRetry t s = (if s \<in> {FAILED, DEAD} then Some QUEUED else None)"

fun api :: "'q services \<Rightarrow> ms \<Rightarrow> api_call \<Rightarrow> string \<Rightarrow> string \<Rightarrow> 'q world
    \<Rightarrow> (job_error, job) result \<times> 'q world" where
  "api S now CallConfirm u i w = confirmOnboarding S now u i w"
| "api S now CallCancel u i w = cancelJob S now u i w"
| "api S now CallRetry u i w = retryJob S now u i w"

lemma enqueue_find:
  "find_job i (snd (enqueue S now job w)) =
     (case enqueue S now job w of
        (Inl e, w') \<Rightarrow> find_job i w
      | (Inr u, w') \<Rightarrow> if i = job_id job then map_option (\<lambda>j. j\<lparr>job_bullJobId := Some
            (fst (the (svc_add S (job_id job)
              \<lparr>opt_delay = (case job_scheduledAt job of Some t \<Rightarrow> max 0 (t - now) | None \<Rightarrow> 0),
               opt_attempts = Some (job_maxAttempts job)\<rparr> (w_queue w))))\<rparr>) (find_job i w)
          else find_job i w)"
  by (auto simp: enqueue_def Let_def world_simps job_rows.look_upd split: option.splits)

lemma confirm_lifecycle:
  assumes "wf_jobs w" "find_own_job i u w = Some j"
  shows "lifecycle CallConfirm (job_type j) (job_status j) = None \<Longrightarrow>
           (\<exists>e. confirmOnboarding S now u i w = (Inl (JobValidationError e), w))"
    and "lifecycle CallConfirm (job_type j) (job_status j) = Some s \<Longrightarrow>
           (\<exists>j' w'. confirmOnboarding S now u i w = (Inr j', w') \<and> find_job i w' = Some j'
              \<and> job_status j' = s \<and> job_humanConfirmedAt j' \<noteq> None
              \<and> (\<forall>k. k \<noteq> i \<longrightarrow> find_job k w' = find_job k w))"
  using find_own_job_find_job [OF assms] assms(2) own_lookups(4) [OF assms(2)]
  by (auto simp: confirmOnboarding_def Let_def world_simps job_rows.look_upd split: if_splits)

lemma cancel_lifecycle:
  assumes "wf_jobs w" "find_own_job i u w = Some j"
  shows "lifecycle CallCancel (job_type j) (job_status j) = None \<Longrightarrow>
           (\<exists>e. cancelJob S now u i w = (Inl (JobValidationError e), w))"
    and "lifecycle CallCancel (job_type j) (job_status j) = Some s \<Longrightarrow>
           (\<exists>j' w'. cancelJob S now u i w = (Inr j', w') \<and> find_job i w' = Some j'
              \<and> job_status j' = s \<and> job_completedAt j' = Some now
              \<and> (\<forall>k. k \<noteq> i \<longrightarrow> find_job k w' = find_job k w))"
  using find_own_job_find_job [OF assms] assms(2) own_lookups(4) [OF assms(2)]
  by (cases "job_status j"; simp add: cancelJob_def ACTIVE_STATUSES_def Let_def world_simps job_rows.look_upd)+

lemma retry_lifecycle:
  assumes "wf_jobs w" "find_own_job i u w = Some j"
  shows "lifecycle CallRetry (job_type j) (job_status j) = None \<Longrightarrow>
           (\<exists>e. retryJob S now u i w = (Inl (JobValidationError e), w))"
    and "lifecycle CallRetry (job_type j) (job_status j) = Some s \<Longrightarrow>
           retryJob S now u i w = (r, w') \<Longrightarrow>
           (r = Inl QueueAddError \<or> r = Inr (retry_reset j))
             \<and> (\<exists>b. find_job i w' = Some (retry_reset j\<lparr>job_bullJobId := b\<rparr>)) \<and> s = QUEUED
             \<and> (\<forall>k. k \<noteq> i \<longrightarrow> find_job k w' = find_job k w)"
proof -
  note own = own_lookups(4) [OF assms(2)]
  show "lifecycle CallRetry (job_type j) (job_status j) = None \<Longrightarrow>
           (\<exists>e. retryJob S now u i w = (Inl (JobValidationError e), w))"
    using assms(2) by (auto simp: retryJob_def split: if_splits)
  assume s: "lifecycle CallRetry (job_type j) (job_status j) = Some s"
    and eq: "retryJob S now u i w = (r, w')"
  let ?w1 = "upd_job i retry_reset w"
  let ?w3 = "log_write i INFO ''Job re-queued manually'' None
               (?w1\<lparr>w_queue := svc_remove S i (w_queue ?w1)\<rparr>)"
  have look: "find_job k ?w3 = (if k = i then Some (retry_reset j) else find_job k w)" for k
    using find_own_job_find_job [OF assms]
    by (simp add: world_simps job_rows.look_upd retry_reset_def)
  obtain r0 where e: "enqueue S now (retry_reset j) ?w3 = (r0, w')"
    and r: "r = (case r0 of Inl e \<Rightarrow> Inl e | Inr u \<Rightarrow> Inr (retry_reset j))"
    using eq s own assms(2) by (auto simp: retryJob_def Let_def split: if_splits prod.splits sum.splits)
  have keep: "retry_reset j\<lparr>job_bullJobId := job_bullJobId (retry_reset j)\<rparr> = retry_reset j" by simp
  have idj: "job_id (retry_reset j) = i" using own by (simp add: retry_reset_def)
  show "(r = Inl QueueAddError \<or> r = Inr (retry_reset j))
      \<and> (\<exists>b. find_job i w' = Some (retry_reset j\<lparr>job_bullJobId := b\<rparr>)) \<and> s = QUEUED
      \<and> (\<forall>k. k \<noteq> i \<longrightarrow> find_job k w' = find_job k w)"
  proof (cases r0)
    case (Inl e0)
    with e have e0: "e0 = QueueAddError" "w' = ?w3" by (auto dest: enqueue_Inl)
    then have "find_job i w' = Some (retry_reset j\<lparr>job_bullJobId := job_bullJobId (retry_reset j)\<rparr>)"
      using look keep by simp
    moreover have "\<forall>k. k \<noteq> i \<longrightarrow> find_job k w' = find_job k w" using e0 look by simp
    moreover have "r = Inl QueueAddError" "s = QUEUED" using Inl r s e0 by (auto split: if_splits)
    ultimately show ?thesis by blast
  next
    case (Inr u0)
    with e enqueue_find [of _ S now "retry_reset j" ?w3] look idj
    have "\<exists>b. find_job i w' = Some (retry_reset j\<lparr>job_bullJobId := b\<rparr>)"
      and "\<forall>k. k \<noteq> i \<longrightarrow> find_job k w' = find_job k w"
      by (auto simp del: job.update_convs)
    with Inr r s show ?thesis by (auto split: if_splits)
  qed
qed



subsection \<open>A retried job runs again\<close>

text \<open>
  C27. A retry that succeeds, of a job no worker holds, leaves the job waiting or delayed on the
  queue even when the queue still held the finished one under the same id: the old entry is
  removed first. The row starts over with no attempts, and a confirmation the operator gave to the failed
  run is still on it.
\<close>

theorem retryJob_requeues:
  assumes "queue_laws S" and "wf_jobs w" and "find_own_job i u w = Some j"
    and "svc_state S i (w_queue w) \<noteq> Some BullActive"
    and "retryJob S now u i w = (Inr job, w')"
  shows "svc_state S i (w_queue w') \<in> {Some BullWaiting, Some BullDelayed}
    \<and> (\<exists>r. find_job i w' = Some r \<and> job_status r = QUEUED \<and> job_attempts r = 0
          \<and> job_bullJobId r = Some i \<and> job_humanConfirmedAt r = job_humanConfirmedAt j)"
proof -
  note own = own_lookups(4) [OF assms(3)] and look = find_own_job_find_job [OF assms(2,3)]
  let ?w1 = "upd_job i retry_reset w"
  let ?w3 = "log_write i INFO ''Job re-queued manually'' None
               (?w1\<lparr>w_queue := svc_remove S i (w_queue ?w1)\<rparr>)"
  have idj: "job_id (retry_reset j) = i" using own by (simp add: retry_reset_def)
  have "enqueue S now (retry_reset j) ?w3 = (Inr (), w')"
    using assms(3,5) own by (auto simp: retryJob_def Let_def split: if_splits prod.splits sum.splits)
  from enqueue_Inr [OF this] idj obtain b where
    b: "svc_add S i \<lparr>opt_delay = (case job_scheduledAt (retry_reset j) of Some t \<Rightarrow> max 0 (t - now) | None \<Rightarrow> 0),
            opt_attempts = Some (job_maxAttempts (retry_reset j))\<rparr> (svc_remove S i (w_queue w))
          = Some (b, w_queue w')"
    and jobs: "w_jobs w' = tupd job_id i (\<lambda>j. j\<lparr>job_bullJobId := Some b\<rparr>) (w_jobs ?w3)"
    by (auto simp: world_simps)
  have "svc_state S i (svc_remove S i (w_queue w)) = None"
    using assms(1,4) by (simp add: queue_laws_def)
  with b assms(1) have q: "svc_state S i (w_queue w') \<in> {Some BullWaiting, Some BullDelayed}" "b = i"
    unfolding queue_laws_def by metis+
  have "find_job i w' = Some (retry_reset j\<lparr>job_bullJobId := Some i\<rparr>)"
    using jobs look q(2)
    by (simp add: find_job_def world_simps tfind_tupd retry_reset_def)
  then show ?thesis using q(1) by (simp add: retry_reset_def)
qed

theorem retryJob_requeues_witness:
  "\<exists>job w'. retryJob list_services 9 ''u1'' ''j1''
        ((ex_world [ex_job\<lparr>job_status := FAILED\<rparr>])\<lparr>w_queue := [(''j1'', \<lparr>opt_delay = 0, opt_attempts = None\<rparr>)]\<rparr>)
      = (Inr job, w') \<and> svc_state list_services ''j1'' (w_queue w') \<in> {Some BullWaiting, Some BullDelayed}"
proof -
  let ?j = "ex_job\<lparr>job_status := FAILED\<rparr>"
  let ?w = "(ex_world [?j])\<lparr>w_queue := [(''j1'', \<lparr>opt_delay = 0, opt_attempts = None\<rparr>)]\<rparr>"
  have wf: "wf_jobs ?w" by (simp add: wf_jobs_def ex_world_def)
  have own: "find_own_job ''j1'' ''u1'' ?w = Some ?j"
    by (simp add: find_own_job_def ex_world_def ex_job_def)
  have st: "svc_state list_services ''j1'' (w_queue ?w) \<noteq> Some BullActive"
    by (simp add: list_services_def)
  obtain job w' where eq: "retryJob list_services 9 ''u1'' ''j1'' ?w = (Inr job, w')"
    using own by (simp add: retryJob_def enqueue_def list_services_def ex_job_def Let_def)
  from retryJob_requeues [OF list_services_laws wf own st eq] eq show ?thesis by blast
qed

subsection \<open>Whose job a request gets\<close>

text \<open>
  The job a request returns is the caller's own unless the key it was given already named
  another user's job: the lookups by key do not look at the owner, and then that user's job is
  what the caller receives.
\<close>

theorem createFlowJob_owner:
  assumes "createFlowJob S env uuid newId now now' inp w = (Inr (job, created), w')"
  shows "(job_userId job = in_userId inp
     \<or> \<not> created \<and> (job \<in> set (w_jobs w) \<or> job \<in> set (w_jobs (env w)))
        \<and> job_idempotencyKey job = input_key uuid (in_idempotencyKey inp))
    \<and> (flow_input_ok inp = Inr () \<longrightarrow>
         find_by_key (input_key uuid (in_idempotencyKey inp)) w = Some other \<longrightarrow> job = other)"
proof
  show "job_userId job = in_userId inp
    \<or> \<not> created \<and> (job \<in> set (w_jobs w) \<or> job \<in> set (w_jobs (env w)))
       \<and> job_idempotencyKey job = input_key uuid (in_idempotencyKey inp)"
    using assms
  proof (cases rule: createFlowJob_cases)
    case (repeated j)
    then show ?thesis by (auto dest: find_by_key_Some)
  next
    case (inserted acc px vid)
    let ?row = "new_flow_row newId (input_key uuid (in_idempotencyKey inp)) now inp acc vid px"
    show ?thesis
      using inserted(6) by (cases rule: insert_or_winner_cases [of ?row "env w" S now'])
        (auto dest: find_by_key_Some)
  qed simp_all
  show "flow_input_ok inp = Inr () \<longrightarrow>
         find_by_key (input_key uuid (in_idempotencyKey inp)) w = Some other \<longrightarrow> job = other"
  proof (intro impI)
    assume "flow_input_ok inp = Inr ()"
      and "find_by_key (input_key uuid (in_idempotencyKey inp)) w = Some other"
    then show "job = other" using assms by (simp add: createFlowJob_def Let_def)
  qed
qed

lemma ex_cross_tenant:
  "createFlowJob list_services id ''uuid'' ''j9'' 0 0 (ex_input\<lparr>in_userId := ''u2''\<rparr>) (ex_world [ex_job])
     = (Inr (ex_job, False), ex_world [ex_job])"
  by (simp add: ex_create_defs ex_job_def)

theorem createFlowJob_owner_witness:
  "(job_userId ex_job = ''u2'' \<or> ex_job \<in> set (w_jobs (ex_world [ex_job])))
   \<and> createFlowJob list_services id ''uuid'' ''j9'' 0 0 (ex_input\<lparr>in_userId := ''u2''\<rparr>) (ex_world [ex_job])
     = (Inr (ex_job, False), ex_world [ex_job])"
proof -
  have "flow_input_ok (ex_input\<lparr>in_userId := ''u2''\<rparr>) = Inr ()" by (simp add: ex_create_defs)
  moreover have "find_by_key (input_key ''uuid'' (in_idempotencyKey (ex_input\<lparr>in_userId := ''u2''\<rparr>)))
      (ex_world [ex_job]) = Some ex_job" by (simp add: ex_create_defs ex_job_def)
  ultimately show ?thesis
    using createFlowJob_owner [OF ex_cross_tenant] ex_cross_tenant by auto
qed

end
