(* ===== verification/Rate_Limiter.thy ===== *)
theory Rate_Limiter
  imports Schema
begin

text \<open>
  \<open>lib/worker/rateLimiter.ts\<close>: the per-account limits, kept in Redis. Redis is not part of the
  repository: its commands are the fields of \<open>redis\<close>, over the state the world holds for the
  outside services, and \<open>redis_laws\<close> is what Redis documents of them. The two kinds of value
  this module stores, counters and instants, are read back as the integers they spell.

  \<open>reserve\<close> is a sequence of commands, and several workers run it at once: the pieces it is
  composed of are definitions of their own, and they are also the steps of the protocol whose
  mutual exclusion is proved below.
\<close>

record 'r redis =
  rd_get :: "string \<Rightarrow> 'r \<Rightarrow> int option"
  rd_set :: "string \<Rightarrow> int \<Rightarrow> int option \<Rightarrow> 'r \<Rightarrow> 'r"
  rd_incr :: "string \<Rightarrow> 'r \<Rightarrow> int \<times> 'r"
  rd_decr :: "string \<Rightarrow> 'r \<Rightarrow> int \<times> 'r"
  rd_expire :: "string \<Rightarrow> int \<Rightarrow> 'r \<Rightarrow> 'r"
  rd_del :: "string \<Rightarrow> 'r \<Rightarrow> 'r"

text \<open>A missing key counts as zero for INCR and DECR, and a key keeps its value until it expires.\<close>

definition rd_stored :: "'r redis \<Rightarrow> string \<Rightarrow> 'r \<Rightarrow> int" where
  "rd_stored R k r = (case rd_get R k r of Some n \<Rightarrow> n | None \<Rightarrow> 0)"

definition redis_laws :: "'r redis \<Rightarrow> bool" where
  "redis_laws R =
     ((\<forall>k k' v ttl r. rd_get R k (rd_set R k' v ttl r) = (if k = k' then Some v else rd_get R k r))
      \<and> (\<forall>k r. fst (rd_incr R k r) = rd_stored R k r + 1)
      \<and> (\<forall>k k' r. rd_get R k (snd (rd_incr R k' r))
            = (if k = k' then Some (rd_stored R k r + 1) else rd_get R k r))
      \<and> (\<forall>k r. fst (rd_decr R k r) = rd_stored R k r - 1)
      \<and> (\<forall>k k' r. rd_get R k (snd (rd_decr R k' r))
            = (if k = k' then Some (rd_stored R k r - 1) else rd_get R k r))
      \<and> (\<forall>k k' s r. s > 0 \<longrightarrow> rd_get R k (rd_expire R k' s r) = rd_get R k r)
      \<and> (\<forall>k k' r. rd_get R k (rd_del R k' r) = (if k = k' then None else rd_get R k r)))"

definition SLOT_TTL_SECONDS :: int where
  "SLOT_TTL_SECONDS = 15 * 60"

definition slotsKey :: "string \<Rightarrow> string" where
  "slotsKey a = ''acct:'' @ a @ '':slots''"

definition lastPublishKey :: "string \<Rightarrow> string" where
  "lastPublishKey a = ''acct:'' @ a @ '':lastPublish''"

datatype reject_reason = MaxConcurrent | MinInterval

datatype reservation = Reserved | Rejected ms reject_reason

record limits =
  lms_maxConcurrent :: int
  lms_minIntervalSeconds :: int

subsection \<open>The pieces of \<open>reserve\<close>\<close>

definition reserve_interval :: "'r redis \<Rightarrow> string \<Rightarrow> limits \<Rightarrow> ms \<Rightarrow> 'r \<Rightarrow> ms option" where
  "reserve_interval R a lms now r =
     (if lms_minIntervalSeconds lms > 0
      then (case rd_get R (lastPublishKey a) r of
              None \<Rightarrow> None
            | Some lastAt \<Rightarrow>
                (let elapsed = now - lastAt; window = lms_minIntervalSeconds lms * 1000
                 in if elapsed < window then Some (window - elapsed) else None))
      else None)"

definition reserve_take :: "'r redis \<Rightarrow> string \<Rightarrow> int \<Rightarrow> 'r \<Rightarrow> bool \<times> 'r" where
  "reserve_take R a maxc r =
     (case rd_incr R (slotsKey a) r of
        (inFlight, r1) \<Rightarrow> (inFlight \<le> maxc, rd_expire R (slotsKey a) SLOT_TTL_SECONDS r1))"

definition reserve_undo :: "'r redis \<Rightarrow> string \<Rightarrow> 'r \<Rightarrow> 'r" where
  "reserve_undo R a r = snd (rd_decr R (slotsKey a) r)"

definition reserve ::
  "'r redis \<Rightarrow> ms \<Rightarrow> ms \<Rightarrow> string \<Rightarrow> limits \<Rightarrow> 'r \<Rightarrow> reservation \<times> 'r" where
  "reserve R deferMs now a lms r =
     (case reserve_interval R a lms now r of
        Some wait \<Rightarrow> (Rejected wait MinInterval, r)
      | None \<Rightarrow>
          (case reserve_take R a (lms_maxConcurrent lms) r of
             (True, r1) \<Rightarrow> (Reserved, r1)
           | (False, r1) \<Rightarrow> (Rejected deferMs MaxConcurrent, reserve_undo R a r1)))"

text \<open>\<open>release\<close>, called the first time; the closure's \<open>released\<close> flag makes a second call do nothing.\<close>

definition release_slot :: "'r redis \<Rightarrow> ms \<Rightarrow> string \<Rightarrow> 'r \<Rightarrow> 'r" where
  "release_slot R now a r =
     (case rd_decr R (slotsKey a) r of
        (remaining, r1) \<Rightarrow>
          (let r2 = (if remaining < 0 then rd_set R (slotsKey a) 0 None r1 else r1)
           in rd_set R (lastPublishKey a) now (Some SLOT_TTL_SECONDS) r2))"

definition release :: "'r redis \<Rightarrow> ms \<Rightarrow> string \<Rightarrow> bool \<times> 'r \<Rightarrow> bool \<times> 'r" where
  "release R now a s =
     (case s of (released, r) \<Rightarrow> if released then (released, r) else (True, release_slot R now a r))"

definition touch :: "'r redis \<Rightarrow> string \<Rightarrow> 'r \<Rightarrow> 'r" where
  "touch R a r = rd_expire R (slotsKey a) SLOT_TTL_SECONDS r"

definition actual_running :: "(string \<Rightarrow> nat option) \<Rightarrow> string \<Rightarrow> int" where
  "actual_running running a = int (case running a of Some n \<Rightarrow> n | None \<Rightarrow> 0)"

definition reconcile_one :: "'r redis \<Rightarrow> (string \<Rightarrow> nat option) \<Rightarrow> string \<Rightarrow> 'r \<Rightarrow> 'r" where
  "reconcile_one R running a r =
     (let actual = actual_running running a
      in if rd_stored R (slotsKey a) r = actual then r
         else if actual = 0 then rd_del R (slotsKey a) r
         else rd_set R (slotsKey a) actual (Some SLOT_TTL_SECONDS) r)"

fun reconcileAccountSlots ::
  "'r redis \<Rightarrow> (string \<Rightarrow> nat option) \<Rightarrow> string list \<Rightarrow> 'r \<Rightarrow> nat \<times> 'r" where
  "reconcileAccountSlots R running [] r = (0, r)"
| "reconcileAccountSlots R running (a # as) r =
     (case reconcileAccountSlots R running as (reconcile_one R running a r) of
        (n, r') \<Rightarrow>
          (if rd_stored R (slotsKey a) r = actual_running running a then n else n + 1, r'))"

subsection \<open>Keys and laws\<close>

lemma slotsKey_inj [simp]: "slotsKey a = slotsKey b \<longleftrightarrow> a = b"
  by (simp add: slotsKey_def)

lemma lastPublishKey_inj [simp]: "lastPublishKey a = lastPublishKey b \<longleftrightarrow> a = b"
  by (simp add: lastPublishKey_def)

lemma slots_not_last [simp]: "slotsKey a \<noteq> lastPublishKey b" "lastPublishKey b \<noteq> slotsKey a"
proof -
  have "last (slotsKey a) \<noteq> last (lastPublishKey b)" by (simp add: slotsKey_def lastPublishKey_def)
  then show "slotsKey a \<noteq> lastPublishKey b" "lastPublishKey b \<noteq> slotsKey a" by metis+
qed

lemma redis_lawsD:
  assumes "redis_laws R"
  shows "rd_get R k (rd_set R k' v ttl r) = (if k = k' then Some v else rd_get R k r)"
    "fst (rd_incr R k r) = rd_stored R k r + 1"
    "rd_get R k (snd (rd_incr R k' r)) = (if k = k' then Some (rd_stored R k r + 1) else rd_get R k r)"
    "fst (rd_decr R k r) = rd_stored R k r - 1"
    "rd_get R k (snd (rd_decr R k' r)) = (if k = k' then Some (rd_stored R k r - 1) else rd_get R k r)"
    "s > 0 \<Longrightarrow> rd_get R k (rd_expire R k' s r) = rd_get R k r"
    "rd_get R k (rd_del R k' r) = (if k = k' then None else rd_get R k r)"
  using assms by (simp_all add: redis_laws_def)

lemma SLOT_TTL_pos [simp]: "SLOT_TTL_SECONDS > 0"
  by (simp add: SLOT_TTL_SECONDS_def)

text \<open>What each piece does to what is stored, under the laws.\<close>

lemma take_stored:
  assumes "redis_laws R"
  shows "fst (reserve_take R a m r) = (rd_stored R (slotsKey a) r + 1 \<le> m)"
    "rd_stored R (slotsKey b) (snd (reserve_take R a m r)) =
       rd_stored R (slotsKey b) r + (if a = b then 1 else 0)"
    "rd_get R (lastPublishKey b) (snd (reserve_take R a m r)) = rd_get R (lastPublishKey b) r"
proof -
  note L = redis_lawsD [OF assms]
  obtain n r1 where i: "rd_incr R (slotsKey a) r = (n, r1)" by fastforce
  have n: "n = rd_stored R (slotsKey a) r + 1" using L(2) [of "slotsKey a" r] i by simp
  have get: "rd_get R k r1 = (if k = slotsKey a then Some (rd_stored R k r + 1) else rd_get R k r)"
    for k using L(3) [of k "slotsKey a" r] i by simp
  show "fst (reserve_take R a m r) = (rd_stored R (slotsKey a) r + 1 \<le> m)"
    by (simp add: reserve_take_def i n)
  show "rd_stored R (slotsKey b) (snd (reserve_take R a m r)) =
       rd_stored R (slotsKey b) r + (if a = b then 1 else 0)"
    by (simp add: reserve_take_def i rd_stored_def L(6) get)
  show "rd_get R (lastPublishKey b) (snd (reserve_take R a m r)) = rd_get R (lastPublishKey b) r"
    by (simp add: reserve_take_def i L(6) get)
qed

lemma undo_stored:
  assumes "redis_laws R"
  shows "rd_stored R (slotsKey b) (reserve_undo R a r) =
       rd_stored R (slotsKey b) r - (if a = b then 1 else 0)"
    "rd_get R (lastPublishKey b) (reserve_undo R a r) = rd_get R (lastPublishKey b) r"
  using redis_lawsD [OF assms] by (auto simp: reserve_undo_def rd_stored_def)

lemma release_stored:
  assumes "redis_laws R"
  shows "rd_stored R (slotsKey b) (release_slot R now a r) =
       (if a = b then max 0 (rd_stored R (slotsKey b) r - 1) else rd_stored R (slotsKey b) r)"
    "rd_get R (lastPublishKey b) (release_slot R now a r) =
       (if a = b then Some now else rd_get R (lastPublishKey b) r)"
proof -
  note L = redis_lawsD [OF assms]
  obtain rem r1 where d: "rd_decr R (slotsKey a) r = (rem, r1)" by fastforce
  have "rem = rd_stored R (slotsKey a) r - 1" using L(4) [of "slotsKey a" r] d by simp
  moreover have "rd_get R k r1 = (if k = slotsKey a then Some (rd_stored R k r - 1) else rd_get R k r)"
    for k using L(5) [of k "slotsKey a" r] d by simp
  ultimately show "rd_stored R (slotsKey b) (release_slot R now a r) =
       (if a = b then max 0 (rd_stored R (slotsKey b) r - 1) else rd_stored R (slotsKey b) r)"
    "rd_get R (lastPublishKey b) (release_slot R now a r) =
       (if a = b then Some now else rd_get R (lastPublishKey b) r)"
    by (auto simp: release_slot_def d Let_def rd_stored_def L(1))
qed

subsection \<open>One reservation at a time\<close>

lemma reserve_interval_None:
  "lms_minIntervalSeconds lms \<le> 0 \<Longrightarrow> reserve_interval R a lms now r = None"
  by (simp add: reserve_interval_def)

text \<open>
  Run alone, \<open>reserve\<close> refuses within the interval after the last release, for exactly the time
  that is left of it, touching nothing; otherwise it grants the slot if and only if the count
  is below the limit, counts it exactly when it grants it, and a later release gives the slot
  back and starts the interval again.
\<close>

theorem reserve_grants_iff:
  assumes "redis_laws R" and "reserve R deferMs now a lms r = (res, r')"
  shows "(case rd_get R (lastPublishKey a) r of
            Some t \<Rightarrow> if lms_minIntervalSeconds lms > 0 \<and> now - t < lms_minIntervalSeconds lms * 1000
                      then \<exists>wait. res = Rejected wait MinInterval \<and> wait > 0 \<and> r' = r
                             \<and> now + wait = t + lms_minIntervalSeconds lms * 1000
                      else res = (if rd_stored R (slotsKey a) r < lms_maxConcurrent lms then Reserved
                                  else Rejected deferMs MaxConcurrent)
          | None \<Rightarrow> res = (if rd_stored R (slotsKey a) r < lms_maxConcurrent lms then Reserved
                           else Rejected deferMs MaxConcurrent))
    \<and> (\<forall>b. rd_stored R (slotsKey b) r' =
             rd_stored R (slotsKey b) r + (if res = Reserved \<and> b = a then 1 else 0))
    \<and> (res = Reserved \<longrightarrow> rd_stored R (slotsKey a) r \<ge> 0 \<longrightarrow>
         rd_stored R (slotsKey a) (release_slot R later a r') = rd_stored R (slotsKey a) r
         \<and> rd_get R (lastPublishKey a) (release_slot R later a r') = Some later)"
proof (cases "reserve_interval R a lms now r")
  case (Some wait)
  then obtain t where "rd_get R (lastPublishKey a) r = Some t" "lms_minIntervalSeconds lms > 0"
    "now - t < lms_minIntervalSeconds lms * 1000" "wait = lms_minIntervalSeconds lms * 1000 - (now - t)"
    by (auto simp: reserve_interval_def Let_def split: if_splits option.splits)
  moreover have "res = Rejected wait MinInterval" "r' = r"
    using assms(2) Some by (simp_all add: reserve_def)
  ultimately show ?thesis by simp
next
  case None
  note T = take_stored [OF assms(1)] and U = undo_stored [OF assms(1)] and L = release_stored [OF assms(1)]
  obtain ok r1 where t: "reserve_take R a (lms_maxConcurrent lms) r = (ok, r1)" by fastforce
  have ok: "ok = (rd_stored R (slotsKey a) r < lms_maxConcurrent lms)"
    using T(1) [of a "lms_maxConcurrent lms" r] t by auto
  have r1: "rd_stored R (slotsKey b) r1 = rd_stored R (slotsKey b) r + (if a = b then 1 else 0)" for b
    using T(2) [of b a "lms_maxConcurrent lms" r] t by simp
  have res: "res = (if ok then Reserved else Rejected deferMs MaxConcurrent)"
    "r' = (if ok then r1 else reserve_undo R a r1)"
    using assms(2) None t by (auto simp: reserve_def split: bool.splits)
  have interval: "\<not> (lms_minIntervalSeconds lms > 0 \<and> now - t < lms_minIntervalSeconds lms * 1000)"
    if "rd_get R (lastPublishKey a) r = Some t" for t
    using None that by (auto simp: reserve_interval_def Let_def split: if_splits)
  have stored: "rd_stored R (slotsKey b) r' =
      rd_stored R (slotsKey b) r + (if res = Reserved \<and> b = a then 1 else 0)" for b
    using res r1 U(1) by auto
  with res ok interval L show ?thesis by (auto split: option.splits)
qed

lemma reserve_stored:
  assumes "redis_laws R" and "reserve R deferMs now a lms r = (res, r')"
  shows "rd_stored R (slotsKey b) r' = rd_stored R (slotsKey b) r + (if res = Reserved \<and> b = a then 1 else 0)"
proof -
  obtain ok r1 where t: "reserve_take R a (lms_maxConcurrent lms) r = (ok, r1)" by fastforce
  have "rd_stored R (slotsKey b) r1 = rd_stored R (slotsKey b) r + (if a = b then 1 else 0)"
    using take_stored(2) [OF assms(1), of b a "lms_maxConcurrent lms" r] t by simp
  then show ?thesis
    using assms(2) t undo_stored(1) [OF assms(1), of b a r1]
    by (auto simp: reserve_def split: option.splits bool.splits)
qed

text \<open>Redis as a map from keys to integers, for the examples.\<close>

definition map_redis :: "(string \<Rightarrow> int option) redis" where
  "map_redis =
     \<lparr>rd_get = (\<lambda>k r. r k), rd_set = (\<lambda>k v ttl r. r(k := Some v)),
      rd_incr = (\<lambda>k r. let n = (case r k of Some m \<Rightarrow> m | None \<Rightarrow> 0) + 1 in (n, r(k := Some n))),
      rd_decr = (\<lambda>k r. let n = (case r k of Some m \<Rightarrow> m | None \<Rightarrow> 0) - 1 in (n, r(k := Some n))),
      rd_expire = (\<lambda>k s r. r), rd_del = (\<lambda>k r. r(k := None))\<rparr>"

lemma map_redis_laws: "redis_laws map_redis"
  by (simp add: redis_laws_def map_redis_def rd_stored_def Let_def)

lemma ex_empty_redis: "rd_get map_redis k (\<lambda>k. None) = None"
  by (simp add: map_redis_def)

lemma ex_reserve:
  "\<exists>r'. reserve map_redis 5000 100000 ''a1'' \<lparr>lms_maxConcurrent = 1, lms_minIntervalSeconds = 60\<rparr>
     (\<lambda>k. None) = (Reserved, r')"
  by (simp add: reserve_def reserve_interval_def reserve_take_def map_redis_def)

theorem reserve_grants_iff_witness:
  "\<exists>r'. reserve map_redis 5000 100000 ''a1'' \<lparr>lms_maxConcurrent = 1, lms_minIntervalSeconds = 60\<rparr>
     (\<lambda>k. None) = (Reserved, r') \<and> rd_stored map_redis (slotsKey ''a1'') r' = 1"
proof -
  obtain r' where eq: "reserve map_redis 5000 100000 ''a1''
     \<lparr>lms_maxConcurrent = 1, lms_minIntervalSeconds = 60\<rparr> (\<lambda>k. None) = (Reserved, r')"
    using ex_reserve by blast
  have "rd_stored map_redis (slotsKey ''a1'') (\<lambda>k. None) = 0"
    by (simp add: rd_stored_def map_redis_def)
  with reserve_grants_iff [OF map_redis_laws eq] eq show ?thesis by auto
qed

subsection \<open>Several workers\<close>

text \<open>
  The protocol the workers run between them. A state holds Redis and, one entry per
  reservation, the accounts whose slot was granted and not yet given back, and those whose
  INCR went over the limit and has not been taken back. A step is what one worker does without
  another in between: the INCR of \<open>reserve\<close>, its DECR after a refusal, a release, a heartbeat.
  \<open>maxc\<close> is each account's limit. Expiry of the counter is not a step: a heartbeat
  refreshes it every minute.
\<close>

record 'r limiter =
  lim_redis :: 'r
  lim_granted :: "string list"
  lim_refused :: "string list"

inductive limiter_step ::
  "'r redis \<Rightarrow> (string \<Rightarrow> int) \<Rightarrow> 'r limiter \<Rightarrow> 'r limiter \<Rightarrow> bool" for R maxc where
  step_take: "reserve_take R a (maxc a) (lim_redis s) = (ok, r') \<Longrightarrow>
     limiter_step R maxc s
       (if ok then s\<lparr>lim_redis := r', lim_granted := a # lim_granted s\<rparr>
        else s\<lparr>lim_redis := r', lim_refused := a # lim_refused s\<rparr>)"
| step_undo: "a \<in> set (lim_refused s) \<Longrightarrow>
     limiter_step R maxc s
       (s\<lparr>lim_redis := reserve_undo R a (lim_redis s), lim_refused := remove1 a (lim_refused s)\<rparr>)"
| step_release: "a \<in> set (lim_granted s) \<Longrightarrow>
     limiter_step R maxc s
       (s\<lparr>lim_redis := release_slot R now a (lim_redis s), lim_granted := remove1 a (lim_granted s)\<rparr>)"
| step_touch: "limiter_step R maxc s (s\<lparr>lim_redis := touch R a (lim_redis s)\<rparr>)"

inductive_cases limiter_stepE: "limiter_step R maxc s t"

definition limiter_init :: "'r redis \<Rightarrow> 'r limiter \<Rightarrow> bool" where
  "limiter_init R s = (redis_laws R \<and> lim_granted s = [] \<and> lim_refused s = []
     \<and> (\<forall>a. rd_get R (slotsKey a) (lim_redis s) = None))"

definition limiter_inv :: "'r redis \<Rightarrow> (string \<Rightarrow> int) \<Rightarrow> 'r limiter \<Rightarrow> bool" where
  "limiter_inv R maxc s = (redis_laws R
     \<and> (\<forall>a. rd_stored R (slotsKey a) (lim_redis s)
             = int (count_list (lim_granted s) a) + int (count_list (lim_refused s) a)
           \<and> int (count_list (lim_granted s) a) \<le> max 0 (maxc a)))"

lemma int_count_remove1:
  "a \<in> set xs \<Longrightarrow> int (count_list (remove1 a xs) b) = int (count_list xs b) - (if a = b then 1 else 0)"
proof (induction xs)
  case (Cons x xs)
  show ?case
  proof (cases "x = a")
    case False
    with Cons show ?thesis by auto
  qed simp
qed simp

lemma count_list_pos: "a \<in> set xs \<Longrightarrow> count_list xs a \<ge> 1"
  by (induction xs) auto

lemma touch_get: "redis_laws R \<Longrightarrow> rd_get R k (touch R a r) = rd_get R k r"
  by (simp add: touch_def redis_lawsD(6))

lemma limiter_inv_step:
  assumes "limiter_inv R maxc s" and "limiter_step R maxc s t"
  shows "limiter_inv R maxc t"
proof -
  have laws: "redis_laws R" using assms(1) by (simp add: limiter_inv_def)
  note T = take_stored [OF laws] and U = undo_stored [OF laws] and L = release_stored [OF laws]
  have inv: "rd_stored R (slotsKey b) (lim_redis s)
      = int (count_list (lim_granted s) b) + int (count_list (lim_refused s) b)"
    "int (count_list (lim_granted s) b) \<le> max 0 (maxc b)" for b
    using assms(1) by (auto simp: limiter_inv_def)
  from assms(2) show ?thesis
  proof (cases rule: limiter_step.cases)
    case (step_take a ok r')
    have ok: "ok = (rd_stored R (slotsKey a) (lim_redis s) + 1 \<le> maxc a)"
      using T(1) [of a "maxc a" "lim_redis s"] step_take(2) by simp
    have "rd_stored R (slotsKey b) r' = rd_stored R (slotsKey b) (lim_redis s) + (if a = b then 1 else 0)" for b
      using T(2) [of b a "maxc a" "lim_redis s"] step_take(2) by simp
    with ok inv laws step_take(1) show ?thesis by (auto simp: limiter_inv_def)
  next
    case (step_undo a)
    have "int (count_list (remove1 a (lim_refused s)) b)
        = int (count_list (lim_refused s) b) - (if a = b then 1 else 0)" for b
      using step_undo(2) by (rule int_count_remove1)
    with inv laws U(1) step_undo(1) show ?thesis
      by (simp add: limiter_inv_def del: List.count_list_remove1)
  next
    case (step_release a now)
    have "rd_stored R (slotsKey a) (lim_redis s) \<ge> 1"
      using count_list_pos [OF step_release(2)] inv(1) [of a] by linarith
    have count: "int (count_list (remove1 a (lim_granted s)) b)
        = int (count_list (lim_granted s) b) - (if a = b then 1 else 0)" for b
      using step_release(2) by (rule int_count_remove1)
    have "rd_stored R (slotsKey b) (release_slot R now a (lim_redis s))
        = rd_stored R (slotsKey b) (lim_redis s) - (if a = b then 1 else 0)" for b
      using L(1) \<open>rd_stored R (slotsKey a) (lim_redis s) \<ge> 1\<close> by auto
    moreover have "int (count_list (lim_granted s) b) - (if a = b then 1 else 0) \<le> max 0 (maxc b)" for b
      using inv(2) [of b] by simp
    ultimately show ?thesis using inv(1) laws step_release(1) count
      by (simp add: limiter_inv_def del: List.count_list_remove1)
next
    case (step_touch a)
    with inv laws show ?thesis by (simp add: limiter_inv_def rd_stored_def touch_get)
  qed
qed

interpretation limiter: inv_system "limiter_init R" "limiter_step R maxc" "limiter_inv R maxc" for R maxc
proof
  show "limiter_inv R maxc s" if "limiter_init R s" for s
    using that by (simp add: limiter_init_def limiter_inv_def rd_stored_def)
  show "limiter_inv R maxc t" if "limiter_inv R maxc s" "limiter_step R maxc s t" for s t
    using that by (rule limiter_inv_step)
qed

text \<open>
  C2. However the workers interleave, an account never has more reservations granted than its
  limit, and the counter is exactly the reservations granted plus the refusals not yet taken
  back: nothing leaks.
\<close>

theorem limiter_mutual_exclusion:
  assumes "reach (limiter_init R) (limiter_step R maxc) s" and "maxc a \<ge> 0"
  shows "int (count_list (lim_granted s) a) \<le> maxc a
    \<and> rd_stored R (slotsKey a) (lim_redis s)
        = int (count_list (lim_granted s) a) + int (count_list (lim_refused s) a)"
proof -
  have "int (count_list (lim_granted s) a) \<le> max 0 (maxc a)"
    "rd_stored R (slotsKey a) (lim_redis s)
        = int (count_list (lim_granted s) a) + int (count_list (lim_refused s) a)"
    using limiter.reach_inv [OF assms(1)] unfolding limiter_inv_def by blast+
  with assms(2) show ?thesis by simp
qed

theorem limiter_mutual_exclusion_witness:
  "\<exists>s. reach (limiter_init map_redis) (limiter_step map_redis (\<lambda>a. 1)) s
     \<and> lim_granted s = [''a1''] \<and> rd_stored map_redis (slotsKey ''a1'') (lim_redis s) = 1"
proof -
  let ?s = "\<lparr>lim_redis = (\<lambda>k. None), lim_granted = [], lim_refused = []\<rparr>"
  let ?t = "?s\<lparr>lim_redis := (\<lambda>k. None)(slotsKey ''a1'' := Some 1), lim_granted := [''a1'']\<rparr>"
  have init: "reach (limiter_init map_redis) (limiter_step map_redis (\<lambda>a. 1)) ?s"
    by (rule reach_init) (simp add: limiter_init_def map_redis_laws ex_empty_redis)
  have "reserve_take map_redis ''a1'' 1 (lim_redis ?s)
      = (True, (\<lambda>k. None)(slotsKey ''a1'' := Some 1))"
    by (simp add: reserve_take_def map_redis_def)
  from step_take [where s = ?s and maxc = "\<lambda>a. 1", OF this]
  have "limiter_step map_redis (\<lambda>a. 1) ?s ?t" by simp
  with init have "reach (limiter_init map_redis) (limiter_step map_redis (\<lambda>a. 1)) ?t"
    by (rule reach_step)
  from limiter_mutual_exclusion [OF this, of "''a1''"] this show ?thesis by (intro exI [of _ ?t]) simp
qed

subsection \<open>Reconciling after a crash\<close>

lemma reconcile_one_get:
  assumes "redis_laws R"
  shows "rd_stored R (slotsKey a) (reconcile_one R running a r) = actual_running running a"
    "k \<noteq> slotsKey a \<Longrightarrow> rd_get R k (reconcile_one R running a r) = rd_get R k r"
  by (simp_all add: reconcile_one_def Let_def rd_stored_def redis_lawsD [OF assms])

text \<open>
  After reconciling, the counter of every account listed is the number of its jobs that run
  according to the database, whatever was stored; nothing else is written, and the
  result is the number of counters that were wrong.
\<close>

theorem reconcile_repairs:
  assumes "redis_laws R" and "distinct as" and "reconcileAccountSlots R running as r = (n, r')"
  shows "(\<forall>a \<in> set as. rd_stored R (slotsKey a) r' = int (case running a of Some m \<Rightarrow> m | None \<Rightarrow> 0))
    \<and> (\<forall>k. k \<notin> slotsKey ` set as \<longrightarrow> rd_get R k r' = rd_get R k r)
    \<and> n = length [a \<leftarrow> as. rd_stored R (slotsKey a) r \<noteq> int (case running a of Some m \<Rightarrow> m | None \<Rightarrow> 0)]"
  unfolding actual_running_def [symmetric]
  using assms(2,3)
proof (induction as arbitrary: r n r')
  case (Cons a as)
  define r1 where "r1 = reconcile_one R running a r"
  obtain m where run: "reconcileAccountSlots R running as r1 = (m, r')"
    and n: "n = (if rd_stored R (slotsKey a) r = actual_running running a then m else m + 1)"
    using Cons.prems(2) by (auto simp: r1_def split: prod.splits)
  have d: "distinct as" "a \<notin> set as" using Cons.prems(1) by auto
  note IH = Cons.IH [OF d(1) run] and one = reconcile_one_get [OF assms(1), where a = a and r = r and running = running, folded r1_def]
  have "slotsKey a \<notin> slotsKey ` set as" using d(2) by auto
  then have "rd_stored R (slotsKey a) r' = actual_running running a"
    using IH one(1) by (simp add: rd_stored_def)
  moreover have "[b \<leftarrow> as. rd_stored R (slotsKey b) r1 \<noteq> actual_running running b]
      = [b \<leftarrow> as. rd_stored R (slotsKey b) r \<noteq> actual_running running b]"
  proof (rule filter_cong)
    fix b assume "b \<in> set as"
    with d(2) have "slotsKey b \<noteq> slotsKey a" by auto
    then show "(rd_stored R (slotsKey b) r1 \<noteq> actual_running running b)
        = (rd_stored R (slotsKey b) r \<noteq> actual_running running b)"
      using one(2) by (simp add: rd_stored_def)
  qed simp
  moreover have "rd_get R k r' = rd_get R k r" if "k \<notin> slotsKey ` set (a # as)" for k
    using IH one(2) that by simp
  ultimately show ?case using IH n by simp
qed simp

theorem reconcile_repairs_witness:
  "rd_stored map_redis (slotsKey ''a1'') (snd (reconcileAccountSlots map_redis (\<lambda>a. None) [''a1'']
       ((\<lambda>k. None)(slotsKey ''a1'' := Some 3)))) = 0"
proof -
  let ?r = "(\<lambda>k. None)(slotsKey ''a1'' := Some 3)"
  obtain n r' where eq: "reconcileAccountSlots map_redis (\<lambda>a. None) [''a1''] ?r = (n, r')" by fastforce
  have "distinct [''a1'']" by simp
  from reconcile_repairs [OF map_redis_laws this eq]
  have "rd_stored map_redis (slotsKey ''a1'') r' = 0" by simp
  with eq show ?thesis by (metis snd_conv)
qed

end
