(* ===== verification/Human_Signal.thy ===== *)
theory Human_Signal
  imports Schema
begin

text \<open>
  \<open>lib/onboarding/signal.ts\<close>: the wait for the operator. A worker blocks on a Redis list in short
  pops and reads the job row between them. The parameters are the outside world as the loop
  sees it: the clock, the abort signal, one blocking pop (during which other processes run, so
  it maps a world to a world) and the pause after a pop that failed.
\<close>

datatype popped = Popped | PopTimeout | PopThrew

record 'q wait_env =
  we_clock :: "'q world \<Rightarrow> ms"
  we_aborted :: "'q world \<Rightarrow> bool"
  we_pop :: "string \<Rightarrow> rat \<Rightarrow> 'q world \<Rightarrow> popped \<times> 'q world"
  we_sleep :: "'q world \<Rightarrow> 'q world"
  we_clear :: "string \<Rightarrow> 'q world \<Rightarrow> 'q world" \<comment> \<open>\<open>DEL key\<close>, its error ignored\<close>

definition signalKey :: "string \<Rightarrow> string" where
  "signalKey i = ''onboarding:signal:'' @ i"

definition BLOCK_SECONDS :: rat where
  "BLOCK_SECONDS = 2"

definition block_seconds :: "rat \<Rightarrow> ms \<Rightarrow> rat" where
  "block_seconds configured remaining = min configured (max configured (of_int remaining / 1000))"

text \<open>\<open>Math.round(ms / 1000)\<close>.\<close>

definition round_seconds :: "ms \<Rightarrow> int" where
  "round_seconds t = (t + 500) div 1000"

definition clearHumanSignal :: "'q wait_env \<Rightarrow> string \<Rightarrow> 'q world \<Rightarrow> 'q world" where
  "clearHumanSignal E i w = we_clear E (signalKey i) w"

text \<open>\<open>None\<close>: the loop does not end.\<close>

partial_function (option) wait_loop ::
  "'q wait_env \<Rightarrow> ms \<Rightarrow> ms \<Rightarrow> string \<Rightarrow> 'q world \<Rightarrow> (human_outcome \<times> 'q world) option" where
  "wait_loop E deadline timeoutMs i w =
     (if we_aborted E w then Some (HumanCancelled ''The worker is shutting down'', w)
      else case find_job i w of
             None \<Rightarrow> Some (HumanCancelled ''The job no longer exists'', w)
           | Some j \<Rightarrow>
               (case job_humanConfirmedAt j of
                  Some t \<Rightarrow> Some (Confirmed t, w)
                | None \<Rightarrow>
                    if job_status j = CANCELLED
                    then Some (HumanCancelled ''Cancelled from the dashboard'', w)
                    else if deadline - we_clock E w \<le> 0
                    then Some (HumanExpired
                          (''Nobody confirmed within '' @ show_int (round_seconds timeoutMs) @ ''s''), w)
                    else (case we_pop E (signalKey i)
                                 (block_seconds BLOCK_SECONDS (deadline - we_clock E w)) w of
                            (PopThrew, w1) \<Rightarrow>
                              if we_aborted E w1
                              then Some (HumanCancelled ''The worker is shutting down'', w1)
                              else wait_loop E deadline timeoutMs i (we_sleep E w1)
                          | (Popped, w1) \<Rightarrow> Some (Confirmed (we_clock E w1), w1)
                          | (PopTimeout, w1) \<Rightarrow> wait_loop E deadline timeoutMs i w1)))"

definition waitForHuman ::
  "'q wait_env \<Rightarrow> ms \<Rightarrow> string \<Rightarrow> 'q world \<Rightarrow> (human_outcome \<times> 'q world) option" where
  "waitForHuman E timeoutMs i w = wait_loop E (we_clock E w + timeoutMs) timeoutMs i w"

text \<open>Time passes in a pop that ends without a value, and in one that fails with its pause.\<close>

definition time_passes :: "'q wait_env \<Rightarrow> bool" where
  "time_passes E =
     (\<forall>k b w w1. (we_pop E k b w = (PopTimeout, w1) \<longrightarrow> we_clock E w < we_clock E w1)
        \<and> (we_pop E k b w = (PopThrew, w1) \<longrightarrow> we_clock E w < we_clock E (we_sleep E w1)))"

subsection \<open>The wait ends\<close>

lemma wait_loop_returns:
  assumes "time_passes E" and "nat (deadline - we_clock E w) \<le> n"
  shows "\<exists>r. wait_loop E deadline timeoutMs i w = Some r"
  using assms(2)
proof (induction n arbitrary: w)
  case 0
  then show ?case
    by (subst wait_loop.simps) (auto split: option.splits)
next
  case (Suc n)
  show ?case
  proof (cases "deadline - we_clock E w \<le> 0")
    case True
    then show ?thesis by (subst wait_loop.simps) (auto split: option.splits)
  next
    case False
    obtain p w1 where pop: "we_pop E (signalKey i)
        (block_seconds BLOCK_SECONDS (deadline - we_clock E w)) w = (p, w1)" by fastforce
    have "\<exists>r. wait_loop E deadline timeoutMs i w1 = Some r" if "p = PopTimeout"
      using that pop assms(1) False Suc.prems
      by (intro Suc.IH) (fastforce simp: time_passes_def nat_le_iff)
    moreover have "\<exists>r. wait_loop E deadline timeoutMs i (we_sleep E w1) = Some r" if "p = PopThrew"
      using that pop assms(1) False Suc.prems
      by (intro Suc.IH) (fastforce simp: time_passes_def nat_le_iff)
    ultimately show ?thesis
      by (subst wait_loop.simps) (cases p; simp add: pop split: option.splits)
  qed
qed

text \<open>
  C15. The wait always ends: whatever the other processes do, as long as time passes in the pops,
  \<open>waitForHuman\<close> returns an outcome.
\<close>

theorem waitForHuman_returns:
  assumes "time_passes E"
  shows "\<exists>out w'. waitForHuman E timeoutMs i w = Some (out, w')"
proof -
  obtain r where "wait_loop E (we_clock E w + timeoutMs) timeoutMs i w = Some r"
    using wait_loop_returns [OF assms order_refl] by blast
  then show ?thesis by (cases r) (simp add: waitForHuman_def)
qed

text \<open>A world whose clock is its queue, moved on by each pop, where nobody ever answers.\<close>

definition silent_env :: "int wait_env" where
  "silent_env = \<lparr>we_clock = w_queue, we_aborted = (\<lambda>w. False),
     we_pop = (\<lambda>k b w. (PopTimeout, w\<lparr>w_queue := w_queue w + 2000\<rparr>)), we_sleep = (\<lambda>w. w),
     we_clear = (\<lambda>k w. w)\<rparr>"

lemma silent_env_passes: "time_passes silent_env"
  by (simp add: time_passes_def silent_env_def)

theorem waitForHuman_returns_witness:
  "\<exists>out w'. waitForHuman silent_env 5000 ''j1''
     \<lparr>w_jobs = [ex_job], w_accounts = [], w_videos = [], w_proxies = [], w_logs = [], w_queue = 0\<rparr>
     = Some (out, w')"
  by (rule waitForHuman_returns [OF silent_env_passes])

subsection \<open>What an outcome means\<close>

definition outcome_ok :: "'q wait_env \<Rightarrow> ms \<Rightarrow> string \<Rightarrow> human_outcome \<Rightarrow> 'q world \<Rightarrow> bool" where
  "outcome_ok E deadline i out w' =
     (case out of
        Confirmed t \<Rightarrow> (\<exists>j. find_job i w' = Some j \<and> job_humanConfirmedAt j = Some t)
                      \<or> (\<exists>b v. we_pop E (signalKey i) b v = (Popped, w') \<and> t = we_clock E w')
      | HumanCancelled r \<Rightarrow> we_aborted E w' \<or> find_job i w' = None
                      \<or> (\<exists>j. find_job i w' = Some j \<and> job_status j = CANCELLED)
      | HumanExpired r \<Rightarrow> deadline \<le> we_clock E w'
                      \<and> (\<exists>j. find_job i w' = Some j \<and> job_humanConfirmedAt j = None
                            \<and> job_status j \<noteq> CANCELLED))"

lemma wait_loop_sound:
  "wait_loop E deadline timeoutMs i w = Some r \<Longrightarrow> outcome_ok E deadline i (fst r) (snd r)"
proof (rule wait_loop.raw_induct [where P = "\<lambda>E d t i w r. outcome_ok E d i (fst r) (snd r)"])
  show "wait_loop E deadline timeoutMs i w = Some r \<Longrightarrow> wait_loop E deadline timeoutMs i w = Some r" .
qed (auto simp: outcome_ok_def split: if_splits option.splits prod.splits popped.splits)

text \<open>
  An outcome is what it says. Confirmed: the row carries the operator's confirmation of that
  instant, or the signal was popped. Cancelled: the worker is stopping, the row is gone or
  somebody cancelled it. Expired: the timeout has passed and the job stands, unconfirmed.
\<close>

theorem waitForHuman_outcome:
  assumes "waitForHuman E timeoutMs i w = Some (out, w')"
  shows "case out of
        Confirmed t \<Rightarrow> (\<exists>j. find_job i w' = Some j \<and> job_humanConfirmedAt j = Some t)
                      \<or> (\<exists>b v. we_pop E (signalKey i) b v = (Popped, w') \<and> t = we_clock E w')
      | HumanCancelled r \<Rightarrow> we_aborted E w' \<or> find_job i w' = None
                      \<or> (\<exists>j. find_job i w' = Some j \<and> job_status j = CANCELLED)
      | HumanExpired r \<Rightarrow> we_clock E w + timeoutMs \<le> we_clock E w'
                      \<and> (\<exists>j. find_job i w' = Some j \<and> job_humanConfirmedAt j = None
                            \<and> job_status j \<noteq> CANCELLED)"
  using wait_loop_sound [of E "we_clock E w + timeoutMs" timeoutMs i w "(out, w')"] assms
  by (simp add: waitForHuman_def outcome_ok_def)

lemma wait_confirmed_row:
  assumes "\<not> we_aborted E w" and "find_job i w = Some j" and "job_humanConfirmedAt j = Some t"
  shows "waitForHuman E timeoutMs i w = Some (Confirmed t, w)"
  using assms by (subst waitForHuman_def, subst wait_loop.simps) simp

lemma wait_cancelled_row:
  assumes "\<not> we_aborted E w" and "find_job i w = Some j" and "job_humanConfirmedAt j = None"
    and "job_status j = CANCELLED"
  shows "waitForHuman E timeoutMs i w = Some (HumanCancelled ''Cancelled from the dashboard'', w)"
  using assms by (subst waitForHuman_def, subst wait_loop.simps) simp

definition silent_world :: "job list \<Rightarrow> int world" where
  "silent_world js = \<lparr>w_jobs = js, w_accounts = [ex_account], w_videos = [], w_proxies = [],
     w_logs = [], w_queue = 0\<rparr>"

theorem waitForHuman_outcome_witness:
  "waitForHuman silent_env 5000 ''j1'' (silent_world [ex_job\<lparr>job_humanConfirmedAt := Some 7\<rparr>])
     = Some (Confirmed 7, silent_world [ex_job\<lparr>job_humanConfirmedAt := Some 7\<rparr>])
   \<and> (\<exists>j. find_job ''j1'' (silent_world [ex_job\<lparr>job_humanConfirmedAt := Some 7\<rparr>]) = Some j
        \<and> job_humanConfirmedAt j = Some 7)"
proof -
  let ?w = "silent_world [ex_job\<lparr>job_humanConfirmedAt := Some 7\<rparr>]"
  have eq: "waitForHuman silent_env 5000 ''j1'' ?w = Some (Confirmed 7, ?w)"
    by (rule wait_confirmed_row [where j = "ex_job\<lparr>job_humanConfirmedAt := Some 7\<rparr>"])
      (simp_all add: silent_env_def silent_world_def find_job_def tfind_Cons ex_job_def)
  from waitForHuman_outcome [OF eq] eq show ?thesis by (simp add: silent_env_def)
qed

end
