(* ===== verification/Secret_Box.thy ===== *)
theory Secret_Box
  imports Publish_Errors
begin

text \<open>
  \<open>lib/crypto/secretBox.ts\<close>: credentials sealed with AES-256-GCM as iv, tag and ciphertext in one
  buffer, and opened with the primary key or a retired one. The cipher, the base64 decoder and
  the JSON codec are Node's: the fields of \<open>crypto\<close>, with their documented behaviour in
  \<open>crypto_laws\<close>. Authentication is idealised there: a key other than the sealing one
  always fails, where GCM fails with overwhelming probability.
\<close>

record crypto =
  cr_encrypt :: "bytes \<Rightarrow> bytes \<Rightarrow> bytes \<Rightarrow> bytes \<times> bytes" \<comment> \<open>key, iv, plaintext; tag, ciphertext\<close>
  cr_decrypt :: "bytes \<Rightarrow> bytes \<Rightarrow> bytes \<Rightarrow> bytes \<Rightarrow> bytes option" \<comment> \<open>key, iv, tag, ciphertext\<close>
  cr_stringify :: "js \<Rightarrow> bytes"
  cr_parse :: "bytes \<Rightarrow> js option"
  cr_base64 :: "string \<Rightarrow> bytes"
  cr_key :: string                \<comment> \<open>\<open>CREDENTIALS_KEY\<close>\<close>
  cr_keys_old :: "string option"  \<comment> \<open>\<open>CREDENTIALS_KEYS_OLD\<close>\<close>

definition IV_LENGTH :: nat where "IV_LENGTH = 12"
definition TAG_LENGTH :: nat where "TAG_LENGTH = 16"
definition KEY_LENGTH :: nat where "KEY_LENGTH = 32"

definition crypto_laws :: "crypto \<Rightarrow> bool" where
  "crypto_laws C =
     ((\<forall>k iv p. length (fst (cr_encrypt C k iv p)) = TAG_LENGTH)
      \<and> (\<forall>k iv p. cr_decrypt C k iv (fst (cr_encrypt C k iv p)) (snd (cr_encrypt C k iv p)) = Some p)
      \<and> (\<forall>k k' iv p. k' \<noteq> k \<longrightarrow> length k = KEY_LENGTH \<longrightarrow> length k' = KEY_LENGTH \<longrightarrow>
           cr_decrypt C k' iv (fst (cr_encrypt C k iv p)) (snd (cr_encrypt C k iv p)) = None))"

text \<open>A value JSON keeps: parsing what was written gives it back.\<close>

definition json_value :: "crypto \<Rightarrow> js \<Rightarrow> bool" where
  "json_value C v = (cr_parse C (cr_stringify C v) = Some v)"

datatype secret_error =
    KeyLength string nat   \<comment> \<open>the setting, the length its value decodes to\<close>
  | EnvelopeTruncated
  | Unauthenticated        \<comment> \<open>\<open>decipher.final()\<close> throws\<close>
  | NotJson

definition decodeKey :: "crypto \<Rightarrow> string \<Rightarrow> string \<Rightarrow> (secret_error, bytes) result" where
  "decodeKey C raw label =
     (let key = cr_base64 C (js_trim raw)
      in if length key \<noteq> KEY_LENGTH then Inl (KeyLength label (length key)) else Inr key)"

definition primaryKey :: "crypto \<Rightarrow> (secret_error, bytes) result" where
  "primaryKey C = decodeKey C (cr_key C) ''CREDENTIALS_KEY''"

fun decode_keys :: "crypto \<Rightarrow> nat \<Rightarrow> string list \<Rightarrow> (secret_error, bytes list) result" where
  "decode_keys C i [] = Inr []"
| "decode_keys C i (raw # raws) =
     andThen (decodeKey C raw (''CREDENTIALS_KEYS_OLD['' @ show_nat i @ '']''))
       (\<lambda>k. andThen (decode_keys C (i + 1) raws) (\<lambda>ks. Inr (k # ks)))"

definition fallbackKeys :: "crypto \<Rightarrow> (secret_error, bytes list) result" where
  "fallbackKeys C =
     (case cr_keys_old C of
        None \<Rightarrow> Inr []
      | Some raw \<Rightarrow>
          if raw = [] then Inr []
          else decode_keys C 0 [e \<leftarrow> map js_trim (js_split (CHR '','') raw). length e > 0])"

text \<open>\<open>iv\<close> is what \<open>randomBytes(12)\<close> returns.\<close>

definition seal :: "crypto \<Rightarrow> bytes \<Rightarrow> bytes \<Rightarrow> js \<Rightarrow> bytes" where
  "seal C iv key v = (case cr_encrypt C key iv (cr_stringify C v) of (tag, body) \<Rightarrow> iv @ tag @ body)"

definition openWith :: "crypto \<Rightarrow> bytes \<Rightarrow> bytes \<Rightarrow> (secret_error, js) result" where
  "openWith C envelope key =
     (let iv = take IV_LENGTH envelope;
          tag = take TAG_LENGTH (drop IV_LENGTH envelope);
          body = drop (IV_LENGTH + TAG_LENGTH) envelope
      in case cr_decrypt C key iv tag body of
           None \<Rightarrow> Inl Unauthenticated
         | Some p \<Rightarrow> (case cr_parse C p of None \<Rightarrow> Inl NotJson | Some v \<Rightarrow> Inr v))"

text \<open>The retired keys in order; \<open>None\<close> when none of them opens the envelope.\<close>

fun try_keys :: "crypto \<Rightarrow> bytes \<Rightarrow> bytes list \<Rightarrow> js option" where
  "try_keys C envelope [] = None"
| "try_keys C envelope (k # ks) =
     (case openWith C envelope k of Inr v \<Rightarrow> Some v | Inl e \<Rightarrow> try_keys C envelope ks)"

text \<open>The value, and whether a retired key opened it.\<close>

definition openDetailed :: "crypto \<Rightarrow> bytes \<Rightarrow> (secret_error, js \<times> bool) result" where
  "openDetailed C envelope =
     (if length envelope < IV_LENGTH + TAG_LENGTH then Inl EnvelopeTruncated
      else case andThen (primaryKey C) (openWith C envelope) of
             Inr v \<Rightarrow> Inr (v, False)
           | Inl primaryError \<Rightarrow>
               andThen (fallbackKeys C) (\<lambda>ks.
                 case try_keys C envelope ks of
                   Some v \<Rightarrow> Inr (v, True)
                 | None \<Rightarrow> Inl primaryError))"

definition openSecret :: "crypto \<Rightarrow> bytes \<Rightarrow> (secret_error, js) result" where
  "openSecret C envelope = andThen (openDetailed C envelope) (\<lambda>r. Inr (fst r))"

text \<open>\<open>timingSafeEqual\<close> on buffers of one length is equality.\<close>

definition safeEqual :: "string \<Rightarrow> string \<Rightarrow> bool" where
  "safeEqual a b = (if length a \<noteq> length b then False else a = b)"

subsection \<open>Round trip and rotation\<close>

lemma seal_parts:
  assumes "crypto_laws C" and "length iv = IV_LENGTH"
  shows "openWith C (seal C iv k v) k' =
     (case cr_decrypt C k' iv (fst (cr_encrypt C k iv (cr_stringify C v)))
             (snd (cr_encrypt C k iv (cr_stringify C v))) of
        None \<Rightarrow> Inl Unauthenticated
      | Some p \<Rightarrow> (case cr_parse C p of None \<Rightarrow> Inl NotJson | Some v \<Rightarrow> Inr v))"
    and "length (seal C iv k v) \<ge> IV_LENGTH + TAG_LENGTH"
proof -
  obtain tag body where e: "cr_encrypt C k iv (cr_stringify C v) = (tag, body)" by fastforce
  have "length (fst (cr_encrypt C k iv (cr_stringify C v))) = TAG_LENGTH"
    using assms(1) unfolding crypto_laws_def by blast
  then have tag: "length tag = TAG_LENGTH" by (simp add: e)
  show "openWith C (seal C iv k v) k' =
     (case cr_decrypt C k' iv (fst (cr_encrypt C k iv (cr_stringify C v)))
             (snd (cr_encrypt C k iv (cr_stringify C v))) of
        None \<Rightarrow> Inl Unauthenticated
      | Some p \<Rightarrow> (case cr_parse C p of None \<Rightarrow> Inl NotJson | Some v \<Rightarrow> Inr v))"
    by (simp add: seal_def openWith_def e tag assms(2) [symmetric] Let_def)
  show "length (seal C iv k v) \<ge> IV_LENGTH + TAG_LENGTH"
    by (simp add: seal_def e tag assms(2))
qed

lemma openWith_same:
  "crypto_laws C \<Longrightarrow> length iv = IV_LENGTH \<Longrightarrow> json_value C v \<Longrightarrow> openWith C (seal C iv k v) k = Inr v"
  by (simp add: seal_parts crypto_laws_def json_value_def)

lemma openWith_other:
  "crypto_laws C \<Longrightarrow> length iv = IV_LENGTH \<Longrightarrow> length k = KEY_LENGTH \<Longrightarrow> length k' = KEY_LENGTH
   \<Longrightarrow> k' \<noteq> k \<Longrightarrow> openWith C (seal C iv k v) k' = Inl Unauthenticated"
  by (simp add: seal_parts crypto_laws_def)

lemma decodeKey_length: "decodeKey C raw l = Inr k \<Longrightarrow> length k = KEY_LENGTH"
  by (auto simp: decodeKey_def Let_def split: if_splits)

lemma decode_keys_length: "decode_keys C i raws = Inr ks \<Longrightarrow> \<forall>k \<in> set ks. length k = KEY_LENGTH"
  by (induction C i raws arbitrary: ks rule: decode_keys.induct)
    (auto simp: andThen_Inr_iff dest: decodeKey_length)

lemma fallbackKeys_length: "fallbackKeys C = Inr ks \<Longrightarrow> \<forall>k \<in> set ks. length k = KEY_LENGTH"
  by (auto simp: fallbackKeys_def split: option.splits if_splits dest: decode_keys_length)

lemma try_keys_sealed:
  assumes "crypto_laws C" "length iv = IV_LENGTH" "json_value C v" "length k = KEY_LENGTH"
    and "\<forall>x \<in> set ks. length x = KEY_LENGTH"
  shows "try_keys C (seal C iv k v) ks = (if k \<in> set ks then Some v else None)"
  using assms(5)
proof (induction ks)
  case (Cons x xs)
  then show ?case
    using openWith_same [OF assms(1-3)] openWith_other [OF assms(1,2,4)] by (cases "x = k") auto
qed simp

lemma openWith_sealed:
  assumes "crypto_laws C" and "length iv = IV_LENGTH" and "json_value C v" and "length k = KEY_LENGTH"
    and "length p = KEY_LENGTH"
  shows "openWith C (seal C iv k v) p = (if k = p then Inr v else Inl Unauthenticated)"
  using openWith_same [OF assms(1-3)] openWith_other [OF assms(1,2,4,5)] by auto

lemma openDetailed_sealed_primary:
  assumes "crypto_laws C" and "length iv = IV_LENGTH" and "json_value C v" and "length k = KEY_LENGTH"
    and "primaryKey C = Inr k"
  shows "openDetailed C (seal C iv k v) = Inr (v, False)"
  using seal_parts(2) [OF assms(1,2)] openWith_sealed [OF assms(1-4) assms(4)] assms(5)
  by (simp add: openDetailed_def not_less [symmetric])

text \<open>
  C16. A value sealed under a key opens with the settings in force later exactly when that key is
  the primary or a retired one, and is the value that was sealed; which of the two it was is
  reported, so the record can be sealed again. With neither, the primary key's failure is reported.
\<close>

theorem open_sealed:
  assumes "crypto_laws C" and "length iv = IV_LENGTH" and "json_value C v" and "length k = KEY_LENGTH"
    and "primaryKey C = Inr p" and "fallbackKeys C = Inr old"
  shows "openDetailed C (seal C iv k v) =
     (if k = p then Inr (v, False) else if k \<in> set old then Inr (v, True) else Inl Unauthenticated)"
proof -
  have "length p = KEY_LENGTH" using assms(5) by (auto simp: primaryKey_def dest: decodeKey_length)
  then have "openWith C (seal C iv k v) p = (if k = p then Inr v else Inl Unauthenticated)"
    using openWith_sealed [OF assms(1-4)] by blast
  moreover have "\<not> length (seal C iv k v) < IV_LENGTH + TAG_LENGTH"
    using seal_parts(2) [OF assms(1,2)] by (simp add: not_less)
  ultimately show ?thesis
    using try_keys_sealed [OF assms(1-4) fallbackKeys_length [OF assms(6)]] assms(5,6)
    by (simp add: openDetailed_def)
qed

definition char_byte :: "char \<Rightarrow> 8 word" where
  "char_byte c = word_of_nat (of_char c)"

definition byte_char :: "8 word \<Rightarrow> char" where
  "byte_char b = char_of (unat b)"

lemma byte_char_byte [simp]: "byte_char (char_byte c) = c"
proof -
  have "(of_char c :: nat) < 256" by simp
  then show ?thesis by (simp add: byte_char_def char_byte_def unat_of_nat)
qed

lemma char_byte_inj [simp]: "char_byte c = char_byte d \<longleftrightarrow> c = d"
  by (metis byte_char_byte)

text \<open>A cipher that writes the key before the plaintext, and keys spelt as they are.\<close>

definition toy_crypto :: "string \<Rightarrow> string option \<Rightarrow> crypto" where
  "toy_crypto key old =
     \<lparr>cr_encrypt = (\<lambda>k iv p. (replicate 16 0, k @ p)),
      cr_decrypt = (\<lambda>k iv tag c. if take (length k) c = k then Some (drop (length k) c) else None),
      cr_stringify = (\<lambda>v. case v of JsStr s \<Rightarrow> map char_byte s | _ \<Rightarrow> []),
      cr_parse = (\<lambda>b. Some (JsStr (map byte_char b))),
      cr_base64 = map char_byte, cr_key = key, cr_keys_old = old\<rparr>"

lemma toy_crypto_laws: "crypto_laws (toy_crypto key old)"
  by (auto simp: crypto_laws_def toy_crypto_def TAG_LENGTH_def)

lemma toy_json: "json_value (toy_crypto key old) (JsStr s)"
  by (simp add: json_value_def toy_crypto_def comp_def)

lemma toy_primaryKey:
  assumes "length key = KEY_LENGTH" and "js_trim key = key"
  shows "primaryKey (toy_crypto key old) = Inr (map char_byte key)"
  using assms by (simp add: primaryKey_def decodeKey_def toy_crypto_def)

theorem open_sealed_witness:
  "openDetailed (toy_crypto (replicate 32 CHR ''n'') (Some (replicate 32 CHR ''o'')))
     (seal (toy_crypto (replicate 32 CHR ''n'') (Some (replicate 32 CHR ''o'')))
        (replicate 12 0) (map char_byte (replicate 32 CHR ''o'')) (JsStr ''pw'')) = Inr (JsStr ''pw'', True)"
proof -
  let ?C = "toy_crypto (replicate 32 CHR ''n'') (Some (replicate 32 CHR ''o''))"
  have "primaryKey ?C = Inr (map char_byte (replicate 32 CHR ''n''))"
    by (simp add: primaryKey_def decodeKey_def toy_crypto_def KEY_LENGTH_def js_trim_def js_ws_def
        numeral_eq_Suc)
  moreover have "fallbackKeys ?C = Inr [map char_byte (replicate 32 CHR ''o'')]"
    by (simp add: fallbackKeys_def decodeKey_def toy_crypto_def KEY_LENGTH_def js_trim_def js_ws_def
        numeral_eq_Suc)
  ultimately show ?thesis
    using open_sealed [OF toy_crypto_laws _ toy_json, of "replicate 12 0" "map char_byte (replicate 32 CHR ''o'')"
        "replicate 32 CHR ''n''" "Some (replicate 32 CHR ''o'')"]
    by (simp add: IV_LENGTH_def KEY_LENGTH_def numeral_eq_Suc)
qed

lemma safeEqual_iff: "safeEqual a b = (a = b)"
  by (auto simp: safeEqual_def)

end
