(* ===== verification/Proxy_Config.thy ===== *)
theory Proxy_Config
  imports Secret_Box Schema
begin

text \<open>
  \<open>lib/proxy/config.ts\<close>: what a proxy is, its URL, and the rules its fields obey. The platform's
  URL parser, its time-zone database and its number parser are the fields of \<open>web\<close>. The
  field schemas are functions that return the parsed value, or \<open>None\<close> where the schema
  reports an issue; the texts of the issues are not modelled. A raw field is \<open>None\<close> when the key
  is absent and \<open>Some None\<close> when it is null.
\<close>

record web =
  web_hostname :: "string \<Rightarrow> string option"  \<comment> \<open>\<open>new URL('http://' + s).hostname\<close>; \<open>None\<close>: it throws\<close>
  web_zone :: "string \<Rightarrow> bool"              \<comment> \<open>\<open>Intl.DateTimeFormat\<close> takes the zone\<close>
  web_url :: "string \<Rightarrow> (string \<times> string \<times> string \<times> string) option"
    \<comment> \<open>\<open>new URL('http://' + s)\<close>: hostname, port, username, password\<close>
  web_integer :: "string \<Rightarrow> int option"      \<comment> \<open>\<open>Number(s)\<close>, when it is an integer\<close>

subsection \<open>Percent encoding\<close>

definition hex_digit :: "nat \<Rightarrow> char" where
  "hex_digit n = char_of (if n < 10 then 48 + n else 55 + n)"

definition hex_byte :: "nat \<Rightarrow> string" where
  "hex_byte n = [CHR ''%'', hex_digit (n div 16), hex_digit (n mod 16)]"

definition uri_unreserved :: "char \<Rightarrow> bool" where
  "uri_unreserved c =
     (let n = of_char c :: nat
      in 65 \<le> n \<and> n \<le> 90 \<or> 97 \<le> n \<and> n \<le> 122 \<or> 48 \<le> n \<and> n \<le> 57 \<or> c \<in> set ''-_.!~*()'' \<or> n = 39)"

text \<open>The code units below 256: one UTF-8 byte below 128, two from there on.\<close>

definition encode_char :: "char \<Rightarrow> string" where
  "encode_char c =
     (let n = of_char c :: nat
      in if uri_unreserved c then [c]
         else if n < 128 then hex_byte n
         else hex_byte (192 + n div 64) @ hex_byte (128 + n mod 64))"

definition encodeURIComponent :: "string \<Rightarrow> string" where
  "encodeURIComponent s = concat (map encode_char s)"

definition hex_value :: "char \<Rightarrow> nat option" where
  "hex_value c =
     (let n = of_char c :: nat
      in if 48 \<le> n \<and> n \<le> 57 then Some (n - 48)
         else if 65 \<le> n \<and> n \<le> 70 then Some (n - 55)
         else if 97 \<le> n \<and> n \<le> 102 then Some (n - 87)
         else None)"

definition hex_pair :: "char \<Rightarrow> char \<Rightarrow> nat option" where
  "hex_pair a b = (case (hex_value a, hex_value b) of (Some x, Some y) \<Rightarrow> Some (16 * x + y) | _ \<Rightarrow> None)"

text \<open>
  \<open>None\<close>: a malformed sequence, on which \<open>decodeURIComponent\<close> throws, or a character outside
  the model's strings.
\<close>

fun decodeURIComponent :: "string \<Rightarrow> string option" where
  "decodeURIComponent [] = Some []"
| "decodeURIComponent (c # s) =
     (if c \<noteq> CHR ''%'' then map_option (Cons c) (decodeURIComponent s)
      else case s of
        a # b # t \<Rightarrow>
          (case hex_pair a b of
             None \<Rightarrow> None
           | Some n \<Rightarrow>
               if n < 128 then map_option (Cons (char_of n)) (decodeURIComponent t)
               else if n = 194 \<or> n = 195
               then (case t of
                       p # d # e # u \<Rightarrow>
                         (case (p = CHR ''%'', hex_pair d e) of
                            (True, Some m) \<Rightarrow>
                              if 128 \<le> m \<and> m < 192
                              then map_option (Cons (char_of ((n - 192) * 64 + (m - 128))))
                                     (decodeURIComponent u)
                              else None
                          | _ \<Rightarrow> None)
                     | _ \<Rightarrow> None)
               else None)
      | _ \<Rightarrow> None)"

subsection \<open>The URL of a proxy\<close>

definition scheme_of :: "proxy_type \<Rightarrow> string" where
  "scheme_of t = (case t of HTTP \<Rightarrow> ''http'' | SOCKS5 \<Rightarrow> ''socks5'')"

definition opt_truthy :: "string option \<Rightarrow> bool" where
  "opt_truthy v = (v \<noteq> None \<and> v \<noteq> Some [])"

definition proxy_credentials :: "proxy_runtime \<Rightarrow> string" where
  "proxy_credentials c =
     (if opt_truthy (rt_username c)
      then encodeURIComponent (the (rt_username c))
           @ (if opt_truthy (rt_password c) then '':'' @ encodeURIComponent (the (rt_password c)) else [])
           @ ''@''
      else [])"

definition proxyUrl :: "proxy_runtime \<Rightarrow> string" where
  "proxyUrl c = scheme_of (rt_type c) @ ''://'' @ proxy_credentials c @ rt_host c @ '':'' @ show_int (rt_port c)"

definition redactProxyUrl :: "proxy_runtime \<Rightarrow> string" where
  "redactProxyUrl c =
     proxyUrl (c\<lparr>rt_password := if opt_truthy (rt_password c) then Some ''***'' else None\<rparr>)"

subsection \<open>The field schemas\<close>

record proxy_raw =
  raw_label :: "string option"
  raw_type :: "string option"
  raw_host :: "string option"
  raw_port :: "int option"   \<comment> \<open>after \<open>z.coerce.number()\<close>\<close>
  raw_username :: "string option option"
  raw_password :: "string option option"
  raw_timezone :: "string option option"
  raw_locale :: "string option option"

record proxy_input =
  pi_label :: string
  pi_type :: proxy_type
  pi_host :: string
  pi_port :: int
  pi_username :: "string option"
  pi_password :: "string option"
  pi_timezone :: "string option"
  pi_locale :: "string option"

definition isKnownTimezone :: "web \<Rightarrow> string \<Rightarrow> bool" where
  "isKnownTimezone W zone =
     (if zone \<noteq> ''UTC'' \<and> \<not> js_includes zone ''/'' then False else web_zone W zone)"

text \<open>Whether \<open>checkHost\<close> adds no issue.\<close>

definition checkHost :: "web \<Rightarrow> string \<Rightarrow> bool" where
  "checkHost W h =
     (if length h = 0 then True
      else if js_includes h ''://'' then False
      else if js_includes h ''@'' then False
      else if js_includes h ''/'' then False
      else if list_ex js_ws h then False
      else case web_hostname W h of None \<Rightarrow> False | Some n \<Rightarrow> n = h)"

definition parse_label :: "string \<Rightarrow> string option" where
  "parse_label s = (let t = js_trim s in if length t < 1 \<or> length t > 60 then None else Some t)"

definition parse_type :: "string \<Rightarrow> proxy_type option" where
  "parse_type s = (if s = ''HTTP'' then Some HTTP else if s = ''SOCKS5'' then Some SOCKS5 else None)"

definition parse_host :: "web \<Rightarrow> string \<Rightarrow> string option" where
  "parse_host W s =
     (let h = js_lower (js_trim s)
      in if length h < 1 \<or> length h > 255 \<or> \<not> checkHost W h then None else Some h)"

definition parse_port :: "int \<Rightarrow> int option" where
  "parse_port n = (if n < 1 \<or> n > 65535 then None else Some n)"

text \<open>\<open>optionalSecret\<close>, on a value that is a string, null or absent.\<close>

definition optionalSecret :: "string option \<Rightarrow> string option option" where
  "optionalSecret v =
     (case v of
        None \<Rightarrow> Some None
      | Some s \<Rightarrow> if length s > 255 then None else Some (if length s = 0 then None else Some s))"

definition or_null :: "string \<Rightarrow> string option" where
  "or_null s = (if s = [] then None else Some s)"

definition trimmedSecret :: "string option \<Rightarrow> string option option" where
  "trimmedSecret v =
     (case optionalSecret v of
        None \<Rightarrow> None
      | Some None \<Rightarrow> Some None
      | Some (Some s) \<Rightarrow> Some (or_null (js_trim s)))"

definition letter :: "char \<Rightarrow> bool" where
  "letter c = (let n = of_char c :: nat in 65 \<le> n \<and> n \<le> 90 \<or> 97 \<le> n \<and> n \<le> 122)"

definition alnum :: "char \<Rightarrow> bool" where
  "alnum c = (let n = of_char c :: nat in letter c \<or> 48 \<le> n \<and> n \<le> 57)"

text \<open>\<open>/^[a-z]{2,3}(-[A-Za-z0-9]{2,8})*$/i\<close>.\<close>

definition language_tag :: "string \<Rightarrow> bool" where
  "language_tag s =
     (case js_split (CHR ''-'') s of
        [] \<Rightarrow> False
      | p # ps \<Rightarrow> 2 \<le> length p \<and> length p \<le> 3 \<and> list_all letter p
           \<and> list_all (\<lambda>q. 2 \<le> length q \<and> length q \<le> 8 \<and> list_all alnum q) ps)"

definition parse_timezone :: "web \<Rightarrow> string option \<Rightarrow> string option option" where
  "parse_timezone W v =
     (case trimmedSecret v of
        None \<Rightarrow> None
      | Some None \<Rightarrow> Some None
      | Some (Some z) \<Rightarrow> if isKnownTimezone W z then Some (Some z) else None)"

definition parse_locale :: "string option \<Rightarrow> string option option" where
  "parse_locale v =
     (case trimmedSecret v of
        None \<Rightarrow> None
      | Some None \<Rightarrow> Some None
      | Some (Some l) \<Rightarrow> if language_tag l then Some (Some l) else None)"

text \<open>\<open>proxyInputSchema\<close>: every field, then the cross-field rule.\<close>

definition proxyInputSchema :: "web \<Rightarrow> proxy_raw \<Rightarrow> proxy_input option" where
  "proxyInputSchema W raw =
     Option.bind (Option.bind (raw_label raw) parse_label) (\<lambda>label.
     Option.bind (Option.bind (raw_type raw) parse_type) (\<lambda>type.
     Option.bind (Option.bind (raw_host raw) (parse_host W)) (\<lambda>host.
     Option.bind (Option.bind (raw_port raw) parse_port) (\<lambda>port.
     Option.bind (trimmedSecret (Option.bind (raw_username raw) id)) (\<lambda>user.
     Option.bind (optionalSecret (Option.bind (raw_password raw) id)) (\<lambda>pass.
     Option.bind (parse_timezone W (Option.bind (raw_timezone raw) id)) (\<lambda>zone.
     Option.bind (parse_locale (Option.bind (raw_locale raw) id)) (\<lambda>loc.
       if pass \<noteq> None \<and> user = None then None
       else Some \<lparr>pi_label = label, pi_type = type, pi_host = host, pi_port = port, pi_username = user,
                  pi_password = pass, pi_timezone = zone, pi_locale = loc\<rparr>))))))))"

text \<open>\<open>proxyPatchSchema\<close>: the same field rules, an absent key staying absent.\<close>

record proxy_patch =
  pp_label :: "string option"
  pp_type :: "proxy_type option"
  pp_host :: "string option"
  pp_port :: "int option"
  pp_username :: "string option option"
  pp_password :: "string option option"
  pp_timezone :: "string option option"
  pp_locale :: "string option option"

definition if_present :: "('a \<Rightarrow> 'b option) \<Rightarrow> 'a option \<Rightarrow> 'b option option" where
  "if_present f v = (case v of None \<Rightarrow> Some None | Some x \<Rightarrow> map_option Some (f x))"

definition proxyPatchSchema :: "web \<Rightarrow> proxy_raw \<Rightarrow> proxy_patch option" where
  "proxyPatchSchema W raw =
     Option.bind (if_present parse_label (raw_label raw)) (\<lambda>label.
     Option.bind (if_present parse_type (raw_type raw)) (\<lambda>type.
     Option.bind (if_present (parse_host W) (raw_host raw)) (\<lambda>host.
     Option.bind (if_present parse_port (raw_port raw)) (\<lambda>port.
     Option.bind (if_present trimmedSecret (raw_username raw)) (\<lambda>user.
     Option.bind (if_present optionalSecret (raw_password raw)) (\<lambda>pass.
     Option.bind (if_present (parse_timezone W) (raw_timezone raw)) (\<lambda>zone.
     Option.bind (if_present parse_locale (raw_locale raw)) (\<lambda>loc.
       Some \<lparr>pp_label = label, pp_type = type, pp_host = host, pp_port = port, pp_username = user,
             pp_password = pass, pp_timezone = zone, pp_locale = loc\<rparr>))))))))"

subsection \<open>Parsing what providers hand out\<close>

text \<open>
  \<open>^([a-z0-9+.-]+)://\<close>, case-insensitive: the scheme and the rest.
\<close>

definition scheme_char :: "char \<Rightarrow> bool" where
  "scheme_char c = (alnum c \<or> c \<in> set ''+.-'')"

definition scheme_match :: "string \<Rightarrow> (string \<times> string) option" where
  "scheme_match s =
     (let scheme = takeWhile scheme_char s; rest = dropWhile scheme_char s
      in if scheme \<noteq> [] \<and> js_starts_with rest ''://'' then Some (scheme, drop 3 rest) else None)"

record partial_proxy =
  qp_type :: "proxy_type option"
  qp_host :: string
  qp_port :: int
  qp_username :: "string option"
  qp_password :: "string option"

text \<open>\<open>None\<close>: the function throws, on a malformed escape in the credentials.\<close>

definition parseProxyUrl :: "web \<Rightarrow> string \<Rightarrow> partial_proxy option option" where
  "parseProxyUrl W raw =
     (let text = js_trim raw
      in if length text = 0 then Some None
         else case scheme_match text of
           Some (scheme, rest) \<Rightarrow>
             (let low = js_lower scheme
              in case (if js_starts_with low ''socks'' then Some SOCKS5
                       else if js_starts_with low ''http'' then Some HTTP else None) of
                   None \<Rightarrow> Some None
                 | Some type \<Rightarrow>
                     (case web_url W rest of
                        None \<Rightarrow> Some None
                      | Some (hostname, port, user, pass) \<Rightarrow>
                          if hostname = [] \<or> port = [] then Some None
                          else (case (decodeURIComponent user, decodeURIComponent pass, web_integer W port) of
                                  (Some u, Some p, Some n) \<Rightarrow>
                                    Some (Some \<lparr>qp_type = Some type, qp_host = hostname, qp_port = n,
                                                qp_username = or_null u, qp_password = or_null p\<rparr>)
                                | _ \<Rightarrow> None)))
         | None \<Rightarrow>
             (let parts = js_split (CHR '':'') text
              in if length parts < 2 \<or> length parts > 4 then Some None
                 else case web_integer W (parts ! 1) of
                        None \<Rightarrow> Some None
                      | Some port \<Rightarrow>
                          if port < 1 \<or> port > 65535 then Some None
                          else Some (Some \<lparr>qp_type = None, qp_host = parts ! 0, qp_port = port,
                                 qp_username = (if length parts > 2 then or_null (parts ! 2) else None),
                                 qp_password = (if length parts > 3 then or_null (parts ! 3) else None)\<rparr>)))"

subsection \<open>Percent encoding decodes\<close>

lemma hex_value_digit: "n < 16 \<Longrightarrow> hex_value (hex_digit n) = Some n"
  by (auto simp: hex_value_def hex_digit_def Let_def)

lemma hex_pair_byte: "n < 256 \<Longrightarrow> hex_pair (hex_digit (n div 16)) (hex_digit (n mod 16)) = Some n"
  by (simp add: hex_pair_def hex_value_digit less_mult_imp_div_less)

lemma unreserved_not_percent: "uri_unreserved c \<Longrightarrow> c \<noteq> CHR ''%''"
  by (auto simp: uri_unreserved_def Let_def)

lemma of_char_256: "(of_char c :: nat) < 256"
  by simp

lemma of_char_div: "(of_char c :: nat) div 64 < 4"
  by (rule less_mult_imp_div_less) (use of_char_256 [of c] in linarith)

lemma decode_encode_char:
  "decodeURIComponent (encode_char c @ s) = map_option (Cons c) (decodeURIComponent s)"
proof -
  let ?n = "of_char c :: nat"
  consider "uri_unreserved c" | "\<not> uri_unreserved c" "?n < 128" | "\<not> uri_unreserved c" "?n \<ge> 128" by linarith
  then show ?thesis
  proof cases
    case 1
    then show ?thesis by (simp add: encode_char_def unreserved_not_percent Let_def)
  next
    case 2
    then show ?thesis
      by (simp add: encode_char_def Let_def hex_byte_def hex_pair_byte)
  next
    case 3
    have hi: "192 + ?n div 64 = 194 \<or> 192 + ?n div 64 = 195"
    proof -
      have "2 \<le> ?n div 64" using 3(2) by (simp add: less_eq_div_iff_mult_less_eq)
      with of_char_div [of c] show ?thesis by linarith
    qed
    have lo: "128 \<le> 128 + ?n mod 64" "128 + ?n mod 64 < 192" by simp_all
    have bytes: "192 + ?n div 64 < 256" "128 + ?n mod 64 < 256" using hi lo by auto
    have "(192 + ?n div 64 - 192) * 64 + (128 + ?n mod 64 - 128) = ?n" by simp
    with 3 hi lo hex_pair_byte [OF bytes(1)] hex_pair_byte [OF bytes(2)] show ?thesis
      by (simp add: encode_char_def Let_def hex_byte_def)
  qed
qed

text \<open>
  Decoding an encoded user name or password gives it back, whatever characters it holds.
\<close>

theorem decode_encode: "decodeURIComponent (encodeURIComponent s) = Some s"
  by (induction s) (simp_all add: encodeURIComponent_def decode_encode_char)

subsection \<open>Credentials stay credentials\<close>

lemma hex_digit_safe: "n < 16 \<Longrightarrow> hex_digit n \<notin> {CHR ''@'', CHR '':'', CHR ''/''}"
proof -
  assume "n < 16"
  then have "(of_char (hex_digit n) :: nat) = (if n < 10 then 48 + n else 55 + n)"
    by (simp add: hex_digit_def)
  then have "(of_char (hex_digit n) :: nat) \<noteq> 64" "(of_char (hex_digit n) :: nat) \<noteq> 58"
    "(of_char (hex_digit n) :: nat) \<noteq> 47" using \<open>n < 16\<close> by auto
  then show ?thesis by auto
qed

lemma encode_safe: "set (encodeURIComponent s) \<inter> {CHR ''@'', CHR '':'', CHR ''/''} = {}"
proof -
  have "set (hex_byte n) \<inter> {CHR ''@'', CHR '':'', CHR ''/''} = {}" if "n < 256" for n
    using that hex_digit_safe [of "n div 16"] hex_digit_safe [of "n mod 16"]
    by (auto simp: hex_byte_def less_mult_imp_div_less)
  note safe = this
  have "set (encode_char c) \<inter> {CHR ''@'', CHR '':'', CHR ''/''} = {}" for c
  proof -
    have "192 + (of_char c :: nat) div 64 < 256" "128 + (of_char c :: nat) mod 64 < 256"
      using of_char_div [of c] mod_less_divisor [of 64 "of_char c :: nat"] by linarith+
    note two = safe [OF this(1)] safe [OF this(2)]
    have "c \<notin> {CHR ''@'', CHR '':'', CHR ''/''}" if "uri_unreserved c"
      using that by (auto simp: uri_unreserved_def Let_def)
    with two safe [OF of_char_256 [of c]] show ?thesis
      by (auto simp: encode_char_def Let_def)
  qed
  then show ?thesis unfolding encodeURIComponent_def by fastforce
qed

lemma encode_empty [simp]: "encodeURIComponent s = [] \<longleftrightarrow> s = []"
  by (cases s) (auto simp: encodeURIComponent_def encode_char_def hex_byte_def Let_def)

lemma digit_char_safe: "n < 10 \<Longrightarrow> digit_char n \<notin> {CHR ''@'', CHR '':'', CHR ''/''}"
proof -
  assume "n < 10"
  then have "digit_char n = hex_digit n" by (simp add: hex_digit_def)
  with \<open>n < 10\<close> hex_digit_safe [of n] show ?thesis by simp
qed

lemma show_int_safe: "set (show_int i) \<inter> {CHR ''@'', CHR '':'', CHR ''/''} = {}"
proof -
  define B where "B = {CHR ''@'', CHR '':'', CHR ''/''}"
  note safe = digit_char_safe [folded B_def]
  have "set (show_nat n) \<inter> B = {}" for n
    using show_nat_digits [of n] safe by (blast dest: subsetD)
  moreover have "CHR ''-'' \<notin> B" by (simp add: B_def)
  ultimately have "set (show_int i) \<inter> B = {}" by (simp add: show_int_def)
  then show ?thesis by (simp only: B_def)
qed

text \<open>
  Whatever the user name and password hold, the URL has an at-sign exactly when there is a
  user name, and what follows it is the configured host and port: credentials cannot move
  the host boundary. The first colon of the credentials separates name from password.
\<close>

theorem proxyUrl_host_boundary:
  assumes "CHR ''@'' \<notin> set (rt_host c)"
  shows "js_split (CHR ''@'') (proxyUrl c) =
    (if opt_truthy (rt_username c)
     then [scheme_of (rt_type c) @ ''://'' @ encodeURIComponent (the (rt_username c))
             @ (if opt_truthy (rt_password c) then '':'' @ encodeURIComponent (the (rt_password c)) else []),
           rt_host c @ '':'' @ show_int (rt_port c)]
     else [scheme_of (rt_type c) @ ''://'' @ rt_host c @ '':'' @ show_int (rt_port c)])
    \<and> CHR '':'' \<notin> set (encodeURIComponent (the (rt_username c)))"
proof -
  have at: "CHR ''@'' \<notin> set (encodeURIComponent s)" "CHR '':'' \<notin> set (encodeURIComponent s)"
    "CHR ''@'' \<notin> set (show_int i)" for s i
    using encode_safe [of s] show_int_safe [of i] by auto
  have scheme: "CHR ''@'' \<notin> set (scheme_of t)" for t by (cases t) (auto simp: scheme_of_def)
  show ?thesis
  proof (cases "opt_truthy (rt_username c)")
    case True
    let ?pre = "scheme_of (rt_type c) @ ''://'' @ encodeURIComponent (the (rt_username c))
             @ (if opt_truthy (rt_password c) then '':'' @ encodeURIComponent (the (rt_password c)) else [])"
    have "proxyUrl c = ?pre @ CHR ''@'' # (rt_host c @ '':'' @ show_int (rt_port c))"
      using True by (simp add: proxyUrl_def proxy_credentials_def)
    moreover have "CHR ''@'' \<notin> set ?pre" using at scheme by auto
    moreover have "CHR ''@'' \<notin> set (rt_host c @ '':'' @ show_int (rt_port c))" using at assms by auto
    ultimately have "js_split (CHR ''@'') (proxyUrl c) = [?pre, rt_host c @ '':'' @ show_int (rt_port c)]"
      using js_split_part(1) [of "CHR ''@''" ?pre] js_split_part(2) [of "CHR ''@''"] by metis
    with True at show ?thesis by simp
  next
    case False
    then have "CHR ''@'' \<notin> set (proxyUrl c)"
      using at scheme assms by (auto simp: proxyUrl_def proxy_credentials_def)
    with False at show ?thesis
      by (simp add: js_split_part(2)) (simp add: proxyUrl_def proxy_credentials_def)
  qed
qed

text \<open>
  The redacted URL, the one that is logged, does not depend on the password: every password
  gives the same text, and it is the proxy's own URL when there is none.
\<close>

theorem redactProxyUrl_hides:
  "(p \<noteq> [] \<longrightarrow> q \<noteq> [] \<longrightarrow>
      redactProxyUrl (c\<lparr>rt_password := Some p\<rparr>) = redactProxyUrl (c\<lparr>rt_password := Some q\<rparr>))
   \<and> (\<not> opt_truthy (rt_password c) \<longrightarrow> redactProxyUrl c = proxyUrl c)"
  by (auto simp: redactProxyUrl_def proxyUrl_def proxy_credentials_def opt_truthy_def)

definition ex_runtime :: proxy_runtime where
  "ex_runtime = \<lparr>rt_type = SOCKS5, rt_host = ''gate'', rt_port = 1080, rt_username = Some ''u'',
     rt_password = Some ''p@x'', rt_timezone = None, rt_locale = None\<rparr>"

theorem proxyUrl_host_boundary_witness:
  "length (js_split (CHR ''@'') (proxyUrl ex_runtime)) = 2"
proof -
  have "CHR ''@'' \<notin> set (rt_host ex_runtime)" by (simp add: ex_runtime_def)
  from proxyUrl_host_boundary [OF this] show ?thesis by (simp add: ex_runtime_def opt_truthy_def)
qed

theorem redactProxyUrl_hides_witness:
  "redactProxyUrl (ex_runtime\<lparr>rt_password := Some ''a''\<rparr>) = redactProxyUrl (ex_runtime\<lparr>rt_password := Some ''bc''\<rparr>)
   \<and> redactProxyUrl (ex_runtime\<lparr>rt_password := None\<rparr>) = proxyUrl (ex_runtime\<lparr>rt_password := None\<rparr>)"
proof -
  have "\<not> opt_truthy (rt_password (ex_runtime\<lparr>rt_password := None\<rparr>))" by (simp add: opt_truthy_def)
  then show ?thesis
    using redactProxyUrl_hides [of "''a''" "''bc''" ex_runtime]
      redactProxyUrl_hides [of _ _ "ex_runtime\<lparr>rt_password := None\<rparr>"] by simp
qed

end
