(* ===== verification/Proxy_Service.thy ===== *)
theory Proxy_Service
  imports Proxy_Config
begin

text \<open>
  \<open>lib/proxy/service.ts\<close>: storing, editing, deleting and assigning proxies, and opening one for a
  run. A stored password is a sealed envelope. Deleting a row applies the schema's
  \<open>onDelete: SetNull\<close> to the accounts and the jobs that name it.
\<close>

datatype proxy_error =
    ProxyInvalid                        \<comment> \<open>\<open>ProxyValidationError\<close> of a schema\<close>
  | ProxyNotFound string
  | ProxyAccountNotFound string
  | ProxyLabelTaken string              \<comment> \<open>\<open>ProxyConflictError\<close>\<close>
  | ProxyInUse string "string list"     \<comment> \<open>\<open>ProxyConflictError\<close>: the label, the accounts\<close>
  | ProxySeal secret_error

definition own_proxy :: "string \<Rightarrow> string \<Rightarrow> 'q world \<Rightarrow> proxy option" where
  "own_proxy i u w = List.find (\<lambda>p. px_id p = i \<and> px_userId p = u) (w_proxies w)"

definition own_account :: "string \<Rightarrow> string \<Rightarrow> 'q world \<Rightarrow> account option" where
  "own_account i u w = List.find (\<lambda>a. acc_id a = i \<and> acc_userId a = u) (w_accounts w)"

definition proxy_usage :: "string \<Rightarrow> 'q world \<Rightarrow> account list" where
  "proxy_usage i w = [a \<leftarrow> w_accounts w. acc_proxyId a = Some i]"

definition listProxies :: "string \<Rightarrow> 'q world \<Rightarrow> (proxy \<times> nat) list" where
  "listProxies u w =
     map (\<lambda>p. (p, length (proxy_usage (px_id p) w)))
       (sort_key px_createdAt [p \<leftarrow> w_proxies w. px_userId p = u])"

text \<open>\<open>password ? seal(password) : null\<close>.\<close>

definition seal_password ::
  "crypto \<Rightarrow> bytes \<Rightarrow> string option \<Rightarrow> (proxy_error, bytes option) result" where
  "seal_password C iv pass =
     (if opt_truthy pass
      then (case primaryKey C of
              Inl e \<Rightarrow> Inl (ProxySeal e)
            | Inr k \<Rightarrow> Inr (Some (seal C iv k (JsStr (the pass)))))
      else Inr None)"

definition label_taken :: "string \<Rightarrow> string \<Rightarrow> string \<Rightarrow> 'q world \<Rightarrow> bool" where
  "label_taken u label except w =
     list_ex (\<lambda>p. px_userId p = u \<and> px_label p = label \<and> px_id p \<noteq> except) (w_proxies w)"

definition new_proxy_row ::
  "string \<Rightarrow> string \<Rightarrow> ms \<Rightarrow> proxy_input \<Rightarrow> bytes option \<Rightarrow> proxy" where
  "new_proxy_row newId userId now inp envelope =
     \<lparr>px_id = newId, px_userId = userId, px_label = pi_label inp, px_type = pi_type inp,
      px_host = pi_host inp, px_port = pi_port inp, px_username = pi_username inp,
      px_password = envelope, px_timezone = pi_timezone inp, px_locale = pi_locale inp,
      px_createdAt = now\<rparr>"

definition patched_row :: "proxy_input \<Rightarrow> bytes option \<Rightarrow> proxy \<Rightarrow> proxy" where
  "patched_row inp envelope r =
     r\<lparr>px_label := pi_label inp, px_type := pi_type inp, px_host := pi_host inp,
       px_port := pi_port inp, px_username := pi_username inp, px_password := envelope,
       px_timezone := pi_timezone inp, px_locale := pi_locale inp\<rparr>"

definition createProxy ::
  "crypto \<Rightarrow> web \<Rightarrow> bytes \<Rightarrow> string \<Rightarrow> ms \<Rightarrow> string \<Rightarrow> proxy_raw
   \<Rightarrow> 'q world \<Rightarrow> (proxy_error, proxy \<times> nat) result \<times> 'q world" where
  "createProxy C W iv newId now userId raw w =
     (case proxyInputSchema W raw of
        None \<Rightarrow> (Inl ProxyInvalid, w)
      | Some inp \<Rightarrow>
          (case seal_password C iv (pi_password inp) of
             Inl e \<Rightarrow> (Inl e, w)
           | Inr envelope \<Rightarrow>
               if label_taken userId (pi_label inp) newId w then (Inl (ProxyLabelTaken (pi_label inp)), w)
               else (let row = new_proxy_row newId userId now inp envelope
                     in (Inr (row, length (proxy_usage newId w)),
                         w\<lparr>w_proxies := w_proxies w @ [row]\<rparr>))))"

definition type_name :: "proxy_type \<Rightarrow> string" where
  "type_name t = (case t of HTTP \<Rightarrow> ''HTTP'' | SOCKS5 \<Rightarrow> ''SOCKS5'')"

definition or_existing :: "'a option \<Rightarrow> 'a \<Rightarrow> 'a" where
  "or_existing v d = (case v of Some x \<Rightarrow> x | None \<Rightarrow> d)"

definition merge_patch :: "proxy_patch \<Rightarrow> proxy \<Rightarrow> proxy_raw" where
  "merge_patch patch p =
     \<lparr>raw_label = Some (or_existing (pp_label patch) (px_label p)),
      raw_type = Some (type_name (or_existing (pp_type patch) (px_type p))),
      raw_host = Some (or_existing (pp_host patch) (px_host p)),
      raw_port = Some (or_existing (pp_port patch) (px_port p)),
      raw_username = Some (or_existing (pp_username patch) (px_username p)),
      raw_password = Some (case pp_password patch of
                             Some v \<Rightarrow> v
                           | None \<Rightarrow> if px_password p \<noteq> None then Some ''unchanged'' else None),
      raw_timezone = Some (or_existing (pp_timezone patch) (px_timezone p)),
      raw_locale = Some (or_existing (pp_locale patch) (px_locale p))\<rparr>"

definition updateProxy ::
  "crypto \<Rightarrow> web \<Rightarrow> bytes \<Rightarrow> string \<Rightarrow> string \<Rightarrow> proxy_raw
   \<Rightarrow> 'q world \<Rightarrow> (proxy_error, proxy \<times> nat) result \<times> 'q world" where
  "updateProxy C W iv userId proxyId raw w =
     (case proxyPatchSchema W raw of
        None \<Rightarrow> (Inl ProxyInvalid, w)
      | Some patch \<Rightarrow>
          (case own_proxy proxyId userId w of
             None \<Rightarrow> (Inl (ProxyNotFound proxyId), w)
           | Some p \<Rightarrow>
               (case proxyInputSchema W (merge_patch patch p) of
                  None \<Rightarrow> (Inl ProxyInvalid, w)
                | Some inp \<Rightarrow>
                    (case (if pp_password patch \<noteq> None then seal_password C iv (pi_password inp)
                           else Inr (px_password p)) of
                       Inl e \<Rightarrow> (Inl e, w)
                     | Inr envelope \<Rightarrow>
                         if label_taken userId (pi_label inp) (px_id p) w
                         then (Inl (ProxyLabelTaken (pi_label inp)), w)
                         else (Inr (patched_row inp envelope p, length (proxy_usage (px_id p) w)),
                               w\<lparr>w_proxies := tupd px_id (px_id p) (patched_row inp envelope)
                                                (w_proxies w)\<rparr>)))))"

definition deleteProxy ::
  "string \<Rightarrow> string \<Rightarrow> 'q world \<Rightarrow> (proxy_error, unit) result \<times> 'q world" where
  "deleteProxy userId proxyId w =
     (case own_proxy proxyId userId w of
        None \<Rightarrow> (Inl (ProxyNotFound proxyId), w)
      | Some p \<Rightarrow>
          if length (proxy_usage (px_id p) w) > 0
          then (Inl (ProxyInUse (px_label p) (map acc_name (proxy_usage (px_id p) w))), w)
          else (Inr (),
                w\<lparr>w_proxies := [q \<leftarrow> w_proxies w. px_id q \<noteq> px_id p],
                  w_accounts := map (\<lambda>a. if acc_proxyId a = Some (px_id p) then a\<lparr>acc_proxyId := None\<rparr> else a)
                                  (w_accounts w),
                  w_jobs := map (\<lambda>j. if job_proxyId j = Some (px_id p) then j\<lparr>job_proxyId := None\<rparr> else j)
                              (w_jobs w)\<rparr>))"

definition assignProxy ::
  "string \<Rightarrow> string \<Rightarrow> string option \<Rightarrow> 'q world \<Rightarrow> (proxy_error, account) result \<times> 'q world" where
  "assignProxy userId accountId proxyId w =
     (case own_account accountId userId w of
        None \<Rightarrow> (Inl (ProxyAccountNotFound accountId), w)
      | Some a \<Rightarrow>
          (case proxyId of
             Some p \<Rightarrow>
               if own_proxy p userId w = None then (Inl (ProxyNotFound p), w)
               else (Inr (a\<lparr>acc_proxyId := Some p\<rparr>),
                     upd_account (acc_id a) (\<lambda>r. r\<lparr>acc_proxyId := Some p\<rparr>) w)
           | None \<Rightarrow> (Inr (a\<lparr>acc_proxyId := None\<rparr>),
                      upd_account (acc_id a) (\<lambda>r. r\<lparr>acc_proxyId := None\<rparr>) w)))"

text \<open>The type argument of \<open>openSecret<string>\<close> is not checked at run time: what was sealed is a string.\<close>

definition js_text :: "js \<Rightarrow> string option" where
  "js_text v = (case v of JsStr s \<Rightarrow> Some s | _ \<Rightarrow> None)"

definition openProxy :: "crypto \<Rightarrow> proxy \<Rightarrow> (secret_error, proxy_runtime) result" where
  "openProxy C p =
     andThen (case px_password p of
                None \<Rightarrow> Inr None
              | Some envelope \<Rightarrow> andThen (openSecret C envelope) (\<lambda>v. Inr (js_text v)))
       (\<lambda>pass. Inr \<lparr>rt_type = px_type p, rt_host = px_host p, rt_port = px_port p,
                     rt_username = px_username p, rt_password = pass, rt_timezone = px_timezone p,
                     rt_locale = px_locale p\<rparr>)"

subsection \<open>What the schemas let through\<close>

lemma js_includes_char: "js_includes s [c] \<longleftrightarrow> c \<in> set s"
  unfolding js_includes_iff by (metis append_Cons append_Nil in_set_conv_decomp)

lemma parse_host_Some:
  "parse_host W s = Some h \<Longrightarrow> h \<noteq> [] \<and> length h \<le> 255 \<and> CHR ''@'' \<notin> set h \<and> CHR ''/'' \<notin> set h
     \<and> web_hostname W h = Some h"
  by (auto simp: parse_host_def checkHost_def Let_def js_includes_char split: if_splits option.splits)

definition proxy_row_ok :: "proxy \<Rightarrow> bool" where
  "proxy_row_ok p = (px_label p \<noteq> [] \<and> length (px_label p) \<le> 60
     \<and> px_host p \<noteq> [] \<and> CHR ''@'' \<notin> set (px_host p) \<and> CHR ''/'' \<notin> set (px_host p)
     \<and> 1 \<le> px_port p \<and> px_port p \<le> 65535
     \<and> (px_password p \<noteq> None \<longrightarrow> px_username p \<noteq> None))"

lemma input_ok:
  "proxyInputSchema W raw = Some inp \<Longrightarrow>
     pi_label inp \<noteq> [] \<and> length (pi_label inp) \<le> 60 \<and> pi_host inp \<noteq> []
     \<and> CHR ''@'' \<notin> set (pi_host inp) \<and> CHR ''/'' \<notin> set (pi_host inp)
     \<and> 1 \<le> pi_port inp \<and> pi_port inp \<le> 65535 \<and> (pi_password inp \<noteq> None \<longrightarrow> pi_username inp \<noteq> None)"
  by (auto simp: proxyInputSchema_def bind_eq_Some_conv parse_label_def parse_port_def Let_def
      dest!: parse_host_Some split: if_splits)

lemma optionalSecret_Some: "optionalSecret v = Some (Some s) \<Longrightarrow> v = Some s \<and> s \<noteq> []"
  by (auto simp: optionalSecret_def split: option.splits if_splits)

lemma input_password:
  "proxyInputSchema W raw = Some inp \<Longrightarrow> pi_password inp = Some s \<Longrightarrow>
     raw_password raw = Some (Some s) \<and> s \<noteq> []"
  by (auto simp: proxyInputSchema_def bind_eq_Some_conv dest!: optionalSecret_Some split: if_splits)

lemma seal_password_Inr:
  "seal_password C iv pass = Inr e \<Longrightarrow> (e \<noteq> None \<longleftrightarrow> opt_truthy pass)
     \<and> (\<forall>env. e = Some env \<longrightarrow> (\<exists>k. primaryKey C = Inr k \<and> env = seal C iv k (JsStr (the pass))))"
  by (auto simp: seal_password_def split: if_splits sum.splits)

lemma own_proxy_Some: "own_proxy i u w = Some p \<Longrightarrow> p \<in> set (w_proxies w) \<and> px_id p = i \<and> px_userId p = u"
  by (auto simp: own_proxy_def dest: find_SomeD)

subsection \<open>The invariants of the proxy table\<close>

definition proxies_wf :: "'q world \<Rightarrow> bool" where
  "proxies_wf w = (distinct (map px_id (w_proxies w))
     \<and> distinct (map (\<lambda>p. (px_userId p, px_label p)) (w_proxies w))
     \<and> (\<forall>p \<in> set (w_proxies w). proxy_row_ok p))"

text \<open>Account ids are unique, and an account's egress is a proxy of the account's own user.\<close>

definition owned_proxies :: "'q world \<Rightarrow> (string \<times> string) set" where
  "owned_proxies w = set (map (\<lambda>p. (px_id p, px_userId p)) (w_proxies w))"

definition egress_wf :: "'q world \<Rightarrow> bool" where
  "egress_wf w = (distinct (map acc_id (w_accounts w))
     \<and> (\<forall>a \<in> set (w_accounts w). \<forall>i. acc_proxyId a = Some i \<longrightarrow> (i, acc_userId a) \<in> owned_proxies w))"

datatype proxy_call =
    CreateProxy string ms proxy_raw
  | UpdateProxy string proxy_raw
  | DeleteProxy string
  | AssignProxy string "string option"

fun proxy_after :: "crypto \<Rightarrow> web \<Rightarrow> bytes \<Rightarrow> string \<Rightarrow> proxy_call \<Rightarrow> 'q world \<Rightarrow> 'q world" where
  "proxy_after C W iv u (CreateProxy i now raw) w = snd (createProxy C W iv i now u raw w)"
| "proxy_after C W iv u (UpdateProxy i raw) w = snd (updateProxy C W iv u i raw w)"
| "proxy_after C W iv u (DeleteProxy i) w = snd (deleteProxy u i w)"
| "proxy_after C W iv u (AssignProxy a i) w = snd (assignProxy u a i w)"

lemma label_free:
  "\<not> label_taken u label i w \<Longrightarrow> p \<in> set (w_proxies w) \<Longrightarrow> px_id p \<noteq> i \<Longrightarrow>
     (px_userId p, px_label p) \<noteq> (u, label)"
  by (auto simp: label_taken_def list_ex_iff)

lemma createProxy_cases:
  assumes "createProxy C W iv newId now u raw w = (r, w')"
  obtains (failed) e where "r = Inl e" "w' = w"
  | (created) inp env row where "proxyInputSchema W raw = Some inp"
      "seal_password C iv (pi_password inp) = Inr env" "\<not> label_taken u (pi_label inp) newId w"
      "r = Inr (row, length (proxy_usage newId w))" "w' = w\<lparr>w_proxies := w_proxies w @ [row]\<rparr>"
      "row = new_proxy_row newId u now inp env"
proof (cases "proxyInputSchema W raw")
  case None
  with assms that(1) show thesis by (auto simp: createProxy_def)
next
  case inp: (Some inp)
  show thesis
  proof (cases "seal_password C iv (pi_password inp)")
    case (Inl e)
    with inp assms that(1) show thesis by (auto simp: createProxy_def)
  next
    case (Inr env)
    show thesis
    proof (cases "label_taken u (pi_label inp) newId w")
      case True
      with inp Inr assms that(1) show thesis by (auto simp: createProxy_def)
    next
      case False
      with inp Inr assms show thesis
        by (intro that(2) [OF inp Inr False _ _ refl]) (simp_all add: createProxy_def Let_def)
    qed
  qed
qed

lemma createProxy_wf:
  assumes "proxies_wf w" "egress_wf w" "newId \<notin> px_id ` set (w_proxies w)"
    and "createProxy C W iv newId now u raw w = (r, w')"
  shows "proxies_wf w' \<and> egress_wf w'"
  using assms(4)
proof (cases rule: createProxy_cases)
  case failed
  with assms show ?thesis by simp
next
  case (created inp env row)
  have "pi_password inp = None \<longrightarrow> env = None"
    using seal_password_Inr [OF created(2)] by (auto simp: opt_truthy_def)
  with input_ok [OF created(1)] have ok: "proxy_row_ok row"
    by (auto simp: proxy_row_ok_def new_proxy_row_def created(6))
  have "(u, pi_label inp) \<notin> (\<lambda>p. (px_userId p, px_label p)) ` set (w_proxies w)"
    using label_free [OF created(3)] assms(3) by (metis (no_types, lifting) image_iff)
  moreover have "px_id row = newId" "px_userId row = u" "px_label row = pi_label inp"
    by (simp_all add: new_proxy_row_def created(6))
  moreover have "w_proxies w' = w_proxies w @ [row]" "w_accounts w' = w_accounts w"
    using created(5) by simp_all
  ultimately show ?thesis
    using ok assms(1-3) by (auto simp: proxies_wf_def egress_wf_def owned_proxies_def)
qed

lemma updateProxy_cases:
  assumes "updateProxy C W iv u i raw w = (r, w')"
  obtains (failed) e where "r = Inl e" "w' = w"
  | (updated) patch p inp env where "proxyPatchSchema W raw = Some patch" "own_proxy i u w = Some p"
      "proxyInputSchema W (merge_patch patch p) = Some inp"
      "(if pp_password patch \<noteq> None then seal_password C iv (pi_password inp)
        else Inr (px_password p)) = Inr env"
      "\<not> label_taken u (pi_label inp) i w" "px_id p = i" "px_userId p = u"
      "r = Inr (patched_row inp env p, length (proxy_usage i w))"
      "w' = w\<lparr>w_proxies := tupd px_id i (patched_row inp env) (w_proxies w)\<rparr>"
proof -
  consider "proxyPatchSchema W raw = None" | patch where "proxyPatchSchema W raw = Some patch" by fastforce
  then show thesis
  proof cases
    case 1
    with assms that(1) show thesis by (auto simp: updateProxy_def split: if_splits)
  next
    case (2 patch)
    show thesis
    proof (cases "own_proxy i u w")
      case None
      with 2 assms that(1) show thesis by (auto simp: updateProxy_def split: if_splits)
    next
      case (Some p)
      with own_proxy_Some have own: "px_id p = i" "px_userId p = u" by blast+
      show thesis
      proof (cases "proxyInputSchema W (merge_patch patch p)")
        case None
        with 2 Some assms that(1) show thesis by (auto simp: updateProxy_def split: if_splits)
      next
        case inp: (Some inp)
        let ?e = "if pp_password patch \<noteq> None then seal_password C iv (pi_password inp) else Inr (px_password p)"
        show thesis
        proof (cases ?e)
          case (Inl e)
          with 2 Some inp assms that(1) show thesis by (auto simp: updateProxy_def split: if_splits)
        next
          case (Inr env)
          show thesis
          proof (cases "label_taken u (pi_label inp) i w")
            case True
            with 2 Some inp Inr own assms that(1) show thesis by (auto simp: updateProxy_def split: if_splits)
          next
            case False
            with 2 Some inp Inr own assms show thesis
              by (intro that(2) [OF 2 Some inp Inr False own]) (simp_all add: updateProxy_def split: if_splits)
          qed
        qed
      qed
    qed
  qed
qed

lemma updateProxy_row_ok:
  assumes "proxies_wf w" "own_proxy i u w = Some p" "proxyInputSchema W (merge_patch patch p) = Some inp"
    and "(if pp_password patch \<noteq> None then seal_password C iv (pi_password inp)
        else Inr (px_password p)) = Inr env"
  shows "env \<noteq> None \<Longrightarrow> pi_username inp \<noteq> None"
proof -
  assume "env \<noteq> None"
  then have "pi_password inp \<noteq> None"
  proof (cases "pp_password patch")
    case None
    with assms(4) \<open>env \<noteq> None\<close> have "raw_password (merge_patch patch p) = Some (Some ''unchanged'')"
      by (auto simp: merge_patch_def)
    then show ?thesis
      using assms(3) by (auto simp: proxyInputSchema_def bind_eq_Some_conv optionalSecret_def split: if_splits)
  next
    case (Some v)
    with assms(4) \<open>env \<noteq> None\<close> show ?thesis
      by (auto simp: opt_truthy_def dest!: seal_password_Inr)
  qed
  with input_ok [OF assms(3)] show "pi_username inp \<noteq> None" by blast
qed

lemma updateProxy_wf:
  assumes "proxies_wf w" "egress_wf w" and "updateProxy C W iv u i raw w = (r, w')"
  shows "proxies_wf w' \<and> egress_wf w'"
  using assms(3)
proof (cases rule: updateProxy_cases)
  case failed
  with assms show ?thesis by simp
next
  case (updated patch p inp env)
  let ?f = "patched_row inp env"
  have keep: "px_id (?f q) = px_id q" "px_userId (?f q) = px_userId q" "px_label (?f q) = pi_label inp" for q
    by (simp_all add: patched_row_def)
  have ok: "proxy_row_ok (?f q)" for q
    using input_ok [OF updated(3)] updateProxy_row_ok [OF assms(1) updated(2-4)]
    by (auto simp: proxy_row_ok_def patched_row_def)
  have ps: "w_proxies w' = tupd px_id i ?f (w_proxies w)" "w_accounts w' = w_accounts w"
    using updated(9) by simp_all
  have d: "distinct (map px_id (w_proxies w))"
    "distinct (map (\<lambda>p. (px_userId p, px_label p)) (w_proxies w))"
    using assms(1) by (auto simp: proxies_wf_def)
  have mine: "q = p" if "q \<in> set (w_proxies w)" "px_id q = i" for q
    using own_proxy_Some [OF updated(2)] that d(1) by (metis (no_types, lifting) distinct_map inj_onD)
  have "distinct (map (\<lambda>p. (px_userId p, px_label p)) (w_proxies w'))"
  proof -
    have "inj_on (\<lambda>q. (px_userId q, px_label q)) (set (w_proxies w'))"
    proof (rule inj_onI)
      fix x y
      assume xy: "x \<in> set (w_proxies w')" "y \<in> set (w_proxies w')"
        "(px_userId x, px_label x) = (px_userId y, px_label y)"
      obtain a b where ab: "a \<in> set (w_proxies w)" "x = (if px_id a = i then ?f a else a)"
        "b \<in> set (w_proxies w)" "y = (if px_id b = i then ?f b else b)"
        using xy(1,2) ps(1) by (auto simp: set_tupd)
      have "inj_on (\<lambda>q. (px_userId q, px_label q)) (set (w_proxies w))"
        using d(2) by (simp add: distinct_map)
      note inj = this
      have clash: "(px_userId q, px_label q) \<noteq> (px_userId (?f p), px_label (?f p))"
        if "q \<in> set (w_proxies w)" "px_id q \<noteq> i" for q
        using label_free [OF updated(5) that] updated(7) keep by simp
      consider "px_id a = i" "px_id b = i" | "px_id a = i" "px_id b \<noteq> i"
        | "px_id a \<noteq> i" "px_id b = i" | "px_id a \<noteq> i" "px_id b \<noteq> i" by blast
      then show "x = y"
      proof cases
        case 1
        then have "a = p" "b = p" using ab(1,3) mine by blast+
        with ab show ?thesis by simp
      next
        case 2
        then have "x = ?f p" "y = b" using ab mine by simp_all
        with clash [OF ab(3) 2(2)] xy(3) show ?thesis by simp
      next
        case 3
        then have "y = ?f p" "x = a" using ab mine by simp_all
        with clash [OF ab(1) 3(1)] xy(3) show ?thesis by simp
      next
        case 4
        with inj xy(3) ab show ?thesis by (simp add: inj_on_def)
      qed
    qed
    moreover have "distinct (w_proxies w')"
    proof -
      have "map px_id (w_proxies w') = map px_id (w_proxies w)"
        using ps(1) keep by (simp add: map_tupd_same)
      with d(1) show ?thesis by (metis distinct_map)
    qed
    ultimately show ?thesis by (simp add: distinct_map)
  qed
  moreover have "map px_id (w_proxies w') = map px_id (w_proxies w)"
    using ps(1) keep by (simp add: map_tupd_same)
  moreover have "\<forall>q \<in> set (w_proxies w'). proxy_row_ok q"
    using assms(1) ok ps(1) by (auto simp: proxies_wf_def set_tupd)
  moreover have "egress_wf w'"
  proof -
    have "map (\<lambda>p. (px_id p, px_userId p)) (w_proxies w') = map (\<lambda>p. (px_id p, px_userId p)) (w_proxies w)"
      using ps(1) keep by (simp add: map_tupd_same)
    then have "owned_proxies w' = owned_proxies w" unfolding owned_proxies_def by (rule arg_cong)
    with assms(2) ps(2) show ?thesis by (simp add: egress_wf_def)
  qed
  ultimately show ?thesis using d(1) by (simp add: proxies_wf_def)
qed

lemma deleteProxy_wf:
  assumes "proxies_wf w" "egress_wf w" and "deleteProxy u i w = (r, w')"
  shows "proxies_wf w' \<and> egress_wf w'"
proof -
  consider "w' = w" | p where "own_proxy i u w = Some p" "proxy_usage i w = []"
    "w_proxies w' = [q \<leftarrow> w_proxies w. px_id q \<noteq> i]"
    "w_accounts w' = map (\<lambda>a. if acc_proxyId a = Some i then a\<lparr>acc_proxyId := None\<rparr> else a) (w_accounts w)"
    using assms(3) by (auto simp: deleteProxy_def dest: own_proxy_Some split: option.splits if_splits)
  then show ?thesis
  proof cases
    case (2 p)
    have none: "acc_proxyId a \<noteq> Some i" if "a \<in> set (w_accounts w)" for a
      using 2(2) that by (auto simp: proxy_usage_def filter_empty_conv)
    then have "w_accounts w' = w_accounts w" unfolding 2(4) by (intro map_idI) auto
    with 2(3) none assms(1,2) show ?thesis
      by (auto simp: proxies_wf_def egress_wf_def owned_proxies_def distinct_map_filter image_iff) metis
  qed (use assms in simp)
qed

lemma assignProxy_wf:
  assumes "proxies_wf w" "egress_wf w" and "assignProxy u a i w = (r, w')"
  shows "proxies_wf w' \<and> egress_wf w'"
proof -
  let ?g = "\<lambda>r. r\<lparr>acc_proxyId := i\<rparr>"
  consider "w' = w" | x where "own_account a u w = Some x" "w' = upd_account (acc_id x) ?g w"
    "\<forall>p. i = Some p \<longrightarrow> own_proxy p u w \<noteq> None"
    using assms(3) by (auto simp: assignProxy_def split: option.splits if_splits)
  then show ?thesis
  proof cases
    case (2 x)
    then have x: "x \<in> set (w_accounts w)" "acc_userId x = u"
      by (auto simp: own_account_def dest: find_SomeD)
    have "r = x" if "r \<in> set (w_accounts w)" "acc_id r = acc_id x" for r
      using that x(1) assms(2) by (metis (no_types, lifting) distinct_map egress_wf_def inj_onD)
    then have "acc_userId r = u" if "r \<in> set (w_accounts w)" "acc_id r = acc_id x" for r
      using that x(2) by blast
    moreover have "(p, u) \<in> owned_proxies w" if ip: "i = Some p" for p
    proof -
      from 2(3) ip obtain q where "own_proxy p u w = Some q" by auto
      from own_proxy_Some [OF this] show ?thesis by (force simp: owned_proxies_def)
    qed
    moreover have "owned_proxies w' = owned_proxies w" "w_proxies w' = w_proxies w"
      using 2(2) by (simp_all add: owned_proxies_def world_simps)
    ultimately show ?thesis using assms(1,2) 2(2)
      by (auto simp: proxies_wf_def egress_wf_def world_simps set_tupd map_tupd_same)
  qed (use assms in simp)
qed


definition ex_web :: web where
  "ex_web = \<lparr>web_hostname = Some, web_zone = (\<lambda>z. True), web_url = (\<lambda>u. None), web_integer = (\<lambda>s. None)\<rparr>"

definition ex_raw :: proxy_raw where
  "ex_raw = \<lparr>raw_label = Some '' dallas '', raw_type = Some ''SOCKS5'', raw_host = Some ''gate'',
     raw_port = Some 1080, raw_username = Some (Some ''u''), raw_password = Some (Some ''pw''),
     raw_timezone = None, raw_locale = None\<rparr>"

lemma ex_world_proxies: "proxies_wf (ex_world [])" "egress_wf (ex_world [])"
  by (simp_all add: proxies_wf_def egress_wf_def ex_world_def ex_account_def)


subsection \<open>The password\<close>

text \<open>
  The password a proxy was created with is the one a run opens, while the key it was
  sealed with is configured; the row itself only holds the envelope.
\<close>

theorem createProxy_open:
  assumes "crypto_laws C" and "length iv = IV_LENGTH" and "\<And>s. json_value C (JsStr s)"
    and "createProxy C W iv i now u raw w = (Inr (row, n), w')"
  shows "\<exists>inp. proxyInputSchema W raw = Some inp
     \<and> openProxy C row = Inr \<lparr>rt_type = pi_type inp, rt_host = pi_host inp, rt_port = pi_port inp,
          rt_username = pi_username inp, rt_password = pi_password inp, rt_timezone = pi_timezone inp,
          rt_locale = pi_locale inp\<rparr>"
  using assms(4)
proof (cases rule: createProxy_cases)
  case (created inp env r0)
  have row: "row = new_proxy_row i u now inp env" using created(4,6) by simp
  have "(case env of None \<Rightarrow> Inr None
         | Some e \<Rightarrow> andThen (openSecret C e) (\<lambda>v. Inr (js_text v))) = Inr (pi_password inp)"
  proof (cases "pi_password inp")
    case None
    with created(2) show ?thesis by (auto simp: seal_password_def opt_truthy_def)
  next
    case (Some s)
    with input_password [OF created(1) Some] created(2) obtain k where
      k: "primaryKey C = Inr k" "env = Some (seal C iv k (JsStr s))"
      by (auto simp: seal_password_def opt_truthy_def split: sum.splits)
    have "length k = KEY_LENGTH" using k(1) by (auto simp: primaryKey_def dest: decodeKey_length)
    from openDetailed_sealed_primary [OF assms(1,2,3) this k(1)] k(2) Some show ?thesis
      by (simp add: openSecret_def js_text_def)
  qed
  then show ?thesis using created(1) row by (simp add: openProxy_def new_proxy_row_def)
qed simp

text \<open>
  An edit that does not mention the password leaves the stored envelope as it was, whatever
  else it changes; one that does replaces it, or clears it when it is empty or null.
\<close>

theorem updateProxy_password:
  assumes "proxyPatchSchema W raw = Some patch" and "own_proxy i u w = Some p"
    and "updateProxy C W iv u i raw w = (Inr (row, n), w')"
  shows "px_id row = i \<and> px_userId row = u
    \<and> (pp_password patch = None \<longrightarrow> px_password row = px_password p)
    \<and> (pp_password patch = Some None \<longrightarrow> px_password row = None)
    \<and> (\<forall>s. pp_password patch = Some (Some s) \<longrightarrow>
          (\<exists>k. primaryKey C = Inr k \<and> px_password row = Some (seal C iv k (JsStr s))))"
  using assms(3)
proof (cases rule: updateProxy_cases)
  case (updated patch' p' inp env)
  then have same: "patch' = patch" "p' = p" "row = patched_row inp env p" using assms(1,2) by auto
  have pw: "pi_password inp = v" if "pp_password patch = Some v" for v
  proof -
    have "raw_password (merge_patch patch p) = Some v" using that by (simp add: merge_patch_def)
    moreover have "v \<noteq> Some []"
      using assms(1) that by (auto simp: proxyPatchSchema_def bind_eq_Some_conv if_present_def
          split: option.splits dest: optionalSecret_Some)
    ultimately show ?thesis
      using updated(3) same
      by (auto simp: proxyInputSchema_def bind_eq_Some_conv optionalSecret_def split: if_splits option.splits)
  qed
  have nonempty: "s \<noteq> []" if "pp_password patch = Some (Some s)" for s
    using assms(1) that by (auto simp: proxyPatchSchema_def bind_eq_Some_conv if_present_def
          split: option.splits dest: optionalSecret_Some)
  have "px_id row = i" "px_userId row = u" "px_password row = env"
    using own_proxy_Some [OF assms(2)] same by (simp_all add: patched_row_def)
  with updated(4) same pw nonempty show ?thesis
    by (auto simp: seal_password_def opt_truthy_def split: sum.splits)
qed simp

subsection \<open>Deleting\<close>

text \<open>
  A proxy an account uses is not deleted. One that only jobs name is, and those jobs lose their
  override: a queued run that was to leave through it will leave through its account's own
  egress, or through none.
\<close>

theorem deleteProxy_effect:
  assumes "deleteProxy u i w = (r, w')" and "own_proxy i u w = Some p"
  shows "if \<exists>a \<in> set (w_accounts w). acc_proxyId a = Some i
     then r = Inl (ProxyInUse (px_label p) (map acc_name (proxy_usage i w))) \<and> w' = w
     else r = Inr () \<and> w_accounts w' = w_accounts w \<and> (\<forall>q \<in> set (w_proxies w'). px_id q \<noteq> i)
        \<and> w_jobs w' = map (\<lambda>j. if job_proxyId j = Some i then j\<lparr>job_proxyId := None\<rparr> else j) (w_jobs w)"
proof -
  have i: "px_id p = i" using own_proxy_Some [OF assms(2)] by simp
  have used: "length (proxy_usage i w) > 0 \<longleftrightarrow> (\<exists>a \<in> set (w_accounts w). acc_proxyId a = Some i)"
    by (auto simp: proxy_usage_def filter_empty_conv)
  show ?thesis
  proof (cases "\<exists>a \<in> set (w_accounts w). acc_proxyId a = Some i")
    case True
    with used assms i show ?thesis by (simp only: deleteProxy_def option.case if_True prod.inject) auto
  next
    case False
    then have "map (\<lambda>a. if acc_proxyId a = Some i then a\<lparr>acc_proxyId := None\<rparr> else a) (w_accounts w)
        = w_accounts w" by (intro map_idI) auto
    with False used assms i show ?thesis
      by (simp only: deleteProxy_def option.case if_False prod.inject) auto
  qed
qed

definition ex_proxy :: proxy where
  "ex_proxy = \<lparr>px_id = ''p1'', px_userId = ''u1'', px_label = ''dallas'', px_type = SOCKS5,
     px_host = ''gate'', px_port = 1080, px_username = None, px_password = None, px_timezone = None,
     px_locale = None, px_createdAt = 0\<rparr>"

theorem deleteProxy_effect_witness:
  "w_jobs (snd (deleteProxy ''u1'' ''p1''
      ((ex_world [ex_job\<lparr>job_proxyId := Some ''p1''\<rparr>])\<lparr>w_proxies := [ex_proxy]\<rparr>))) = [ex_job]"
proof -
  let ?w = "(ex_world [ex_job\<lparr>job_proxyId := Some ''p1''\<rparr>])\<lparr>w_proxies := [ex_proxy]\<rparr>"
  obtain r w' where eq: "deleteProxy ''u1'' ''p1'' ?w = (r, w')" by fastforce
  have own: "own_proxy ''p1'' ''u1'' ?w = Some ex_proxy" by (simp add: own_proxy_def ex_proxy_def)
  have "\<not> (\<exists>a \<in> set (w_accounts ?w). acc_proxyId a = Some ''p1'')"
    by (simp add: ex_world_def ex_account_def)
  with deleteProxy_effect [OF eq own] have "w_jobs w' = [ex_job]"
    by (simp add: ex_world_def ex_job_def)
  with eq show ?thesis by simp
qed

lemma ex_create_proxy:
  "\<exists>row n w'. createProxy (toy_crypto (replicate 32 CHR ''n'') None) ex_web (replicate 12 0) ''p1'' 0 ''u1''
     ex_raw (ex_world []) = (Inr (row, n), w')"
proof -
  have "proxyInputSchema ex_web ex_raw = Some \<lparr>pi_label = ''dallas'', pi_type = SOCKS5, pi_host = ''gate'',
      pi_port = 1080, pi_username = Some ''u'', pi_password = Some ''pw'', pi_timezone = None, pi_locale = None\<rparr>"
    by (simp add: proxyInputSchema_def ex_raw_def parse_label_def parse_type_def parse_host_def
        checkHost_def ex_web_def parse_port_def trimmedSecret_def optionalSecret_def or_null_def
        parse_timezone_def parse_locale_def js_trim_def js_ws_def js_lower_def js_lower_char_def
        js_starts_with_def)
  moreover have "primaryKey (toy_crypto (replicate 32 CHR ''n'') None) = Inr (map char_byte (replicate 32 CHR ''n''))"
    by (rule toy_primaryKey) (simp_all add: KEY_LENGTH_def js_trim_def js_ws_def numeral_eq_Suc)
  ultimately show ?thesis
    by (simp add: createProxy_def seal_password_def opt_truthy_def label_taken_def ex_world_def Let_def)
qed

theorem createProxy_open_witness:
  "\<exists>row n w' rt. createProxy (toy_crypto (replicate 32 CHR ''n'') None) ex_web (replicate 12 0) ''p1'' 0 ''u1''
     ex_raw (ex_world []) = (Inr (row, n), w')
   \<and> openProxy (toy_crypto (replicate 32 CHR ''n'') None) row = Inr rt"
proof -
  obtain row n w' where eq: "createProxy (toy_crypto (replicate 32 CHR ''n'') None) ex_web (replicate 12 0)
     ''p1'' 0 ''u1'' ex_raw (ex_world []) = (Inr (row, n), w')" using ex_create_proxy by blast
  have "length (replicate 12 (0 :: 8 word)) = IV_LENGTH" by (simp add: IV_LENGTH_def)
  from createProxy_open [OF toy_crypto_laws this toy_json eq] eq show ?thesis by blast
qed

theorem updateProxy_password_witness:
  "\<exists>row n w'. updateProxy (toy_crypto [] None) ex_web [] ''u1'' ''p1''
      \<lparr>raw_label = None, raw_type = None, raw_host = None, raw_port = Some 8080, raw_username = None,
       raw_password = None, raw_timezone = None, raw_locale = None\<rparr>
      ((ex_world [])\<lparr>w_proxies := [ex_proxy\<lparr>px_username := Some ''u'', px_password := Some [7]\<rparr>]\<rparr>)
      = (Inr (row, n), w') \<and> px_password row = Some [7]"
proof -
  let ?raw = "\<lparr>raw_label = None, raw_type = None, raw_host = None, raw_port = Some 8080, raw_username = None,
       raw_password = None, raw_timezone = None, raw_locale = None\<rparr>"
  let ?p = "ex_proxy\<lparr>px_username := Some ''u'', px_password := Some [7]\<rparr>"
  let ?w = "(ex_world [])\<lparr>w_proxies := [?p]\<rparr>"
  let ?patch = "\<lparr>pp_label = None, pp_type = None, pp_host = None, pp_port = Some 8080, pp_username = None,
       pp_password = None, pp_timezone = None, pp_locale = None\<rparr>"
  have patch: "proxyPatchSchema ex_web ?raw = Some ?patch"
    by (simp add: proxyPatchSchema_def if_present_def parse_port_def)
  have own: "own_proxy ''p1'' ''u1'' ?w = Some ?p" by (simp add: own_proxy_def ex_proxy_def)
  have "proxyInputSchema ex_web (merge_patch ?patch ?p) \<noteq> None"
    by (simp add: merge_patch_def or_existing_def type_name_def ex_proxy_def proxyInputSchema_def
        parse_label_def parse_type_def parse_host_def checkHost_def ex_web_def parse_port_def
        trimmedSecret_def optionalSecret_def or_null_def parse_timezone_def parse_locale_def
        js_trim_def js_ws_def js_lower_def js_lower_char_def js_starts_with_def)
  then obtain row n w' where eq: "updateProxy (toy_crypto [] None) ex_web [] ''u1'' ''p1'' ?raw ?w
      = (Inr (row, n), w')"
    using patch own by (auto simp: updateProxy_def label_taken_def)
  from updateProxy_password [OF patch own eq] eq show ?thesis by auto
qed

end
