(* ===== verification/Process_Job.thy ===== *)
theory Process_Job
  imports Job_Service Rate_Limiter Human_Signal Proxy_Service
begin

text \<open>
  \<open>lib/worker/processJob.ts\<close>: what a worker does with one delivery of a job. The publisher and the
  onboarding driver are the injected dependencies of the code, and so are fields of
  \<open>deps\<close>: while one runs, anything may happen to the world, so it maps a world to a world. The
  staging directory, Redis and the outside world of the wait are parameters too. Time is read
  off the world with \<open>we_clock\<close>. \<open>None\<close> means the delivery does not end, which only a
  driver's wait can cause.
\<close>

record 'q deps =
  pd_env :: "'q wait_env"
  pd_redis :: "'q redis"
  pd_crypto :: crypto
  pd_publish :: "publish_request \<Rightarrow> 'q world \<Rightarrow> (exn, publish_result) result \<times> 'q world"
  pd_onboard :: "(device_endpoint \<Rightarrow> 'q world \<Rightarrow> 'q world)
     \<Rightarrow> ('q world \<Rightarrow> (human_outcome \<times> 'q world) option) \<Rightarrow> string \<Rightarrow> publisher_account
     \<Rightarrow> 'q world \<Rightarrow> ((exn, onboarding_result) result \<times> 'q world) option"
  pd_mkdtemp :: "string \<Rightarrow> 'q world \<Rightarrow> (exn, string) result \<times> 'q world"
  pd_download :: "string \<Rightarrow> string \<Rightarrow> 'q world \<Rightarrow> (exn, unit) result \<times> 'q world"
  pd_rm :: "string \<Rightarrow> 'q world \<Rightarrow> 'q world"
  pd_deferMs :: ms                 \<comment> \<open>\<open>RATE_LIMIT_DEFER_MS\<close>\<close>
  pd_onboardingTimeoutMs :: ms     \<comment> \<open>\<open>ONBOARDING_TIMEOUT_MS\<close>\<close>

text \<open>The row with what its foreign keys point at.\<close>

record job_rel =
  rel_job :: job
  rel_account :: account
  rel_accountProxy :: "proxy option"
  rel_video :: "video option"
  rel_proxy :: "proxy option"

definition find_video :: "string \<Rightarrow> 'q world \<Rightarrow> video option" where
  "find_video i w = tfind vid_id i (w_videos w)"

definition find_proxy :: "string \<Rightarrow> 'q world \<Rightarrow> proxy option" where
  "find_proxy i w = tfind px_id i (w_proxies w)"

definition load_job :: "string \<Rightarrow> 'q world \<Rightarrow> job_rel option" where
  "load_job i w =
     Option.bind (find_job i w) (\<lambda>j. Option.bind (find_account (job_accountId j) w) (\<lambda>a.
       Some \<lparr>rel_job = j, rel_account = a,
             rel_accountProxy = Option.bind (acc_proxyId a) (\<lambda>p. find_proxy p w),
             rel_video = Option.bind (job_videoId j) (\<lambda>v. find_video v w),
             rel_proxy = Option.bind (job_proxyId j) (\<lambda>p. find_proxy p w)\<rparr>))"

definition secret_exn :: "secret_error \<Rightarrow> exn" where
  "secret_exn e = GenericError (case e of
       KeyLength label n \<Rightarrow> label @ '' must decode to 32 bytes, got '' @ show_nat n
     | EnvelopeTruncated \<Rightarrow> ''Credential envelope is truncated''
     | Unauthenticated \<Rightarrow> ''Unsupported state or unable to authenticate data''
     | NotJson \<Rightarrow> ''Unexpected token in JSON'')"

definition lift_secret :: "(secret_error, 'a) result \<Rightarrow> (exn, 'a) result" where
  "lift_secret r = (case r of Inl e \<Rightarrow> Inl (secret_exn e) | Inr x \<Rightarrow> Inr x)"

definition effective_egress :: "job_rel \<Rightarrow> proxy option" where
  "effective_egress rel = (case rel_proxy rel of Some p \<Rightarrow> Some p | None \<Rightarrow> rel_accountProxy rel)"

definition publisherAccount :: "crypto \<Rightarrow> job_rel \<Rightarrow> (exn, publisher_account) result" where
  "publisherAccount C rel =
     (let a = rel_account rel
      in andThen (case acc_credentials a of
                    Some env \<Rightarrow> lift_secret (andThen (openSecret C env) (\<lambda>v. Inr (Some v)))
                  | None \<Rightarrow> Inr None) (\<lambda>creds.
         andThen (case effective_egress rel of
                    Some p \<Rightarrow> lift_secret (andThen (openProxy C p) (\<lambda>r. Inr (Some r)))
                  | None \<Rightarrow> Inr None) (\<lambda>px.
         Inr \<lparr>pa_id = acc_id a, pa_name = acc_name a, pa_platform = acc_platform a,
              pa_externalId = acc_externalId a, pa_credentials = creds, pa_proxy = px\<rparr>)))"

subsection \<open>Publishing\<close>

definition opt_js :: "string option \<Rightarrow> js" where
  "opt_js v = (case v of Some s \<Rightarrow> JsStr s | None \<Rightarrow> JsUndefined)"

definition recordPublished :: "'q wait_env \<Rightarrow> string \<Rightarrow> publish_result \<Rightarrow> 'q world \<Rightarrow> 'q world" where
  "recordPublished E i res w =
     log_write i INFO ''Published successfully''
       (Some (JsObj [(''externalPostId'', JsStr (res_externalPostId res)), (''url'', opt_js (res_url res))]))
       (upd_job i (\<lambda>j. j\<lparr>job_status := COMPLETED, job_completedAt := Some (we_clock E w),
                          job_externalPostId := Some (res_externalPostId res), job_errorMessage := None,
                          job_metrics := (case res_metrics res of Some m \<Rightarrow> Some m | None \<Rightarrow> job_metrics j)\<rparr>) w)"

definition publish_and_record ::
  "'q deps \<Rightarrow> string \<Rightarrow> publish_request \<Rightarrow> 'q world \<Rightarrow> (exn, unit) result \<times> 'q world" where
  "publish_and_record D i req w =
     (case pd_publish D req w of
        (Inl e, w1) \<Rightarrow> (Inl e, w1)
      | (Inr res, w1) \<Rightarrow> (Inr (), recordPublished (pd_env D) i res w1))"

definition incomplete_job :: "job_rel \<Rightarrow> exn" where
  "incomplete_job rel =
     permanent ''incomplete_publish_job''
       (''Job '' @ job_id (rel_job rel) @ '' runs the ''
        @ (case job_flowType (rel_job rel) of Some f \<Rightarrow> f | None \<Rightarrow> ''upload'')
        @ '' flow but has no '' @ (if rel_video rel \<noteq> None then ''caption'' else ''video''))"

definition runPublish :: "'q deps \<Rightarrow> job_rel \<Rightarrow> 'q world \<Rightarrow> (exn, unit) result \<times> 'q world" where
  "runPublish D rel w =
     (let j = rel_job rel; i = job_id j
      in if flowRequiresVideo (job_flowType j) \<and> (rel_video rel = None \<or> job_caption j = None)
         then (Inl (incomplete_job rel), w)
         else case publisherAccount (pd_crypto D) rel of
           Inl e \<Rightarrow> (Inl e, w)
         | Inr acct \<Rightarrow>
             (let caption = (case job_caption j of Some c \<Rightarrow> c | None \<Rightarrow> []);
                  request = (\<lambda>v w. \<lparr>pr_jobId = i, pr_caption = caption, pr_account = acct, pr_video = v,
                                   pr_flowType = job_flowType j, pr_aborted = we_aborted (pd_env D) w\<rparr>)
              in case rel_video rel of
                   None \<Rightarrow> publish_and_record D i (request None w) w
                 | Some v \<Rightarrow>
                     (case pd_mkdtemp D (''job-'' @ i @ ''-'') w of
                        (Inl e, w1) \<Rightarrow> (Inl e, w1)
                      | (Inr scratch, w1) \<Rightarrow>
                          (let localPath = scratch @ ''/'' @ str_or (Some (vid_fileName v)) ''video.mp4'';
                               w2 = log_write i DEBUG ''Staging media from storage''
                                      (Some (JsObj [(''storageKey'', JsStr (vid_storageKey v))])) w1;
                               (r, w4) =
                                 (case pd_download D (vid_storageKey v) localPath w2 of
                                    (Inl e, w3) \<Rightarrow> (Inl e, w3)
                                  | (Inr u, w3) \<Rightarrow>
                                      publish_and_record D i
                                        (request (Some \<lparr>pv_id = vid_id v, pv_localPath = localPath,
                                            pv_fileName = vid_fileName v, pv_mimeType = vid_mimeType v,
                                            pv_sizeBytes = vid_sizeBytes v,
                                            pv_durationSeconds = vid_durationSeconds v,
                                            pv_width = vid_width v, pv_height = vid_height v\<rparr>) w3) w3)
                           in (r, pd_rm D scratch w4)))))"

subsection \<open>Onboarding\<close>

definition onDeviceReady ::
  "'q wait_env \<Rightarrow> ms \<Rightarrow> string \<Rightarrow> device_endpoint \<Rightarrow> 'q world \<Rightarrow> 'q world" where
  "onDeviceReady E timeoutMs i ep w =
     log_write i INFO ''Device is ready for the operator''
       (Some (JsObj [(''serial'', JsStr (ep_serial ep)), (''viewerUrl'', opt_js (ep_viewerUrl ep))]))
       (upd_job i (\<lambda>j. j\<lparr>job_status := AWAITING_HUMAN, job_deviceEndpoint := Some ep,
                          job_awaitingSince := Some (we_clock E w),
                          job_expiresAt := Some (we_clock E w + timeoutMs)\<rparr>) w)"

definition awaitHuman ::
  "'q wait_env \<Rightarrow> ms \<Rightarrow> string \<Rightarrow> 'q world \<Rightarrow> (human_outcome \<times> 'q world) option" where
  "awaitHuman E timeoutMs i w =
     (case waitForHuman E timeoutMs i w of
        None \<Rightarrow> None
      | Some (out, w1) \<Rightarrow>
          (case out of
             Confirmed t \<Rightarrow> Some (out, upd_job i (\<lambda>j. j\<lparr>job_status := VERIFYING\<rparr>) w1)
           | _ \<Rightarrow> Some (out, w1)))"

definition onboarding_message :: "onboarding_outcome \<Rightarrow> string option \<Rightarrow> string" where
  "onboarding_message out details =
     (case out of
        Unverified \<Rightarrow> ''Operator confirmed but the session did not verify: ''
                      @ (case details of Some d \<Rightarrow> d | None \<Rightarrow> ''no details'')
      | Abandoned \<Rightarrow> ''Nobody completed the login: '' @ (case details of Some d \<Rightarrow> d | None \<Rightarrow> ''timed out'')
      | _ \<Rightarrow> ''Onboarding cancelled: '' @ (case details of Some d \<Rightarrow> d | None \<Rightarrow> ''no reason given''))"

definition outcome_text :: "onboarding_outcome \<Rightarrow> string" where
  "outcome_text out = (case out of Verified \<Rightarrow> ''verified'' | Unverified \<Rightarrow> ''unverified''
     | Abandoned \<Rightarrow> ''abandoned'' | Cancelled \<Rightarrow> ''cancelled'')"

definition finishOnboarding ::
  "'q wait_env \<Rightarrow> job \<Rightarrow> onboarding_outcome \<Rightarrow> string option \<Rightarrow> 'q world \<Rightarrow> (exn, unit) result \<times> 'q world" where
  "finishOnboarding E job out details w =
     (if out = Verified
      then (let w1 = upd_account (job_accountId job)
                       (\<lambda>a. a\<lparr>acc_sessionState := VERIFIED, acc_sessionVerifiedAt := Some (we_clock E w)\<rparr>) w;
                w2 = upd_job (job_id job)
                       (\<lambda>j. j\<lparr>job_status := COMPLETED, job_completedAt := Some (we_clock E w),
                               job_errorMessage := None, job_deviceEndpoint := None\<rparr>) w1
            in (Inr (), log_write (job_id job) INFO ''Account session verified''
                          (Some (JsObj [(''details'', opt_js details)])) w2))
      else (let w1 = upd_account (job_accountId job) (\<lambda>a. a\<lparr>acc_sessionState := NONE\<rparr>) w;
                message = onboarding_message out details;
                w2 = upd_job (job_id job)
                       (\<lambda>j. j\<lparr>job_status := (if out = Cancelled then CANCELLED else FAILED),
                               job_completedAt := Some (we_clock E w),
                               job_errorMessage := Some (take 5000 message),
                               job_deviceEndpoint := None\<rparr>) w1;
                w3 = log_write (job_id job) WARN ''Onboarding did not produce a verified session''
                       (Some (JsObj [(''outcome'', JsStr (outcome_text out)), (''details'', opt_js details)])) w2
            in (if out = Unverified then Inl (permanent ''onboarding_not_verified'' message) else Inr (), w3)))"

definition runOnboarding ::
  "'q deps \<Rightarrow> job_rel \<Rightarrow> 'q world \<Rightarrow> ((exn, unit) result \<times> 'q world) option" where
  "runOnboarding D rel w =
     (let E = pd_env D; job = rel_job rel; timeoutMs = pd_onboardingTimeoutMs D;
          reset = upd_account (job_accountId job) (\<lambda>a. a\<lparr>acc_sessionState := NONE\<rparr>);
          w1 = clearHumanSignal E (job_id job) w;
          w2 = upd_account (job_accountId job) (\<lambda>a. a\<lparr>acc_sessionState := ONBOARDING\<rparr>) w1
      in case publisherAccount (pd_crypto D) rel of
           Inl e \<Rightarrow> Some (Inl e, reset w2)
         | Inr acct \<Rightarrow>
             (case pd_onboard D (onDeviceReady E timeoutMs (job_id job)) (awaitHuman E timeoutMs (job_id job))
                     (job_id job) acct w2 of
                None \<Rightarrow> None
              | Some (Inl e, w3) \<Rightarrow> Some (Inl e, reset w3)
              | Some (Inr res, w3) \<Rightarrow> Some (finishOnboarding E job (or_outcome res) (or_details res) w3)))"

subsection \<open>Failure, and the whole delivery\<close>

definition final_failure :: "nat \<Rightarrow> int \<Rightarrow> exn \<Rightarrow> bool" where
  "final_failure attempt maxAttempts e = (\<not> isRetryable e \<or> int attempt \<ge> maxAttempts)"

definition handleFailure ::
  "'q wait_env \<Rightarrow> string \<Rightarrow> nat \<Rightarrow> int \<Rightarrow> exn \<Rightarrow> 'q world \<Rightarrow> 'q world" where
  "handleFailure E i attempt maxAttempts e w =
     (let message = exn_message e; final = final_failure attempt maxAttempts e
      in case find_job i w of
           Some j \<Rightarrow>
             if job_status j = CANCELLED \<or> job_status j = FAILED then w
             else (let w1 = upd_job i (\<lambda>j. j\<lparr>job_status := (if final then FAILED else QUEUED),
                                          job_errorMessage := Some (take 5000 message),
                                          job_completedAt := (if final then Some (we_clock E w) else None)\<rparr>) w
                   in if final
                      then log_write i ERROR
                             (if isRetryable e then ''Failed after '' @ show_nat attempt @ '' attempts''
                              else ''Failed permanently'')
                             (Some (JsObj [(''error'', JsStr message), (''retryable'', JsBool (isRetryable e))])) w1
                      else log_write i WARN (''Attempt '' @ show_nat attempt @ '' failed, will retry'')
                             (Some (JsObj [(''error'', JsStr message),
                                (''retryAfterMs'', case retryAfterMs e of Some t \<Rightarrow> JsNum t | None \<Rightarrow> JsUndefined)])) w1)
         | None \<Rightarrow> w)"

definition reason_text :: "reject_reason \<Rightarrow> string" where
  "reason_text r = (case r of MaxConcurrent \<Rightarrow> ''max_concurrent'' | MinInterval \<Rightarrow> ''min_interval'')"

text \<open>The row an attempt starts with; \<open>job\<close> is the row as it was loaded.\<close>

definition start_row :: "'q wait_env \<Rightarrow> nat \<Rightarrow> job \<Rightarrow> 'q world \<Rightarrow> job \<Rightarrow> job" where
  "start_row E n job w = (\<lambda>j. j\<lparr>job_status := PROCESSING,
     job_startedAt := (case job_startedAt job of Some t \<Rightarrow> Some t | None \<Rightarrow> Some (we_clock E w)),
     job_attempts := int n\<rparr>)"

text \<open>The part of \<open>processJob\<close> after the reservation, without its release.\<close>

definition run_attempt ::
  "'q deps \<Rightarrow> nat \<Rightarrow> job_rel \<Rightarrow> 'q world \<Rightarrow> ((exn, unit) result \<times> 'q world) option" where
  "run_attempt D attempt rel w =
     (let E = pd_env D; job = rel_job rel; i = job_id job;
          w1 = upd_job i (start_row E attempt job w) w;
          w2 = log_write i INFO (''Attempt '' @ show_nat attempt @ ''/'' @ show_int (job_maxAttempts job) @ '' started'')
                 (Some (JsObj [(''type'', JsStr (case job_type job of PUBLISH_VIDEO \<Rightarrow> ''PUBLISH_VIDEO''
                                   | INTERACTIVE_ONBOARDING \<Rightarrow> ''INTERACTIVE_ONBOARDING''))])) w1
      in case (if job_type job = INTERACTIVE_ONBOARDING then runOnboarding D rel w2
               else Some (runPublish D rel w2)) of
           None \<Rightarrow> None
         | Some (Inr u, w3) \<Rightarrow> Some (Inr (), w3)
         | Some (Inl e, w3) \<Rightarrow> Some (Inl e, handleFailure E i attempt (job_maxAttempts job) e w3))"

definition processJob ::
  "'q deps \<Rightarrow> nat \<Rightarrow> string \<Rightarrow> 'q world \<Rightarrow> ((exn, unit) result \<times> 'q world) option" where
  "processJob D attemptsMade i w =
     (let E = pd_env D
      in case load_job i w of
           None \<Rightarrow> Some (Inr (), w)
         | Some rel \<Rightarrow>
             if job_status (rel_job rel) = CANCELLED
             then Some (Inr (), log_write i WARN ''Job was cancelled before the worker started it'' None w)
             else if job_status (rel_job rel) = COMPLETED
             then Some (Inr (), log_write i WARN ''Job is already completed, skipping duplicate delivery'' None w)
             else (let a = rel_account rel
                   in case reserve (pd_redis D) (pd_deferMs D) (we_clock E w) (acc_id a)
                             \<lparr>lms_maxConcurrent = acc_maxConcurrent a,
                              lms_minIntervalSeconds = acc_minIntervalSeconds a\<rparr> (w_queue w) of
                        (Rejected wait reason, q) \<Rightarrow>
                          Some (Inl (DeferJobError wait (''Rate limited: '' @ reason_text reason)),
                                log_write i INFO (''Deferred by account rate limit ('' @ reason_text reason @ '')'')
                                  (Some (JsObj [(''retryAfterMs'', JsNum wait)])) (w\<lparr>w_queue := q\<rparr>))
                      | (Reserved, q) \<Rightarrow>
                          (case run_attempt D (attemptsMade + 1) rel (w\<lparr>w_queue := q\<rparr>) of
                             None \<Rightarrow> None
                           | Some (r, w1) \<Rightarrow>
                               Some (r, w1\<lparr>w_queue := release_slot (pd_redis D) (we_clock E w1) (acc_id a)
                                                         (w_queue w1)\<rparr>))))"

subsection \<open>A world for the examples\<close>

definition ex_deps :: "(string \<Rightarrow> int option) deps" where
  "ex_deps = \<lparr>pd_env = \<lparr>we_clock = (\<lambda>w. 100), we_aborted = (\<lambda>w. False), we_pop = (\<lambda>k b w. (PopTimeout, w)),
       we_sleep = id, we_clear = (\<lambda>k w. w)\<rparr>,
     pd_redis = map_redis, pd_crypto = toy_crypto [] None,
     pd_publish = (\<lambda>req w. (Inr \<lparr>res_externalPostId = ''post'', res_url = None, res_metrics = None\<rparr>, w)),
     pd_onboard = (\<lambda>ready await i acct w. Some (Inr \<lparr>or_outcome = Verified, or_details = None\<rparr>, w)),
     pd_mkdtemp = (\<lambda>p w. (Inr ''/staging/'', w)), pd_download = (\<lambda>k p w. (Inr (), w)),
     pd_rm = (\<lambda>p w. w), pd_deferMs = 5000, pd_onboardingTimeoutMs = 60000\<rparr>"

definition pj_world :: "account \<Rightarrow> job list \<Rightarrow> (string \<Rightarrow> int option) world" where
  "pj_world a js = \<lparr>w_jobs = js, w_accounts = [a], w_videos = [ex_video], w_proxies = [],
     w_logs = [], w_queue = (\<lambda>k. None)\<rparr>"

subsection \<open>Deliveries that do nothing\<close>

lemma load_job_Some:
  "load_job i w = Some rel \<Longrightarrow> find_job i w = Some (rel_job rel)
     \<and> find_account (job_accountId (rel_job rel)) w = Some (rel_account rel) \<and> job_id (rel_job rel) = i
     \<and> acc_id (rel_account rel) = job_accountId (rel_job rel)"
  by (auto simp: load_job_def bind_eq_Some_conv dest: job_rows.look_key account_rows.look_key)

text \<open>
  A delivery of a job that is cancelled, completed or gone publishes nothing: it calls neither
  driver (any two give the same result), takes no slot and changes no row, and the queue sees a success.
\<close>

theorem processJob_skips:
  assumes "find_job i w = None \<or> (\<exists>j. find_job i w = Some j \<and> job_status j \<in> {CANCELLED, COMPLETED})"
  shows "(\<exists>w'. processJob D n i w = Some (Inr (), w') \<and> w_jobs w' = w_jobs w
       \<and> w_accounts w' = w_accounts w \<and> w_queue w' = w_queue w)
    \<and> processJob (D\<lparr>pd_publish := P, pd_onboard := Q\<rparr>) n i w = processJob D n i w"
proof
  have stop: "load_job i w = None \<or> (\<exists>rel. load_job i w = Some rel \<and> job_status (rel_job rel) \<in> {CANCELLED, COMPLETED})"
    using assms by (cases "load_job i w") (auto dest: load_job_Some)
  then show "\<exists>w'. processJob D n i w = Some (Inr (), w') \<and> w_jobs w' = w_jobs w
      \<and> w_accounts w' = w_accounts w \<and> w_queue w' = w_queue w"
    by (auto simp: processJob_def world_simps)
  show "processJob (D\<lparr>pd_publish := P, pd_onboard := Q\<rparr>) n i w = processJob D n i w"
    using stop by (auto simp: processJob_def)
qed

theorem processJob_skips_witness:
  "\<exists>w'. processJob ex_deps 0 ''j1'' (pj_world ex_account [ex_job\<lparr>job_status := CANCELLED\<rparr>]) = Some (Inr (), w')
    \<and> w_jobs w' = [ex_job\<lparr>job_status := CANCELLED\<rparr>]"
proof -
  let ?w = "pj_world ex_account [ex_job\<lparr>job_status := CANCELLED\<rparr>]"
  have "find_job ''j1'' ?w = Some (ex_job\<lparr>job_status := CANCELLED\<rparr>)"
    by (simp add: find_job_def pj_world_def tfind_Cons ex_job_def)
  then have "find_job ''j1'' ?w = None
      \<or> (\<exists>j. find_job ''j1'' ?w = Some j \<and> job_status j \<in> {CANCELLED, COMPLETED})" by simp
  from processJob_skips [OF this, of ex_deps 0]
  have "\<exists>w'. processJob ex_deps 0 ''j1'' ?w = Some (Inr (), w') \<and> w_jobs w' = w_jobs ?w" by blast
  then show ?thesis by (simp only: pj_world_def world.simps)
qed

text \<open>
  A publish job without what its flow needs never reaches the publisher: it fails for good, and
  no publisher could make a difference.
\<close>

theorem incomplete_job_not_published:
  assumes "flowRequiresVideo (job_flowType (rel_job rel))"
    and "rel_video rel = None \<or> job_caption (rel_job rel) = None"
  shows "runPublish (D\<lparr>pd_publish := P\<rparr>) rel w = (Inl (incomplete_job rel), w)
    \<and> \<not> isRetryable (incomplete_job rel)
    \<and> final_failure attempt maxAttempts (incomplete_job rel)"
  using assms by (simp add: runPublish_def Let_def incomplete_job_def final_failure_def)

definition ex_rel :: job_rel where
  "ex_rel = \<lparr>rel_job = ex_job, rel_account = ex_account, rel_accountProxy = None,
     rel_video = Some ex_video, rel_proxy = None\<rparr>"

theorem incomplete_job_not_published_witness:
  "\<exists>e. runPublish ex_deps (ex_rel\<lparr>rel_video := None\<rparr>) (pj_world ex_account []) = (Inl e, pj_world ex_account [])
     \<and> \<not> isRetryable e"
proof -
  have flow: "flowRequiresVideo (job_flowType (rel_job (ex_rel\<lparr>rel_video := None\<rparr>)))"
    by (simp add: ex_rel_def ex_job_def flowRequiresVideo_def isDefaultFlow_def truthy_def)
  have "rel_video (ex_rel\<lparr>rel_video := None\<rparr>) = None \<or> job_caption (rel_job (ex_rel\<lparr>rel_video := None\<rparr>)) = None"
    by simp
  from incomplete_job_not_published [OF flow this, where D = ex_deps and P = "pd_publish ex_deps"
      and w = "pj_world ex_account []"]
  show ?thesis by auto
qed

subsection \<open>Failures\<close>



subsection \<open>The slot is given back\<close>

lemma handleFailure_queue [world_simps]:
  "w_queue (handleFailure E i a m e w) = w_queue w" "w_accounts (handleFailure E i a m e w) = w_accounts w"
  by (auto simp: handleFailure_def Let_def world_simps split: option.splits)

lemma recordPublished_parts [world_simps]:
  "w_queue (recordPublished E i res w) = w_queue w" "w_accounts (recordPublished E i res w) = w_accounts w"
  by (simp_all add: recordPublished_def world_simps)

lemma finishOnboarding_queue [world_simps]: "w_queue (snd (finishOnboarding E j out d w)) = w_queue w"
  by (simp add: finishOnboarding_def Let_def world_simps)

text \<open>
  What the drivers and the staging leave alone: the account's slot counter. Callbacks included,
  so the driver may call them as often as it likes.
\<close>

definition keeps_slot :: "'q deps \<Rightarrow> string \<Rightarrow> ('q world \<Rightarrow> 'q world \<Rightarrow> bool)" where
  "keeps_slot D a = (\<lambda>w w'. rd_stored (pd_redis D) (slotsKey a) (w_queue w')
                              = rd_stored (pd_redis D) (slotsKey a) (w_queue w))"

definition drivers_keep_slot :: "'q deps \<Rightarrow> string \<Rightarrow> bool" where
  "drivers_keep_slot D a =
     ((\<forall>req w. keeps_slot D a w (snd (pd_publish D req w)))
      \<and> (\<forall>i acct w r w'. pd_onboard D (onDeviceReady (pd_env D) (pd_onboardingTimeoutMs D) i)
             (awaitHuman (pd_env D) (pd_onboardingTimeoutMs D) i) i acct w = Some (r, w') \<longrightarrow> keeps_slot D a w w')
      \<and> (\<forall>p w. keeps_slot D a w (snd (pd_mkdtemp D p w)))
      \<and> (\<forall>k p w. keeps_slot D a w (snd (pd_download D k p w)))
      \<and> (\<forall>p w. keeps_slot D a w (pd_rm D p w))
      \<and> (\<forall>k w. keeps_slot D a w (we_clear (pd_env D) k w)))"

lemma keeps_slot_trans: "keeps_slot D a u v \<Longrightarrow> keeps_slot D a v w \<Longrightarrow> keeps_slot D a u w"
  by (simp add: keeps_slot_def)

lemma keeps_slot_queue: "w_queue w' = w_queue w \<Longrightarrow> keeps_slot D a w w'"
  by (simp add: keeps_slot_def)

lemma publish_and_record_slot:
  assumes "drivers_keep_slot D a"
  shows "keeps_slot D a w (snd (publish_and_record D i req w))"
  using assms
  by (auto simp: drivers_keep_slot_def publish_and_record_def keeps_slot_def world_simps
      split: prod.splits sum.splits) (metis snd_conv)+

lemma runPublish_slot:
  assumes "drivers_keep_slot D a"
  shows "keeps_slot D a w (snd (runPublish D rel w))"
proof -
  have mk: "keeps_slot D a w (snd (pd_mkdtemp D p w))" "keeps_slot D a w (snd (pd_download D k p w))"
    "keeps_slot D a w (pd_rm D p w)" for k p w
    using assms by (auto simp: drivers_keep_slot_def)
  note pub = publish_and_record_slot [OF assms]
  note one = mk(1) [unfolded keeps_slot_def] and two = mk(2) [unfolded keeps_slot_def]
    and three = mk(3) [unfolded keeps_slot_def] and four = pub [unfolded keeps_slot_def]
  show ?thesis
    unfolding runPublish_def Let_def keeps_slot_def
    by (auto simp: three four world_simps split: sum.splits option.splits prod.splits)
      (metis one two three four snd_conv world_parts(5))+
qed

lemma runOnboarding_slot:
  assumes "drivers_keep_slot D a" and "runOnboarding D rel w = Some (r, w')"
  shows "keeps_slot D a w w'"
proof -
  let ?i = "job_id (rel_job rel)"
  let ?w2 = "upd_account (job_accountId (rel_job rel)) (\<lambda>a. a\<lparr>acc_sessionState := ONBOARDING\<rparr>)
               (clearHumanSignal (pd_env D) ?i w)"
  have start: "keeps_slot D a w ?w2"
    using assms(1) by (simp add: drivers_keep_slot_def keeps_slot_def clearHumanSignal_def world_simps)
  show ?thesis
  proof (cases "publisherAccount (pd_crypto D) rel")
    case (Inl e)
    with assms(2) have "w_queue w' = w_queue ?w2" by (auto simp: runOnboarding_def Let_def world_simps)
    then show ?thesis using start keeps_slot_queue keeps_slot_trans by blast
  next
    case (Inr acct)
    with assms(2) obtain r1 w3 where run:
      "pd_onboard D (onDeviceReady (pd_env D) (pd_onboardingTimeoutMs D) ?i)
         (awaitHuman (pd_env D) (pd_onboardingTimeoutMs D) ?i) ?i acct ?w2 = Some (r1, w3)"
      and w': "w_queue w' = w_queue w3"
      by (auto simp: runOnboarding_def Let_def world_simps split: option.splits sum.splits)
        (metis finishOnboarding_queue snd_conv)
    have "keeps_slot D a ?w2 w3" using assms(1) run unfolding drivers_keep_slot_def by blast
    then show ?thesis using start w' keeps_slot_queue keeps_slot_trans by blast
  qed
qed

text \<open>An attempt runs one of the two paths from a world that differs in the job's row and the logs.\<close>

lemma run_attempt_ran:
  assumes "run_attempt D n rel w = Some (r, w')"
  shows "\<exists>w2 r0 w3. w_queue w2 = w_queue w \<and> w_accounts w2 = w_accounts w
     \<and> w_jobs w2 = w_jobs (upd_job (job_id (rel_job rel)) (start_row (pd_env D) n (rel_job rel) w) w)
     \<and> (if job_type (rel_job rel) = INTERACTIVE_ONBOARDING then runOnboarding D rel w2
         else Some (runPublish D rel w2)) = Some (r0, w3)
     \<and> r = r0 \<and> w' = (case r0 of Inr u \<Rightarrow> w3
          | Inl e \<Rightarrow> handleFailure (pd_env D) (job_id (rel_job rel)) n (job_maxAttempts (rel_job rel)) e w3)
     \<and> w_queue w' = w_queue w3 \<and> w_accounts w' = w_accounts w3"
proof -
  let ?w2 = "log_write (job_id (rel_job rel)) INFO
      (''Attempt '' @ show_nat n @ ''/'' @ show_int (job_maxAttempts (rel_job rel)) @ '' started'')
      (Some (JsObj [(''type'', JsStr (case job_type (rel_job rel) of PUBLISH_VIDEO \<Rightarrow> ''PUBLISH_VIDEO''
          | INTERACTIVE_ONBOARDING \<Rightarrow> ''INTERACTIVE_ONBOARDING''))]))
      (upd_job (job_id (rel_job rel)) (start_row (pd_env D) n (rel_job rel) w) w)"
  define path where "path = (if job_type (rel_job rel) = INTERACTIVE_ONBOARDING then runOnboarding D rel ?w2
      else Some (runPublish D rel ?w2))"
  have eq: "run_attempt D n rel w = (case path of None \<Rightarrow> None
      | Some (Inr u, w3) \<Rightarrow> Some (Inr (), w3)
      | Some (Inl e, w3) \<Rightarrow> Some (Inl e, handleFailure (pd_env D) (job_id (rel_job rel)) n
           (job_maxAttempts (rel_job rel)) e w3))"
    by (simp add: run_attempt_def Let_def path_def)
  obtain r0 w3 where p: "path = Some (r0, w3)" using assms eq by (cases path) auto
  have "r = r0 \<and> w' = (case r0 of Inr u \<Rightarrow> w3
      | Inl e \<Rightarrow> handleFailure (pd_env D) (job_id (rel_job rel)) n (job_maxAttempts (rel_job rel)) e w3)"
    using assms eq p by (cases r0) auto
  moreover have "w_queue w' = w_queue w3 \<and> w_accounts w' = w_accounts w3"
    using calculation by (cases r0) (simp_all add: world_simps)
  moreover have "w_queue ?w2 = w_queue w" "w_accounts ?w2 = w_accounts w"
    "w_jobs ?w2 = w_jobs (upd_job (job_id (rel_job rel)) (start_row (pd_env D) n (rel_job rel) w) w)"
    by (simp_all add: world_simps)
  ultimately show ?thesis using p unfolding path_def by blast
qed

lemma run_attempt_slot:
  assumes "drivers_keep_slot D a" and "run_attempt D n rel w = Some (r, w')"
  shows "keeps_slot D a w w'"
proof -
  from run_attempt_ran [OF assms(2)] obtain r0 w2 w3 where
    w2: "w_queue w2 = w_queue w" and w': "w_queue w' = w_queue w3"
    and ran: "(if job_type (rel_job rel) = INTERACTIVE_ONBOARDING then runOnboarding D rel w2
               else Some (runPublish D rel w2)) = Some (r0, w3)"
    by blast
  have "keeps_slot D a w2 w3"
    using ran runOnboarding_slot [OF assms(1)] runPublish_slot [OF assms(1), of w2 rel]
    by (cases "job_type (rel_job rel) = INTERACTIVE_ONBOARDING") auto
  with w2 w' show ?thesis by (simp add: keeps_slot_def)
qed


lemma ex_drivers_keep_slot: "drivers_keep_slot ex_deps a"
  by (simp add: drivers_keep_slot_def keeps_slot_def ex_deps_def)

lemma ex_find: "find_job ''j1'' (pj_world a [ex_job]) = Some ex_job"
  by (simp add: find_job_def pj_world_def tfind_Cons ex_job_def)


subsection \<open>How an onboarding leaves the account\<close>

lemma reset_account:
  "find_account k (upd_account k (\<lambda>a. a\<lparr>acc_sessionState := s\<rparr>) w) = Some a \<Longrightarrow> acc_sessionState a = s"
  by (auto simp: account_rows.look_upd)

lemma finishOnboarding_account:
  assumes "finishOnboarding E job out d w = (r, w')" and "find_account (job_accountId job) w' = Some a"
  shows "if out = Verified
     then acc_sessionState a = VERIFIED \<and> acc_sessionVerifiedAt a = Some (we_clock E w) \<and> r = Inr ()
       \<and> (\<forall>j. find_job (job_id job) w' = Some j \<longrightarrow> job_status j = COMPLETED)
     else acc_sessionState a = NONE
       \<and> (\<forall>j. find_job (job_id job) w' = Some j \<longrightarrow>
            job_status j = (if out = Cancelled then CANCELLED else FAILED))
       \<and> (\<exists>e. r = (if out = Unverified then Inl e else Inr ()) \<and> (out = Unverified \<longrightarrow> \<not> isRetryable e))"
  using assms
  by (auto simp: finishOnboarding_def Let_def world_simps account_rows.look_upd job_rows.look_upd
      split: if_splits)

text \<open>
  C22. However an onboarding run ends, the account is out of ONBOARDING: either it is VERIFIED, the driver
  returned the outcome verified and the job is COMPLETED, or it is NONE - after a throw of the
  driver or an unreadable credential too - and the job, unless an error is on its way to
  the failure handler, is CANCELLED or FAILED.
\<close>

theorem onboarding_leaves_account:
  assumes "runOnboarding D rel w = Some (r, w')"
    and "find_account (job_accountId (rel_job rel)) w' = Some a"
  shows "acc_sessionState a = VERIFIED \<and> r = Inr ()
       \<and> (\<forall>j. find_job (job_id (rel_job rel)) w' = Some j \<longrightarrow> job_status j = COMPLETED)
       \<and> (\<exists>ready await acct w2 res w3. pd_onboard D ready await (job_id (rel_job rel)) acct w2 = Some (Inr res, w3)
            \<and> or_outcome res = Verified)
     \<or> acc_sessionState a = NONE
       \<and> (r = Inr () \<longrightarrow> (\<forall>j. find_job (job_id (rel_job rel)) w' = Some j \<longrightarrow> job_status j \<in> {CANCELLED, FAILED}))"
proof (cases "publisherAccount (pd_crypto D) rel")
  case (Inl e)
  with assms show ?thesis by (auto simp: runOnboarding_def Let_def dest: reset_account)
next
  case (Inr acct)
  let ?i = "job_id (rel_job rel)"
  define E where "E = pd_env D"
  define w2 where "w2 = upd_account (job_accountId (rel_job rel)) (\<lambda>a. a\<lparr>acc_sessionState := ONBOARDING\<rparr>)
     (clearHumanSignal E ?i w)"
  obtain r1 w3 where run: "pd_onboard D (onDeviceReady E (pd_onboardingTimeoutMs D) ?i)
       (awaitHuman E (pd_onboardingTimeoutMs D) ?i) ?i acct w2 = Some (r1, w3)"
    and res: "case r1 of Inl e \<Rightarrow> r = Inl e
        \<and> w' = upd_account (job_accountId (rel_job rel)) (\<lambda>a. a\<lparr>acc_sessionState := NONE\<rparr>) w3
      | Inr x \<Rightarrow> finishOnboarding E (rel_job rel) (or_outcome x) (or_details x) w3 = (r, w')"
    using assms(1) Inr
    by (auto simp: runOnboarding_def Let_def E_def w2_def split: option.splits sum.splits)
  show ?thesis
  proof (cases r1)
    case (Inl e)
    with res assms(2) show ?thesis by (auto dest: reset_account)
  next
    case ok: (Inr x)
    with res finishOnboarding_account [OF _ assms(2), of E "or_outcome x" "or_details x" w3 r]
    have fin: "if or_outcome x = Verified
     then acc_sessionState a = VERIFIED \<and> acc_sessionVerifiedAt a = Some (we_clock E w3) \<and> r = Inr ()
       \<and> (\<forall>j. find_job ?i w' = Some j \<longrightarrow> job_status j = COMPLETED)
     else acc_sessionState a = NONE
       \<and> (\<forall>j. find_job ?i w' = Some j \<longrightarrow>
            job_status j = (if or_outcome x = Cancelled then CANCELLED else FAILED))
       \<and> (\<exists>e. r = (if or_outcome x = Unverified then Inl e else Inr ())
            \<and> (or_outcome x = Unverified \<longrightarrow> \<not> isRetryable e))" by simp
    show ?thesis
    proof (cases "or_outcome x = Verified")
      case True
      moreover have "\<exists>ready await acct w2 res w3. pd_onboard D ready await ?i acct w2 = Some (Inr res, w3)
            \<and> or_outcome res = Verified" using run ok True by blast
      ultimately show ?thesis using fin by (intro disjI1) simp
    next
      case False
      with fin show ?thesis by auto
    qed
  qed
qed

lemma ex_onboarding:
  "\<exists>r w' a. runOnboarding ex_deps (ex_rel\<lparr>rel_account := ex_account\<lparr>acc_credentials := None\<rparr>\<rparr>)
       (pj_world ex_account [ex_job]) = Some (r, w') \<and> find_account ''a1'' w' = Some a"
  by (simp add: runOnboarding_def Let_def ex_deps_def publisherAccount_def effective_egress_def ex_rel_def
      clearHumanSignal_def finishOnboarding_def world_simps account_rows.look_upd ex_job_def)
    (simp add: find_account_def pj_world_def tfind_Cons ex_account_def)

theorem onboarding_leaves_account_witness:
  "\<exists>r w' a. runOnboarding ex_deps (ex_rel\<lparr>rel_account := ex_account\<lparr>acc_credentials := None\<rparr>\<rparr>)
       (pj_world ex_account [ex_job]) = Some (r, w') \<and> find_account ''a1'' w' = Some a
     \<and> acc_sessionState a \<noteq> ONBOARDING"
proof -
  obtain r w' a where eq: "runOnboarding ex_deps (ex_rel\<lparr>rel_account := ex_account\<lparr>acc_credentials := None\<rparr>\<rparr>)
       (pj_world ex_account [ex_job]) = Some (r, w')" "find_account ''a1'' w' = Some a"
    using ex_onboarding by blast
  have "job_accountId (rel_job (ex_rel\<lparr>rel_account := ex_account\<lparr>acc_credentials := None\<rparr>\<rparr>)) = ''a1''"
    by (simp add: ex_rel_def ex_job_def)
  from onboarding_leaves_account [OF eq(1), of a] eq this show ?thesis by auto
qed

subsection \<open>What a publish run asks for, and what it records\<close>

definition request_for :: "crypto \<Rightarrow> job_rel \<Rightarrow> publish_request \<Rightarrow> bool" where
  "request_for C rel req =
     (pr_jobId req = job_id (rel_job rel)
      \<and> pr_caption req = (case job_caption (rel_job rel) of Some c \<Rightarrow> c | None \<Rightarrow> [])
      \<and> pr_flowType req = job_flowType (rel_job rel)
      \<and> pa_id (pr_account req) = acc_id (rel_account rel)
      \<and> (case rel_proxy rel of
           Some p \<Rightarrow> openProxy C p = Inr (the (pa_proxy (pr_account req))) \<and> pa_proxy (pr_account req) \<noteq> None
         | None \<Rightarrow> (case rel_accountProxy rel of
             Some p \<Rightarrow> openProxy C p = Inr (the (pa_proxy (pr_account req))) \<and> pa_proxy (pr_account req) \<noteq> None
           | None \<Rightarrow> pa_proxy (pr_account req) = None))
      \<and> (pr_video req = None \<longleftrightarrow> rel_video rel = None)
      \<and> (\<forall>v m. rel_video rel = Some v \<longrightarrow> pr_video req = Some m \<longrightarrow> pv_id m = vid_id v))"

lemma lift_secret_Inr [simp]: "lift_secret r = Inr x \<longleftrightarrow> r = Inr x"
  by (auto simp: lift_secret_def split: sum.splits)

lemma publisherAccount_Inr:
  assumes "publisherAccount C rel = Inr acct"
  shows "pa_id acct = acc_id (rel_account rel)
      \<and> (case rel_proxy rel of
           Some p \<Rightarrow> openProxy C p = Inr (the (pa_proxy acct)) \<and> pa_proxy acct \<noteq> None
         | None \<Rightarrow> (case rel_accountProxy rel of
             Some p \<Rightarrow> openProxy C p = Inr (the (pa_proxy acct)) \<and> pa_proxy acct \<noteq> None
           | None \<Rightarrow> pa_proxy acct = None))"
  using assms
  by (auto simp: publisherAccount_def Let_def andThen_Inr_iff effective_egress_def split: option.splits)

text \<open>
  The worker asks a publisher only for the job it was given, with its caption and flow, for its
  account, through the egress it is entitled to - the job's own proxy when it has one, else the
  account's, opened - and with the media it staged: a publisher that answers those requests
  like another one makes the same run.
\<close>

theorem publish_requests:
  assumes "\<And>req w. request_for (pd_crypto D) rel req \<Longrightarrow> pd_publish D req w = P req w"
  shows "runPublish (D\<lparr>pd_publish := P\<rparr>) rel w = runPublish D rel w"
proof (cases "publisherAccount (pd_crypto D) rel")
  case (Inl e)
  then show ?thesis by (auto simp: runPublish_def Let_def)
next
  case (Inr acct)
  note acct = publisherAccount_Inr [OF Inr]
  have same: "publish_and_record (D\<lparr>pd_publish := P\<rparr>) i req w = publish_and_record D i req w"
    if "request_for (pd_crypto D) rel req" for i req w
  proof -
    have "pd_env (D\<lparr>pd_publish := P\<rparr>) = pd_env D" "pd_publish (D\<lparr>pd_publish := P\<rparr>) req w = pd_publish D req w"
      using assms [OF that] by simp_all
    then show ?thesis by (simp only: publish_and_record_def)
  qed
  have parts: "pd_env (D\<lparr>pd_publish := P\<rparr>) = pd_env D" "pd_crypto (D\<lparr>pd_publish := P\<rparr>) = pd_crypto D"
    "pd_mkdtemp (D\<lparr>pd_publish := P\<rparr>) = pd_mkdtemp D" "pd_download (D\<lparr>pd_publish := P\<rparr>) = pd_download D"
    "pd_rm (D\<lparr>pd_publish := P\<rparr>) = pd_rm D" by simp_all
  have novid: "request_for (pd_crypto D) rel \<lparr>pr_jobId = job_id (rel_job rel),
      pr_caption = (case job_caption (rel_job rel) of Some c \<Rightarrow> c | None \<Rightarrow> []), pr_account = acct,
      pr_video = None, pr_flowType = job_flowType (rel_job rel), pr_aborted = b\<rparr>"
    if "rel_video rel = None" for b
    using acct that by (simp only: request_for_def publish_request.simps) simp
  have vid: "request_for (pd_crypto D) rel \<lparr>pr_jobId = job_id (rel_job rel),
      pr_caption = (case job_caption (rel_job rel) of Some c \<Rightarrow> c | None \<Rightarrow> []), pr_account = acct,
      pr_video = Some m, pr_flowType = job_flowType (rel_job rel), pr_aborted = b\<rparr>"
    if "rel_video rel = Some v" "pv_id m = vid_id v" for v m b
    using acct that by (simp only: request_for_def publish_request.simps) simp
  show ?thesis
  proof (cases "rel_video rel")
    case None
    then show ?thesis
      by (simp only: runPublish_def Let_def parts Inr sum.case option.case same [OF novid [OF None]])
  next
    case (Some v)
    have "request_for (pd_crypto D) rel \<lparr>pr_jobId = job_id (rel_job rel),
      pr_caption = (case job_caption (rel_job rel) of Some c \<Rightarrow> c | None \<Rightarrow> []), pr_account = acct,
      pr_video = Some \<lparr>pv_id = vid_id v, pv_localPath = p, pv_fileName = vid_fileName v,
        pv_mimeType = vid_mimeType v, pv_sizeBytes = vid_sizeBytes v,
        pv_durationSeconds = vid_durationSeconds v, pv_width = vid_width v, pv_height = vid_height v\<rparr>,
      pr_flowType = job_flowType (rel_job rel), pr_aborted = b\<rparr>" for p b
      by (rule vid [OF Some]) simp
    with Some show ?thesis
      by (simp only: runPublish_def Let_def parts Inr sum.case option.case same)
  qed
qed

text \<open>
  A publisher that returns has its post recorded and the job COMPLETED, whatever became of the row
  while it ran: a job cancelled during the run ends COMPLETED too. One that throws leaves the
  row to the failure handler.
\<close>

theorem publish_recorded:
  assumes "pd_publish D req w = (pr, w1)" and "find_job i w1 = Some j"
  shows "case pr of
      Inl e \<Rightarrow> publish_and_record D i req w = (Inl e, w1)
    | Inr res \<Rightarrow> \<exists>w' j'. publish_and_record D i req w = (Inr (), w') \<and> find_job i w' = Some j'
         \<and> job_status j' = COMPLETED \<and> job_externalPostId j' = Some (res_externalPostId res)
         \<and> job_errorMessage j' = None \<and> job_completedAt j' = Some (we_clock (pd_env D) w1)
         \<and> (res_metrics res = None \<longrightarrow> job_metrics j' = job_metrics j)
         \<and> (\<forall>k. k \<noteq> i \<longrightarrow> find_job k w' = find_job k w1)"
  using assms
  by (auto simp: publish_and_record_def recordPublished_def world_simps job_rows.look_upd split: sum.splits)

definition ex_request :: publish_request where
  "ex_request = \<lparr>pr_jobId = ''j1'', pr_caption = ''hi'',
     pr_account = \<lparr>pa_id = ''a1'', pa_name = ''main'', pa_platform = TIKTOK, pa_externalId = None,
                   pa_credentials = None, pa_proxy = None\<rparr>,
     pr_video = None, pr_flowType = None, pr_aborted = False\<rparr>"

theorem publish_recorded_witness:
  "\<exists>w' j'. publish_and_record ex_deps ''j1'' ex_request (pj_world ex_account [ex_job\<lparr>job_status := CANCELLED\<rparr>])
       = (Inr (), w') \<and> find_job ''j1'' w' = Some j' \<and> job_status j' = COMPLETED"
proof -
  let ?j = "ex_job\<lparr>job_status := CANCELLED\<rparr>"
  let ?res = "\<lparr>res_externalPostId = ''post'', res_url = None, res_metrics = None\<rparr>"
  have pub: "pd_publish ex_deps ex_request (pj_world ex_account [?j]) = (Inr ?res, pj_world ex_account [?j])"
    by (simp add: ex_deps_def)
  have look: "find_job ''j1'' (pj_world ex_account [?j]) = Some ?j"
    by (simp add: find_job_def pj_world_def tfind_Cons ex_job_def)
  from publish_recorded [OF pub look] show ?thesis by auto
qed

theorem publish_requests_witness:
  "runPublish (ex_deps\<lparr>pd_publish := pd_publish ex_deps\<rparr>) ex_rel (pj_world ex_account [ex_job])
     = runPublish ex_deps ex_rel (pj_world ex_account [ex_job])"
  by (rule publish_requests) (rule refl)

end
