(* ===== verification/Worker.thy ===== *)
theory Worker
  imports Process_Job
begin

text \<open>
  \<open>lib/worker/createWorker.ts\<close>: what a worker does at start-up with the rows an earlier process
  left behind, the function BullMQ calls for each delivery, its handler for failed
  deliveries, and the dead-letter queue.
\<close>

definition find_jobs :: "job_status list \<Rightarrow> 'q world \<Rightarrow> job list" where
  "find_jobs ss w = [j \<leftarrow> w_jobs w. job_status j \<in> set ss]"

definition stranded_message :: "job_status \<Rightarrow> string" where
  "stranded_message s =
     (if s = VERIFYING then ''The worker restarted while verifying the session; start the link again''
      else ''The worker restarted while waiting for the operator; start the link again'')"

fun fail_stranded :: "'q wait_env \<Rightarrow> job list \<Rightarrow> 'q world \<Rightarrow> 'q world" where
  "fail_stranded E [] w = w"
| "fail_stranded E (j # js) w =
     (let w1 = upd_job (job_id j)
                 (\<lambda>r. r\<lparr>job_status := FAILED, job_completedAt := Some (we_clock E w),
                         job_deviceEndpoint := None,
                         job_errorMessage := Some (stranded_message (job_status j))\<rparr>) w;
          w2 = upd_account (job_accountId j) (\<lambda>a. a\<lparr>acc_sessionState := NONE\<rparr>) w1
      in fail_stranded E js (log_write (job_id j) ERROR ''Interactive job abandoned by a worker restart'' None w2))"

definition failStrandedInteractiveJobs :: "'q wait_env \<Rightarrow> 'q world \<Rightarrow> nat \<times> 'q world" where
  "failStrandedInteractiveJobs E w =
     (let stranded = find_jobs [AWAITING_HUMAN, VERIFYING] w
      in (length stranded, fail_stranded E stranded w))"

text \<open>Re-adding one job the queue does not hold live.\<close>

definition requeue ::
  "'q services \<Rightarrow> 'q wait_env \<Rightarrow> job \<Rightarrow> 'q world \<Rightarrow> (job_error, unit) result \<times> 'q world" where
  "requeue S E j w =
     (let delay = (case job_scheduledAt j of Some t \<Rightarrow> max 0 (t - we_clock E w) | None \<Rightarrow> 0);
          w1 = upd_job (job_id j)
                 (\<lambda>r. r\<lparr>job_status := (if delay > 0 then SCHEDULED else QUEUED), job_startedAt := None\<rparr>) w;
          w2 = w1\<lparr>w_queue := svc_remove S (job_id j) (w_queue w1)\<rparr>
      in case svc_add S (job_id j) \<lparr>opt_delay = delay, opt_attempts = None\<rparr> (w_queue w2) of
           None \<Rightarrow> (Inl QueueAddError, w2)
         | Some (b, q) \<Rightarrow>
             (Inr (), log_write (job_id j) WARN
                        (if job_status j = PROCESSING then ''Recovered after worker restart, re-queued''
                         else ''Found in the database but not in the queue, re-queued'') None
                        (w2\<lparr>w_queue := q\<rparr>)))"

definition live_states :: "bull_state option set" where
  "live_states = {Some BullActive, Some BullWaiting, Some BullDelayed}"

text \<open>\<open>queue.add\<close> throwing ends the loop: \<open>Inl\<close>.\<close>

fun recover_jobs ::
  "'q services \<Rightarrow> 'q wait_env \<Rightarrow> job list \<Rightarrow> 'q world \<Rightarrow> (job_error, nat) result \<times> 'q world" where
  "recover_jobs S E [] w = (Inr 0, w)"
| "recover_jobs S E (j # js) w =
     (if svc_state S (job_id j) (w_queue w) \<in> live_states then recover_jobs S E js w
      else (case requeue S E j w of
              (Inl e, w1) \<Rightarrow> (Inl e, w1)
            | (Inr u, w1) \<Rightarrow>
                (case recover_jobs S E js w1 of
                   (Inl e, w2) \<Rightarrow> (Inl e, w2)
                 | (Inr n, w2) \<Rightarrow> (Inr (n + 1), w2))))"

definition recoverOrphans ::
  "'q services \<Rightarrow> 'q wait_env \<Rightarrow> 'q world \<Rightarrow> (job_error, nat) result \<times> 'q world" where
  "recoverOrphans S E w =
     (case failStrandedInteractiveJobs E w of
        (stranded, w1) \<Rightarrow>
          (let candidates = find_jobs [PROCESSING, QUEUED, SCHEDULED] w1
           in if length candidates = 0 then (Inr stranded, w1)
              else (case recover_jobs S E candidates w1 of
                      (Inl e, w2) \<Rightarrow> (Inl e, w2)
                    | (Inr n, w2) \<Rightarrow> (Inr (n + stranded), w2))))"

definition running_count :: "'q world \<Rightarrow> string \<Rightarrow> nat" where
  "running_count w a =
     length [j \<leftarrow> w_jobs w. job_accountId j = a \<and> job_status j \<in> {PROCESSING, AWAITING_HUMAN, VERIFYING}]"

text \<open>\<open>groupBy\<close> has a row only for accounts with a running job.\<close>

definition reconcileSlots :: "'q redis \<Rightarrow> 'q world \<Rightarrow> nat \<times> 'q world" where
  "reconcileSlots R w =
     (let perAccount = (\<lambda>a. if running_count w a = 0 then None else Some (running_count w a))
      in case reconcileAccountSlots R perAccount (map acc_id (w_accounts w)) (w_queue w) of
           (n, q) \<Rightarrow> (n, w\<lparr>w_queue := q\<rparr>))"

definition toDeadLetter ::
  "'q services \<Rightarrow> 'q wait_env \<Rightarrow> string \<Rightarrow> string \<Rightarrow> 'q world \<Rightarrow> (job_error, unit) result \<times> 'q world" where
  "toDeadLetter S E i reason w =
     (let now = we_clock E w
      in case svc_dead S \<lparr>dl_jobId = i, dl_reason = reason, dl_failedAt = now,
                          dl_bullId = i @ ''-'' @ show_int now\<rparr> (w_queue w) of
           None \<Rightarrow> (Inl QueueAddError, w)
         | Some q \<Rightarrow>
             (let w1 = upd_job i (\<lambda>j. j\<lparr>job_status := DEAD, job_completedAt := Some now,
                                         job_errorMessage := Some (take 5000 reason)\<rparr>) (w\<lparr>w_queue := q\<rparr>)
              in (Inr (), log_write i ERROR ''Moved to dead-letter queue''
                            (Some (JsObj [(''reason'', JsStr reason)])) w1)))"

text \<open>
  The function BullMQ calls. \<open>moveDelayed\<close> is \<open>moveToDelayed\<close> on the delivered job, until the
  given instant.
\<close>

definition deliver ::
  "'q deps \<Rightarrow> (string \<Rightarrow> ms \<Rightarrow> 'q \<Rightarrow> 'q) \<Rightarrow> nat \<Rightarrow> string \<Rightarrow> 'q world
   \<Rightarrow> ((exn, unit) result \<times> 'q world) option" where
  "deliver D moveDelayed attemptsMade i w =
     (case processJob D attemptsMade i w of
        None \<Rightarrow> None
      | Some (Inr u, w1) \<Rightarrow> Some (Inr (), w1)
      | Some (Inl e, w1) \<Rightarrow>
          (case e of
             DeferJobError d m \<Rightarrow>
               Some (Inl (DelayedError m),
                     w1\<lparr>w_queue := moveDelayed i (we_clock (pd_env D) w1 + d) (w_queue w1)\<rparr>)
           | _ \<Rightarrow> if \<not> isRetryable e then Some (Inl (UnrecoverableError (exn_message e)), w1)
                  else Some (Inl e, w1)))"

text \<open>
  The \<open>failed\<close> event. \<open>attemptsMade\<close> counts the failed attempt; \<open>allowed\<close> is the delivery's
  \<open>attempts\<close> option. An error of the dead-letter queue is logged and dropped.
\<close>

definition on_failed ::
  "'q services \<Rightarrow> 'q wait_env \<Rightarrow> nat \<Rightarrow> int option \<Rightarrow> string \<Rightarrow> exn \<Rightarrow> 'q world \<Rightarrow> 'q world" where
  "on_failed S E attemptsMade attempts i e w =
     (let allowed = (case attempts of Some n \<Rightarrow> n | None \<Rightarrow> 1);
          permanent = (\<not> isRetryable e \<or> (case e of UnrecoverableError m \<Rightarrow> True | _ \<Rightarrow> False))
      in if permanent \<or> int attemptsMade \<ge> allowed
         then snd (toDeadLetter S E i (exn_message e) w)
         else w)"

subsection \<open>Interactive jobs a dead worker left\<close>

lemma fail_stranded_queue [world_simps]: "w_queue (fail_stranded E js w) = w_queue w"
  by (induction js arbitrary: w) (simp_all add: Let_def world_simps)

lemma fail_stranded_keys: "keys_kept w (fail_stranded E js w)"
proof (induction js arbitrary: w)
  case (Cons j js)
  show ?case
    by (auto simp: Let_def intro!: keys_kept_trans [OF _ Cons.IH])
      (simp add: keys_kept_def world_simps map_tupd_same)
qed simp

lemma keys_kept_ids: "keys_kept w w' \<Longrightarrow> job_id ` set (w_jobs w') = job_id ` set (w_jobs w)"
proof -
  assume "keys_kept w w'"
  then have "set (map fst (map (\<lambda>j. (job_id j, job_idempotencyKey j)) (w_jobs w')))
      = set (map fst (map (\<lambda>j. (job_id j, job_idempotencyKey j)) (w_jobs w)))"
    by (simp only: keys_kept_def)
  then show ?thesis by (simp add: comp_def)
qed

lemma fail_stranded_job:
  "\<exists>t m. find_job i (fail_stranded E js w) =
     (if i \<in> job_id ` set js
      then map_option (\<lambda>r. r\<lparr>job_status := FAILED, job_completedAt := Some t, job_deviceEndpoint := None,
                             job_errorMessage := Some m\<rparr>) (find_job i w)
      else find_job i w)"
proof (induction js arbitrary: w)
  case (Cons j js)
  let ?w = "log_write (job_id j) ERROR ''Interactive job abandoned by a worker restart'' None
      (upd_account (job_accountId j) (\<lambda>a. a\<lparr>acc_sessionState := NONE\<rparr>)
        (upd_job (job_id j)
                 (\<lambda>r. r\<lparr>job_status := FAILED, job_completedAt := Some (we_clock E w),
                         job_deviceEndpoint := None,
                         job_errorMessage := Some (stranded_message (job_status j))\<rparr>) w))"
  have "find_job i ?w = (if i = job_id j
      then map_option (\<lambda>r. r\<lparr>job_status := FAILED, job_completedAt := Some (we_clock E w),
                         job_deviceEndpoint := None,
                         job_errorMessage := Some (stranded_message (job_status j))\<rparr>) (find_job i w)
      else find_job i w)"
    by (simp add: world_simps job_rows.look_upd)
  moreover obtain t m where "find_job i (fail_stranded E js ?w) = (if i \<in> job_id ` set js
      then map_option (\<lambda>r. r\<lparr>job_status := FAILED, job_completedAt := Some t, job_deviceEndpoint := None,
                             job_errorMessage := Some m\<rparr>) (find_job i ?w)
      else find_job i ?w)" using Cons.IH by blast
  moreover have "fail_stranded E (j # js) w = fail_stranded E js ?w" by (simp add: Let_def)
  ultimately show ?case
    by (cases "i = job_id j"; cases "i \<in> job_id ` set js")
      (auto simp: option.map_comp comp_def)
qed simp

lemma fail_stranded_account:
  "find_account k (fail_stranded E js w) = Some a \<Longrightarrow>
     (k \<in> job_accountId ` set js \<longrightarrow> acc_sessionState a = NONE)
     \<and> (k \<notin> job_accountId ` set js \<longrightarrow> find_account k w = Some a)"
proof (induction js arbitrary: w)
  case (Cons j js)
  then show ?case
  proof (cases "k \<in> job_accountId ` set js")
    case True
    with Cons.IH Cons.prems show ?thesis by (auto simp: Let_def)
  next
    case False
    with Cons.prems Cons.IH have "find_account k (log_write (job_id j) ERROR ''Interactive job abandoned by a worker restart'' None
      (upd_account (job_accountId j) (\<lambda>a. a\<lparr>acc_sessionState := NONE\<rparr>)
        (upd_job (job_id j)
                 (\<lambda>r. r\<lparr>job_status := FAILED, job_completedAt := Some (we_clock E w),
                         job_deviceEndpoint := None,
                         job_errorMessage := Some (stranded_message (job_status j))\<rparr>) w))) = Some a"
      by (simp add: Let_def)
    with False show ?thesis by (auto simp: world_simps account_rows.look_upd split: if_splits)
  qed
qed simp

text \<open>
  After start-up no job is left waiting for a worker that is gone: every job that was
  AWAITING_HUMAN or VERIFYING is FAILED with a time and a message, its account is out of
  ONBOARDING, and no other job and no other account changed.
\<close>

theorem stranded_interactive_jobs_fail:
  assumes "wf_jobs w" and "failStrandedInteractiveJobs E w = (n, w')"
  shows "n = length [j \<leftarrow> w_jobs w. job_status j \<in> {AWAITING_HUMAN, VERIFYING}]
    \<and> (\<forall>j \<in> set (w_jobs w'). job_status j \<notin> {AWAITING_HUMAN, VERIFYING})
    \<and> (\<forall>j \<in> set (w_jobs w).
         if job_status j \<in> {AWAITING_HUMAN, VERIFYING}
         then (\<exists>j'. find_job (job_id j) w' = Some j' \<and> job_status j' = FAILED \<and> job_completedAt j' \<noteq> None
                 \<and> job_errorMessage j' \<noteq> None)
              \<and> (\<forall>a. find_account (job_accountId j) w' = Some a \<longrightarrow> acc_sessionState a = NONE)
         else find_job (job_id j) w' = Some j)
    \<and> (\<forall>k a. find_account k w' = Some a \<longrightarrow> find_account k w \<noteq> Some a \<longrightarrow>
         (\<exists>j \<in> set (w_jobs w). job_accountId j = k \<and> job_status j \<in> {AWAITING_HUMAN, VERIFYING}))"
proof -
  define js where "js = find_jobs [AWAITING_HUMAN, VERIFYING] w"
  have n: "n = length js" and w': "w' = fail_stranded E js w"
    using assms(2) by (auto simp: failStrandedInteractiveJobs_def js_def Let_def)
  have js: "set js = {j \<in> set (w_jobs w). job_status j \<in> {AWAITING_HUMAN, VERIFYING}}"
    by (auto simp: js_def find_jobs_def)
  have wf': "wf_jobs w'" using assms(1) fail_stranded_keys w' keys_kept_wf by blast
  have look: "find_job (job_id j) w = Some j" if "j \<in> set (w_jobs w)" for j
    using assms(1) that by (simp add: wf_jobs_def find_job_def tfind_distinct)
  have mine: "j \<in> set js \<longleftrightarrow> job_id j \<in> job_id ` set js" if "j \<in> set (w_jobs w)" for j
    using that look js by (metis (no_types, lifting) image_iff mem_Collect_eq option.inject)
  have row: "if job_status j \<in> {AWAITING_HUMAN, VERIFYING}
         then (\<exists>j'. find_job (job_id j) w' = Some j' \<and> job_status j' = FAILED \<and> job_completedAt j' \<noteq> None
                 \<and> job_errorMessage j' \<noteq> None)
         else find_job (job_id j) w' = Some j" if "j \<in> set (w_jobs w)" for j
    using fail_stranded_job [of "job_id j" E js w] mine [OF that] look [OF that] that js w' by auto
  have "job_status r \<notin> {AWAITING_HUMAN, VERIFYING}" if r: "r \<in> set (w_jobs w')" for r
  proof -
    have found: "find_job (job_id r) w' = Some r"
      using wf' r by (simp add: wf_jobs_def find_job_def tfind_distinct)
    have "job_id r \<in> job_id ` set (w_jobs w)"
      using keys_kept_ids [OF fail_stranded_keys, of E js w] w' r by blast
    then obtain j where j: "j \<in> set (w_jobs w)" "job_id j = job_id r" by (metis imageE)
    show ?thesis
    proof (cases "job_status j \<in> {AWAITING_HUMAN, VERIFYING}")
      case True
      with row [OF j(1)] found j(2) show ?thesis by auto
    next
      case False
      with row [OF j(1)] have "find_job (job_id j) w' = Some j" by simp
      with found j(2) have "r = j" by (metis option.inject)
      with False show ?thesis by simp
    qed
  qed
  moreover have "if job_status j \<in> {AWAITING_HUMAN, VERIFYING}
         then (\<exists>j'. find_job (job_id j) w' = Some j' \<and> job_status j' = FAILED \<and> job_completedAt j' \<noteq> None
                 \<and> job_errorMessage j' \<noteq> None)
              \<and> (\<forall>a. find_account (job_accountId j) w' = Some a \<longrightarrow> acc_sessionState a = NONE)
         else find_job (job_id j) w' = Some j" if "j \<in> set (w_jobs w)" for j
  proof (cases "job_status j \<in> {AWAITING_HUMAN, VERIFYING}")
    case True
    with that js have "job_accountId j \<in> job_accountId ` set js" by blast
    then have "\<forall>a. find_account (job_accountId j) w' = Some a \<longrightarrow> acc_sessionState a = NONE"
      using fail_stranded_account w' by blast
    with True row [OF that] show ?thesis by simp
  next
    case False
    with row [OF that] show ?thesis by simp
  qed
  moreover have "\<exists>j \<in> set (w_jobs w). job_accountId j = k \<and> job_status j \<in> {AWAITING_HUMAN, VERIFYING}"
    if "find_account k w' = Some a" "find_account k w \<noteq> Some a" for k a
    using fail_stranded_account [of k E js w a] that js w' by auto
  moreover have "n = length [j \<leftarrow> w_jobs w. job_status j \<in> {AWAITING_HUMAN, VERIFYING}]"
    using n by (simp add: js_def find_jobs_def)
  ultimately show ?thesis by blast
qed

theorem stranded_interactive_jobs_fail_witness:
  "\<exists>n w'. failStrandedInteractiveJobs silent_env (silent_world [ex_job\<lparr>job_status := VERIFYING\<rparr>]) = (n, w')
     \<and> n = 1 \<and> (\<forall>j \<in> set (w_jobs w'). job_status j \<notin> {AWAITING_HUMAN, VERIFYING})"
proof -
  obtain n w' where eq: "failStrandedInteractiveJobs silent_env
      (silent_world [ex_job\<lparr>job_status := VERIFYING\<rparr>]) = (n, w')" by fastforce
  have wf: "wf_jobs (silent_world [ex_job\<lparr>job_status := VERIFYING\<rparr>])"
    by (simp add: wf_jobs_def silent_world_def)
  from stranded_interactive_jobs_fail [OF wf eq]
  have "n = length [j \<leftarrow> [ex_job\<lparr>job_status := VERIFYING\<rparr>]. job_status j \<in> {AWAITING_HUMAN, VERIFYING}]
      \<and> (\<forall>j \<in> set (w_jobs w'). job_status j \<notin> {AWAITING_HUMAN, VERIFYING})"
    by (simp only: silent_world_def world.simps) blast
  with eq show ?thesis by auto
qed

subsection \<open>Jobs the queue does not know\<close>

lemma requeue_job:
  "\<exists>st. st \<in> {QUEUED, SCHEDULED} \<and> (st = SCHEDULED \<longrightarrow> job_scheduledAt j \<noteq> None)
     \<and> (\<forall>i. find_job i (snd (requeue S E j w)) =
          (if i = job_id j then map_option (\<lambda>r. r\<lparr>job_status := st, job_startedAt := None\<rparr>) (find_job i w)
           else find_job i w))"
  by (intro exI [of _ "if (case job_scheduledAt j of Some t \<Rightarrow> max 0 (t - we_clock E w) | None \<Rightarrow> 0) > 0
                       then SCHEDULED else QUEUED"])
    (auto simp: requeue_def Let_def world_simps job_rows.look_upd split: option.splits)

lemma requeue_keys: "keys_kept w (snd (requeue S E j w))"
  by (auto simp: requeue_def Let_def keys_kept_def world_simps map_tupd_same split: option.splits)

lemma requeue_accounts: "w_accounts (snd (requeue S E j w)) = w_accounts w"
  by (auto simp: requeue_def Let_def world_simps split: option.splits)

lemma queue_lawsD:
  assumes "queue_laws S"
  shows "svc_state S i q \<noteq> Some BullActive \<Longrightarrow> svc_state S i (svc_remove S i q) = None"
    and "svc_add S i opts q = Some (b, q') \<Longrightarrow> svc_state S i q = None \<Longrightarrow>
           svc_state S i q' \<in> {Some BullWaiting, Some BullDelayed}"
    and "svc_add S j opts q = Some (b, q') \<Longrightarrow> i \<noteq> j \<Longrightarrow> svc_state S i q' = svc_state S i q"
    and "i \<noteq> j \<Longrightarrow> svc_state S i (svc_remove S j q) = svc_state S i q"
proof -
  note L = assms [unfolded queue_laws_def]
  show "svc_state S i q \<noteq> Some BullActive \<Longrightarrow> svc_state S i (svc_remove S i q) = None"
    using L by simp
  show "svc_add S i opts q = Some (b, q') \<Longrightarrow> svc_state S i q = None \<Longrightarrow>
           svc_state S i q' \<in> {Some BullWaiting, Some BullDelayed}"
    using L [THEN conjunct2, THEN conjunct2, THEN conjunct1] by blast
  show "svc_add S j opts q = Some (b, q') \<Longrightarrow> i \<noteq> j \<Longrightarrow> svc_state S i q' = svc_state S i q"
    using L [THEN conjunct2, THEN conjunct2, THEN conjunct2, THEN conjunct1] by blast
  show "i \<noteq> j \<Longrightarrow> svc_state S i (svc_remove S j q) = svc_state S i q"
    using L [THEN conjunct2, THEN conjunct2, THEN conjunct2, THEN conjunct2] by blast
qed

lemma requeue_state:
  assumes "queue_laws S" and "svc_state S (job_id j) (w_queue w) \<notin> live_states"
    and "requeue S E j w = (Inr (), w')"
  shows "svc_state S (job_id j) (w_queue w') \<in> live_states"
    and "i \<noteq> job_id j \<Longrightarrow> svc_state S i (w_queue w') = svc_state S i (w_queue w)"
proof -
  let ?q = "svc_remove S (job_id j) (w_queue w)"
  obtain opts b where add: "svc_add S (job_id j) opts ?q = Some (b, w_queue w')"
    using assms(3) by (auto simp: requeue_def Let_def world_simps split: option.splits)
  note L = queue_lawsD [OF assms(1)]
  have none: "svc_state S (job_id j) ?q = None"
    using assms(2) by (intro L(1)) (auto simp: live_states_def)
  show "svc_state S (job_id j) (w_queue w') \<in> live_states"
    using L(2) [OF add none] by (auto simp: live_states_def)
  assume "i \<noteq> job_id j"
  then show "svc_state S i (w_queue w') = svc_state S i (w_queue w)"
    using L(3) [OF add] L(4) by simp
qed

lemma recover_jobs_keys: "keys_kept w (snd (recover_jobs S E js w))"
proof (induction js arbitrary: w)
  case (Cons j js)
  obtain r w1 where rq: "requeue S E j w = (r, w1)" by fastforce
  then have "keys_kept w w1" using requeue_keys [of w S E j] by simp
  then show ?case
    using Cons.IH [of w] keys_kept_trans [OF _ Cons.IH [of w1], of w] rq
    by (auto split: sum.splits prod.splits)
qed simp

text \<open>
  What recovery leaves of a candidate row \<open>j\<close>: untouched when the queue held the job live, otherwise
  QUEUED or, with a time, SCHEDULED, and not started.
\<close>

definition recovered :: "'q services \<Rightarrow> 'q world \<Rightarrow> 'q world \<Rightarrow> job \<Rightarrow> bool" where
  "recovered S w w' j =
     (if svc_state S (job_id j) (w_queue w) \<in> live_states
      then find_job (job_id j) w' = find_job (job_id j) w
      else \<exists>st. st \<in> {QUEUED, SCHEDULED} \<and> (st = SCHEDULED \<longrightarrow> job_scheduledAt j \<noteq> None)
             \<and> find_job (job_id j) w' =
                 map_option (\<lambda>r. r\<lparr>job_status := st, job_startedAt := None\<rparr>) (find_job (job_id j) w))"

lemma recovered_cong:
  "svc_state S (job_id j) (w_queue v) = svc_state S (job_id j) (w_queue w) \<Longrightarrow>
   find_job (job_id j) v = find_job (job_id j) w \<Longrightarrow> recovered S v w' j = recovered S w w' j"
  by (simp add: recovered_def)

text \<open>What the loop does to the rows and to the queue.\<close>

lemma recover_jobs_spec:
  assumes "queue_laws S" and "distinct (map job_id js)" and "recover_jobs S E js w = (Inr n, w')"
  shows "n = length [j \<leftarrow> js. svc_state S (job_id j) (w_queue w) \<notin> live_states]
    \<and> (\<forall>j \<in> set js. svc_state S (job_id j) (w_queue w') \<in> live_states)
    \<and> (\<forall>i. i \<notin> job_id ` set js \<longrightarrow> svc_state S i (w_queue w') = svc_state S i (w_queue w)
           \<and> find_job i w' = find_job i w)
    \<and> (\<forall>j \<in> set js. recovered S w w' j)
    \<and> w_accounts w' = w_accounts w"
  using assms(2,3)
proof (induction js arbitrary: w n)
  case (Cons j js)
  have d: "distinct (map job_id js)" "job_id j \<notin> job_id ` set js" using Cons.prems(1) by auto
  show ?case
  proof (cases "svc_state S (job_id j) (w_queue w) \<in> live_states")
    case True
    with Cons.prems(2) have "recover_jobs S E js w = (Inr n, w')" by simp
    note IH = Cons.IH [OF d(1) this]
    with True d(2) show ?thesis by (auto simp: recovered_def)
  next
    case False
    obtain w1 m where rq: "requeue S E j w = (Inr (), w1)" and rec: "recover_jobs S E js w1 = (Inr m, w')"
      and n: "n = m + 1"
      using Cons.prems(2) False by (auto split: prod.splits sum.splits)
    note IH = Cons.IH [OF d(1) rec] and st = requeue_state [OF assms(1) False rq]
    have same: "svc_state S (job_id k) (w_queue w1) = svc_state S (job_id k) (w_queue w)" if "k \<in> set js" for k
      using that d(2) st(2) by (metis imageI)
    have len: "[k \<leftarrow> js. svc_state S (job_id k) (w_queue w1) \<notin> live_states]
        = [k \<leftarrow> js. svc_state S (job_id k) (w_queue w) \<notin> live_states]"
      by (rule filter_cong) (simp_all add: same)
    obtain s where s: "s \<in> {QUEUED, SCHEDULED}" "s = SCHEDULED \<longrightarrow> job_scheduledAt j \<noteq> None"
      and look: "\<And>i. find_job i w1 = (if i = job_id j
          then map_option (\<lambda>r. r\<lparr>job_status := s, job_startedAt := None\<rparr>) (find_job i w) else find_job i w)"
      using requeue_job [of j S E w] rq by auto
    have others: "find_job (job_id k) w1 = find_job (job_id k) w" if "k \<in> set js" for k
      using that d(2) look by (metis imageI)
    have here: "find_job (job_id j) w' = find_job (job_id j) w1"
      "svc_state S (job_id j) (w_queue w') = svc_state S (job_id j) (w_queue w1)"
      using IH d(2) by blast+
    have accs: "w_accounts w' = w_accounts w" using IH requeue_accounts [of S E j w] rq by simp
    have "\<forall>k \<in> set (j # js). svc_state S (job_id k) (w_queue w') \<in> live_states"
      using IH here(2) st(1) by auto
    moreover have "\<forall>i. i \<notin> job_id ` set (j # js) \<longrightarrow> svc_state S i (w_queue w') = svc_state S i (w_queue w)
           \<and> find_job i w' = find_job i w"
      using IH st(2) look by auto
    moreover have "\<forall>k \<in> set (j # js). recovered S w w' k"
    proof
      fix k assume "k \<in> set (j # js)"
      then consider "k = j" | "k \<in> set js" by auto
      then show "recovered S w w' k"
      proof cases
        case 1
        have "find_job (job_id j) w' = map_option (\<lambda>r. r\<lparr>job_status := s, job_startedAt := None\<rparr>)
            (find_job (job_id j) w)" using here(1) look by simp
        with False s 1 show ?thesis unfolding recovered_def by auto
      next
        case 2
        with IH recovered_cong [OF same [OF 2] others [OF 2]] show ?thesis by blast
      qed
    qed
    ultimately show ?thesis using n IH len False accs by simp
  qed
qed simp

lemma find_jobs_find:
  "wf_jobs w \<Longrightarrow> j \<in> set (find_jobs ss w) \<Longrightarrow> find_job (job_id j) w = Some j \<and> job_status j \<in> set ss"
  by (auto simp: find_jobs_def wf_jobs_def find_job_def tfind_distinct)

lemma find_jobs_distinct: "wf_jobs w \<Longrightarrow> distinct (map job_id (find_jobs ss w))"
  by (simp add: find_jobs_def wf_jobs_def distinct_map_filter)

lemma filter_stranded:
  assumes "ss \<inter> {AWAITING_HUMAN, VERIFYING, FAILED} = {}"
    and "\<forall>j \<in> set js. \<forall>r \<in> set (w_jobs w). job_id r = job_id j \<longrightarrow> job_status r \<notin> ss"
  shows "[j \<leftarrow> w_jobs (fail_stranded E js w). job_status j \<in> ss \<and> P j] = [j \<leftarrow> w_jobs w. job_status j \<in> ss \<and> P j]"
  using assms(2)
proof (induction js arbitrary: w)
  case (Cons j js)
  define f :: "job \<Rightarrow> job" where "f = (\<lambda>r. r\<lparr>job_status := FAILED, job_completedAt := Some (we_clock E w),
      job_deviceEndpoint := None, job_errorMessage := Some (stranded_message (job_status j))\<rparr>)"
  define w1 where "w1 = log_write (job_id j) ERROR ''Interactive job abandoned by a worker restart'' None
      (upd_account (job_accountId j) (\<lambda>a. a\<lparr>acc_sessionState := NONE\<rparr>) (upd_job (job_id j) f w))"
  have jobs: "w_jobs w1 = tupd job_id (job_id j) f (w_jobs w)" by (simp add: w1_def world_simps)
  have f: "job_status (f r) = FAILED" "job_id (f r) = job_id r" for r by (simp_all add: f_def)
  have "FAILED \<notin> ss" using assms(1) by auto
  have "[r \<leftarrow> tupd job_id (job_id j) f t. job_status r \<in> ss \<and> P r] = [r \<leftarrow> t. job_status r \<in> ss \<and> P r]"
    if "\<forall>r \<in> set t. job_id r = job_id j \<longrightarrow> job_status r \<notin> ss" for t
    using that \<open>FAILED \<notin> ss\<close> by (induction t) (auto simp: tupd_def f)
  then have "[r \<leftarrow> w_jobs w1. job_status r \<in> ss \<and> P r] = [r \<leftarrow> w_jobs w. job_status r \<in> ss \<and> P r]"
    using Cons.prems jobs by simp
  moreover have "\<forall>k \<in> set js. \<forall>r \<in> set (w_jobs w1). job_id r = job_id k \<longrightarrow> job_status r \<notin> ss"
    using Cons.prems jobs f \<open>FAILED \<notin> ss\<close> by (auto simp: set_tupd)
  moreover have "fail_stranded E (j # js) w = fail_stranded E js w1" by (simp add: Let_def w1_def f_def)
  ultimately show ?case using Cons.IH [of w1] by simp
qed simp

text \<open>The rows the first pass leaves alone are in the table as they were, in order.\<close>

lemma fail_stranded_filter:
  assumes "wf_jobs w" and "ss \<inter> {AWAITING_HUMAN, VERIFYING, FAILED} = {}"
  shows "[j \<leftarrow> w_jobs (fail_stranded E (find_jobs [AWAITING_HUMAN, VERIFYING] w) w). job_status j \<in> ss \<and> P j]
       = [j \<leftarrow> w_jobs w. job_status j \<in> ss \<and> P j]"
proof (rule filter_stranded [OF assms(2)], intro ballI impI)
  fix j r
  assume "j \<in> set (find_jobs [AWAITING_HUMAN, VERIFYING] w)" "r \<in> set (w_jobs w)" "job_id r = job_id j"
  then have "r = j" "job_status j \<in> {AWAITING_HUMAN, VERIFYING}"
    using assms(1) by (auto simp: find_jobs_def wf_jobs_def distinct_map dest: inj_onD)
  with assms(2) show "job_status r \<notin> ss" by auto
qed

text \<open>A worker's environment whose clock stands still.\<close>

definition idle_env :: "'q wait_env" where
  "idle_env = \<lparr>we_clock = (\<lambda>w. 100), we_aborted = (\<lambda>w. False), we_pop = (\<lambda>k b w. (PopTimeout, w)),
     we_sleep = (\<lambda>w. w), we_clear = (\<lambda>k w. w)\<rparr>"

lemma ex_recover:
  "\<exists>n w'. recoverOrphans list_services idle_env (ex_world [ex_job\<lparr>job_status := PROCESSING\<rparr>]) = (Inr n, w')"
  by (simp add: recoverOrphans_def failStrandedInteractiveJobs_def find_jobs_def ex_world_def Let_def
      requeue_def list_services_def live_states_def world_simps ex_job_def)

text \<open>
  C11. A recovery that succeeds leaves every job that was QUEUED, SCHEDULED or PROCESSING live on the
  queue: active, waiting or delayed. Those the queue already held are untouched; the others
  are QUEUED, or SCHEDULED if they have a time, and not started. What is counted is what
  was re-added and what was failed.
\<close>

theorem recoverOrphans_requeues:
  assumes "queue_laws S" and "wf_jobs w" and "recoverOrphans S E w = (Inr n, w')"
  shows "n = length [j \<leftarrow> w_jobs w. job_status j \<in> {AWAITING_HUMAN, VERIFYING}]
           + length [j \<leftarrow> w_jobs w. job_status j \<in> {PROCESSING, QUEUED, SCHEDULED}
                       \<and> svc_state S (job_id j) (w_queue w) \<notin> live_states]
    \<and> (\<forall>j \<in> set (w_jobs w). job_status j \<in> {PROCESSING, QUEUED, SCHEDULED} \<longrightarrow>
         svc_state S (job_id j) (w_queue w') \<in> live_states \<and> recovered S w w' j)"
proof -
  obtain k w1 where st: "failStrandedInteractiveJobs E w = (k, w1)" by fastforce
  note S1 = stranded_interactive_jobs_fail [OF assms(2) st]
  have w1: "w1 = fail_stranded E (find_jobs [AWAITING_HUMAN, VERIFYING] w) w"
    using st by (auto simp: failStrandedInteractiveJobs_def Let_def)
  have q1: "w_queue w1 = w_queue w" by (simp add: w1 fail_stranded_queue)
  have wf1: "wf_jobs w1" using w1 assms(2) fail_stranded_keys keys_kept_wf by blast
  let ?c = "find_jobs [PROCESSING, QUEUED, SCHEDULED] w1"
  have same: "find_job (job_id j) w1 = Some j" "find_job (job_id j) w1 = find_job (job_id j) w"
    if "j \<in> set (w_jobs w)" "job_status j \<in> {PROCESSING, QUEUED, SCHEDULED}" for j
  proof -
    show "find_job (job_id j) w1 = Some j" using S1 that by auto
    moreover have "find_job (job_id j) w = Some j"
      using assms(2) that(1) by (simp add: wf_jobs_def find_job_def tfind_distinct)
    ultimately show "find_job (job_id j) w1 = find_job (job_id j) w" by simp
  qed
  obtain m where rec: "recover_jobs S E ?c w1 = (Inr m, w')" and n: "n = m + k"
    using assms(3) st by (cases "?c = []") (auto simp: recoverOrphans_def Let_def split: prod.splits sum.splits)
  note R = recover_jobs_spec [OF assms(1) find_jobs_distinct [OF wf1] rec]
  have filter: "[j \<leftarrow> w_jobs w1. job_status j \<in> {PROCESSING, QUEUED, SCHEDULED}
                   \<and> svc_state S (job_id j) (w_queue w) \<notin> live_states]
      = [j \<leftarrow> w_jobs w. job_status j \<in> {PROCESSING, QUEUED, SCHEDULED}
                   \<and> svc_state S (job_id j) (w_queue w) \<notin> live_states]"
    using fail_stranded_filter [OF assms(2), where ss = "{PROCESSING, QUEUED, SCHEDULED}" and E = E
        and P = "\<lambda>j. svc_state S (job_id j) (w_queue w) \<notin> live_states"] w1 by simp
  have m: "m = length [j \<leftarrow> w_jobs w. job_status j \<in> {PROCESSING, QUEUED, SCHEDULED}
                       \<and> svc_state S (job_id j) (w_queue w) \<notin> live_states]"
    using R q1 filter by (simp add: find_jobs_def conj_commute)
  have "svc_state S (job_id j) (w_queue w') \<in> live_states \<and> recovered S w w' j"
    if "j \<in> set (w_jobs w)" "job_status j \<in> {PROCESSING, QUEUED, SCHEDULED}" for j
  proof -
    have "j \<in> set (w_jobs w1)" using same(1) [OF that] by (auto simp: find_job_def dest: tfind_Some)
    then have "j \<in> set ?c" using that(2) by (auto simp: find_jobs_def)
    then have "svc_state S (job_id j) (w_queue w') \<in> live_states \<and> recovered S w1 w' j" using R by blast
    then show ?thesis using recovered_cong [of S j w1 w w'] same(2) [OF that] q1 by simp
  qed
  with n m S1 show ?thesis by auto
qed

theorem recoverOrphans_requeues_witness:
  "\<exists>n w'. recoverOrphans list_services idle_env (ex_world [ex_job\<lparr>job_status := PROCESSING\<rparr>]) = (Inr n, w')
     \<and> n = 1 \<and> svc_state list_services ''j1'' (w_queue w') \<in> live_states"
proof -
  let ?j = "ex_job\<lparr>job_status := PROCESSING\<rparr>"
  obtain n w' where eq: "recoverOrphans list_services idle_env (ex_world [?j]) = (Inr n, w')"
    using ex_recover by blast
  have wf: "wf_jobs (ex_world [?j])" by (simp add: wf_jobs_def ex_world_def)
  have parts: "w_jobs (ex_world [?j]) = [?j]" "svc_state list_services (job_id ?j) (w_queue (ex_world [?j])) = None"
    by (simp_all add: ex_world_def list_services_def)
  from recoverOrphans_requeues [OF list_services_laws wf eq] parts eq show ?thesis
    by (simp add: live_states_def ex_job_def)
qed

subsection \<open>Slots after a restart\<close>

text \<open>
  After reconciling, every account's slot counter is the number of its jobs that are PROCESSING,
  AWAITING_HUMAN or VERIFYING, whatever a dead worker left there, and no row changed.
\<close>

theorem reconcileSlots_counts:
  assumes "redis_laws R" and "distinct (map acc_id (w_accounts w))" and "reconcileSlots R w = (n, w')"
  shows "(\<forall>a \<in> set (w_accounts w). rd_stored R (slotsKey (acc_id a)) (w_queue w') =
            int (length [j \<leftarrow> w_jobs w. job_accountId j = acc_id a
                          \<and> job_status j \<in> {PROCESSING, AWAITING_HUMAN, VERIFYING}]))
    \<and> w_jobs w' = w_jobs w \<and> w_accounts w' = w_accounts w"
proof -
  let ?run = "\<lambda>a. if running_count w a = 0 then None else Some (running_count w a)"
  obtain q where q: "reconcileAccountSlots R ?run (map acc_id (w_accounts w)) (w_queue w) = (n, q)"
    "w' = w\<lparr>w_queue := q\<rparr>"
    using assms(3) by (auto simp: reconcileSlots_def Let_def split: prod.splits)
  have "rd_stored R (slotsKey a) q = int (running_count w a)" if "a \<in> set (map acc_id (w_accounts w))" for a
    using reconcile_repairs [OF assms(1,2) q(1)] that by (auto split: if_splits)
  with q(2) show ?thesis by (simp add: running_count_def)
qed

theorem reconcileSlots_counts_witness:
  "rd_stored map_redis (slotsKey ''a1'') (w_queue (snd (reconcileSlots map_redis
      ((pj_world ex_account [])\<lparr>w_queue := (\<lambda>k. Some 5)\<rparr>)))) = 0"
proof -
  let ?w = "(pj_world ex_account [])\<lparr>w_queue := (\<lambda>k. Some 5)\<rparr>"
  obtain n w' where eq: "reconcileSlots map_redis ?w = (n, w')" by fastforce
  have "distinct (map acc_id (w_accounts ?w))" by (simp add: pj_world_def)
  from reconcileSlots_counts [OF map_redis_laws this eq]
  have "rd_stored map_redis (slotsKey ''a1'') (w_queue w') = 0" by (simp add: pj_world_def ex_account_def)
  with eq show ?thesis by simp
qed

subsection \<open>Failed deliveries\<close>

text \<open>
  A job is parked before it is marked dead: when the dead-letter queue refuses it the world is
  unchanged and the row keeps the status the dashboard can retry, and a row this makes
  DEAD has its entry, with the reason, in the queue.
\<close>

theorem toDeadLetter_parks_first:
  assumes "toDeadLetter S E i reason w = (r, w')"
  shows "(case r of
       Inl e \<Rightarrow> w' = w
     | Inr u \<Rightarrow> \<exists>d. svc_dead S d (w_queue w) = Some (w_queue w') \<and> dl_jobId d = i \<and> dl_reason d = reason
         \<and> (\<forall>j. find_job i w = Some j \<longrightarrow> (\<exists>j'. find_job i w' = Some j' \<and> job_status j' = DEAD
               \<and> job_completedAt j' = Some (dl_failedAt d) \<and> job_errorMessage j' = Some (take 5000 reason))))
    \<and> (\<forall>k. k \<noteq> i \<longrightarrow> find_job k w' = find_job k w)"
proof (cases "svc_dead S \<lparr>dl_jobId = i, dl_reason = reason, dl_failedAt = we_clock E w,
                dl_bullId = i @ ''-'' @ show_int (we_clock E w)\<rparr> (w_queue w)")
  case None
  with assms show ?thesis by (auto simp: toDeadLetter_def Let_def)
next
  case (Some q)
  with assms have r: "r = Inr ()" and q: "w_queue w' = q"
    and look: "\<And>k. find_job k w' = (if k = i then map_option (\<lambda>j. j\<lparr>job_status := DEAD,
         job_completedAt := Some (we_clock E w), job_errorMessage := Some (take 5000 reason)\<rparr>) (find_job k w)
       else find_job k w)"
    by (auto simp: toDeadLetter_def Let_def world_simps job_rows.look_upd)
  with Some show ?thesis
    by (intro conjI) (auto intro!: exI [of _ "\<lparr>dl_jobId = i, dl_reason = reason, dl_failedAt = we_clock E w,
                dl_bullId = i @ ''-'' @ show_int (we_clock E w)\<rparr>"])
qed

theorem toDeadLetter_parks_first_witness:
  "\<exists>r w'. toDeadLetter list_services idle_env ''j1'' ''boom'' (ex_world [ex_job]) = (r, w') \<and>
     (case r of Inl e \<Rightarrow> w' = ex_world [ex_job] | Inr u \<Rightarrow> True)"
proof -
  obtain r w' where eq: "toDeadLetter list_services idle_env ''j1'' ''boom'' (ex_world [ex_job]) = (r, w')"
    by fastforce
  from toDeadLetter_parks_first [OF eq] eq show ?thesis by (auto split: sum.splits)
qed


lemma ex_permanent:
  "\<exists>w1. processJob (ex_deps\<lparr>pd_publish := (\<lambda>req w. (Inl (permanent ''c'' ''m''), w))\<rparr>) 0 ''j1''
      (pj_world (ex_account\<lparr>acc_credentials := None\<rparr>) [ex_job]) = Some (Inl (permanent ''c'' ''m''), w1)"
  by (simp add: processJob_def run_attempt_def Let_def ex_deps_def load_job_def find_job_def find_account_def
      find_video_def pj_world_def tfind_Cons ex_job_def ex_account_def ex_video_def reserve_def reserve_interval_def
      reserve_take_def map_redis_def runPublish_def publisherAccount_def effective_egress_def
      publish_and_record_def flowRequiresVideo_def isDefaultFlow_def truthy_def)


end
