(* ===== verification/Drivers.thy ===== *)
theory Drivers
  imports Publish_Errors
begin

text \<open>
  \<open>lib/publisher/stub.ts\<close>, \<open>noop.ts\<close>, \<open>tiktok.ts\<close> and \<open>registry.ts\<close>: the drivers that need
  no device, and the choice among drivers. The file system, the clock, timers, the random source, the job log and
  the HTTP request are the operations of \<open>driver_env\<close>, over a state of their own. Each driver is
  an instance of \<open>publisher_contract\<close>.
\<close>

record upload_form =
  up_token :: string
  up_path :: string
  up_fileName :: string
  up_caption :: string
  up_openId :: "string option"

text \<open>A response: its status, and its body when that is JSON.\<close>

record http_response =
  resp_status :: int
  resp_json :: "js option"

record 'n driver_env =
  de_stat :: "string \<Rightarrow> 'n \<Rightarrow> int option"   \<comment> \<open>\<open>stat(path).size\<close>, \<open>None\<close>: it throws\<close>
  de_now :: "'n \<Rightarrow> ms"
  de_parseDate :: "string \<Rightarrow> ms option"       \<comment> \<open>\<open>Date.parse\<close>, \<open>None\<close>: NaN\<close>
  de_aborted :: "'n \<Rightarrow> bool"
  de_timer :: "ms \<Rightarrow> 'n \<Rightarrow> bool \<times> 'n"         \<comment> \<open>true: it fired, false: the abort came first\<close>
  de_uuid :: "'n \<Rightarrow> string \<times> 'n"
  de_info :: "string \<Rightarrow> js \<Rightarrow> 'n \<Rightarrow> 'n"
  de_upload :: "upload_form \<Rightarrow> 'n \<Rightarrow> (exn, http_response) result \<times> 'n"

subsection \<open>JavaScript values\<close>

definition js_get :: "js \<Rightarrow> string \<Rightarrow> js" where
  "js_get v k =
     (case v of JsObj kvs \<Rightarrow> (case map_of kvs k of Some x \<Rightarrow> x | None \<Rightarrow> JsUndefined) | _ \<Rightarrow> JsUndefined)"

definition js_number :: "rat \<Rightarrow> js" where
  "js_number r = (if r = of_int (floor r) then JsNum (floor r) else JsFrac r)"

definition js_nullish :: "js \<Rightarrow> bool" where
  "js_nullish v = (v = JsNull \<or> v = JsUndefined)"

definition js_or_else :: "js \<Rightarrow> js \<Rightarrow> js" where
  "js_or_else a b = (if js_nullish a then b else a)"

definition js_string :: "js \<Rightarrow> string option" where
  "js_string v = (case v of JsStr s \<Rightarrow> Some s | _ \<Rightarrow> None)"

text \<open>A decimal expansion of at most \<open>n\<close> places.\<close>

fun frac_digits :: "nat \<Rightarrow> rat \<Rightarrow> string" where
  "frac_digits 0 r = []"
| "frac_digits (Suc n) r =
     (if r = 0 then [] else digit_char (nat (floor (10 * r))) # frac_digits n (10 * r - of_int (floor (10 * r))))"

definition show_frac :: "rat \<Rightarrow> string" where
  "show_frac r =
     (if r < 0 then ''-'' else []) @ show_int (floor \<bar>r\<bar>) @ ''.''
     @ frac_digits 17 (\<bar>r\<bar> - of_int (floor \<bar>r\<bar>))"

text \<open>
  \<open>String(v)\<close>, with two cases that only approximate JavaScript's: an instant is shown in ISO form
  (JavaScript uses the local time zone), a fraction as its first decimals.
\<close>

fun js_to_string :: "js \<Rightarrow> string" where
  "js_to_string JsNull = ''null''"
| "js_to_string JsUndefined = ''undefined''"
| "js_to_string (JsBool b) = (if b then ''true'' else ''false'')"
| "js_to_string (JsNum n) = show_int n"
| "js_to_string (JsFrac r) = show_frac r"
| "js_to_string (JsBigInt n) = show_int n"
| "js_to_string (JsStr s) = s"
| "js_to_string (JsDate t) = toISOString t"
| "js_to_string (JsArr xs) =
     js_join '','' (map (\<lambda>x. if js_nullish x then [] else js_to_string x) xs)"
| "js_to_string (JsObj kvs) = ''[object Object]''"

text \<open>\<open>JSON.stringify\<close> of a parsed JSON value.\<close>

definition json_char :: "char \<Rightarrow> string" where
  "json_char c =
     (let n = of_char c :: nat
      in if n = 34 then [CHR 0x5C, CHR 0x22] else if n = 92 then [CHR 0x5C, CHR 0x5C]
         else if n = 8 then [CHR 0x5C, CHR ''b''] else if n = 9 then [CHR 0x5C, CHR ''t'']
         else if n = 10 then [CHR 0x5C, CHR ''n''] else if n = 12 then [CHR 0x5C, CHR ''f'']
         else if n = 13 then [CHR 0x5C, CHR ''r'']
         else if n < 32 then [CHR 0x5C] @ ''u00'' @ [digit_char (n div 16),
           (if n mod 16 < 10 then digit_char (n mod 16) else char_of (87 + n mod 16))]
         else [c])"

definition json_str :: "string \<Rightarrow> string" where
  "json_str s = [CHR 0x22] @ concat (map json_char s) @ [CHR 0x22]"

fun json_stringify :: "js \<Rightarrow> string" where
  "json_stringify JsNull = ''null''"
| "json_stringify JsUndefined = ''null''"
| "json_stringify (JsBool b) = (if b then ''true'' else ''false'')"
| "json_stringify (JsNum n) = show_int n"
| "json_stringify (JsFrac r) = show_frac r"
| "json_stringify (JsBigInt n) = show_int n"
| "json_stringify (JsStr s) = json_str s"
| "json_stringify (JsDate t) = json_str (toISOString t)"
| "json_stringify (JsArr xs) = ''['' @ js_join '','' (map json_stringify xs) @ '']''"
| "json_stringify (JsObj kvs) =
     ''{'' @ js_join '',''
       (map (\<lambda>kv. json_str (fst kv) @ '':'' @ json_stringify (snd kv))
          (filter (\<lambda>kv. snd kv \<noteq> JsUndefined) kvs)) @ ''}''"

lemma json_stringify_quotes:
  "json_stringify (JsObj [(''a'', JsArr [JsNum 1, JsNull]), (''b'', JsUndefined), (''c'', JsStr [CHR 0x22])])
     = ''{'' @ [CHR 0x22] @ ''a'' @ [CHR 0x22] @ '':[1,null],'' @ [CHR 0x22] @ ''c'' @ [CHR 0x22] @ '':''
       @ [CHR 0x22, CHR 0x5C, CHR 0x22, CHR 0x22] @ ''}''"
  by code_simp

subsection \<open>Checks the drivers share\<close>

definition delay :: "'n driver_env \<Rightarrow> ms \<Rightarrow> 'n \<Rightarrow> (exn, unit) result \<times> 'n" where
  "delay D t n =
     (if de_aborted D n then (Inl (GenericError ''Aborted''), n)
      else case de_timer D t n of
        (True, n1) \<Rightarrow> (Inr (), n1)
      | (False, n1) \<Rightarrow> (Inl (GenericError ''Aborted''), n1))"

definition staged_size :: "'n driver_env \<Rightarrow> publisher_video \<Rightarrow> 'n \<Rightarrow> (exn, int) result" where
  "staged_size D v n =
     (case de_stat D (pv_localPath v) n of
        None \<Rightarrow> Inl (transient ''media_unreadable'' (''Staged media is not readable at '' @ pv_localPath v))
      | Some onDisk \<Rightarrow>
          if onDisk \<noteq> pv_sizeBytes v
          then Inl (permanent ''media_size_mismatch''
                 (''Staged media is '' @ show_int onDisk @ '' bytes but the record says ''
                  @ show_int (pv_sizeBytes v)))
          else Inr onDisk)"

lemma staged_size_Inr: "staged_size D v n = Inr z \<longleftrightarrow> de_stat D (pv_localPath v) n = Some z \<and> z = pv_sizeBytes v"
  by (auto simp: staged_size_def split: option.splits)

subsection \<open>The stub and the no-op driver\<close>

definition synthetic_post :: "'n driver_env \<Rightarrow> string \<Rightarrow> 'n \<Rightarrow> publish_result \<times> 'n" where
  "synthetic_post D pre n =
     (let (u, n1) = de_uuid D n
      in (\<lparr>res_externalPostId = pre @ u, res_url = None, res_metrics = None\<rparr>, n1))"

definition stub_finish :: "'n driver_env \<Rightarrow> 'n \<Rightarrow> (exn, publish_result) result \<times> 'n" where
  "stub_finish D n =
     (case delay D 1200 n of
        (Inl e, n1) \<Rightarrow> (Inl e, n1)
      | (Inr u, n1) \<Rightarrow> (let (res, n2) = synthetic_post D ''stub_'' n1 in (Inr res, n2)))"

definition stub_publish ::
  "'n driver_env \<Rightarrow> publish_request \<Rightarrow> 'n \<Rightarrow> (exn, publish_result) result \<times> 'n" where
  "stub_publish D req n =
     (case pr_video req of
        None \<Rightarrow>
          stub_finish D (de_info D ''Stub publisher accepted a media-less flow''
            (JsObj [(''flowType'', JsStr (case pr_flowType req of Some f \<Rightarrow> f | None \<Rightarrow> ''upload''))]) n)
      | Some v \<Rightarrow>
          if js_trim (pr_caption req) = []
          then (Inl (permanent ''empty_caption'' ''Caption must not be empty''), n)
          else if length (pr_caption req) > 2200
          then (Inl (permanent ''caption_too_long''
                 (''Caption is '' @ show_nat (length (pr_caption req)) @ '' characters, limit is 2200'')), n)
          else case staged_size D v n of
            Inl e \<Rightarrow> (Inl e, n)
          | Inr onDisk \<Rightarrow>
              stub_finish D (de_info D ''Stub publisher accepted the request''
                (JsObj [(''captionLength'', JsNum (int (length (pr_caption req)))),
                        (''sizeBytes'', JsNum onDisk),
                        (''durationSeconds'', case pv_durationSeconds v of Some r \<Rightarrow> js_number r | None \<Rightarrow> JsNull)]) n))"

definition noop_publish ::
  "'n driver_env \<Rightarrow> publish_request \<Rightarrow> 'n \<Rightarrow> (exn, publish_result) result \<times> 'n" where
  "noop_publish D req n = (let (res, n1) = synthetic_post D ''noop_'' n in (Inr res, n1))"

subsection \<open>The TikTok driver\<close>

record tiktok_credentials =
  tk_accessToken :: string
  tk_refreshToken :: "string option"
  tk_expiresAt :: "js option"
  tk_openId :: "string option"

definition js_instant :: "js \<Rightarrow> js option" where
  "js_instant v =
     (case v of JsStr s \<Rightarrow> Some v | JsNum n \<Rightarrow> Some v | JsFrac r \<Rightarrow> Some v | JsDate t \<Rightarrow> Some v | _ \<Rightarrow> None)"

text \<open>\<open>null\<close>, a scalar and an array are no credentials; any other object is looked into.\<close>

definition js_is_object :: "js \<Rightarrow> bool" where
  "js_is_object v = (case v of JsObj kvs \<Rightarrow> True | JsDate t \<Rightarrow> True | _ \<Rightarrow> False)"

definition tiktok_parseCredentials :: "js option \<Rightarrow> (exn, tiktok_credentials) result" where
  "tiktok_parseCredentials c =
     (case c of
        Some v \<Rightarrow>
          if js_is_object v
          then (let accessToken = (case js_get v ''accessToken'' of JsStr s \<Rightarrow> js_trim s | _ \<Rightarrow> [])
                in if accessToken = []
                   then Inl (permanent ''missing_credentials'' ''TikTok access token is required'')
                   else Inr \<lparr>tk_accessToken = accessToken,
                             tk_refreshToken = map_option js_trim (js_string (js_get v ''refreshToken'')),
                             tk_expiresAt = js_instant (js_get v ''expiresAt''),
                             tk_openId = map_option js_trim (js_string (js_get v ''openId''))\<rparr>)
          else Inl (permanent ''missing_credentials'' ''TikTok credentials are required'')
      | None \<Rightarrow> Inl (permanent ''missing_credentials'' ''TikTok credentials are required''))"

text \<open>A \<open>Date\<close> goes through its text, which has no milliseconds.\<close>

definition credentialExpired :: "'n driver_env \<Rightarrow> js option \<Rightarrow> 'n \<Rightarrow> bool" where
  "credentialExpired D expiresAt n =
     (case expiresAt of
        Some (JsNum t) \<Rightarrow> t \<noteq> 0 \<and> de_now D n > t
      | Some (JsFrac r) \<Rightarrow> of_int (de_now D n) > r
      | Some (JsStr s) \<Rightarrow> s \<noteq> [] \<and> (case de_parseDate D s of Some t \<Rightarrow> de_now D n > t | None \<Rightarrow> False)
      | Some (JsDate t) \<Rightarrow> de_now D n > t div 1000 * 1000
      | _ \<Rightarrow> False)"

definition tiktok_rejected :: "http_response \<Rightarrow> js \<Rightarrow> exn" where
  "tiktok_rejected resp payload =
     (let st = resp_status resp; errorMessage = json_stringify payload
      in if st = 401 \<or> st = 403 then needsReauth ''TikTok credentials are invalid or expired''
         else if st \<ge> 500
         then transient ''tiktok_server_error'' (''TikTok returned '' @ show_int st @ '': '' @ errorMessage)
         else permanent ''tiktok_publish_failed'' (''TikTok API rejected the upload: '' @ errorMessage))"

definition tiktok_post_id :: "js \<Rightarrow> string" where
  "tiktok_post_id body =
     (let d = js_get body ''data''
      in js_to_string (js_or_else (js_get d ''post_id'') (js_or_else (js_get d ''item_id'')
           (js_or_else (js_get d ''video_id'') (JsStr [])))))"

definition tiktok_url :: "js \<Rightarrow> string option" where
  "tiktok_url body =
     (let d = js_get body ''data''
      in case js_get d ''share_url'' of JsStr s \<Rightarrow> Some s | _ \<Rightarrow> js_string (js_get d ''video_url''))"

text \<open>From the response on. A body of \<open>null\<close> makes the read of \<open>body.data\<close> throw.\<close>

definition tiktok_read ::
  "'n driver_env \<Rightarrow> http_response \<Rightarrow> 'n \<Rightarrow> (exn, publish_result) result \<times> 'n" where
  "tiktok_read D resp n =
     (case resp_json resp of
        None \<Rightarrow> (Inl (transient ''invalid_response'' ''TikTok API returned invalid JSON''), n)
      | Some payload \<Rightarrow>
          if \<not> (200 \<le> resp_status resp \<and> resp_status resp \<le> 299)
          then (Inl (tiktok_rejected resp payload), n)
          else if payload = JsNull
          then (Inl (GenericError ''Cannot read properties of null (reading 'data')''), n)
          else (let externalPostId = tiktok_post_id payload; url = tiktok_url payload
                in if externalPostId = []
                   then (Inl (transient ''tiktok_response_missing_id''
                          (''TikTok response did not include a post identifier: ''
                           @ json_stringify payload)), n)
                   else (Inr \<lparr>res_externalPostId = externalPostId, res_url = url, res_metrics = None\<rparr>,
                         de_info D ''TikTok publish succeeded''
                           (JsObj [(''externalPostId'', JsStr externalPostId),
                                   (''url'', case url of Some u \<Rightarrow> JsStr u | None \<Rightarrow> JsUndefined)]) n)))"

definition tiktok_form :: "publish_request \<Rightarrow> tiktok_credentials \<Rightarrow> publisher_video \<Rightarrow> upload_form" where
  "tiktok_form req creds v =
     \<lparr>up_token = tk_accessToken creds, up_path = pv_localPath v, up_fileName = pv_fileName v,
      up_caption = pr_caption req,
      up_openId = (case tk_openId creds of Some s \<Rightarrow> if s = [] then None else Some s | None \<Rightarrow> None)\<rparr>"

definition tiktok_publish ::
  "'n driver_env \<Rightarrow> publish_request \<Rightarrow> 'n \<Rightarrow> (exn, publish_result) result \<times> 'n" where
  "tiktok_publish D req n =
     (case tiktok_parseCredentials (pa_credentials (pr_account req)) of
        Inl e \<Rightarrow> (Inl e, n)
      | Inr creds \<Rightarrow>
          (case pr_video req of
             None \<Rightarrow> (Inl (permanent ''unsupported_flow''
                 ''The TikTok driver publishes uploads and has no media-less flow to run.''), n)
           | Some v \<Rightarrow>
               if credentialExpired D (tk_expiresAt creds) n
               then (Inl (needsReauth ''TikTok access token has expired''), n)
               else if js_trim (pr_caption req) = []
               then (Inl (permanent ''empty_caption'' ''Caption must not be empty''), n)
               else case staged_size D v n of
                 Inl e \<Rightarrow> (Inl e, n)
               | Inr onDisk \<Rightarrow>
                   (let n1 = de_info D ''Uploading media to TikTok''
                              (JsObj [(''accountId'', JsStr (pa_id (pr_account req))),
                                      (''accountName'', JsStr (pa_name (pr_account req))),
                                      (''fileName'', JsStr (pv_fileName v)),
                                      (''sizeBytes'', JsNum onDisk)]) n
                    in case de_upload D (tiktok_form req creds v) n1 of
                         (Inl e, n2) \<Rightarrow> (Inl e, n2)
                       | (Inr resp, n2) \<Rightarrow> tiktok_read D resp n2)))"

subsection \<open>Which driver runs\<close>

datatype driver_kind = StubDriver | NoOpDriver | TikTokDriver | AndroidDriver

definition publishers :: "(string \<times> driver_kind) list" where
  "publishers =
     [(''stub'', StubDriver), (''noop'', NoOpDriver), (''tiktok'', TikTokDriver), (''android'', AndroidDriver)]"

text \<open>The first argument and the second result are the module's \<open>cached\<close> driver.\<close>

definition getPublisher :: "driver_kind option \<Rightarrow> string \<Rightarrow> (exn, driver_kind) result \<times> driver_kind option" where
  "getPublisher cached driver =
     (case cached of
        Some p \<Rightarrow> (Inr p, cached)
      | None \<Rightarrow>
          (case map_of publishers driver of
             None \<Rightarrow> (Inl (GenericError (''Unknown PUBLISHER_DRIVER '' @ quoted driver
                        @ ''. Registered drivers: '' @ js_join '', '' (map fst publishers))), None)
           | Some p \<Rightarrow> (Inr p, Some p)))"

definition resetPublisherCache :: "driver_kind option \<Rightarrow> driver_kind option" where
  "resetPublisherCache cached = None"

text \<open>Only the Android driver has a method \<open>onboard\<close>.\<close>

definition supportsOnboarding :: "driver_kind \<Rightarrow> bool" where
  "supportsOnboarding p = (p = AndroidDriver)"

definition getOnboardingDriver ::
  "driver_kind option \<Rightarrow> string \<Rightarrow> (exn, driver_kind) result \<times> driver_kind option" where
  "getOnboardingDriver cached driver =
     (case getPublisher cached driver of
        (Inl e, c) \<Rightarrow> (Inl e, c)
      | (Inr p, c) \<Rightarrow>
          if \<not> supportsOnboarding p
          then (Inl (GenericError (''PUBLISHER_DRIVER='' @ quoted driver
                 @ '' cannot run interactive onboarding. Only the ''
                 @ quoted ''android'' @ '' driver can put a device in front of an operator.'')), c)
          else (Inr p, c))"


subsection \<open>The drivers keep the contract\<close>

lemma stub_finish_Inr: "stub_finish D n = (Inr res, n') \<Longrightarrow> \<exists>u. res_externalPostId res = ''stub_'' @ u"
  by (auto simp: stub_finish_def synthetic_post_def split: prod.splits sum.splits)

interpretation stub: publisher_contract "stub_publish D" for D
  by unfold_locales
    (auto simp: stub_publish_def split: option.splits if_splits sum.splits dest!: stub_finish_Inr)

interpretation noop: publisher_contract "noop_publish D" for D
  by unfold_locales (auto simp: noop_publish_def synthetic_post_def split: prod.splits)

lemma tiktok_read_Inr:
  assumes "tiktok_read D resp n = (Inr res, n')"
  obtains payload where "resp_json resp = Some payload" "200 \<le> resp_status resp" "resp_status resp \<le> 299"
    "payload \<noteq> JsNull" "res_externalPostId res = tiktok_post_id payload" "tiktok_post_id payload \<noteq> []"
    "res_url res = tiktok_url payload"
  using assms by (auto simp: tiktok_read_def Let_def split: option.splits if_splits)

lemma tiktok_publish_Inr:
  assumes "tiktok_publish D req n = (Inr res, n')"
  obtains creds v n1 resp n2 where
    "tiktok_parseCredentials (pa_credentials (pr_account req)) = Inr creds" "pr_video req = Some v"
    "\<not> credentialExpired D (tk_expiresAt creds) n" "js_trim (pr_caption req) \<noteq> []"
    "de_stat D (pv_localPath v) n = Some (pv_sizeBytes v)"
    "de_upload D (tiktok_form req creds v) n1 = (Inr resp, n2)" "tiktok_read D resp n2 = (Inr res, n')"
  using assms
  by (auto simp: tiktok_publish_def Let_def staged_size_Inr
      split: option.splits if_splits sum.splits prod.splits)

interpretation tiktok: publisher_contract "tiktok_publish D" for D
  by unfold_locales (auto elim!: tiktok_publish_Inr tiktok_read_Inr)

lemma tiktok_parse_token:
  "tiktok_parseCredentials c = Inr creds \<Longrightarrow> tk_accessToken creds \<noteq> []"
  by (auto simp: tiktok_parseCredentials_def Let_def split: option.splits if_splits)

subsection \<open>What a post takes\<close>

text \<open>
  A TikTok post is reported only for an upload the API took: the token it went out with was not
  blank and had not expired, the caption had text, the file on disk had the recorded size, the
  answer's status was a success, and the post's id is the one in the answer, never empty.
\<close>

theorem tiktok_posts_only_uploads:
  assumes "tiktok_publish D req n = (Inr res, n')"
  shows "\<exists>creds v n1 resp n2 payload.
      tiktok_parseCredentials (pa_credentials (pr_account req)) = Inr creds \<and> tk_accessToken creds \<noteq> []
      \<and> \<not> credentialExpired D (tk_expiresAt creds) n \<and> js_trim (pr_caption req) \<noteq> []
      \<and> pr_video req = Some v \<and> de_stat D (pv_localPath v) n = Some (pv_sizeBytes v)
      \<and> de_upload D (tiktok_form req creds v) n1 = (Inr resp, n2)
      \<and> resp_json resp = Some payload \<and> 200 \<le> resp_status resp \<and> resp_status resp \<le> 299
      \<and> res_externalPostId res = tiktok_post_id payload \<and> res_externalPostId res \<noteq> []"
proof -
  obtain creds v n1 resp n2 where
    run: "tiktok_parseCredentials (pa_credentials (pr_account req)) = Inr creds" "pr_video req = Some v"
      "\<not> credentialExpired D (tk_expiresAt creds) n" "js_trim (pr_caption req) \<noteq> []"
      "de_stat D (pv_localPath v) n = Some (pv_sizeBytes v)"
      "de_upload D (tiktok_form req creds v) n1 = (Inr resp, n2)"
    and rd: "tiktok_read D resp n2 = (Inr res, n')"
    using assms by (rule tiktok_publish_Inr)
  from rd obtain payload where "resp_json resp = Some payload" "200 \<le> resp_status resp"
    "resp_status resp \<le> 299" "res_externalPostId res = tiktok_post_id payload" "tiktok_post_id payload \<noteq> []"
    by (rule tiktok_read_Inr)
  with run show ?thesis
    by (intro exI [of _ creds] exI [of _ v] exI [of _ n1] exI [of _ resp] exI [of _ n2] exI [of _ payload])
      (simp add: tiktok_parse_token)
qed

text \<open>
  How the worker's retry policy sees a refusal by the API: a status of 401 or 403 and any other
  status below 500 end the job, a server error, an unreadable body and a missing id are worth
  another attempt.
\<close>

theorem tiktok_refusals:
  assumes up: "tiktok_read D resp n = (Inl e, n')"
  shows "isRetryable e \<longleftrightarrow>
    resp_json resp = None \<or> resp_status resp \<ge> 500 \<or> (200 \<le> resp_status resp \<and> resp_status resp \<le> 299)"
  using up by (auto simp: tiktok_read_def tiktok_rejected_def Let_def split: option.splits if_splits)

lemma stub_finish_Inl: "fst (stub_finish D n) = Inl e \<Longrightarrow> e = GenericError ''Aborted''"
  by (cases "de_timer D 1200 n"; cases "fst (de_timer D 1200 n)")
    (auto simp: stub_finish_def delay_def synthetic_post_def split: prod.splits if_splits)

text \<open>
  The stub applies a real adapter's checks to a request with media: it ends the job (a permanent
  error) exactly when the caption is blank or longer than 2200 code units, or the file is
  readable and its size is not the recorded one.
\<close>

theorem stub_rejections:
  assumes "pr_video req = Some v"
  shows "(\<exists>e. fst (stub_publish D req n) = Inl e \<and> \<not> isRetryable e) \<longleftrightarrow>
    js_trim (pr_caption req) = [] \<or> length (pr_caption req) > 2200
    \<or> (\<exists>onDisk. de_stat D (pv_localPath v) n = Some onDisk \<and> onDisk \<noteq> pv_sizeBytes v)"
  using assms
  by (auto simp: stub_publish_def staged_size_def dest: stub_finish_Inl split: option.splits if_splits sum.splits)

text \<open>
  An onboarding is only ever given to the Android driver: whatever the configuration says and
  whatever driver is already cached, the choice is the Android driver or an error. The driver
  chosen is kept for the calls after it, until the cache is reset.
\<close>

theorem onboarding_driver_is_android:
  "(case getOnboardingDriver cached driver of
      (Inr p, c) \<Rightarrow> p = AndroidDriver \<and> c = Some AndroidDriver
    | (Inl e, c) \<Rightarrow> fst (getPublisher cached driver) \<noteq> Inr AndroidDriver)
   \<and> (case getPublisher cached driver of
        (Inr p, c) \<Rightarrow> getPublisher c driver' = (Inr p, c)
      | (Inl e, c) \<Rightarrow> c = None \<and> map_of publishers driver = None)
   \<and> getPublisher (resetPublisherCache cached) driver = getPublisher None driver"
  by (auto simp: getOnboardingDriver_def getPublisher_def supportsOnboarding_def resetPublisherCache_def
      split: option.splits prod.splits sum.splits)

subsection \<open>Witnesses\<close>

definition ex_driver_env :: "nat driver_env" where
  "ex_driver_env =
     \<lparr>de_stat = (\<lambda>p n. if p = ''/tmp/v.mp4'' then Some 5 else None), de_now = (\<lambda>n. 1000),
      de_parseDate = (\<lambda>s. None), de_aborted = (\<lambda>n. False), de_timer = (\<lambda>t n. (True, n + 1)),
      de_uuid = (\<lambda>n. (show_nat n, n + 1)), de_info = (\<lambda>m d n. n),
      de_upload = (\<lambda>f n. (Inr \<lparr>resp_status = 200,
         resp_json = Some (JsObj [(''data'', JsObj [(''post_id'', JsStr ''p1'')])])\<rparr>, n + 1))\<rparr>"

definition ex_request :: "int \<Rightarrow> publish_request" where
  "ex_request bytes =
     \<lparr>pr_jobId = ''j1'', pr_caption = ''hi'',
      pr_account = \<lparr>pa_id = ''a1'', pa_name = ''acct'', pa_platform = TIKTOK, pa_externalId = None,
        pa_credentials = Some (JsObj [(''accessToken'', JsStr '' tok'')]), pa_proxy = None\<rparr>,
      pr_video = Some \<lparr>pv_id = ''v1'', pv_localPath = ''/tmp/v.mp4'', pv_fileName = ''v.mp4'',
        pv_mimeType = ''video/mp4'', pv_sizeBytes = bytes, pv_durationSeconds = None, pv_width = None,
        pv_height = None\<rparr>,
      pr_flowType = None, pr_aborted = False\<rparr>"

lemma ex_tiktok_run:
  "tiktok_publish ex_driver_env (ex_request 5) 0 =
     (Inr \<lparr>res_externalPostId = ''p1'', res_url = None, res_metrics = None\<rparr>, 1)"
  by code_simp

theorem tiktok_posts_only_uploads_witness:
  "\<exists>(creds :: tiktok_credentials) (v :: publisher_video). pr_video (ex_request 5) = Some v \<and> tk_accessToken creds \<noteq> []
     \<and> de_stat ex_driver_env (pv_localPath v) 0 = Some (pv_sizeBytes v)"
  using tiktok_posts_only_uploads [OF ex_tiktok_run]
  by blast

lemma ex_tiktok_refused:
  "tiktok_read ex_driver_env \<lparr>resp_status = 403, resp_json = Some (JsObj [])\<rparr> 0 =
     (Inl (needsReauth ''TikTok credentials are invalid or expired''), 0)"
  by code_simp

theorem tiktok_refusals_witness:
  "\<not> isRetryable (needsReauth ''TikTok credentials are invalid or expired'')
   \<and> resp_status \<lparr>resp_status = 403, resp_json = Some (JsObj [])\<rparr> = 403"
  using tiktok_refusals [OF ex_tiktok_refused] by simp

theorem stub_rejections_witness:
  "\<exists>e. fst (stub_publish ex_driver_env (ex_request 6) 0) = Inl e \<and> \<not> isRetryable e"
  proof -
  have "pr_video (ex_request 6) = Some (the (pr_video (ex_request 6)))" by code_simp
  moreover have "de_stat ex_driver_env (pv_localPath (the (pr_video (ex_request 6)))) 0 = Some 5"
    and "pv_sizeBytes (the (pr_video (ex_request 6))) = 6" by code_simp+
  ultimately show ?thesis using stub_rejections [of "ex_request 6" "the (pr_video (ex_request 6))" ex_driver_env 0]
    by simp
qed

end
