(* ===== verification/Effects.thy ===== *)
theory Effects
  imports Drivers Schema
begin

text \<open>
  Asynchronous code that may throw and may not end, as functions of the state of the outside
  world and of the list of calls made so far. \<open>None\<close> is a run that never settles, \<open>Inl\<close> a
  thrown value. The outside world of a device run (the clock, the abort signal, HTTP, the job log,
  storage, a device and the provider it came from) is the record \<open>device_env\<close>: its operations
  are code the repository calls and does not contain. Each one leaves an \<open>event\<close>, so that what a
  run did, and in which order, can be read off its trace.
\<close>

named_theorems settles_intros "when a computation settles"
named_theorems emits_intros "which events a computation adds"
named_theorems yields_intros "what a computation returns"
named_theorems throws_intros "what a computation may throw"
named_theorems returns_intros "which computations succeed"
named_theorems forwards_intros "which computations leave the clock where it was or later"
named_theorems paced_intros "which rounds of a loop bring its deadline nearer"

datatype http_method = GET | POST | DELETE

datatype fetch_outcome =
    FetchFailed string            \<comment> \<open>\<open>fetch\<close> rejects\<close>
  | FetchNotJson int string       \<comment> \<open>status; the error of \<open>response.json()\<close>\<close>
  | FetchJson int string js       \<comment> \<open>status, its text, the payload\<close>

datatype exec_signal = JobSignal | NoSignal | JobSignalOrTimeout ms

datatype exec_outcome =
    ExecOk string string                            \<comment> \<open>stdout, stderr\<close>
  | ExecFailed "int option" string string string bool
      \<comment> \<open>numeric exit code, stdout, stderr, the error's message, killed\<close>

datatype event =
    EvFetch http_method string "js option" fetch_outcome
  | EvSleep ms
  | EvLog log_level string
  | EvStore string bool
  | EvAcquire bool
  | EvRelease
  | EvLaunch bool
  | EvRunning bool
  | EvPush string string bool
  | EvScan string bool
  | EvRemove string bool
  | EvInstalled bool
  | EvInstall string bool
  | EvReady ms bool
  | EvHandOver device_endpoint
  | EvHuman "human_outcome option"   \<comment> \<open>how the wait for the operator ended\<close>
  | EvDescribe string
  | EvExec string "string list" exec_outcome
  | EvLookup string
  | EvDirectIp "string option"
  | EvLease nat bool
  | EvFree nat
  | EvJobActive string "bool option" \<comment> \<open>what the database said; none when it could not be asked\<close>

record 's run =
  ru_env :: 's
  ru_trace :: "event list"

type_synonym ('s, 'a) eff = "'s run \<Rightarrow> ((exn, 'a) result \<times> 's run) option"

subsection \<open>Sequencing\<close>

definition ret :: "'a \<Rightarrow> ('s, 'a) eff" where
  "ret x = (\<lambda>r. Some (Inr x, r))"

definition throwE :: "exn \<Rightarrow> ('s, 'a) eff" where
  "throwE e = (\<lambda>r. Some (Inl e, r))"

definition bindE :: "('s, 'a) eff \<Rightarrow> ('a \<Rightarrow> ('s, 'b) eff) \<Rightarrow> ('s, 'b) eff" where
  "bindE m f = (\<lambda>r. case m r of
       None \<Rightarrow> None
     | Some (Inl e, r1) \<Rightarrow> Some (Inl e, r1)
     | Some (Inr x, r1) \<Rightarrow> f x r1)"

abbreviation thenE :: "('s, 'a) eff \<Rightarrow> ('s, 'b) eff \<Rightarrow> ('s, 'b) eff" where
  "thenE m k \<equiv> bindE m (\<lambda>_. k)"

text \<open>\<open>try { m } catch (e) { h(e) }\<close> and \<open>try { m } finally { c }\<close>: a throw in \<open>c\<close> wins.\<close>

definition catchE :: "('s, 'a) eff \<Rightarrow> (exn \<Rightarrow> ('s, 'a) eff) \<Rightarrow> ('s, 'a) eff" where
  "catchE m h = (\<lambda>r. case m r of
       None \<Rightarrow> None
     | Some (Inl e, r1) \<Rightarrow> h e r1
     | Some (Inr x, r1) \<Rightarrow> Some (Inr x, r1))"

definition finallyE :: "('s, 'a) eff \<Rightarrow> ('s, unit) eff \<Rightarrow> ('s, 'a) eff" where
  "finallyE m c = (\<lambda>r. case m r of
       None \<Rightarrow> None
     | Some (x, r1) \<Rightarrow>
         (case c r1 of
            None \<Rightarrow> None
          | Some (Inl e, r2) \<Rightarrow> Some (Inl e, r2)
          | Some (Inr u, r2) \<Rightarrow> Some (x, r2)))"

text \<open>\<open>m.catch(() => undefined)\<close>.\<close>

definition ignoreE :: "('s, 'a) eff \<Rightarrow> ('s, unit) eff" where
  "ignoreE m = catchE (bindE m (\<lambda>_. ret ())) (\<lambda>_. ret ())"

definition whenE :: "bool \<Rightarrow> ('s, unit) eff \<Rightarrow> ('s, unit) eff" where
  "whenE b m = (if b then m else ret ())"

definition liftE :: "(exn, 'a) result \<Rightarrow> ('s, 'a) eff" where
  "liftE x = (\<lambda>r. Some (x, r))"

text \<open>An outside call that may throw, one that always returns, and a read.\<close>

definition invoke :: "((exn, 'a) result \<Rightarrow> event) \<Rightarrow> ('s \<Rightarrow> (exn, 'a) result \<times> 's) \<Rightarrow> ('s, 'a) eff" where
  "invoke ev op = (\<lambda>r. let (x, s) = op (ru_env r)
     in Some (x, r\<lparr>ru_env := s, ru_trace := ru_trace r @ [ev x]\<rparr>))"

definition perform :: "('a \<Rightarrow> event) \<Rightarrow> ('s \<Rightarrow> 'a \<times> 's) \<Rightarrow> ('s, 'a) eff" where
  "perform ev op = (\<lambda>r. let (x, s) = op (ru_env r)
     in Some (Inr x, r\<lparr>ru_env := s, ru_trace := ru_trace r @ [ev x]\<rparr>))"

definition readE :: "('s \<Rightarrow> 'a) \<Rightarrow> ('s, 'a) eff" where
  "readE f = (\<lambda>r. Some (Inr (f (ru_env r)), r))"

definition succeeded :: "(exn, 'a) result \<Rightarrow> bool" where
  "succeeded x = (case x of Inr y \<Rightarrow> True | Inl e \<Rightarrow> False)"

lemma succeeded_simps [simp]: "succeeded (Inr y)" "\<not> succeeded (Inl e)"
  by (simp_all add: succeeded_def)

text \<open>
  A block with mutable local variables, as its final value paired with the variables: \<open>tryL m lo k\<close>
  runs the next statement of a \<open>try\<close> block in which the variables are \<open>lo\<close>, and leaves the block when
  it throws. \<open>noteE\<close> marks the end of a call in the trace.
\<close>

definition attemptE :: "('s, 'a) eff \<Rightarrow> ('s, (exn, 'a) result) eff" where
  "attemptE m = (\<lambda>r. case m r of None \<Rightarrow> None | Some (x, r1) \<Rightarrow> Some (Inr x, r1))"

definition tryL :: "('s, 'a) eff \<Rightarrow> 'l \<Rightarrow> ('a \<Rightarrow> ('s, (exn, 'b) result \<times> 'l) eff) \<Rightarrow> ('s, (exn, 'b) result \<times> 'l) eff" where
  "tryL m lo k = bindE (attemptE m) (\<lambda>x. case x of Inl e \<Rightarrow> ret (Inl e, lo) | Inr v \<Rightarrow> k v)"

definition noteE :: "((exn, 'a) result \<Rightarrow> event) \<Rightarrow> ('s, 'a) eff \<Rightarrow> ('s, 'a) eff" where
  "noteE ev m = (\<lambda>r. case m r of
       None \<Rightarrow> None
     | Some (x, r1) \<Rightarrow> Some (x, r1\<lparr>ru_trace := ru_trace r1 @ [ev x]\<rparr>))"

subsection \<open>The outside world of a device run\<close>

text \<open>The result of a command on a device, and what \<open>AndroidDevice\<close> promises, as its operations.\<close>

record adb_result =
  ar_stdout :: string
  ar_stderr :: string
  ar_code :: int

record 's device =
  dv_waitUntilReady :: "ms \<Rightarrow> ('s, unit) eff"
  dv_pushMedia :: "string \<Rightarrow> string \<Rightarrow> ('s, int option) eff"
  dv_scanMedia :: "string \<Rightarrow> ('s, unit) eff"
  dv_launch :: "string \<Rightarrow> string option \<Rightarrow> ('s, unit) eff"
  dv_isAppRunning :: "string \<Rightarrow> ('s, bool) eff"
  dv_isPackageInstalled :: "string \<Rightarrow> ('s, bool) eff"
  dv_installPackage :: "string \<Rightarrow> ('s, unit) eff"
  dv_pushFile :: "string \<Rightarrow> string \<Rightarrow> ('s, unit) eff"
  dv_removeFile :: "string \<Rightarrow> ('s, unit) eff"
  dv_probe :: "string list \<Rightarrow> exec_signal \<Rightarrow> ('s, adb_result) eff"

record 's device_env =
  ae_clock :: "'s \<Rightarrow> ms"
  ae_aborted :: "'s \<Rightarrow> bool"
  ae_timedOut :: "'s \<Rightarrow> bool"               \<comment> \<open>whether the timer of the latest \<open>JobSignalOrTimeout\<close> has fired\<close>
  ae_sleep :: "ms \<Rightarrow> 's \<Rightarrow> 's"                 \<comment> \<open>\<open>setTimeout\<close>\<close>
  ae_timer :: "ms \<Rightarrow> 's \<Rightarrow> bool \<times> 's"          \<comment> \<open>a timer an abort ends: false\<close>
  ae_fetch :: "http_method \<Rightarrow> string \<Rightarrow> js option \<Rightarrow> 's \<Rightarrow> fetch_outcome \<times> 's"
  ae_log :: "log_level \<Rightarrow> string \<Rightarrow> js option \<Rightarrow> 's \<Rightarrow> 's"
  ae_storage :: "'s \<Rightarrow> string option"          \<comment> \<open>why \<open>getStorage()\<close> throws, if it does\<close>
  ae_put :: "string \<Rightarrow> string \<Rightarrow> 's \<Rightarrow> (exn, unit) result \<times> 's"
  ae_exec :: "string \<Rightarrow> string list \<Rightarrow> exec_signal \<Rightarrow> ms \<Rightarrow> 's \<Rightarrow> exec_outcome \<times> 's"  \<comment> \<open>\<open>execFile\<close>\<close>
  ae_parseUrl :: "string \<Rightarrow> (string \<times> string \<times> string) option"
      \<comment> \<open>\<open>new URL(s)\<close>: protocol, hostname, port; none when it throws\<close>
  ae_lookup :: "string \<Rightarrow> 's \<Rightarrow> string list option \<times> 's"     \<comment> \<open>\<open>dns.lookup\<close>; none when it rejects\<close>
  ae_getText :: "string \<Rightarrow> ms \<Rightarrow> 's \<Rightarrow> (bool \<times> string) option \<times> 's"  \<comment> \<open>\<open>ok\<close> and body; none when it rejects\<close>
  ae_directIp :: "'s \<Rightarrow> (string \<times> string option) option"      \<comment> \<open>the module's \<open>cachedDirectIp\<close>\<close>
  ae_cacheIp :: "string \<Rightarrow> string option \<Rightarrow> 's \<Rightarrow> 's"
  ae_parseDate :: "string \<Rightarrow> ms option"                      \<comment> \<open>\<open>Date.parse\<close>, on strings that are not in ISO form\<close>
  ae_setNx :: "string \<Rightarrow> string \<Rightarrow> int \<Rightarrow> 's \<Rightarrow> (exn, bool) result \<times> 's"      \<comment> \<open>Redis \<open>SET k v EX t NX\<close>\<close>
  ae_redisGet :: "string \<Rightarrow> 's \<Rightarrow> (exn, string option) result \<times> 's"
  ae_jobStatus :: "string \<Rightarrow> 's \<Rightarrow> (exn, job_status option) result \<times> 's"  \<comment> \<open>\<open>prisma.job.findUnique\<close>\<close>
  ae_delIf :: "string \<Rightarrow> string \<Rightarrow> 's \<Rightarrow> (exn, bool) result \<times> 's"   \<comment> \<open>the script \<open>RELEASE_IF_HELD\<close>\<close>

definition logE :: "'s device_env \<Rightarrow> log_level \<Rightarrow> string \<Rightarrow> js option \<Rightarrow> ('s, unit) eff" where
  "logE E lvl msg data = perform (\<lambda>_. EvLog lvl msg) (\<lambda>s. ((), ae_log E lvl msg data s))"

definition sleepE :: "'s device_env \<Rightarrow> ms \<Rightarrow> ('s, unit) eff" where
  "sleepE E t = perform (\<lambda>_. EvSleep t) (\<lambda>s. ((), ae_sleep E t s))"

definition nowE :: "'s device_env \<Rightarrow> ('s, ms) eff" where
  "nowE E = readE (ae_clock E)"

definition abortedE :: "'s device_env \<Rightarrow> ('s, bool) eff" where
  "abortedE E = readE (ae_aborted E)"

definition execE :: "'s device_env \<Rightarrow> string \<Rightarrow> string list \<Rightarrow> exec_signal \<Rightarrow> ms \<Rightarrow> ('s, exec_outcome) eff" where
  "execE E cmd args sig timeout = perform (EvExec cmd args) (ae_exec E cmd args sig timeout)"

definition signalAborted :: "'s device_env \<Rightarrow> exec_signal \<Rightarrow> ('s, bool) eff" where
  "signalAborted E sig = readE (\<lambda>s. case sig of
       JobSignal \<Rightarrow> ae_aborted E s
     | NoSignal \<Rightarrow> False
     | JobSignalOrTimeout t \<Rightarrow> ae_aborted E s \<or> ae_timedOut E s)"

text \<open>\<open>delay(ms, signal)\<close> of \<open>uiFlow.ts\<close>.\<close>

definition delayE :: "'s device_env \<Rightarrow> ms \<Rightarrow> ('s, unit) eff" where
  "delayE E t =
     bindE (abortedE E) (\<lambda>aborted.
       if aborted then throwE (GenericError ''Aborted'')
       else bindE (perform (\<lambda>_. EvSleep t) (ae_timer E t)) (\<lambda>fired.
              if fired then ret () else throwE (GenericError ''Aborted'')))"

subsection \<open>Which computations settle\<close>

text \<open>The computation ends, with a value or an error, from every state.\<close>

definition settles :: "('s, 'a) eff \<Rightarrow> bool" where
  "settles m = (\<forall>r. \<exists>x r1. m r = Some (x, r1))"

lemma settles_iff: "settles m \<longleftrightarrow> (\<forall>r. m r \<noteq> None)"
  by (auto simp: settles_def)

lemma settlesD: "settles m \<Longrightarrow> \<exists>x r1. m r = Some (x, r1)"
  by (simp add: settles_def)

lemma settles_ret [settles_intros]: "settles (ret x)" "settles (throwE e)" "settles (liftE y)"
  "settles (readE f)"
  by (auto simp: settles_def ret_def throwE_def liftE_def readE_def)

lemma settles_bind [settles_intros]:
  "settles m \<Longrightarrow> (\<And>x. settles (f x)) \<Longrightarrow> settles (bindE m f)"
  unfolding settles_iff bindE_def
  by (auto split: option.splits sum.splits)

lemma settles_catch [settles_intros]:
  "settles m \<Longrightarrow> (\<And>e. settles (h e)) \<Longrightarrow> settles (catchE m h)"
  unfolding settles_iff catchE_def
  by (auto split: option.splits sum.splits)

lemma settles_finally [settles_intros]:
  fixes m :: "('s, 'a) eff"
  assumes "settles m" and "settles c"
  shows "settles (finallyE m c)"
proof (unfold settles_def, intro allI)
  fix r :: "'s run"
  obtain x r1 where m: "m r = Some (x, r1)" using assms(1) settlesD by metis
  obtain u r2 where c: "c r1 = Some (u, r2)" using assms(2) settlesD by metis
  show "\<exists>y r3. finallyE m c r = Some (y, r3)"
    using m c by (cases u) (auto simp: finallyE_def)
qed

lemma settles_ignore [settles_intros]: "settles m \<Longrightarrow> settles (ignoreE m)"
  by (simp add: ignoreE_def settles_intros)

lemma settles_attempt [settles_intros]: "settles m \<Longrightarrow> settles (attemptE m)"
  by (auto simp: settles_def attemptE_def split: option.splits)

lemma settles_note [settles_intros]: "settles m \<Longrightarrow> settles (noteE ev m)"
  by (auto simp: settles_def noteE_def split: option.splits)

lemma settles_tryL [settles_intros]: "settles m \<Longrightarrow> (\<And>x. settles (k x)) \<Longrightarrow> settles (tryL m lo k)"
  unfolding tryL_def by (auto split: sum.splits intro!: settles_bind settles_attempt settles_ret)

lemma settles_when [settles_intros]: "(b \<Longrightarrow> settles m) \<Longrightarrow> settles (whenE b m)"
  by (simp add: whenE_def settles_intros)

lemma settles_if [settles_intros]:
  "(b \<Longrightarrow> settles m) \<Longrightarrow> (\<not> b \<Longrightarrow> settles k) \<Longrightarrow> settles (if b then m else k)"
  by simp

lemma settles_call [settles_intros]: "settles (invoke ev op)" "settles (perform ev' op')"
  by (auto simp: settles_def invoke_def perform_def split: prod.splits)

subsection \<open>What a computation adds to the trace\<close>

text \<open>Every run of \<open>m\<close> only adds events, and each of them is of \<open>Q\<close>.\<close>

definition emits :: "(event \<Rightarrow> bool) \<Rightarrow> ('s, 'a) eff \<Rightarrow> bool" where
  "emits Q m = (\<forall>r x r1. m r = Some (x, r1) \<longrightarrow>
     (\<exists>evs. ru_trace r1 = ru_trace r @ evs \<and> (\<forall>e \<in> set evs. Q e)))"

lemma emitsD: "emits Q m \<Longrightarrow> m r = Some (x, r1) \<Longrightarrow> \<exists>evs. ru_trace r1 = ru_trace r @ evs \<and> (\<forall>e \<in> set evs. Q e)"
  by (auto simp: emits_def)

lemma emitsI:
  "(\<And>r x r1. m r = Some (x, r1) \<Longrightarrow> \<exists>evs. ru_trace r1 = ru_trace r @ evs \<and> (\<forall>e \<in> set evs. Q e)) \<Longrightarrow> emits Q m"
  by (auto simp: emits_def)

lemma emits_ret [emits_intros]: "emits Q (ret x)" "emits Q (throwE e)" "emits Q (liftE y)" "emits Q (readE f)"
  by (auto simp: emits_def ret_def throwE_def liftE_def readE_def)

lemma two_steps:
  assumes "\<exists>evs. t1 = t0 @ evs \<and> (\<forall>e \<in> set evs. Q e)" and "\<exists>evs. t2 = t1 @ evs \<and> (\<forall>e \<in> set evs. Q e)"
  shows "\<exists>evs. t2 = t0 @ evs \<and> (\<forall>e \<in> set evs. Q e)"
proof -
  from assms obtain a b where "t1 = t0 @ a" "\<forall>e \<in> set a. Q e" "t2 = t1 @ b" "\<forall>e \<in> set b. Q e" by blast
  then have "t2 = t0 @ (a @ b) \<and> (\<forall>e \<in> set (a @ b). Q e)" by auto
  then show ?thesis by blast
qed

lemma emits_bind [emits_intros]:
  assumes "emits Q m" and "\<And>x. emits Q (f x)"
  shows "emits Q (bindE m f)"
proof (rule emitsI)
  fix r y r2 assume "bindE m f r = Some (y, r2)"
  then consider e where "m r = Some (Inl e, r2)" | x r1 where "m r = Some (Inr x, r1)" "f x r1 = Some (y, r2)"
    by (auto simp: bindE_def split: option.splits sum.splits prod.splits)
  then show "\<exists>evs. ru_trace r2 = ru_trace r @ evs \<and> (\<forall>e \<in> set evs. Q e)"
    by cases (auto intro: two_steps dest: emitsD [OF assms(1)] emitsD [OF assms(2)])
qed

lemma emits_catch [emits_intros]:
  assumes "emits Q m" and "\<And>e. emits Q (h e)"
  shows "emits Q (catchE m h)"
proof (rule emitsI)
  fix r y r2 assume "catchE m h r = Some (y, r2)"
  then consider x where "m r = Some (Inr x, r2)" | e r1 where "m r = Some (Inl e, r1)" "h e r1 = Some (y, r2)"
    by (auto simp: catchE_def split: option.splits sum.splits prod.splits)
  then show "\<exists>evs. ru_trace r2 = ru_trace r @ evs \<and> (\<forall>e \<in> set evs. Q e)"
    by cases (auto intro: two_steps dest: emitsD [OF assms(1)] emitsD [OF assms(2)])
qed

lemma finallyE_Some:
  assumes "finallyE m c r = Some (y, r2)"
  obtains x r1 u where "m r = Some (x, r1)" "c r1 = Some (u, r2)" "y = (case u of Inl e \<Rightarrow> Inl e | Inr _ \<Rightarrow> x)"
  using assms by (auto simp: finallyE_def split: option.splits sum.splits prod.splits)

lemma emits_finally [emits_intros]:
  assumes "emits Q m" and "emits Q c"
  shows "emits Q (finallyE m c)"
  by (rule emitsI, elim finallyE_Some)
    (blast intro: two_steps dest: emitsD [OF assms(1)] emitsD [OF assms(2)])

lemma emits_ignore [emits_intros]: "emits Q m \<Longrightarrow> emits Q (ignoreE m)"
  by (simp add: ignoreE_def emits_intros)

lemma emits_attempt [emits_intros]: "emits Q m \<Longrightarrow> emits Q (attemptE m)"
  unfolding emits_def attemptE_def by (auto split: option.splits)

lemma emits_note [emits_intros]:
  assumes "emits Q m" and "\<And>x. Q (ev x)"
  shows "emits Q (noteE ev m)"
  by (rule emitsI) (auto simp: noteE_def assms(2) split: option.splits dest: emitsD [OF assms(1)])

lemma emits_tryL [emits_intros]: "emits Q m \<Longrightarrow> (\<And>x. emits Q (k x)) \<Longrightarrow> emits Q (tryL m lo k)"
  unfolding tryL_def by (auto split: sum.splits intro!: emits_bind emits_attempt emits_ret)

lemma emits_when [emits_intros]: "(b \<Longrightarrow> emits Q m) \<Longrightarrow> emits Q (whenE b m)"
  by (simp add: whenE_def emits_intros)

lemma emits_if [emits_intros]:
  "(b \<Longrightarrow> emits Q m) \<Longrightarrow> (\<not> b \<Longrightarrow> emits Q k) \<Longrightarrow> emits Q (if b then m else k)"
  by simp

lemma emits_invoke [emits_intros]: "(\<And>x. Q (ev x)) \<Longrightarrow> emits Q (invoke ev op)"
  by (auto simp: emits_def invoke_def split: prod.splits)

lemma emits_perform [emits_intros]: "(\<And>x. Q (ev x)) \<Longrightarrow> emits Q (perform ev op)"
  by (auto simp: emits_def perform_def split: prod.splits)

lemma emits_mono: "emits Q m \<Longrightarrow> (\<And>e. Q e \<Longrightarrow> Q' e) \<Longrightarrow> emits Q' m"
  unfolding emits_def by blast

lemma emits_case_option [emits_intros]:
  "emits Q a \<Longrightarrow> (\<And>x. emits Q (b x)) \<Longrightarrow> emits Q (case v of None \<Rightarrow> a | Some x \<Rightarrow> b x)"
  by (cases v) auto

lemma settles_case_option [settles_intros]:
  "settles a \<Longrightarrow> (\<And>x. settles (b x)) \<Longrightarrow> settles (case v of None \<Rightarrow> a | Some x \<Rightarrow> b x)"
  by (cases v) auto

lemma logE_facts [emits_intros]: "(\<And>l m. Q (EvLog l m)) \<Longrightarrow> emits Q (logE E lvl msg d)"
  by (simp add: logE_def emits_intros)

lemma sleepE_facts [emits_intros]: "(\<And>t. Q (EvSleep t)) \<Longrightarrow> emits Q (sleepE E t)"
  by (simp add: sleepE_def emits_intros)

lemma nowE_facts [emits_intros, settles_intros]: "emits Q (nowE E)" "emits Q (abortedE E)"
  "settles (nowE E)" "settles (abortedE E)" "settles (logE E lvl msg d)" "settles (sleepE E t)"
  by (simp_all add: logE_def sleepE_def nowE_def abortedE_def emits_intros settles_intros)

lemma settles_delayE [settles_intros]: "settles (delayE E t)"
  by (simp add: delayE_def settles_intros)

lemma delayE_facts [emits_intros]: "(\<And>t. Q (EvSleep t)) \<Longrightarrow> emits Q (delayE E t)"
  by (simp add: delayE_def emits_intros)

lemma bindE_Inr:
  assumes "bindE m f r = Some (Inr y, r2)"
  obtains x r1 where "m r = Some (Inr x, r1)" "f x r1 = Some (Inr y, r2)"
  using assms by (auto simp: bindE_def split: option.splits sum.splits prod.splits)

lemma bindE_Some:
  assumes "bindE m f r = Some (y, r2)"
  obtains e where "m r = Some (Inl e, r2)" "y = Inl e"
    | x r1 where "m r = Some (Inr x, r1)" "f x r1 = Some (y, r2)"
  using assms by (auto simp: bindE_def split: option.splits sum.splits prod.splits)

subsection \<open>What a computation returns\<close>

definition yields :: "('a \<Rightarrow> bool) \<Rightarrow> ('s, 'a) eff \<Rightarrow> bool" where
  "yields P m \<longleftrightarrow> (\<forall>r x r1. m r = Some (Inr x, r1) \<longrightarrow> P x)"

lemma yieldsD: "yields P m \<Longrightarrow> m r = Some (Inr x, r1) \<Longrightarrow> P x"
  by (auto simp: yields_def)

lemma yields_ret [yields_intros]: "P x \<Longrightarrow> yields P (ret x)" "yields P (throwE e)"
  by (auto simp: yields_def ret_def throwE_def)

lemma yields_bind:
  assumes "yields Q m" and "\<And>x. Q x \<Longrightarrow> yields P (f x)"
  shows "yields P (bindE m f)"
  unfolding yields_def
  by (auto elim!: bindE_Inr dest!: yieldsD [OF assms(1)] intro: yieldsD [OF assms(2)])

lemma yields_then [yields_intros]: "(\<And>x. yields P (f x)) \<Longrightarrow> yields P (bindE m f)"
  by (auto simp: yields_def bindE_def split: option.splits sum.splits prod.splits)

lemma yields_catch [yields_intros]: "yields P m \<Longrightarrow> (\<And>e. yields P (h e)) \<Longrightarrow> yields P (catchE m h)"
  by (auto simp: yields_def catchE_def split: option.splits sum.splits prod.splits)

lemma yields_finally [yields_intros]:
  assumes "yields P m"
  shows "yields P (finallyE m c)"
  unfolding yields_def by (auto elim!: finallyE_Some split: sum.splits dest: yieldsD [OF assms])

lemma yields_if [yields_intros]:
  "(b \<Longrightarrow> yields P m) \<Longrightarrow> (\<not> b \<Longrightarrow> yields P k) \<Longrightarrow> yields P (if b then m else k)"
  by simp

lemma yields_tryL [yields_intros]:
  "(\<And>e. P (Inl e, lo)) \<Longrightarrow> (\<And>x. yields P (k x)) \<Longrightarrow> yields P (tryL m lo k)"
  unfolding tryL_def by (rule yields_then) (auto split: sum.splits intro: yields_ret)

subsection \<open>What a computation may throw\<close>

definition throws :: "(exn \<Rightarrow> bool) \<Rightarrow> ('s, 'a) eff \<Rightarrow> bool" where
  "throws T m \<longleftrightarrow> (\<forall>r e r1. m r = Some (Inl e, r1) \<longrightarrow> T e)"

lemma throwsD: "throws T m \<Longrightarrow> m r = Some (Inl e, r1) \<Longrightarrow> T e"
  by (auto simp: throws_def)

lemma throws_any: "(\<And>e. T e) \<Longrightarrow> throws T m"
  by (simp add: throws_def)

lemma throws_ret [throws_intros]: "throws T (ret x)" "throws T (readE f)" "throws T (perform ev op)"
  by (auto simp: throws_def ret_def readE_def perform_def split: prod.splits)

lemma throws_throwE [throws_intros]: "T e \<Longrightarrow> throws T (throwE e)"
  by (simp add: throws_def throwE_def)

lemma throws_bind [throws_intros]: "throws T m \<Longrightarrow> (\<And>x. throws T (f x)) \<Longrightarrow> throws T (bindE m f)"
  by (auto simp: throws_def bindE_def split: option.splits sum.splits prod.splits)

lemma throws_catch [throws_intros]: "(\<And>e. throws T (h e)) \<Longrightarrow> throws T (catchE m h)"
  by (auto simp: throws_def catchE_def split: option.splits sum.splits prod.splits)

lemma throws_finally [throws_intros]:
  assumes "throws T m" and "throws T c"
  shows "throws T (finallyE m c)"
  unfolding throws_def
  by (auto elim!: finallyE_Some split: sum.splits dest: throwsD [OF assms(1)] throwsD [OF assms(2)])

lemma throws_ignore [throws_intros]: "throws T (ignoreE m)"
  by (simp add: ignoreE_def throws_intros)

lemma throws_attempt [throws_intros]: "throws T (attemptE m)"
  by (auto simp: throws_def attemptE_def split: option.splits)

lemma throws_tryL [throws_intros]: "(\<And>x. throws T (k x)) \<Longrightarrow> throws T (tryL m lo k)"
  unfolding tryL_def by (auto split: sum.splits intro!: throws_bind throws_attempt throws_ret)

lemma throws_when [throws_intros]: "(b \<Longrightarrow> throws T m) \<Longrightarrow> throws T (whenE b m)"
  by (simp add: whenE_def throws_intros)

lemma throws_if [throws_intros]:
  "(b \<Longrightarrow> throws T m) \<Longrightarrow> (\<not> b \<Longrightarrow> throws T k) \<Longrightarrow> throws T (if b then m else k)"
  by simp

lemma throws_basic [throws_intros]:
  "throws T (logE E lvl msg d)" "throws T (sleepE E t)" "throws T (nowE E)" "throws T (abortedE E)"
  "T (GenericError ''Aborted'') \<Longrightarrow> throws T (delayE E t)"
  by (simp_all add: logE_def sleepE_def nowE_def abortedE_def delayE_def throws_intros)

subsection \<open>Reading a run\<close>

lemma eff_simps [simp]:
  "ret x r = Some (y, r1) \<longleftrightarrow> y = Inr x \<and> r1 = r"
  "throwE e r = Some (y, r1) \<longleftrightarrow> y = Inl e \<and> r1 = r"
  "liftE z r = Some (y, r1) \<longleftrightarrow> z = y \<and> r1 = r"
  "readE f r = Some (y, r1) \<longleftrightarrow> y = Inr (f (ru_env r)) \<and> r1 = r"
  by (auto simp: ret_def throwE_def liftE_def readE_def)

lemma eff_run [simp]:
  "bindE (ret x) f = f x" "bindE (throwE e) f = throwE e" "catchE (ret x) h = ret x"
  "catchE (throwE e) h = h e"
  by (auto simp: bindE_def catchE_def ret_def throwE_def)

subsection \<open>Computations that succeed\<close>

text \<open>From every state, the computation ends with a value of \<open>P\<close>.\<close>

definition returns :: "('a \<Rightarrow> bool) \<Rightarrow> ('s, 'a) eff \<Rightarrow> bool" where
  "returns P m \<longleftrightarrow> (\<forall>r. \<exists>x r1. m r = Some (Inr x, r1) \<and> P x)"

lemma returnsD: "returns P m \<Longrightarrow> \<exists>x r1. m r = Some (Inr x, r1) \<and> P x"
  by (simp add: returns_def)

lemma returns_mono: "returns P m \<Longrightarrow> (\<And>x. P x \<Longrightarrow> Q x) \<Longrightarrow> returns Q m"
  unfolding returns_def by blast

lemma returns_calm: "settles m \<Longrightarrow> throws (\<lambda>_. False) m \<Longrightarrow> returns (\<lambda>_. True) m"
  unfolding returns_def settles_def throws_def by (metis sum.exhaust)

lemma returns_ret [returns_intros]: "P x \<Longrightarrow> returns P (ret x)"
  by (simp add: returns_def ret_def)

lemma returns_liftE [returns_intros]: "y = Inr x \<Longrightarrow> P x \<Longrightarrow> returns P (liftE y)"
  by (simp add: returns_def liftE_def)

lemma returns_bind:
  assumes "returns Q m" and "\<And>x. Q x \<Longrightarrow> returns P (f x)"
  shows "returns P (bindE m f)"
  unfolding returns_def
proof
  fix r
  obtain x r1 where m: "m r = Some (Inr x, r1)" "Q x" using returnsD [OF assms(1)] by blast
  with returnsD [OF assms(2) [OF m(2)]] show "\<exists>y r2. bindE m f r = Some (Inr y, r2) \<and> P y"
    by (simp add: bindE_def)
qed

lemma returns_then [returns_intros]: "returns (\<lambda>_. True) m \<Longrightarrow> (\<And>x. returns P (f x)) \<Longrightarrow> returns P (bindE m f)"
  by (rule returns_bind)

lemma returns_catch [returns_intros]: "returns P m \<Longrightarrow> returns P (catchE m h)"
  unfolding returns_def catchE_def by (metis (no_types, lifting) option.case(2) prod.case sum.case(2))

lemma returns_finally [returns_intros]:
  assumes "returns P m" and "returns (\<lambda>_. True) c"
  shows "returns P (finallyE m c)"
  unfolding returns_def
proof
  fix r
  obtain x r1 where m: "m r = Some (Inr x, r1)" "P x" using returnsD [OF assms(1)] by blast
  moreover obtain u r2 where "c r1 = Some (Inr u, r2)" using returnsD [OF assms(2)] by blast
  ultimately show "\<exists>y r2. finallyE m c r = Some (Inr y, r2) \<and> P y" by (simp add: finallyE_def)
qed

lemma returns_ignore [returns_intros]:
  assumes "settles m"
  shows "returns (\<lambda>_. True) (ignoreE m)"
  unfolding returns_def
proof
  fix r
  obtain x r1 where "m r = Some (x, r1)" using settlesD [OF assms] by blast
  then show "\<exists>y r2. ignoreE m r = Some (Inr y, r2) \<and> True"
    by (cases x) (simp_all add: ignoreE_def catchE_def bindE_def ret_def)
qed

lemma returns_yields: "returns P m \<Longrightarrow> yields Q m \<Longrightarrow> returns (\<lambda>x. P x \<and> Q x) m"
  unfolding returns_def yields_def by blast

lemma returns_attempt:
  assumes "returns Q m"
  shows "returns (\<lambda>y. \<exists>x. y = Inr x \<and> Q x) (attemptE m)"
  unfolding returns_def
proof
  fix r
  obtain x r1 where "m r = Some (Inr x, r1)" "Q x" using returnsD [OF assms] by blast
  then show "\<exists>y r2. attemptE m r = Some (Inr y, r2) \<and> (\<exists>x. y = Inr x \<and> Q x)"
    by (simp add: attemptE_def)
qed

lemma returns_tryL: "returns Q m \<Longrightarrow> (\<And>x. Q x \<Longrightarrow> returns P (k x)) \<Longrightarrow> returns P (tryL m lo k)"
  unfolding tryL_def by (rule returns_bind [OF returns_attempt]) auto

lemma returns_note [returns_intros]: "returns P m \<Longrightarrow> returns P (noteE ev m)"
  unfolding returns_def noteE_def by (metis (no_types, lifting) option.case(2) prod.case)

lemma returns_if [returns_intros]:
  "(b \<Longrightarrow> returns P m) \<Longrightarrow> (\<not> b \<Longrightarrow> returns P k) \<Longrightarrow> returns P (if b then m else k)"
  by simp

lemma returns_perform [returns_intros]: "(\<And>s. P (fst (op s))) \<Longrightarrow> returns P (perform ev op)"
  by (simp add: returns_def perform_def Let_def prod.case_eq_if)

lemma returns_invoke [returns_intros]: "(\<And>s. \<exists>x. fst (op s) = Inr x \<and> P x) \<Longrightarrow> returns P (invoke ev op)"
  by (simp add: returns_def invoke_def Let_def prod.case_eq_if)

lemma returns_read [returns_intros]: "(\<And>s. P (f s)) \<Longrightarrow> returns P (readE f)"
  by (simp add: returns_def)

lemma returns_basic [returns_intros]:
  "returns (\<lambda>_. True) (logE E lvl msg d)" "returns (\<lambda>_. True) (sleepE E t)" "returns (\<lambda>_. True) (nowE E)"
  by (simp_all add: logE_def sleepE_def nowE_def returns_intros)

lemma returns_when [returns_intros]: "(b \<Longrightarrow> returns P m) \<Longrightarrow> P () \<Longrightarrow> returns P (whenE b m)"
  by (simp add: whenE_def returns_intros)

subsection \<open>What follows a computation depends on what it returns\<close>

lemma settles_from:
  assumes "settles m" and "yields P m" and "\<And>x. P x \<Longrightarrow> settles (f x)"
  shows "settles (bindE m f)"
  unfolding settles_def
proof
  fix r
  obtain x r1 where m: "m r = Some (x, r1)" using settlesD [OF assms(1)] by blast
  show "\<exists>y r2. bindE m f r = Some (y, r2)"
  proof (cases x)
    case (Inr v)
    with m yieldsD [OF assms(2)] have "settles (f v)" by (blast intro: assms(3))
    with m Inr show ?thesis by (auto simp: bindE_def settles_def)
  qed (simp add: m bindE_def)
qed

lemma emits_from:
  assumes "emits Q m" and "yields P m" and "\<And>x. P x \<Longrightarrow> emits Q (f x)"
  shows "emits Q (bindE m f)"
proof (rule emitsI)
  fix r y r2 assume "bindE m f r = Some (y, r2)"
  then show "\<exists>evs. ru_trace r2 = ru_trace r @ evs \<and> (\<forall>e \<in> set evs. Q e)"
  proof (rule bindE_Some)
    fix x r1 assume m: "m r = Some (Inr x, r1)" and f: "f x r1 = Some (y, r2)"
    have "emits Q (f x)" by (rule assms(3) [OF yieldsD [OF assms(2) m]])
    from two_steps [OF emitsD [OF assms(1) m] emitsD [OF this f]] show ?thesis .
  next
    fix e assume "m r = Some (Inl e, r2)"
    from emitsD [OF assms(1) this] show ?thesis .
  qed
qed

lemma yields_attempt: "yields P m \<Longrightarrow> yields (\<lambda>y. \<forall>x. y = Inr x \<longrightarrow> P x) (attemptE m)"
  by (auto simp: yields_def attemptE_def split: option.splits)

lemma yields_note [yields_intros]: "yields P m \<Longrightarrow> yields P (noteE ev m)"
  by (auto simp: yields_def noteE_def split: option.splits)

lemma settles_tryL_from:
  "settles m \<Longrightarrow> yields P m \<Longrightarrow> (\<And>x. P x \<Longrightarrow> settles (k x)) \<Longrightarrow> settles (tryL m lo k)"
  unfolding tryL_def
  by (rule settles_from [OF settles_attempt yields_attempt]) (auto split: sum.splits intro: settles_ret)

lemma emits_tryL_from:
  "emits Q m \<Longrightarrow> yields P m \<Longrightarrow> (\<And>x. P x \<Longrightarrow> emits Q (k x)) \<Longrightarrow> emits Q (tryL m lo k)"
  unfolding tryL_def
  by (rule emits_from [OF emits_attempt yields_attempt]) (auto split: sum.splits intro: emits_ret)

lemma yields_tryL_from:
  "yields Q m \<Longrightarrow> (\<And>x. Q x \<Longrightarrow> yields P (k x)) \<Longrightarrow> (\<And>e. P (Inl e, lo)) \<Longrightarrow> yields P (tryL m lo k)"
  unfolding tryL_def
  by (rule yields_bind [OF yields_attempt]) (auto split: sum.splits intro: yields_ret)

subsection \<open>Time\<close>

text \<open>A sleep takes its time, and no request or command makes the clock go back.\<close>

definition clock_laws :: "'s device_env \<Rightarrow> bool" where
  "clock_laws E \<longleftrightarrow>
     (\<forall>t s. ae_clock E s + t \<le> ae_clock E (ae_sleep E t s))
     \<and> (\<forall>m u b s. ae_clock E s \<le> ae_clock E (snd (ae_fetch E m u b s)))
     \<and> (\<forall>c args sig t s. ae_clock E s \<le> ae_clock E (snd (ae_exec E c args sig t s)))"

text \<open>A call that leaves the clock where it was or later.\<close>

definition forwards :: "'s device_env \<Rightarrow> ('s, 'a) eff \<Rightarrow> bool" where
  "forwards E m \<longleftrightarrow> (\<forall>r x r1. m r = Some (x, r1) \<longrightarrow> ae_clock E (ru_env r) \<le> ae_clock E (ru_env r1))"

lemma forwardsD: "forwards E m \<Longrightarrow> m r = Some (x, r1) \<Longrightarrow> ae_clock E (ru_env r) \<le> ae_clock E (ru_env r1)"
  by (auto simp: forwards_def)

lemma forwards_bind [forwards_intros]:
  assumes "forwards E m" and "\<And>x. forwards E (f x)"
  shows "forwards E (bindE m f)"
  unfolding forwards_def
proof (intro allI impI)
  fix r y r2 assume "bindE m f r = Some (y, r2)"
  then show "ae_clock E (ru_env r) \<le> ae_clock E (ru_env r2)"
    by (rule bindE_Some) (use assms in \<open>blast dest: forwardsD intro: order.trans\<close>)+
qed

lemma forwards_ret [forwards_intros]:
  "forwards E (ret x)" "forwards E (throwE e)" "forwards E (liftE z)" "forwards E (readE g)"
  "forwards E (nowE E)" "forwards E (abortedE E)"
  by (auto simp: forwards_def nowE_def abortedE_def)

lemma forwards_catch [forwards_intros]:
  assumes "forwards E m" and "\<And>e. forwards E (h e)"
  shows "forwards E (catchE m h)"
  unfolding forwards_def
proof (intro allI impI)
  fix r y r2 assume "catchE m h r = Some (y, r2)"
  then consider x where "m r = Some (Inr x, r2)" | e r1 where "m r = Some (Inl e, r1)" "h e r1 = Some (y, r2)"
    by (auto simp: catchE_def split: option.splits sum.splits prod.splits)
  then show "ae_clock E (ru_env r) \<le> ae_clock E (ru_env r2)"
    by cases (use assms in \<open>blast dest: forwardsD intro: order.trans\<close>)+
qed

lemma forwards_if [forwards_intros]:
  "(b \<Longrightarrow> forwards E m) \<Longrightarrow> (\<not> b \<Longrightarrow> forwards E k) \<Longrightarrow> forwards E (if b then m else k)"
  by simp

lemma forwards_attempt [forwards_intros]: "forwards E m \<Longrightarrow> forwards E (attemptE m)"
  unfolding forwards_def attemptE_def by (auto split: option.splits)

lemma forwards_ignore [forwards_intros]: "forwards E m \<Longrightarrow> forwards E (ignoreE m)"
  by (simp add: ignoreE_def forwards_intros)

lemma forwards_exec [forwards_intros]: "clock_laws E \<Longrightarrow> forwards E (execE E c args sig t)"
  by (auto simp: forwards_def execE_def perform_def clock_laws_def Let_def split: prod.splits) (metis snd_conv)

lemma sleep_clock:
  "clock_laws E \<Longrightarrow> sleepE E t r = Some (u, r1) \<Longrightarrow> ae_clock E (ru_env r) + t \<le> ae_clock E (ru_env r1)"
  by (auto simp: clock_laws_def sleepE_def perform_def)

lemma settles_exec [settles_intros]: "settles (execE E c args sig t)"
  by (simp add: execE_def settles_intros)

lemma emits_exec [emits_intros]: "(\<And>out. Q (EvExec c args out)) \<Longrightarrow> emits Q (execE E c args sig t)"
  by (simp add: execE_def emits_intros)

lemma throws_exec [throws_intros]: "throws T (execE E c args sig t)"
  by (simp add: execE_def throws_intros)

subsection \<open>Loops\<close>

text \<open>
  A loop with a state: its body ends the loop with \<open>Inl\<close> a result or goes round with \<open>Inr\<close> the
  next state. A loop that never ends has no value.
\<close>

partial_function (option) loopE ::
  "('a \<Rightarrow> 's run \<Rightarrow> ((exn, 'b + 'a) result \<times> 's run) option) \<Rightarrow> 'a \<Rightarrow> 's run \<Rightarrow> ((exn, 'b) result \<times> 's run) option" where
  "loopE body x r =
     (case body x r of
        None \<Rightarrow> None
      | Some (Inl e, r1) \<Rightarrow> Some (Inl e, r1)
      | Some (Inr (Inl y), r1) \<Rightarrow> Some (Inr y, r1)
      | Some (Inr (Inr x'), r1) \<Rightarrow> loopE body x' r1)"

declare loopE.simps [code]

abbreviation stop :: "'b \<Rightarrow> ('s, 'b + 'a) eff" where
  "stop y \<equiv> ret (Inl y)"

abbreviation again :: "'a \<Rightarrow> ('s, 'b + 'a) eff" where
  "again x \<equiv> ret (Inr x)"

text \<open>What holds of every round, and of the end of the loop when it is reached.\<close>

lemma loopE_rule:
  assumes "loopE body x r = Some out"
    and "\<And>x r e r1. body x r = Some (Inl e, r1) \<Longrightarrow> P x r (Inl e, r1)"
    and "\<And>x r y r1. body x r = Some (Inr (Inl y), r1) \<Longrightarrow> P x r (Inr y, r1)"
    and "\<And>x r x' r1 out. body x r = Some (Inr (Inr x'), r1) \<Longrightarrow> P x' r1 out \<Longrightarrow> P x r out"
  shows "P x r out"
proof -
  define I where "I = (\<lambda>b x r out. body = b \<longrightarrow> P x r out)"
  have "(case ((body, x), r) of (bx, r) \<Rightarrow> (case bx of (b, x) \<Rightarrow> I b x) r) out"
  proof (rule loopE.raw_induct)
    show "(case ((body, x), r) of (bx, r) \<Rightarrow> (case bx of (b, x) \<Rightarrow> loopE b x) r) = Some out"
      by (simp add: assms(1))
  qed (auto simp: I_def split: option.splits sum.splits prod.splits intro: assms(2-4))
  then show ?thesis by (simp add: I_def)
qed

lemma emits_loop [emits_intros]:
  assumes "\<And>x. emits Q (body x)"
  shows "emits Q (loopE body x)"
proof (rule emitsI)
  fix r y r1 assume "loopE body x r = Some (y, r1)"
  then have "case (y, r1) of (y, r1) \<Rightarrow> \<exists>evs. ru_trace r1 = ru_trace r @ evs \<and> (\<forall>e \<in> set evs. Q e)"
    by (rule loopE_rule) (auto intro: two_steps dest: emitsD [OF assms])
  then show "\<exists>evs. ru_trace r1 = ru_trace r @ evs \<and> (\<forall>e \<in> set evs. Q e)" by simp
qed

lemma throws_loop [throws_intros]:
  assumes "\<And>x. throws T (body x)"
  shows "throws T (loopE body x)"
proof -
  have "loopE body x r = Some out \<Longrightarrow> case out of (Inl e, r1) \<Rightarrow> T e | _ \<Rightarrow> True" for r out
    by (erule loopE_rule) (auto dest: throwsD [OF assms])
  then show ?thesis by (force simp: throws_def)
qed

lemma yields_loop [yields_intros]:
  assumes "\<And>x. yields (\<lambda>y. \<forall>z. y = Inl z \<longrightarrow> P z) (body x)"
  shows "yields P (loopE body x)"
proof -
  have "loopE body x r = Some out \<Longrightarrow> case out of (Inr y, r1) \<Rightarrow> P y | _ \<Rightarrow> True" for r out
    by (erule loopE_rule) (auto dest: yieldsD [OF assms])
  then show ?thesis by (force simp: yields_def)
qed

lemma forwards_loop [forwards_intros]:
  assumes "\<And>x. forwards E (body x)"
  shows "forwards E (loopE body x)"
proof -
  have "loopE body x r = Some out \<Longrightarrow> ae_clock E (ru_env r) \<le> ae_clock E (ru_env (snd out))" for r out
    by (erule loopE_rule) (auto intro: order.trans dest: forwardsD [OF assms])
  then show ?thesis by (force simp: forwards_def)
qed

lemma returns_loop_once:
  assumes "returns (\<lambda>y. \<exists>z. y = Inl z \<and> P z) (body x)"
  shows "returns P (loopE body x)"
  unfolding returns_def
proof
  fix r
  obtain z r1 where "body x r = Some (Inr (Inl z), r1)" "P z" using returnsD [OF assms, of r] by auto
  then show "\<exists>y r1. loopE body x r = Some (Inr y, r1) \<and> P y" by (simp add: loopE.simps [of body x])
qed

text \<open>
  A loop ends when each of its rounds ends and a round that goes on makes some number smaller;
  here, the time left until a deadline that has not passed when a round goes on.
\<close>

lemma settles_loop:
  fixes measure_of :: "'a \<Rightarrow> 's run \<Rightarrow> nat"
  assumes "\<And>x. settles (body x)"
    and "\<And>x r x' r1. body x r = Some (Inr (Inr x'), r1) \<Longrightarrow> measure_of x' r1 < measure_of x r"
  shows "settles (loopE body x)"
proof -
  have "\<exists>out. loopE body x r = Some out" for r
  proof (induction "measure_of x r" arbitrary: x r rule: less_induct)
    case less
    obtain y r1 where y: "body x r = Some (y, r1)" using settlesD [OF assms(1)] by blast
    show ?case
    proof (cases y)
      case (Inl e)
      with y show ?thesis by (subst loopE.simps) simp
    next
      case (Inr z)
      then show ?thesis using y less [OF assms(2)] by (subst loopE.simps) (cases z; auto)
    qed
  qed
  then show ?thesis by (auto simp: settles_def)
qed

text \<open>The end of a round: give up at the deadline, or sleep and go round.\<close>

definition until_deadline :: "'s device_env \<Rightarrow> ms \<Rightarrow> ms \<Rightarrow> ('s, 'b + 'a) eff \<Rightarrow> 'a \<Rightarrow> ('s, 'b + 'a) eff" where
  "until_deadline E deadline pause expired next =
     bindE (nowE E) (\<lambda>now. if now \<ge> deadline then expired else thenE (sleepE E pause) (again next))"

lemma until_deadline_facts:
  "settles expired \<Longrightarrow> settles (until_deadline E deadline pause expired nxt)"
  "emits Q expired \<Longrightarrow> (\<And>t. Q (EvSleep t)) \<Longrightarrow> emits Q (until_deadline E deadline pause expired nxt)"
  "throws T expired \<Longrightarrow> throws T (until_deadline E deadline pause expired nxt)"
  by (simp_all add: until_deadline_def settles_intros emits_intros throws_intros)

lemmas until_deadline_settles [settles_intros] = until_deadline_facts(1)
lemmas until_deadline_emits [emits_intros] = until_deadline_facts(2)
lemmas until_deadline_throws [throws_intros] = until_deadline_facts(3)

definition never_again :: "('s, 'b + 'a) eff \<Rightarrow> bool" where
  "never_again m \<longleftrightarrow> yields (\<lambda>y. \<exists>z. y = Inl z) m"

text \<open>A round that goes on only past \<open>until_deadline\<close> brings the deadline nearer.\<close>

definition paced :: "'s device_env \<Rightarrow> ms \<Rightarrow> ('s, 'b + 'a) eff \<Rightarrow> bool" where
  "paced E deadline m \<longleftrightarrow> (\<forall>r x r1. m r = Some (Inr (Inr x), r1) \<longrightarrow>
     ae_clock E (ru_env r) < ae_clock E (ru_env r1) \<and> ae_clock E (ru_env r) < deadline)"

lemma paced_bind [paced_intros]:
  assumes "forwards E m" and "\<And>x. paced E deadline (f x)"
  shows "paced E deadline (bindE m f)"
  unfolding paced_def
proof (intro allI impI)
  fix r x r2 assume "bindE m f r = Some (Inr (Inr x), r2)"
  then obtain y r1 where "m r = Some (Inr y, r1)" "f y r1 = Some (Inr (Inr x), r2)" by (rule bindE_Inr)
  with forwardsD [OF assms(1)] assms(2) show
    "ae_clock E (ru_env r) < ae_clock E (ru_env r2) \<and> ae_clock E (ru_env r) < deadline"
    unfolding paced_def by (meson order.strict_trans1)
qed

lemma paced_stop [paced_intros]: "paced E deadline (stop y)" "paced E deadline (throwE e)"
  by (simp_all add: paced_def)

lemma paced_if [paced_intros]:
  "(b \<Longrightarrow> paced E deadline m) \<Longrightarrow> (\<not> b \<Longrightarrow> paced E deadline k) \<Longrightarrow> paced E deadline (if b then m else k)"
  by simp

lemma paced_until [paced_intros]:
  assumes "clock_laws E" and "0 < pause" and "never_again expired"
  shows "paced E deadline (until_deadline E deadline pause expired nxt)"
  unfolding paced_def
proof (intro allI impI)
  fix r x r2 assume run: "until_deadline E deadline pause expired nxt r = Some (Inr (Inr x), r2)"
  show "ae_clock E (ru_env r) < ae_clock E (ru_env r2) \<and> ae_clock E (ru_env r) < deadline"
  proof (cases "deadline \<le> ae_clock E (ru_env r)")
    case True
    with run have "expired r = Some (Inr (Inr x), r2)"
      by (simp add: until_deadline_def nowE_def bindE_def readE_def)
    with assms(3) show ?thesis by (auto simp: never_again_def dest: yieldsD)
  next
    case False
    with run obtain u r1 where "sleepE E pause r = Some (u, r1)" "r2 = r1"
      by (auto simp: until_deadline_def nowE_def readE_def elim!: bindE_Inr)
    with sleep_clock [OF assms(1)] assms(2) False show ?thesis by fastforce
  qed
qed

text \<open>\<open>while (Date.now() < deadline) { body }\<close>, where the body sleeps before it goes round.\<close>

definition while_before :: "'s device_env \<Rightarrow> ms \<Rightarrow> ('s, 'b + 'a) eff \<Rightarrow> ('s, 'b + 'a) eff \<Rightarrow> ('s, 'b + 'a) eff" where
  "while_before E deadline body expired = bindE (nowE E) (\<lambda>now. if now < deadline then body else expired)"

lemma while_before_facts:
  "settles body \<Longrightarrow> settles expired \<Longrightarrow> settles (while_before E deadline body expired)"
  "emits Q body \<Longrightarrow> emits Q expired \<Longrightarrow> emits Q (while_before E deadline body expired)"
  "throws T body \<Longrightarrow> throws T expired \<Longrightarrow> throws T (while_before E deadline body expired)"
  "yields P body \<Longrightarrow> yields P expired \<Longrightarrow> yields P (while_before E deadline body expired)"
  "forwards E body \<Longrightarrow> forwards E expired \<Longrightarrow> forwards E (while_before E deadline body expired)"
  by (simp_all add: while_before_def settles_intros emits_intros throws_intros yields_intros forwards_intros)

lemmas while_before_settles [settles_intros] = while_before_facts(1)
lemmas while_before_emits [emits_intros] = while_before_facts(2)
lemmas while_before_throws [throws_intros] = while_before_facts(3)
lemmas while_before_yields [yields_intros] = while_before_facts(4)
lemmas while_before_forwards [forwards_intros] = while_before_facts(5)

definition slow :: "'s device_env \<Rightarrow> ('s, 'b + 'a) eff \<Rightarrow> bool" where
  "slow E m \<longleftrightarrow> (\<forall>r x r1. m r = Some (Inr (Inr x), r1) \<longrightarrow> ae_clock E (ru_env r) < ae_clock E (ru_env r1))"

lemma slow_bind [paced_intros]:
  assumes "forwards E m" and "\<And>x. slow E (f x)"
  shows "slow E (bindE m f)"
  unfolding slow_def
proof (intro allI impI)
  fix r x r2 assume "bindE m f r = Some (Inr (Inr x), r2)"
  then obtain y r1 where "m r = Some (Inr y, r1)" "f y r1 = Some (Inr (Inr x), r2)" by (rule bindE_Inr)
  with forwardsD [OF assms(1)] assms(2) show "ae_clock E (ru_env r) < ae_clock E (ru_env r2)"
    unfolding slow_def by (meson order.strict_trans1)
qed

lemma slow_stop [paced_intros]: "slow E (stop y)" "slow E (throwE e)"
  by (simp_all add: slow_def)

lemma slow_if [paced_intros]: "(b \<Longrightarrow> slow E m) \<Longrightarrow> (\<not> b \<Longrightarrow> slow E k) \<Longrightarrow> slow E (if b then m else k)"
  by simp

lemma slow_sleep [paced_intros]: "clock_laws E \<Longrightarrow> 0 < pause \<Longrightarrow> slow E (thenE (sleepE E pause) (again x))"
  unfolding slow_def by (auto elim!: bindE_Inr dest: sleep_clock)

lemma paced_while [paced_intros]:
  assumes "slow E body" and "never_again expired"
  shows "paced E deadline (while_before E deadline body expired)"
  unfolding paced_def
proof (intro allI impI)
  fix r x r1 assume "while_before E deadline body expired r = Some (Inr (Inr x), r1)"
  with assms show "ae_clock E (ru_env r) < ae_clock E (ru_env r1) \<and> ae_clock E (ru_env r) < deadline"
    by (auto simp: while_before_def nowE_def bindE_def readE_def slow_def never_again_def
        split: if_splits dest: yieldsD)
qed

lemma never_again_intros [paced_intros]: "never_again (throwE e)" "never_again (stop y)"
  by (simp_all add: never_again_def yields_intros)

lemma settles_paced_loop:
  assumes "\<And>x. settles (body x)" and "\<And>x. paced E deadline (body x)"
  shows "settles (loopE body x)"
proof (rule settles_loop [where measure_of = "\<lambda>x r. nat (deadline - ae_clock E (ru_env r))"])
  fix x r x' r1 assume "body x r = Some (Inr (Inr x'), r1)"
  with assms(2) have "ae_clock E (ru_env r) < ae_clock E (ru_env r1)" "ae_clock E (ru_env r) < deadline"
    by (auto simp: paced_def)
  then show "nat (deadline - ae_clock E (ru_env r1)) < nat (deadline - ae_clock E (ru_env r))" by linarith
qed (rule assms(1))

lemma settles_deadline_loop:
  assumes "\<And>start x. settles (body start x)" and "\<And>start x. paced E (start + t) (body start x)"
  shows "settles (bindE (nowE E) (\<lambda>start. loopE (body start) x0))"
  by (intro settles_bind settles_paced_loop [OF assms]) (simp add: nowE_def settles_intros)

lemma returns_deadline_loop:
  fixes E :: "'s device_env"
  assumes "0 < t" and "\<And>start. returns (\<lambda>y. \<exists>z. y = Inl z \<and> P z) (body start x0)"
  shows "returns P (bindE (nowE E) (\<lambda>start. loopE (\<lambda>x. while_before E (start + t) (body start x) (expired start x)) x0))"
  unfolding returns_def
proof
  fix r :: "'s run"
  let ?now = "ae_clock E (ru_env r)"
  obtain z r1 where "body ?now x0 r = Some (Inr (Inl z), r1)" "P z" using returnsD [OF assms(2), of ?now r] by auto
  with assms(1) show "\<exists>y r1. bindE (nowE E) (\<lambda>start. loopE (\<lambda>x. while_before E (start + t) (body start x) (expired start x)) x0) r
      = Some (Inr y, r1) \<and> P y"
    by (simp add: bindE_def nowE_def readE_def loopE.simps [of _ x0] while_before_def)
qed

end
