(* ===== verification/Js_Text.thy ===== *)
theory Js_Text
  imports Prelude
begin

text \<open>
  What the Android modules do with the text that \<open>adb\<close> and \<open>docker\<close> print: the regular
  expressions they test it with, one definition each, and the splitting, slicing and number parsing
  of JavaScript.
\<close>

definition word_char :: "char \<Rightarrow> bool" where
  "word_char c =
     (let n = of_char c :: nat
      in 48 \<le> n \<and> n \<le> 57 \<or> 65 \<le> n \<and> n \<le> 90 \<or> 97 \<le> n \<and> n \<le> 122 \<or> n = 95)"

definition digit :: "char \<Rightarrow> bool" where
  "digit c = (let n = of_char c :: nat in 48 \<le> n \<and> n \<le> 57)"

definition digit_value :: "char \<Rightarrow> int" where
  "digit_value c = int (of_char c) - 48"

definition digits_value :: "string \<Rightarrow> int" where
  "digits_value s = fold (\<lambda>c n. 10 * n + digit_value c) s 0"

text \<open>\<open>Number.parseInt(s, 10)\<close>, \<open>None\<close> for NaN.\<close>

definition js_parse_int :: "string \<Rightarrow> int option" where
  "js_parse_int s =
     (let t = dropWhile js_ws s;
          neg = js_starts_with t ''-'';
          u = (if neg \<or> js_starts_with t ''+'' then drop 1 t else t);
          ds = takeWhile digit u
      in if ds = [] then None else Some (if neg then - digits_value ds else digits_value ds))"

text \<open>\<open>new RegExp('a|b|...', 'i').test(s)\<close>, for literal alternatives.\<close>

definition mentions :: "string list \<Rightarrow> string \<Rightarrow> bool" where
  "mentions pats s = list_ex (\<lambda>p. js_includes (js_lower s) (js_lower p)) pats"

abbreviation lf :: string where
  "lf \<equiv> [CHR 0x0A]"

definition js_lines :: "string \<Rightarrow> string list" where
  "js_lines s = js_split (CHR 0x0A) s"

text \<open>The lines a regular expression with the flag \<open>m\<close> sees: a carriage return ends one too.\<close>

definition regex_lines :: "string \<Rightarrow> string list" where
  "regex_lines s = js_split (CHR 0x0A) (map (\<lambda>c. if c = CHR 0x0D then CHR 0x0A else c) s)"

text \<open>\<open>s.split(/\s+/)\<close>.\<close>

function split_ws :: "string \<Rightarrow> string list" where
  "split_ws s =
     (let w = takeWhile (\<lambda>c. \<not> js_ws c) s; r = dropWhile (\<lambda>c. \<not> js_ws c) s
      in if r = [] then [w] else w # split_ws (dropWhile js_ws r))"
  by pat_completeness auto
termination
proof (relation "measure length", simp)
  fix s w r assume "w = takeWhile (\<lambda>c. \<not> js_ws c) s" "r = dropWhile (\<lambda>c. \<not> js_ws c) s" "r \<noteq> []"
  then have "js_ws (hd r)" "length r \<le> length s"
    using hd_dropWhile [of "\<lambda>c. \<not> js_ws c" s] by (auto simp: length_dropWhile_le)
  with \<open>r \<noteq> []\<close> have "length (dropWhile js_ws r) < length r"
    by (cases r) (auto simp: length_dropWhile_le less_Suc_eq_le)
  with \<open>length r \<le> length s\<close> show "(dropWhile js_ws r, s) \<in> measure length" by simp
qed

declare split_ws.simps [simp del]

text \<open>\<open>lines.map(trim).filter(nonempty).pop()\<close>.\<close>

definition last_line :: "string \<Rightarrow> string option" where
  "last_line s =
     (let ls = filter (\<lambda>l. l \<noteq> []) (map js_trim (js_lines s)) in if ls = [] then None else Some (List.last ls))"

text \<open>\<open>xs.filter(Boolean).join(sep)\<close>, and \<open>a || b || ...\<close> on strings.\<close>

definition join_some :: "string \<Rightarrow> string list \<Rightarrow> string" where
  "join_some sep xs = js_join sep (filter (\<lambda>x. x \<noteq> []) xs)"

fun first_nonempty :: "string list \<Rightarrow> string" where
  "first_nonempty [] = []"
| "first_nonempty (x # xs) = (if x \<noteq> [] then x else first_nonempty xs)"

definition last_n :: "nat \<Rightarrow> 'a list \<Rightarrow> 'a list" where
  "last_n n xs = drop (length xs - n) xs"

text \<open>\<open>/^[0-9a-f.:]{3,45}$/i\<close>.\<close>

definition ip_char :: "char \<Rightarrow> bool" where
  "ip_char c = (let n = of_char c :: nat
     in digit c \<or> 97 \<le> n \<and> n \<le> 102 \<or> 65 \<le> n \<and> n \<le> 70 \<or> c = CHR ''.'' \<or> c = CHR '':'')"

definition ip_pattern :: "string \<Rightarrow> bool" where
  "ip_pattern s = (3 \<le> length s \<and> length s \<le> 45 \<and> list_all ip_char s)"

lemma js_text_examples:
  "js_parse_int '' 42x'' = Some 42" "js_parse_int ''-7'' = Some (- 7)" "js_parse_int ''x'' = None"
  "split_ws ''a  b '' = [''a'', ''b'', []]" "mentions [''No space'', ''read-only''] ''Read-only file system''"
  "ip_pattern ''10.0.0.1''" "\<not> ip_pattern ''example.org''"
  by code_simp+

lemma split_ws_nonempty: "split_ws s \<noteq> []"
  by (subst split_ws.simps) (simp add: Let_def)

lemma digits_value_snoc: "digits_value (s @ [c]) = 10 * digits_value s + digit_value c"
  by (simp add: digits_value_def)

lemma digit_char_facts: "n < 10 \<Longrightarrow> digit (digit_char n) \<and> digit_value (digit_char n) = int n"
  by (auto simp: digit_def digit_value_def Let_def)

lemma show_nat_parses: "list_all digit (show_nat n) \<and> digits_value (show_nat n) = int n"
proof (induction n rule: show_nat.induct)
  case (1 n)
  show ?case
  proof (cases "n < 10")
    case True
    then have "show_nat n = [digit_char n]" by (subst show_nat.simps) simp
    with digit_char_facts [OF True] show ?thesis by (simp add: digits_value_def del: digit_char.simps)
  next
    case False
    then have "show_nat n = show_nat (n div 10) @ [digit_char (n mod 10)]" by (subst show_nat.simps) simp
    with 1 [OF False] digit_char_facts [of "n mod 10"] show ?thesis
      by (simp add: digits_value_snoc del: digit_char.simps) presburger
  qed
qed

text \<open>A number read back is the number printed.\<close>

lemma js_parse_show_nat: "js_parse_int (show_nat n) = Some (int n)"
proof -
  have d: "list_all digit (show_nat n)" "show_nat n \<noteq> []" "digits_value (show_nat n) = int n"
    using show_nat_parses [of n] by simp_all
  then obtain c s where cs: "show_nat n = c # s" "digit c" by (cases "show_nat n") auto
  have "\<not> js_ws c" "c \<noteq> CHR ''-''" "c \<noteq> CHR ''+''" using cs(2) by (auto simp: digit_def js_ws_def Let_def)
  moreover have "takeWhile digit s = s" using d(1) cs(1) by (simp add: list_all_iff takeWhile_eq_all_conv)
  ultimately show ?thesis
    using d cs(2) by (simp add: js_parse_int_def js_starts_with_def cs(1) Let_def takeWhile_eq_all_conv [THEN iffD2])
qed

end
