(* ===== verification/Docker.thy ===== *)
theory Docker
  imports Effects Js_Text Proxy_Config
begin

text \<open>
  \<open>lib/android/docker.ts\<close>: the Docker command line. A call runs \<open>docker\<close> with a list of
  arguments and answers with its trimmed output, or throws a \<open>DockerError\<close>. Every caller leaves
  the command at its default and gives no time limit of its own, so both are constants here; the
  options of a call are its signal. Objects with string keys are lists of pairs in the order their
  properties were added.
\<close>

definition OWNER_LABEL :: string where "OWNER_LABEL = ''redroid-organico.owner''"
definition OWNER_VALUE :: string where "OWNER_VALUE = ''redroid-organico''"
definition JOB_LABEL :: string where "JOB_LABEL = ''redroid-organico.jobId''"
definition ACCOUNT_LABEL :: string where "ACCOUNT_LABEL = ''redroid-organico.accountId''"
definition CREATED_AT_LABEL :: string where "CREATED_AT_LABEL = ''redroid-organico.createdAt''"
definition ROLE_LABEL :: string where "ROLE_LABEL = ''redroid-organico.role''"
definition DEVICE_ROLE :: string where "DEVICE_ROLE = ''device''"
definition GATEWAY_ROLE :: string where "GATEWAY_ROLE = ''egress-gateway''"
definition CAMERA_ROLE :: string where "CAMERA_ROLE = ''camera-bridge''"
definition CAMERA_LABEL :: string where "CAMERA_LABEL = ''redroid-organico.cameraIndex''"

lemmas label_defs = OWNER_LABEL_def OWNER_VALUE_def JOB_LABEL_def ACCOUNT_LABEL_def CREATED_AT_LABEL_def
  ROLE_LABEL_def DEVICE_ROLE_def GATEWAY_ROLE_def CAMERA_ROLE_def CAMERA_LABEL_def

subsection \<open>Objects\<close>

text \<open>\<open>o[k] = v\<close>: a property that is there keeps its place.\<close>

definition put :: "string \<Rightarrow> 'v \<Rightarrow> (string \<times> 'v) list \<Rightarrow> (string \<times> 'v) list" where
  "put k v o1 = (if k \<in> fst ` set o1 then map (\<lambda>(l, w). (l, if l = k then v else w)) o1 else o1 @ [(k, v)])"

lemma map_of_in_place:
  "map_of (map (\<lambda>(l, w). (l, if l = k then v else w)) o1) l
     = (if l = k then map_option (\<lambda>_. v) (map_of o1 k) else map_of o1 l)"
  by (induction o1) auto

lemma map_of_put: "map_of (put k v o1) l = (if l = k then Some v else map_of o1 l)"
proof (cases "k \<in> fst ` set o1")
  case True
  then obtain w where "map_of o1 k = Some w" by (metis map_of_eq_None_iff not_None_eq)
  with True show ?thesis by (simp add: put_def map_of_in_place)
next
  case False
  then have "map_of o1 k = None" by (simp add: map_of_eq_None_iff)
  with False show ?thesis by (auto simp: put_def map_add_def split: option.splits)
qed

lemma put_keys: "distinct (map fst o1) \<Longrightarrow> distinct (map fst (put k v o1))"
  by (auto simp: put_def image_iff split_def comp_def)

lemma put_new: "k \<notin> fst ` set o1 \<Longrightarrow> put k v o1 = o1 @ [(k, v)]"
  by (simp add: put_def)

definition put_all :: "(string \<times> 'v) list \<Rightarrow> (string \<times> 'v) list \<Rightarrow> (string \<times> 'v) list" where
  "put_all new o1 = fold (\<lambda>(k, v). put k v) new o1"

subsection \<open>The command\<close>

definition docker :: "'s device_env \<Rightarrow> string list \<Rightarrow> exec_signal \<Rightarrow> ms \<Rightarrow> ('s, string) eff" where
  "docker E args sig timeout =
     bindE (execE E ''docker'' args sig timeout) (\<lambda>out. case out of
         ExecOk so se \<Rightarrow> ret (js_trim so)
       | ExecFailed code so se msg killed \<Rightarrow>
           throwE (DockerError
             (''docker '' @ js_join '' '' args @ '' failed: '' @ first_nonempty [js_trim se, msg, ''Error''])
             (js_trim se)))"

definition DOCKER_TIMEOUT_MS :: ms where
  "DOCKER_TIMEOUT_MS = 60000"

record run_spec =
  rs_image :: string
  rs_name :: string
  rs_labels :: "(string \<times> string) list"
  rs_publishContainerPort :: "nat option"
  rs_volumes :: "(string \<times> string) list"
  rs_env :: "(string \<times> string) list"
  rs_privileged :: bool
  rs_capAdd :: "string list"
  rs_devices :: "string list"
  rs_network :: "string option"
  rs_sysctls :: "(string \<times> string) list"
  rs_memoryLimit :: "string option"
  rs_command :: "string list"

definition flag_each :: "string \<Rightarrow> string list \<Rightarrow> string list" where
  "flag_each flag xs = concat (map (\<lambda>x. [flag, x]) xs)"

definition pairs :: "string \<Rightarrow> (string \<times> string) list \<Rightarrow> string list" where
  "pairs sep kvs = map (\<lambda>(k, v). k @ sep @ v) kvs"

definition run_args :: "run_spec \<Rightarrow> string list" where
  "run_args spec =
     [''run'', ''--detach'', ''--name'', rs_name spec]
     @ flag_each ''--label'' (pairs ''='' (rs_labels spec))
     @ (if rs_privileged spec then [''--privileged''] else [])
     @ flag_each ''--cap-add'' (rs_capAdd spec)
     @ flag_each ''--device'' (rs_devices spec)
     @ (if opt_truthy (rs_network spec) then [''--network'', the (rs_network spec)] else [])
     @ (if opt_truthy (rs_memoryLimit spec) then [''--memory'', the (rs_memoryLimit spec)] else [])
     @ (case rs_publishContainerPort spec of
          Some p \<Rightarrow> [''--publish'', ''127.0.0.1::'' @ show_nat p] | None \<Rightarrow> [])
     @ flag_each ''--volume'' (pairs '':'' (rs_volumes spec))
     @ flag_each ''--env'' (pairs ''='' (rs_env spec))
     @ flag_each ''--sysctl'' (pairs ''='' (rs_sysctls spec))
     @ rs_image spec # rs_command spec"

definition docker_run :: "'s device_env \<Rightarrow> run_spec \<Rightarrow> exec_signal \<Rightarrow> ('s, string) eff" where
  "docker_run E spec sig = docker E (run_args spec) sig DOCKER_TIMEOUT_MS"

definition hostPort :: "'s device_env \<Rightarrow> string \<Rightarrow> nat \<Rightarrow> exec_signal \<Rightarrow> ('s, int option) eff" where
  "hostPort E name port sig =
     catchE (bindE (docker E [''inspect'', ''--format'',
               ''{{ (index (index .NetworkSettings.Ports '' @ quoted (show_nat port @ ''/tcp'') @ '') 0).HostPort }}'',
               name] sig DOCKER_TIMEOUT_MS)
         (\<lambda>out. ret (case js_parse_int (js_trim out) of
            Some n \<Rightarrow> (if n > 0 then Some n else None) | None \<Rightarrow> None)))
       (\<lambda>e. ret None)"

definition isRunning :: "'s device_env \<Rightarrow> string \<Rightarrow> exec_signal \<Rightarrow> ('s, bool) eff" where
  "isRunning E name sig =
     catchE (bindE (docker E [''inspect'', ''--format'', ''{{.State.Running}}'', name] sig DOCKER_TIMEOUT_MS)
         (\<lambda>out. ret (js_trim out = ''true'')))
       (\<lambda>e. ret False)"

definition docker_logs :: "'s device_env \<Rightarrow> string \<Rightarrow> nat \<Rightarrow> ('s, string) eff" where
  "docker_logs E name n =
     catchE (docker E [''logs'', ''--tail'', show_nat n, name] NoSignal DOCKER_TIMEOUT_MS)
       (\<lambda>e. ret (case e of DockerError m se \<Rightarrow> se | _ \<Rightarrow> []))"

definition docker_remove :: "'s device_env \<Rightarrow> string \<Rightarrow> ('s, unit) eff" where
  "docker_remove E name =
     thenE (docker E [''rm'', ''--force'', ''--volumes'', name] NoSignal 30000) (ret ())"

record container_summary =
  ct_id :: string
  ct_name :: string
  ct_labels :: "(string \<times> string) list"

definition label_entry :: "string \<Rightarrow> (string \<times> string) option" where
  "label_entry entry =
     (let k = takeWhile (\<lambda>c. c \<noteq> CHR ''='') entry
      in if CHR ''='' \<in> set entry \<and> k \<noteq> [] then Some (k, drop (Suc (length k)) entry) else None)"

definition parseLabels :: "string \<Rightarrow> (string \<times> string) list" where
  "parseLabels raw =
     fold (\<lambda>entry o1. case label_entry entry of Some (k, v) \<Rightarrow> put k v o1 | None \<Rightarrow> o1)
       (js_split (CHR '','') raw) []"

definition ps_lines :: "string \<Rightarrow> container_summary list" where
  "ps_lines out =
     map (\<lambda>parts. \<lparr>ct_id = parts ! 0, ct_name = parts ! 1,
                   ct_labels = parseLabels (if length parts > 2 then parts ! 2 else [])\<rparr>)
       (filter (\<lambda>parts. length parts \<ge> 2) (map (js_split (CHR 0x09)) (js_lines out)))"

definition listByLabel :: "'s device_env \<Rightarrow> string \<Rightarrow> string \<Rightarrow> ('s, container_summary list) eff" where
  "listByLabel E label val =
     bindE (docker E [''ps'', ''--all'', ''--filter'', ''label='' @ label @ ''='' @ val,
               ''--format'', ''{{.ID}}'' @ [CHR 0x09] @ ''{{.Names}}'' @ [CHR 0x09] @ ''{{.Labels}}''] NoSignal DOCKER_TIMEOUT_MS)
       (\<lambda>out. ret (if out = [] then [] else ps_lines out))"

definition docker_exec :: "'s device_env \<Rightarrow> string \<Rightarrow> string list \<Rightarrow> exec_signal \<Rightarrow> ('s, string) eff" where
  "docker_exec E name cmd sig = docker E (''exec'' # name # cmd) sig DOCKER_TIMEOUT_MS"

definition connectNetwork :: "'s device_env \<Rightarrow> string \<Rightarrow> string \<Rightarrow> exec_signal \<Rightarrow> ('s, unit) eff" where
  "connectNetwork E network name sig =
     catchE (thenE (docker E [''network'', ''connect'', network, name] sig DOCKER_TIMEOUT_MS) (ret ()))
       (\<lambda>e. case e of
          DockerError m se \<Rightarrow>
            if mentions [''already exists in network'', ''is already attached''] se then ret () else throwE e
        | _ \<Rightarrow> throwE e)"

definition networkSubnets :: "'s device_env \<Rightarrow> string \<Rightarrow> exec_signal \<Rightarrow> ('s, string list) eff" where
  "networkSubnets E network sig =
     bindE (docker E [''network'', ''inspect'', network, ''--format'', ''{{range .IPAM.Config}}{{.Subnet}} {{end}}'']
              sig DOCKER_TIMEOUT_MS)
       (\<lambda>out. ret (filter (\<lambda>entry. CHR ''/'' \<in> set entry) (split_ws out)))"

definition ensureVolume :: "'s device_env \<Rightarrow> string \<Rightarrow> (string \<times> string) list \<Rightarrow> ('s, unit) eff" where
  "ensureVolume E name labels =
     thenE (docker E ([''volume'', ''create''] @ flag_each ''--label'' (pairs ''='' labels) @ [name])
              NoSignal DOCKER_TIMEOUT_MS) (ret ())"

lemmas docker_ops = docker_run_def hostPort_def isRunning_def docker_logs_def docker_remove_def listByLabel_def
  docker_exec_def connectNetwork_def networkSubnets_def ensureVolume_def

subsection \<open>What a call does\<close>

lemma settles_docker [settles_intros]: "settles (docker E args sig t)"
  unfolding docker_def by (auto intro!: settles_intros split: exec_outcome.splits)

lemma emits_docker [emits_intros]: "(\<And>out. Q (EvExec ''docker'' args out)) \<Longrightarrow> emits Q (docker E args sig t)"
  unfolding docker_def by (auto intro!: emits_intros split: exec_outcome.splits)

lemma forwards_docker [forwards_intros]: "clock_laws E \<Longrightarrow> forwards E (docker E args sig t)"
  unfolding docker_def by (auto intro!: forwards_intros split: exec_outcome.splits)

lemma throws_docker [throws_intros]: "(\<And>m se. T (DockerError m se)) \<Longrightarrow> throws T (docker E args sig t)"
  unfolding docker_def by (auto intro!: throws_intros split: exec_outcome.splits)

lemma settles_docker_ops [settles_intros]:
  "settles (docker_run E spec sig)" "settles (hostPort E name port sig)" "settles (isRunning E name sig)"
  "settles (docker_logs E name n)" "settles (docker_remove E name)" "settles (listByLabel E l v)"
  "settles (docker_exec E name cmd sig)" "settles (connectNetwork E net name sig)"
  "settles (networkSubnets E net sig)" "settles (ensureVolume E name labels)"
  unfolding docker_ops by (auto intro!: settles_intros split: exn.splits)

lemma forwards_docker_ops [forwards_intros]:
  assumes "clock_laws E"
  shows "forwards E (hostPort E name port sig)" "forwards E (isRunning E name sig)"
  unfolding docker_ops by (auto intro!: forwards_intros assms)

text \<open>Everything a Docker operation does is one run of the command.\<close>

definition docker_event :: "event \<Rightarrow> bool" where
  "docker_event e \<longleftrightarrow> (\<exists>args out. e = EvExec ''docker'' args out)"

lemma docker_event_exec [simp]: "docker_event (EvExec ''docker'' args out)"
  by (simp add: docker_event_def)

lemma emits_docker_ops:
  "emits docker_event (docker_run E spec sig)" "emits docker_event (hostPort E name port sig)"
  "emits docker_event (isRunning E name sig)" "emits docker_event (docker_logs E name n)"
  "emits docker_event (docker_remove E name)" "emits docker_event (listByLabel E l v)"
  "emits docker_event (docker_exec E name cmd sig)" "emits docker_event (connectNetwork E net name sig)"
  "emits docker_event (networkSubnets E net sig)" "emits docker_event (ensureVolume E name labels)"
  unfolding docker_ops by (auto intro!: emits_intros split: exn.splits)

lemma probes_calm [throws_intros]:
  "throws T (hostPort E name port sig)" "throws T (isRunning E name sig)" "throws T (docker_logs E name n)"
proof -
  have "throws (\<lambda>e. False) (hostPort E name port sig)" "throws (\<lambda>e. False) (isRunning E name sig)"
    "throws (\<lambda>e. False) (docker_logs E name n)"
    unfolding docker_ops by (auto intro!: throws_catch throws_ret throws_bind)
  then show "throws T (hostPort E name port sig)" "throws T (isRunning E name sig)" "throws T (docker_logs E name n)"
    by (auto simp: throws_def)
qed

subsection \<open>Removals\<close>

text \<open>The container an event removes.\<close>

definition removal_of :: "event \<Rightarrow> string option" where
  "removal_of e = (case e of
       EvExec cmd args out \<Rightarrow>
         if cmd = ''docker'' \<and> take 3 args = [''rm'', ''--force'', ''--volumes''] \<and> length args = 4
         then Some (args ! 3) else None
     | _ \<Rightarrow> None)"

definition removals :: "event list \<Rightarrow> string list" where
  "removals evs = List.map_filter removal_of evs"

lemma removals_simps [simp]:
  "removals [] = []" "removals (a @ b) = removals a @ removals b"
  "removals [EvExec ''docker'' [''rm'', ''--force'', ''--volumes'', n] out] = [n]"
  "removals [EvJobActive j ans] = []" "removals [EvLog l m] = []"
  by (simp_all add: removals_def map_filter_def removal_of_def)

subsection \<open>Labels\<close>

text \<open>What \<open>docker ps\<close> prints of a container's labels is read back as they are.\<close>

definition plain_label :: "string \<times> string \<Rightarrow> bool" where
  "plain_label kv \<longleftrightarrow> fst kv \<noteq> [] \<and> CHR ''='' \<notin> set (fst kv) \<and> CHR '','' \<notin> set (fst kv @ snd kv)"

lemma label_entry_print: "plain_label (k, v) \<Longrightarrow> label_entry (k @ CHR ''='' # v) = Some (k, v)"
  by (auto simp: label_entry_def plain_label_def Let_def takeWhile_append)

lemma parse_entries:
  assumes "\<forall>kv \<in> set kvs. plain_label kv" and "distinct (map fst (o1 @ kvs))"
  shows "fold (\<lambda>entry o1. case label_entry entry of Some (k, v) \<Rightarrow> put k v o1 | None \<Rightarrow> o1) (pairs ''='' kvs) o1 = o1 @ kvs"
  using assms
proof (induction kvs arbitrary: o1)
  case (Cons kv kvs)
  obtain k v where kv: "kv = (k, v)" by (cases kv)
  with Cons.prems have "put k v o1 = o1 @ [(k, v)]" by (intro put_new) auto
  with Cons kv show ?case by (simp add: pairs_def label_entry_print)
qed (simp add: pairs_def)

lemma no_char_join: "c \<notin> set sep \<Longrightarrow> \<forall>x \<in> set xs. c \<notin> set x \<Longrightarrow> c \<notin> set (js_join sep xs)"
  by (induction sep xs rule: js_join.induct) auto

lemma parseLabels_print:
  assumes "\<forall>kv \<in> set kvs. plain_label kv" and "distinct (map fst kvs)" and "kvs \<noteq> []"
  shows "parseLabels (js_join '','' (pairs ''='' kvs)) = kvs"
proof -
  have "\<forall>x \<in> set (pairs ''='' kvs). CHR '','' \<notin> set x"
    using assms(1) by (auto simp: pairs_def plain_label_def)
  then have "js_split (CHR '','') (js_join '','' (pairs ''='' kvs)) = pairs ''='' kvs"
    using assms(3) by (intro js_split_join) (simp_all add: pairs_def)
  with parse_entries [OF assms(1), of "[]"] assms(2) show ?thesis by (simp add: parseLabels_def)
qed

text \<open>The line \<open>docker ps\<close> prints for a container, and a container without blanks in its line.\<close>

definition ps_print :: "container_summary \<Rightarrow> string" where
  "ps_print c = ct_id c @ [CHR 0x09] @ ct_name c @ [CHR 0x09] @ js_join '','' (pairs ''='' (ct_labels c))"

definition plain_container :: "container_summary \<Rightarrow> bool" where
  "plain_container c \<longleftrightarrow> ct_id c \<noteq> [] \<and> ct_labels c \<noteq> [] \<and> distinct (map fst (ct_labels c))
     \<and> (\<forall>kv \<in> set (ct_labels c). plain_label kv)
     \<and> list_all (\<lambda>s. list_all (\<lambda>ch. \<not> js_ws ch) s) (ct_id c # ct_name c # pairs ''='' (ct_labels c))"

lemma blanks: "js_ws (CHR 0x09)" "js_ws (CHR 0x0A)"
  by (simp_all add: js_ws_def)

lemma plain_line:
  assumes "plain_container c"
  shows "\<forall>x \<in> set [ct_id c, ct_name c, js_join '','' (pairs ''='' (ct_labels c))]. \<forall>ch \<in> set x. \<not> js_ws ch"
proof -
  have "\<not> js_ws (CHR '','')" by (simp add: js_ws_def)
  then have "ch \<in> set (js_join '','' xs) \<Longrightarrow> \<forall>x \<in> set xs. \<forall>ch \<in> set x. \<not> js_ws ch \<Longrightarrow> \<not> js_ws ch" for ch xs
    by (cases "js_ws ch") (use no_char_join [of ch "'',''" xs] in auto)
  with assms show ?thesis by (auto simp: plain_container_def list_all_iff)
qed

lemma ps_print_columns:
  assumes "plain_container c"
  shows "js_split (CHR 0x09) (ps_print c) = [ct_id c, ct_name c, js_join '','' (pairs ''='' (ct_labels c))]"
proof -
  have "CHR 0x09 \<notin> set (ct_id c)" "CHR 0x09 \<notin> set (ct_name c)"
    "CHR 0x09 \<notin> set (js_join '','' (pairs ''='' (ct_labels c)))"
    using plain_line [OF assms] blanks(1) by auto
  then show ?thesis by (simp add: ps_print_def js_split_part)
qed

lemma ps_lines_print:
  assumes "\<forall>c \<in> set cs. plain_container c" and "cs \<noteq> []"
  shows "ps_lines (js_join lf (map ps_print cs)) = cs"
proof -
  have "CHR 0x0A \<notin> set (ps_print c)" if "c \<in> set cs" for c
    using plain_line [of c] assms(1) that blanks(2) by (auto simp: ps_print_def)
  then have "js_lines (js_join lf (map ps_print cs)) = map ps_print cs"
    unfolding js_lines_def using assms(2) by (intro js_split_join) auto
  then have "ps_lines (js_join lf (map ps_print cs))
      = map (\<lambda>parts. \<lparr>ct_id = parts ! 0, ct_name = parts ! 1,
                   ct_labels = parseLabels (if length parts > 2 then parts ! 2 else [])\<rparr>)
         (filter (\<lambda>parts. length parts \<ge> 2) (map (\<lambda>c. js_split (CHR 0x09) (ps_print c)) cs))"
    by (simp add: ps_lines_def comp_def)
  also have "\<dots> = cs"
    using assms(1) by (induction cs) (auto simp: ps_print_columns parseLabels_print plain_container_def)
  finally show ?thesis .
qed

lemma js_trim_line:
  assumes "s \<noteq> []" and "\<not> js_ws (hd s)" and "\<not> js_ws (List.last s)"
  shows "js_trim (s @ lf) = s"
proof -
  have front: "dropWhile js_ws (s @ lf) = s @ lf" using assms(1,2) by (cases s) auto
  have "dropWhile js_ws (rev s) = rev s" using assms(1,3) by (cases s rule: rev_cases) auto
  then show ?thesis using blanks(2) by (simp add: js_trim_def front)
qed

lemma last_js_join: "xs \<noteq> [] \<Longrightarrow> List.last xs \<noteq> [] \<Longrightarrow> List.last (js_join sep xs) = List.last (List.last xs) \<and> js_join sep xs \<noteq> []"
  by (induction sep xs rule: js_join.induct) (auto simp: last_append split: if_splits)

lemma hd_js_join: "xs \<noteq> [] \<Longrightarrow> hd xs \<noteq> [] \<Longrightarrow> hd (js_join sep xs) = hd (hd xs)"
  by (induction sep xs rule: js_join.induct) auto

lemma plain_print_ends:
  assumes "plain_container c"
  shows "ps_print c \<noteq> []" "\<not> js_ws (hd (ps_print c))" "\<not> js_ws (List.last (ps_print c))"
proof -
  let ?ls = "js_join '','' (pairs ''='' (ct_labels c))"
  have id: "ct_id c \<noteq> []" and "ct_labels c \<noteq> []" using assms by (auto simp: plain_container_def)
  then have "pairs ''='' (ct_labels c) \<noteq> []" "List.last (pairs ''='' (ct_labels c)) \<noteq> []"
    by (auto simp: pairs_def last_map split_def)
  from last_js_join [OF this, of "'',''"] have "?ls \<noteq> []" by blast
  then show "ps_print c \<noteq> []" "\<not> js_ws (hd (ps_print c))" "\<not> js_ws (List.last (ps_print c))"
    using id plain_line [OF assms] by (auto simp: ps_print_def)
qed


end
