(* ===== verification/Appium.thy ===== *)
theory Appium
  imports Effects Proxy_Config
begin

text \<open>
  \<open>lib/android/appium.ts\<close>: the WebDriver client. One function sends every request and turns the
  answer into a payload or one of two errors; the element lookups are polled until a deadline.
\<close>

record appium_session =
  as_baseUrl :: string
  as_sessionId :: string

definition strip_slashes :: "string \<Rightarrow> string" where
  "strip_slashes s = rev (dropWhile (\<lambda>c. c = CHR ''/'') (rev s))"

definition strip_suffix :: "string \<Rightarrow> string \<Rightarrow> string" where
  "strip_suffix suf s = (if suffix suf s then take (length s - length suf) s else s)"

definition normalizeBaseUrl :: "string \<Rightarrow> string" where
  "normalizeBaseUrl s = strip_slashes (strip_suffix ''/wd/hub'' (strip_slashes s))"

lemma normalizeBaseUrl_hub: "normalizeBaseUrl ''http://h:4723/wd/hub/'' = ''http://h:4723''"
  by code_simp

text \<open>\<open>typeof v === 'object' && v !== null\<close>, and the property reads that throw on \<open>null\<close> and \<open>undefined\<close>.\<close>

definition js_object :: "js \<Rightarrow> bool" where
  "js_object v = (case v of JsObj kvs \<Rightarrow> True | JsArr xs \<Rightarrow> True | JsDate t \<Rightarrow> True | _ \<Rightarrow> False)"

definition js_prop :: "string \<Rightarrow> js \<Rightarrow> (exn, js) result" where
  "js_prop k v =
     (if js_nullish v
      then Inl (GenericError (''Cannot read properties of '' @ js_to_string v @ '' (reading '' @ k @ '')''))
      else Inr (js_get v k))"

definition js_text :: "js \<Rightarrow> string" where
  "js_text v = (if v = JsUndefined then ''undefined'' else json_stringify v)"

definition extractAppiumError :: "js \<Rightarrow> string" where
  "extractAppiumError payload =
     (if \<not> js_object payload then ''unknown error''
      else let v = js_get payload ''value''
           in if js_object v
              then (case js_get v ''error'' of JsStr e \<Rightarrow> e | _ \<Rightarrow> ''unknown error'')
              else ''unknown error'')"

definition method_text :: "http_method \<Rightarrow> string" where
  "method_text m = (case m of GET \<Rightarrow> ''GET'' | POST \<Rightarrow> ''POST'' | DELETE \<Rightarrow> ''DELETE'')"

definition http_ok :: "int \<Rightarrow> bool" where
  "http_ok st = (200 \<le> st \<and> st \<le> 299)"

definition appiumFetch :: "'s device_env \<Rightarrow> string \<Rightarrow> http_method \<Rightarrow> js option \<Rightarrow> ('s, js) eff" where
  "appiumFetch E url meth body =
     bindE (perform (EvFetch meth url body) (ae_fetch E meth url body)) (\<lambda>out.
       case out of
         FetchFailed why \<Rightarrow>
           bindE (abortedE E) (\<lambda>aborted.
             if aborted then throwE (GenericError (''Appium request cancelled: '' @ method_text meth @ '' '' @ url))
             else throwE (AppiumTransportError (''Could not reach Appium at '' @ url @ '': '' @ why)))
       | FetchNotJson st why \<Rightarrow>
           throwE (AppiumTransportError (''Appium response from '' @ url @ '' was not valid JSON (HTTP ''
             @ show_int st @ ''): '' @ why))
       | FetchJson st txt payload \<Rightarrow>
           if \<not> http_ok st
           then throwE (AppiumProtocolError st (extractAppiumError payload)
                  (''Appium request failed '' @ show_int st @ '' '' @ txt @ '' at '' @ url @ '': '' @ js_text payload))
           else ret payload)"

definition ELEMENT_KEY :: string where
  "ELEMENT_KEY = ''element-6066-11e4-a52e-4f735466cecf''"

definition extractElementId :: "js \<Rightarrow> (exn, string) result" where
  "extractElementId v =
     (if \<not> js_object v then Inl (GenericError (''Unexpected Appium element response: '' @ js_text v))
      else case js_or_else (js_get v ELEMENT_KEY) (js_get v ''ELEMENT'') of
        JsStr s \<Rightarrow> if s = [] then Inl (GenericError (''Unexpected Appium element id: '' @ js_text v)) else Inr s
      | _ \<Rightarrow> Inl (GenericError (''Unexpected Appium element id: '' @ js_text v)))"

text \<open>Read the \<open>value\<close> of an answer.\<close>

definition response_value :: "('s, js) eff \<Rightarrow> ('s, js) eff" where
  "response_value m = bindE m (\<lambda>payload. liftE (js_prop ''value'' payload))"

definition js_falsy :: "js \<Rightarrow> bool" where
  "js_falsy v = (js_nullish v \<or> v = JsBool False \<or> v = JsNum 0 \<or> v = JsBigInt 0 \<or> v = JsStr [])"

definition createAppiumSession :: "'s device_env \<Rightarrow> string \<Rightarrow> js \<Rightarrow> ('s, appium_session) eff" where
  "createAppiumSession E baseUrl capabilities =
     (let normalized = normalizeBaseUrl baseUrl
      in bindE (appiumFetch E (normalized @ ''/session'') POST
                 (Some (JsObj [(''capabilities'', JsObj [(''alwaysMatch'', capabilities)])]))) (\<lambda>response.
         bindE (liftE (js_prop ''value'' response)) (\<lambda>v.
           case (js_falsy v, js_get v ''sessionId'') of
             (False, JsStr sid) \<Rightarrow> ret \<lparr>as_baseUrl = normalized, as_sessionId = sid\<rparr>
           | _ \<Rightarrow> throwE (AppiumTransportError
                    (''Appium session did not return a valid sessionId: '' @ js_text response)))))"

definition session_url :: "appium_session \<Rightarrow> string \<Rightarrow> string" where
  "session_url s rest = as_baseUrl s @ ''/session/'' @ as_sessionId s @ rest"

definition deleteAppiumSession :: "'s device_env \<Rightarrow> appium_session \<Rightarrow> ('s, unit) eff" where
  "deleteAppiumSession E s = thenE (appiumFetch E (session_url s []) DELETE None) (ret ())"

definition locator :: "string \<Rightarrow> string \<Rightarrow> js" where
  "locator using value = JsObj [(''using'', JsStr using), (''value'', JsStr value)]"

definition findElement :: "'s device_env \<Rightarrow> appium_session \<Rightarrow> string \<Rightarrow> string \<Rightarrow> ('s, string) eff" where
  "findElement E s using value =
     bindE (response_value (appiumFetch E (session_url s ''/element'') POST (Some (locator using value))))
       (\<lambda>v. liftE (extractElementId v))"

fun extract_all :: "js list \<Rightarrow> (exn, string list) result" where
  "extract_all [] = Inr []"
| "extract_all (v # vs) =
     andThen (extractElementId v) (\<lambda>x. andThen (extract_all vs) (\<lambda>xs. Inr (x # xs)))"

definition findElements :: "'s device_env \<Rightarrow> appium_session \<Rightarrow> string \<Rightarrow> string \<Rightarrow> ('s, string list) eff" where
  "findElements E s using value =
     bindE (response_value (appiumFetch E (session_url s ''/elements'') POST (Some (locator using value))))
       (\<lambda>v. case v of JsArr vs \<Rightarrow> liftE (extract_all vs) | _ \<Rightarrow> ret [])"

definition element_url :: "appium_session \<Rightarrow> string \<Rightarrow> string \<Rightarrow> string" where
  "element_url s el verb = session_url s (''/element/'' @ encodeURIComponent el @ verb)"

definition clickElement :: "'s device_env \<Rightarrow> appium_session \<Rightarrow> string \<Rightarrow> ('s, unit) eff" where
  "clickElement E s el = thenE (appiumFetch E (element_url s el ''/click'') POST (Some (JsObj []))) (ret ())"

definition setValue :: "'s device_env \<Rightarrow> appium_session \<Rightarrow> string \<Rightarrow> string \<Rightarrow> ('s, unit) eff" where
  "setValue E s el value =
     thenE (appiumFetch E (element_url s el ''/value'') POST (Some (JsObj [(''text'', JsStr value)]))) (ret ())"

definition clearElement :: "'s device_env \<Rightarrow> appium_session \<Rightarrow> string \<Rightarrow> ('s, unit) eff" where
  "clearElement E s el = thenE (appiumFetch E (element_url s el ''/clear'') POST (Some (JsObj []))) (ret ())"

definition string_value :: "('s, js) eff \<Rightarrow> ('s, string) eff" where
  "string_value m = bindE (response_value m) (\<lambda>v. ret (case v of JsStr t \<Rightarrow> t | _ \<Rightarrow> []))"

definition getElementText :: "'s device_env \<Rightarrow> appium_session \<Rightarrow> string \<Rightarrow> ('s, string) eff" where
  "getElementText E s el = string_value (appiumFetch E (element_url s el ''/text'') GET None)"

definition getPageSource :: "'s device_env \<Rightarrow> appium_session \<Rightarrow> ('s, string) eff" where
  "getPageSource E s = string_value (appiumFetch E (session_url s ''/source'') GET None)"

definition takeScreenshot :: "'s device_env \<Rightarrow> appium_session \<Rightarrow> ('s, string) eff" where
  "takeScreenshot E s = string_value (appiumFetch E (session_url s ''/screenshot'') GET None)"

subsection \<open>Polling\<close>

definition RETRYABLE_LOOKUP_ERRORS :: "string list" where
  "RETRYABLE_LOOKUP_ERRORS = [''no such element'', ''stale element reference'']"

definition retryable_lookup :: "exn \<Rightarrow> bool" where
  "retryable_lookup e =
     (case e of AppiumProtocolError st code msg \<Rightarrow> code \<in> set RETRYABLE_LOOKUP_ERRORS | _ \<Rightarrow> False)"

definition lookup_timeout :: "string \<Rightarrow> string \<Rightarrow> ms \<Rightarrow> nat \<Rightarrow> exn" where
  "lookup_timeout using value timeoutMs attempts =
     AppiumProtocolError 404 ''no such element''
       (''Timed out after '' @ show_int timeoutMs @ ''ms and '' @ show_nat attempts
        @ '' attempts waiting for element '' @ using @ ''='' @ value)"

partial_function (option) wait_element_loop ::
  "'s device_env \<Rightarrow> appium_session \<Rightarrow> string \<Rightarrow> string \<Rightarrow> ms \<Rightarrow> ms \<Rightarrow> nat \<Rightarrow> 's run
     \<Rightarrow> ((exn, string) result \<times> 's run) option" where
  "wait_element_loop E ses using value timeoutMs deadline attempts r =
     (if ae_aborted E (ru_env r) then Some (Inl (GenericError ''Appium wait cancelled''), r)
      else case findElement E ses using value r of
        None \<Rightarrow> None
      | Some (Inr el, r1) \<Rightarrow> Some (Inr el, r1)
      | Some (Inl e, r1) \<Rightarrow>
          if \<not> retryable_lookup e then Some (Inl e, r1)
          else if ae_clock E (ru_env r1) \<ge> deadline
          then Some (Inl (lookup_timeout using value timeoutMs (Suc attempts)), r1)
          else case sleepE E 500 r1 of
            None \<Rightarrow> None
          | Some (u, r2) \<Rightarrow> wait_element_loop E ses using value timeoutMs deadline (Suc attempts) r2)"

declare wait_element_loop.simps [code]

definition waitForElement ::
  "'s device_env \<Rightarrow> appium_session \<Rightarrow> string \<Rightarrow> string \<Rightarrow> ms \<Rightarrow> ('s, string) eff" where
  "waitForElement E ses using value timeoutMs =
     bindE (nowE E) (\<lambda>now. wait_element_loop E ses using value timeoutMs (now + timeoutMs) 0)"

partial_function (option) wait_gone_loop ::
  "'s device_env \<Rightarrow> appium_session \<Rightarrow> string \<Rightarrow> string \<Rightarrow> ms \<Rightarrow> ms \<Rightarrow> 's run
     \<Rightarrow> ((exn, unit) result \<times> 's run) option" where
  "wait_gone_loop E ses using value timeoutMs deadline r =
     (if ae_aborted E (ru_env r) then Some (Inl (GenericError ''Appium wait cancelled''), r)
      else case findElements E ses using value r of
        None \<Rightarrow> None
      | Some (Inl e, r1) \<Rightarrow> Some (Inl e, r1)
      | Some (Inr matches, r1) \<Rightarrow>
          if matches = [] then Some (Inr (), r1)
          else if ae_clock E (ru_env r1) \<ge> deadline
          then Some (Inl (AppiumProtocolError 408 ''element still present''
                 (''Timed out after '' @ show_int timeoutMs @ ''ms waiting for element '' @ using @ ''='' @ value
                  @ '' to disappear ('' @ show_nat (length matches) @ '' still present)'')), r1)
          else case sleepE E 500 r1 of
            None \<Rightarrow> None
          | Some (u, r2) \<Rightarrow> wait_gone_loop E ses using value timeoutMs deadline r2)"

declare wait_gone_loop.simps [code]

definition waitForElementGone ::
  "'s device_env \<Rightarrow> appium_session \<Rightarrow> string \<Rightarrow> string \<Rightarrow> ms \<Rightarrow> ('s, unit) eff" where
  "waitForElementGone E ses using value timeoutMs =
     bindE (nowE E) (\<lambda>now. wait_gone_loop E ses using value timeoutMs (now + timeoutMs))"

subsection \<open>What a request adds to the trace, and when it settles\<close>

lemma emits_appiumFetch [emits_intros]:
  assumes "\<And>b out. Q (EvFetch m url b out)"
  shows "emits Q (appiumFetch E url m b)"
  unfolding appiumFetch_def
  by (rule emits_bind, rule emits_perform, rule assms)
    (auto split: fetch_outcome.splits intro!: emits_intros)

lemma settles_appiumFetch [settles_intros]: "settles (appiumFetch E url m b)"
  unfolding appiumFetch_def
  by (rule settles_bind, rule settles_call) (auto split: fetch_outcome.splits intro!: settles_intros)

lemma appiumFetch_Inr:
  assumes "appiumFetch E url m b r = Some (Inr payload, r1)"
  obtains st tx s where "http_ok st" "ru_trace r1 = ru_trace r @ [EvFetch m url b (FetchJson st tx payload)]"
    "ae_fetch E m url b (ru_env r) = (FetchJson st tx payload, s)" "ru_env r1 = s"
  using assms
  by (cases "ae_fetch E m url b (ru_env r)"; cases "fst (ae_fetch E m url b (ru_env r))")
    (auto simp: appiumFetch_def bindE_def perform_def abortedE_def readE_def throwE_def ret_def split: if_splits)

lemmas appium_calls_def = response_value_def string_value_def createAppiumSession_def deleteAppiumSession_def
  findElement_def findElements_def clickElement_def setValue_def clearElement_def getElementText_def
  getPageSource_def takeScreenshot_def

lemma emits_calls [emits_intros]:
  assumes "\<And>m url b out. Q (EvFetch m url b out)"
  shows "emits Q (createAppiumSession E u c)" "emits Q (deleteAppiumSession E s)"
    "emits Q (findElement E s f v)" "emits Q (findElements E s f v)" "emits Q (clickElement E s el)"
    "emits Q (setValue E s el v)" "emits Q (clearElement E s el)" "emits Q (getElementText E s el)"
    "emits Q (getPageSource E s)" "emits Q (takeScreenshot E s)"
  by (auto simp: appium_calls_def Let_def assms split: js.splits prod.splits bool.splits intro!: emits_intros)

lemma settles_calls [settles_intros]:
  "settles (createAppiumSession E u c)" "settles (deleteAppiumSession E s)"
  "settles (findElement E s f v)" "settles (findElements E s f v)" "settles (clickElement E s el)"
  "settles (setValue E s el v)" "settles (clearElement E s el)" "settles (getElementText E s el)"
  "settles (getPageSource E s)" "settles (takeScreenshot E s)"
  by (auto simp: appium_calls_def Let_def split: js.splits prod.splits bool.splits intro!: settles_intros)

subsection \<open>What a lookup proves\<close>

text \<open>The event is an answer of Appium that names an element for the locator, or that names none.\<close>

fun shows_element :: "appium_session \<Rightarrow> string \<Rightarrow> string \<Rightarrow> event \<Rightarrow> bool" where
  "shows_element ses using value (EvFetch m url b (FetchJson st txt payload)) =
     (m = POST \<and> url = session_url ses ''/element'' \<and> b = Some (locator using value) \<and> http_ok st
      \<and> succeeded (andThen (js_prop ''value'' payload) extractElementId))"
| "shows_element ses using value _ = False"

fun shows_none :: "appium_session \<Rightarrow> string \<Rightarrow> string \<Rightarrow> event \<Rightarrow> bool" where
  "shows_none ses using value (EvFetch m url b (FetchJson st txt payload)) =
     (m = POST \<and> url = session_url ses ''/elements'' \<and> b = Some (locator using value) \<and> http_ok st
      \<and> (case js_prop ''value'' payload of
            Inr (JsArr vs) \<Rightarrow> vs = [] | Inr _ \<Rightarrow> True | Inl _ \<Rightarrow> False))"
| "shows_none ses using value _ = False"

lemma extract_all_Nil: "extract_all vs = Inr [] \<longleftrightarrow> vs = []"
  by (cases vs) (auto simp: andThen_Inr_iff)

lemma findElement_Inr:
  assumes "findElement E ses using value r = Some (Inr el, r1)"
  shows "\<exists>ev. ru_trace r1 = ru_trace r @ [ev] \<and> shows_element ses using value ev"
  using assms unfolding findElement_def response_value_def
  by (elim bindE_Inr appiumFetch_Inr) auto

lemma findElements_Nil:
  assumes "findElements E ses using value r = Some (Inr [], r1)"
  shows "\<exists>ev. ru_trace r1 = ru_trace r @ [ev] \<and> shows_none ses using value ev"
  using assms unfolding findElements_def response_value_def
  by (elim bindE_Inr appiumFetch_Inr) (auto simp: extract_all_Nil split: js.splits)

text \<open>A run that extends the trace by events of \<open>Q\<close>, and by a last one of \<open>L\<close> when it returns.\<close>

definition ends_with ::
  "(event \<Rightarrow> bool) \<Rightarrow> (event \<Rightarrow> bool) \<Rightarrow> 's run \<Rightarrow> (exn, 'a) result \<times> 's run \<Rightarrow> bool" where
  "ends_with Q L r out \<longleftrightarrow>
     (\<exists>evs. ru_trace (snd out) = ru_trace r @ evs \<and> (\<forall>e \<in> set evs. Q e)
        \<and> (succeeded (fst out) \<longrightarrow> evs \<noteq> [] \<and> L (List.last evs)))"

lemma ends_withI:
  "ru_trace (snd out) = ru_trace r @ evs \<Longrightarrow> (\<forall>e \<in> set evs. Q e) \<Longrightarrow>
     (succeeded (fst out) \<Longrightarrow> evs \<noteq> [] \<and> L (List.last evs)) \<Longrightarrow> ends_with Q L r out"
  by (auto simp: ends_with_def)

lemma ends_with_later:
  assumes "ends_with Q L r1 out" and "ru_trace r1 = ru_trace r @ evs" and "\<forall>e \<in> set evs. Q e"
  shows "ends_with Q L r out"
proof -
  from assms(1) obtain evs' where "ru_trace (snd out) = ru_trace r1 @ evs'" "\<forall>e \<in> set evs'. Q e"
    "succeeded (fst out) \<longrightarrow> evs' \<noteq> [] \<and> L (List.last evs')" by (auto simp: ends_with_def)
  with assms(2,3) show ?thesis by (intro ends_withI [where evs = "evs @ evs'"]) auto
qed

text \<open>The two polls send lookups and sleep, and nothing else.\<close>

definition poll_event :: "event \<Rightarrow> bool" where
  "poll_event e = (case e of EvFetch m u b out \<Rightarrow> m = POST | EvSleep t \<Rightarrow> True | _ \<Rightarrow> False)"

lemma poll_event_simps [simp]: "poll_event (EvFetch m u b out) = (m = POST)" "poll_event (EvSleep t)"
  by (simp_all add: poll_event_def)

lemma findElement_ends:
  assumes "findElement E ses using value r = Some (x, r1)"
  shows "ends_with poll_event (shows_element ses using value) r (x, r1)"
proof -
  have "emits poll_event (findElement E ses using value)"
    unfolding findElement_def response_value_def by (auto intro!: emits_intros)
  from emitsD [OF this assms] obtain evs where
    evs: "ru_trace r1 = ru_trace r @ evs" "\<forall>e \<in> set evs. poll_event e" by blast
  show ?thesis
  proof (rule ends_withI [where evs = evs])
    assume "succeeded (fst (x, r1))"
    then obtain el where "x = Inr el" by (cases x) auto
    with assms findElement_Inr [of E ses "using" "value" r el r1] evs
    show "evs \<noteq> [] \<and> shows_element ses using value (List.last evs)" by auto
  qed (use evs in simp_all)
qed

lemma sleepE_run: "sleepE E t r = Some (u, r1) \<Longrightarrow>
    ru_trace r1 = ru_trace r @ [EvSleep t] \<and> ru_env r1 = ae_sleep E t (ru_env r)"
  by (auto simp: sleepE_def perform_def)

lemma ends_with_resume:
  assumes "ru_trace r1 = ru_trace r @ evs" and "\<forall>e \<in> set evs. poll_event e"
    and "sleepE E 500 r1 = Some (w, r2)" and "ends_with poll_event L r2 out"
  shows "ends_with poll_event L r out"
  using assms sleepE_run [OF assms(3)]
  by (intro ends_with_later [OF assms(4), where evs = "evs @ [EvSleep 500]"]) auto

lemma ends_with_stop:
  "ru_trace r1 = ru_trace r @ evs \<Longrightarrow> \<forall>e \<in> set evs. Q e \<Longrightarrow> ends_with Q L r (Inl e, r1)"
  by (intro ends_withI [where evs = evs]) auto

lemma emits_stop: "emits Q m \<Longrightarrow> m r = Some (x, r1) \<Longrightarrow> ends_with Q L r (Inl e, r1)"
  by (auto dest!: emitsD intro: ends_with_stop)

lemma emits_lookups: "emits poll_event (findElement E ses using value)" "emits poll_event (findElements E ses using value)"
  by (auto simp: findElement_def findElements_def response_value_def split: js.splits intro!: emits_intros)

lemma emits_resume:
  assumes "emits poll_event m" and "m r = Some (x, r1)" and "sleepE E 500 r1 = Some (w, r2)"
    and "ends_with poll_event L r2 out"
  shows "ends_with poll_event L r out"
  using emitsD [OF assms(1,2)] assms(3,4) by (auto intro: ends_with_resume)

lemma wait_element_loop_ends:
  "wait_element_loop E ses using value tm dl n r = Some out \<Longrightarrow>
     ends_with poll_event (shows_element ses using value) r out"
proof (rule wait_element_loop.raw_induct
    [where P = "\<lambda>E ses u v tm dl n r out. ends_with poll_event (shows_element ses u v) r out"])
  show "wait_element_loop E ses using value tm dl n r = Some out \<Longrightarrow>
    wait_element_loop E ses using value tm dl n r = Some out" .
qed (auto split: if_splits option.splits sum.splits prod.splits
    intro: findElement_ends ends_with_stop [where evs = "[]"] emits_stop [OF emits_lookups(1)]
      emits_resume [OF emits_lookups(1)])

lemma findElements_ends:
  assumes "findElements E ses using value r = Some (Inr [], r1)"
  shows "ends_with poll_event (shows_none ses using value) r (Inr (), r1)"
  using emitsD [OF emits_lookups(2) assms] findElements_Nil [OF assms]
  by (auto intro!: ends_withI)

lemma wait_gone_loop_ends:
  "wait_gone_loop E ses using value tm dl r = Some out \<Longrightarrow>
     ends_with poll_event (shows_none ses using value) r out"
proof (rule wait_gone_loop.raw_induct
    [where P = "\<lambda>E ses u v tm dl r out. ends_with poll_event (shows_none ses u v) r out"])
  show "wait_gone_loop E ses using value tm dl r = Some out \<Longrightarrow>
    wait_gone_loop E ses using value tm dl r = Some out" .
qed (auto split: if_splits option.splits sum.splits prod.splits
    intro: findElements_ends ends_with_stop [where evs = "[]"] emits_stop [OF emits_lookups(2)]
      emits_resume [OF emits_lookups(2)])

lemma waitForElement_ends:
  "waitForElement E ses using value tm r = Some out \<Longrightarrow> ends_with poll_event (shows_element ses using value) r out"
  by (auto simp: waitForElement_def nowE_def bindE_def readE_def dest: wait_element_loop_ends)

lemma waitForElementGone_ends:
  "waitForElementGone E ses using value tm r = Some out \<Longrightarrow> ends_with poll_event (shows_none ses using value) r out"
  by (auto simp: waitForElementGone_def nowE_def bindE_def readE_def dest: wait_gone_loop_ends)

subsection \<open>The polls end\<close>

lemma forwards_appiumFetch: "clock_laws E \<Longrightarrow> forwards E (appiumFetch E url m b)"
  unfolding appiumFetch_def
  by (rule forwards_bind)
    (auto simp: forwards_def perform_def clock_laws_def abortedE_def split: prod.splits fetch_outcome.splits
        if_splits elim!: bindE_Some dest: spec, metis snd_conv)

lemma forwards_lookups:
  assumes "clock_laws E"
  shows "forwards E (findElement E ses using value)" "forwards E (findElements E ses using value)"
  unfolding findElement_def findElements_def response_value_def
  by (auto intro!: forwards_bind forwards_appiumFetch assms forwards_ret split: js.splits)

lemma wait_element_loop_settles:
  assumes laws: "clock_laws E"
  shows "\<exists>x r1. wait_element_loop E ses using value tm dl n r = Some (x, r1)"
proof (induction "nat (dl - ae_clock E (ru_env r))" arbitrary: n r rule: less_induct)
  case less
  obtain x r1 where find: "findElement E ses using value r = Some (x, r1)"
    using settlesD [OF settles_calls(3)] by blast
  obtain u r2 where sl: "sleepE E 500 r1 = Some (u, r2)" using settlesD [OF nowE_facts(6)] by blast
  have "ae_clock E (ru_env r1) < dl \<Longrightarrow>
      nat (dl - ae_clock E (ru_env r2)) < nat (dl - ae_clock E (ru_env r))"
    using forwardsD [OF forwards_lookups(1) [OF laws] find] sleep_clock [OF laws sl] by simp
  from less [OF this] show ?case
    using find sl by (subst wait_element_loop.simps) (cases x; auto)
qed

lemma wait_gone_loop_settles:
  assumes laws: "clock_laws E"
  shows "\<exists>x r1. wait_gone_loop E ses using value tm dl r = Some (x, r1)"
proof (induction "nat (dl - ae_clock E (ru_env r))" arbitrary: r rule: less_induct)
  case less
  obtain x r1 where find: "findElements E ses using value r = Some (x, r1)"
    using settlesD [OF settles_calls(4)] by blast
  obtain u r2 where sl: "sleepE E 500 r1 = Some (u, r2)" using settlesD [OF nowE_facts(6)] by blast
  have "ae_clock E (ru_env r1) < dl \<Longrightarrow>
      nat (dl - ae_clock E (ru_env r2)) < nat (dl - ae_clock E (ru_env r))"
    using forwardsD [OF forwards_lookups(2) [OF laws] find] sleep_clock [OF laws sl] by simp
  from less [OF this] show ?case
    using find sl by (subst wait_gone_loop.simps) (cases x; auto)
qed

lemma settles_waits [settles_intros]:
  assumes "clock_laws E"
  shows "settles (waitForElement E ses using value tm)" "settles (waitForElementGone E ses using value tm)"
  unfolding waitForElement_def waitForElementGone_def
  by (rule settles_bind, rule nowE_facts,
      simp add: settles_def wait_element_loop_settles [OF assms] wait_gone_loop_settles [OF assms])+

subsection \<open>How a wait fails\<close>

definition wait_failed ::
  "'s device_env \<Rightarrow> ms \<Rightarrow> string \<Rightarrow> string \<Rightarrow> ms \<Rightarrow> (exn, string) result \<times> 's run \<Rightarrow> bool" where
  "wait_failed E dl using value tm out =
     (case fst out of
        Inr el \<Rightarrow> el \<noteq> []
      | Inl e \<Rightarrow>
          (e = GenericError ''Appium wait cancelled'' \<and> ae_aborted E (ru_env (snd out)))
          \<or> \<not> retryable_lookup e
          \<or> (\<exists>n. e = lookup_timeout using value tm (Suc n)) \<and> dl \<le> ae_clock E (ru_env (snd out)))"

lemma findElement_nonempty: "findElement E ses using value r = Some (Inr el, r1) \<Longrightarrow> el \<noteq> []"
  by (auto simp: findElement_def extractElementId_def elim!: bindE_Inr split: js.splits if_splits)

lemma wait_failedI:
  "el \<noteq> [] \<Longrightarrow> wait_failed E dl using value tm (Inr el, r)"
  "ae_aborted E (ru_env r) \<Longrightarrow> wait_failed E dl using value tm (Inl (GenericError ''Appium wait cancelled''), r)"
  "\<not> retryable_lookup e \<Longrightarrow> wait_failed E dl using value tm (Inl e, r)"
  "dl \<le> ae_clock E (ru_env r) \<Longrightarrow> wait_failed E dl using value tm (Inl (lookup_timeout using value tm (Suc n)), r)"
  by (auto simp: wait_failed_def)

lemma wait_element_loop_failed:
  "wait_element_loop E ses using value tm dl n r = Some out \<Longrightarrow> wait_failed E dl using value tm out"
proof (rule wait_element_loop.raw_induct
    [where P = "\<lambda>E ses u v tm dl n r out. wait_failed E dl u v tm out"])
  show "wait_element_loop E ses using value tm dl n r = Some out \<Longrightarrow>
    wait_element_loop E ses using value tm dl n r = Some out" .
qed (auto split: if_splits option.splits sum.splits prod.splits
    intro: wait_failedI wait_failedI(1) [OF findElement_nonempty])

text \<open>
  Looking for an element ends in one of four ways. It returns an id Appium has just named for
  that locator. It is cancelled, while the signal is aborted. It stops at the first error that
  is not about a missing or stale element - a dead session, an invalid selector, an unreachable
  server. Or it times out, with the error \<open>no such element\<close>, after the deadline and not before.
  All it ever sends is lookups.
\<close>

theorem waitForElement_outcome:
  assumes "waitForElement E ses using value tm r = Some (out, r1)"
  shows "(\<exists>evs. ru_trace r1 = ru_trace r @ evs \<and> (\<forall>e \<in> set evs. poll_event e) \<and>
     (case out of
        Inr el \<Rightarrow> el \<noteq> [] \<and> evs \<noteq> [] \<and> shows_element ses using value (List.last evs)
      | Inl e \<Rightarrow>
          (e = GenericError ''Appium wait cancelled'' \<and> ae_aborted E (ru_env r1))
          \<or> \<not> retryable_lookup e
          \<or> (\<exists>n. e = lookup_timeout using value tm (Suc n)) \<and> ae_clock E (ru_env r) + tm \<le> ae_clock E (ru_env r1)))"
proof -
  have "wait_element_loop E ses using value tm (ae_clock E (ru_env r) + tm) 0 r = Some (out, r1)"
    using assms by (simp add: waitForElement_def nowE_def bindE_def readE_def)
  from wait_element_loop_failed [OF this] waitForElement_ends [OF assms] show ?thesis
    by (cases out) (auto simp: wait_failed_def ends_with_def)
qed

subsection \<open>Witnesses\<close>

text \<open>An Appium that has one screen with one element, in a world whose state is the time.\<close>

definition ex_answer :: "string \<Rightarrow> js" where
  "ex_answer url =
     JsObj [(''value'',
       if suffix ''/session'' url then JsObj [(''sessionId'', JsStr ''s1'')]
       else if suffix ''/element'' url then JsObj [(ELEMENT_KEY, JsStr ''e1'')]
       else if suffix ''/elements'' url then JsArr []
       else JsStr ''text''), (''ready'', JsBool True), (''source'', JsStr ''whip'')]"

definition ex_exec :: "string list \<Rightarrow> exec_outcome" where
  "ex_exec args = ExecOk
     (let x = hd (rev args); y = hd (tl (rev args))
      in if y = ''pidof'' then ''77''
         else if y = ''path'' then ''package:/data/app''
         else if y = ''%s'' then ''10''
         else if y = ''{{.State.Running}}'' then ''true''
         else if js_includes y ''HostPort'' then ''49153''
         else if x = ''sys.boot_completed'' then ''1''
         else if x = ''init.svc.bootanim'' then ''stopped''
         else if ''-sL'' \<in> set args then ''5.6.7.8''
         else []) []"

definition ex_env :: "int device_env" where
  "ex_env =
     \<lparr>ae_clock = (\<lambda>s. s), ae_aborted = (\<lambda>s. False), ae_timedOut = (\<lambda>s. False),
      ae_sleep = (\<lambda>t s. s + max 0 t), ae_timer = (\<lambda>t s. (True, s + t)),
      ae_fetch = (\<lambda>m u b s. (FetchJson 200 ''OK'' (ex_answer u), s + 1)), ae_log = (\<lambda>l m d s. s),
      ae_storage = (\<lambda>s. None), ae_put = (\<lambda>k b s. (Inr (), s)),
      ae_exec = (\<lambda>c args sig t s. (ex_exec args, s + 1)), ae_parseUrl = (\<lambda>u. Some (''http:'', ''e'', [])),
      ae_lookup = (\<lambda>h s. (Some [''10.0.0.9''], s)),
      ae_getText = (\<lambda>u t s. (Some (True, ''1.1.1.1''), s)), ae_directIp = (\<lambda>s. None),
      ae_cacheIp = (\<lambda>u v s. s), ae_parseDate = (\<lambda>d. None),
      ae_setNx = (\<lambda>k v t s. (Inr True, s)), ae_redisGet = (\<lambda>k s. (Inr (Some ''j9''), s)),
      ae_jobStatus = (\<lambda>j s. (Inr (if j = ''j1'' then Some PROCESSING else None), s)),
      ae_delIf = (\<lambda>k v s. (Inr True, s))\<rparr>"

definition ex_session :: appium_session where
  "ex_session = \<lparr>as_baseUrl = ''http://h'', as_sessionId = ''s1''\<rparr>"

lemma ex_env_laws: "clock_laws ex_env"
  by (simp add: clock_laws_def ex_env_def)

lemma ex_find_element:
  "findElement ex_env ex_session ''id'' ''ok'' \<lparr>ru_env = 5, ru_trace = []\<rparr> =
     Some (Inr ''e1'', \<lparr>ru_env = 6, ru_trace =
       [EvFetch POST ''http://h/session/s1/element'' (Some (locator ''id'' ''ok''))
          (FetchJson 200 ''OK'' (ex_answer ''http://h/session/s1/element''))]\<rparr>)"
  by code_simp

lemma ex_wait:
  "waitForElement ex_env ex_session ''id'' ''ok'' 100 \<lparr>ru_env = 5, ru_trace = []\<rparr> =
     Some (Inr ''e1'', \<lparr>ru_env = 6, ru_trace =
       [EvFetch POST ''http://h/session/s1/element'' (Some (locator ''id'' ''ok''))
          (FetchJson 200 ''OK'' (ex_answer ''http://h/session/s1/element''))]\<rparr>)"
proof -
  have "\<not> ae_aborted ex_env 5" by (simp add: ex_env_def)
  then show ?thesis
    by (simp add: waitForElement_def nowE_def bindE_def readE_def wait_element_loop.simps ex_find_element)
qed

theorem waitForElement_outcome_witness:
  "\<exists>evs. evs \<noteq> [] \<and> shows_element ex_session ''id'' ''ok'' (List.last evs)"
  using waitForElement_outcome [OF ex_wait] by (auto simp del: shows_element.simps)

end
