(* ===== verification/Ui_Flow.thy ===== *)
theory Ui_Flow
  imports Appium Js_Text
begin

text \<open>
  \<open>lib/android/uiFlow.ts\<close>: the steps of a stored flow, the schema they are parsed with, the
  substitution of job values, and the loop that runs them. The dashes in the log messages are
  hyphens here (strings are limited to code units below 256), and \<open>js\<close> stands for the parsed
  JSON an account's credentials hold.
\<close>

datatype ui_step =
    Tap (step_name: string) (step_using: string) (step_value: string) (step_timeoutMs: ms) (step_optional: bool)
  | Type (step_name: string) (step_using: string) (step_value: string) (step_timeoutMs: ms)
      (step_text: string) (step_clearFirst: bool) (step_optional: bool)
  | AssertVisible (step_name: string) (step_using: string) (step_value: string) (step_timeoutMs: ms)
      (step_captureText: bool)
  | AssertGone (step_name: string) (step_using: string) (step_value: string) (step_timeoutMs: ms)
  | Wait (step_name: string) (step_ms: ms)

definition step_action :: "ui_step \<Rightarrow> string" where
  "step_action s =
     (case s of Tap _ _ _ _ _ \<Rightarrow> ''tap'' | Type _ _ _ _ _ _ _ \<Rightarrow> ''type''
      | AssertVisible _ _ _ _ _ \<Rightarrow> ''assertVisible'' | AssertGone _ _ _ _ \<Rightarrow> ''assertGone'' | Wait _ _ \<Rightarrow> ''wait'')"

definition is_assertion :: "ui_step \<Rightarrow> bool" where
  "is_assertion s = (step_action s = ''assertVisible'' \<or> step_action s = ''assertGone'')"

definition may_skip :: "ui_step \<Rightarrow> bool" where
  "may_skip s = (case s of Tap _ _ _ _ opt \<Rightarrow> opt | Type _ _ _ _ _ _ opt \<Rightarrow> opt | _ \<Rightarrow> False)"

subsection \<open>The schema\<close>

definition LOCATOR_STRATEGIES :: "string list" where
  "LOCATOR_STRATEGIES =
     [''id'', ''xpath'', ''accessibility id'', ''class name'', ''-android uiautomator'', ''-android datamatcher'']"

definition DEFAULT_STEP_TIMEOUT_MS :: ms where
  "DEFAULT_STEP_TIMEOUT_MS = 15000"

text \<open>The field rules. \<open>None\<close>: the schema reports an issue. A default fills an absent field.\<close>

definition field_default :: "'a \<Rightarrow> (js \<Rightarrow> 'a option) \<Rightarrow> js \<Rightarrow> 'a option" where
  "field_default d p v = (if v = JsUndefined then Some d else p v)"

definition field_string :: "js \<Rightarrow> string option" where
  "field_string v = js_string v"

definition field_nonempty :: "js \<Rightarrow> string option" where
  "field_nonempty v = (case v of JsStr s \<Rightarrow> if s = [] then None else Some s | _ \<Rightarrow> None)"

definition field_bool :: "js \<Rightarrow> bool option" where
  "field_bool v = (case v of JsBool b \<Rightarrow> Some b | _ \<Rightarrow> None)"

definition field_int :: "int \<Rightarrow> int \<Rightarrow> js \<Rightarrow> int option" where
  "field_int lo hi v = (case v of JsNum n \<Rightarrow> if lo \<le> n \<and> n \<le> hi then Some n else None | _ \<Rightarrow> None)"

definition field_enum :: "string list \<Rightarrow> js \<Rightarrow> string option" where
  "field_enum allowed v = (case v of JsStr s \<Rightarrow> if s \<in> set allowed then Some s else None | _ \<Rightarrow> None)"

definition parse_base :: "js \<Rightarrow> (string \<times> string \<times> string \<times> ms) option" where
  "parse_base v =
     Option.bind (field_nonempty (js_get v ''name'')) (\<lambda>name.
     Option.bind (field_enum LOCATOR_STRATEGIES (js_get v ''using'')) (\<lambda>using.
     Option.bind (field_nonempty (js_get v ''value'')) (\<lambda>value.
     Option.bind (field_default DEFAULT_STEP_TIMEOUT_MS (field_int 1 600000) (js_get v ''timeoutMs'')) (\<lambda>tm.
     Some (name, using, value, tm)))))"

definition uiStepSchema :: "js \<Rightarrow> ui_step option" where
  "uiStepSchema v =
     (let flag = (\<lambda>d k. field_default d field_bool (js_get v k))
      in case js_get v ''action'' of
        JsStr a \<Rightarrow>
          if a = ''wait''
          then Option.bind (field_nonempty (js_get v ''name'')) (\<lambda>name.
               Option.bind (field_int 1 120000 (js_get v ''ms'')) (\<lambda>t. Some (Wait name t)))
          else Option.bind (parse_base v) (\<lambda>(name, using, value, tm).
            if a = ''tap''
            then Option.bind (flag False ''optional'') (\<lambda>opt. Some (Tap name using value tm opt))
            else if a = ''type''
            then Option.bind (field_string (js_get v ''text'')) (\<lambda>t.
                 Option.bind (flag True ''clearFirst'') (\<lambda>c.
                 Option.bind (flag False ''optional'') (\<lambda>opt. Some (Type name using value tm t c opt))))
            else if a = ''assertVisible''
            then Option.bind (flag False ''captureText'') (\<lambda>c. Some (AssertVisible name using value tm c))
            else if a = ''assertGone'' then Some (AssertGone name using value tm)
            else None)
      | _ \<Rightarrow> None)"

definition uiFlowSchema :: "js \<Rightarrow> ui_step list option" where
  "uiFlowSchema v =
     (case v of
        JsArr vs \<Rightarrow>
          Option.bind (those (map uiStepSchema vs)) (\<lambda>steps.
            if steps \<noteq> [] \<and> list_ex is_assertion steps then Some steps else None)
      | _ \<Rightarrow> None)"

subsection \<open>Substitution\<close>

text \<open>\<open>{{\s*(\w+)\s*}}\<close> at the front of a text: the name, and what follows the match.\<close>

definition placeholder :: "string \<Rightarrow> (string \<times> string) option" where
  "placeholder s =
     (if js_starts_with s ''{{''
      then (let t = dropWhile js_ws (drop 2 s);
                key = takeWhile word_char t;
                u = dropWhile js_ws (dropWhile word_char t)
            in if key \<noteq> [] \<and> js_starts_with u ''}}'' then Some (key, drop 2 u) else None)
      else None)"

lemma placeholder_shorter: "placeholder s = Some (key, rest) \<Longrightarrow> length rest < length s"
proof -
  assume a: "placeholder s = Some (key, rest)"
  let ?t = "dropWhile js_ws (drop 2 s)"
  have "js_starts_with s ''{{''" and r: "rest = drop 2 (dropWhile js_ws (dropWhile word_char ?t))"
    using a by (auto simp: placeholder_def Let_def split: if_splits)
  then have "2 \<le> length s" by (auto simp: js_starts_with_def dest: arg_cong [where f = length])
  moreover have "length rest \<le> length (drop 2 s)"
    unfolding r using length_dropWhile_le by (metis diff_le_self le_trans length_drop)
  ultimately show ?thesis by simp
qed

function interpolate :: "string \<Rightarrow> (string \<times> string) list \<Rightarrow> string" where
  "interpolate [] ctx = []"
| "interpolate (c # s) ctx =
     (case placeholder (c # s) of
        None \<Rightarrow> c # interpolate s ctx
      | Some (key, rest) \<Rightarrow>
          (case map_of ctx key of
             Some v \<Rightarrow> v
           | None \<Rightarrow> take (length (c # s) - length rest) (c # s)) @ interpolate rest ctx)"
  by pat_completeness auto
termination
  by (relation "measure (\<lambda>(s, ctx). length s)") (auto dest: placeholder_shorter)

lemma interpolate_example:
  "interpolate ''a {{ caption }}{{captoin}}{{{jobId}}'' [(''caption'', ''{{jobId}}''), (''jobId'', ''j1'')]
     = ''a {{jobId}}{{captoin}}{j1''"
  by code_simp

subsection \<open>Running a flow\<close>

record ui_flow_result =
  fr_executed :: "string list"
  fr_skipped :: "string list"
  fr_capturedText :: "string option"
  fr_timings :: "step_timing list"
  fr_totalMs :: ms

definition flow_start :: ui_flow_result where
  "flow_start = \<lparr>fr_executed = [], fr_skipped = [], fr_capturedText = None, fr_timings = [], fr_totalMs = 0\<rparr>"

definition isMissingElement :: "exn \<Rightarrow> bool" where
  "isMissingElement e = (case e of AppiumProtocolError st code msg \<Rightarrow> code = ''no such element'' | _ \<Rightarrow> False)"

definition record_step ::
  "'s device_env \<Rightarrow> ms \<Rightarrow> ui_step \<Rightarrow> bool \<Rightarrow> ui_flow_result \<Rightarrow> ('s, ui_flow_result) eff" where
  "record_step E stepStart step wasSkipped acc =
     bindE (nowE E) (\<lambda>now. ret
       (acc\<lparr>fr_timings := fr_timings acc @ [\<lparr>st_name = step_name step, st_action = step_action step,
                                           st_ms = now - stepStart, st_skipped = wasSkipped\<rparr>],
            fr_executed := (if wasSkipped then fr_executed acc else fr_executed acc @ [step_name step]),
            fr_skipped := (if wasSkipped then fr_skipped acc @ [step_name step] else fr_skipped acc)\<rparr>))"

definition position :: "nat \<Rightarrow> nat \<Rightarrow> string" where
  "position index len = show_nat (index + 1) @ ''/'' @ show_nat len"

definition step_head :: "nat \<Rightarrow> nat \<Rightarrow> ui_step \<Rightarrow> string" where
  "step_head index len step = ''Step '' @ position index len @ '' '' @ quoted (step_name step)"

definition at_locator :: "ui_step \<Rightarrow> string \<Rightarrow> string" where
  "at_locator step loc = step_using step @ ''='' @ loc"

definition gone_error :: "nat \<Rightarrow> nat \<Rightarrow> ui_step \<Rightarrow> string \<Rightarrow> exn" where
  "gone_error index len step loc =
     UiStepError StillPresent (step_name step) index
       (step_head index len step @ '' failed: '' @ at_locator step loc @ '' was still on screen after ''
        @ show_int (step_timeoutMs step) @ ''ms'')"

definition locate_error :: "nat \<Rightarrow> nat \<Rightarrow> ui_step \<Rightarrow> string \<Rightarrow> exn \<Rightarrow> exn" where
  "locate_error index len step loc cause =
     (if isMissingElement cause
      then UiStepError NotFound (step_name step) index
             (step_head index len step @ '' failed: no element matched '' @ at_locator step loc
              @ '' within '' @ show_int (step_timeoutMs step) @ ''ms'')
      else UiStepError InteractionFailed (step_name step) index
             (step_head index len step @ '' failed while locating '' @ at_locator step loc @ '': ''
              @ exn_message cause))"

definition act_error :: "nat \<Rightarrow> nat \<Rightarrow> ui_step \<Rightarrow> exn \<Rightarrow> exn" where
  "act_error index len step cause =
     UiStepError InteractionFailed (step_name step) index
       (step_head index len step @ '' found its element but the '' @ step_action step @ '' failed: ''
        @ exn_message cause)"

definition cancelled_before :: "nat \<Rightarrow> ui_step \<Rightarrow> exn" where
  "cancelled_before index step =
     GenericError (''Cancelled before step '' @ show_nat (index + 1) @ '' ('' @ step_name step @ '')'')"

text \<open>The element, or \<open>None\<close> when an optional step is skipped.\<close>

definition locate ::
  "'s device_env \<Rightarrow> appium_session \<Rightarrow> nat \<Rightarrow> nat \<Rightarrow> ui_step \<Rightarrow> string \<Rightarrow> ('s, string option) eff" where
  "locate E ses index len step loc =
     catchE (bindE (waitForElement E ses (step_using step) loc (step_timeoutMs step)) (\<lambda>el. ret (Some el)))
       (\<lambda>cause.
          if may_skip step \<and> isMissingElement cause
          then thenE (logE E INFO (''Step '' @ position index len @ '': '' @ step_name step
                        @ '' - optional element absent, skipping'')
                      (Some (JsObj [(''using'', JsStr (step_using step)), (''value'', JsStr loc)])))
                 (ret None)
          else throwE (locate_error index len step loc cause))"

text \<open>The \<open>switch\<close>: what it assigns to \<open>capturedText\<close>, if it does.\<close>

definition act ::
  "'s device_env \<Rightarrow> appium_session \<Rightarrow> (string \<times> string) list \<Rightarrow> nat \<Rightarrow> nat \<Rightarrow> ui_step \<Rightarrow> string
     \<Rightarrow> ('s, string option option) eff" where
  "act E ses ctx index len step el =
     (case step of
        Tap _ _ _ _ _ \<Rightarrow> thenE (clickElement E ses el) (ret None)
      | Type _ _ _ _ text clearFirst _ \<Rightarrow>
          thenE (clickElement E ses el)
            (thenE (whenE clearFirst (clearElement E ses el))
              (thenE (setValue E ses el (interpolate text ctx)) (ret None)))
      | AssertVisible name _ _ _ captureText \<Rightarrow>
          if captureText
          then bindE (getElementText E ses el) (\<lambda>text.
                 let captured = (if js_trim text = [] then None else Some (js_trim text))
                 in thenE (logE E INFO (''Step '' @ position index len @ '': '' @ name @ '' - captured text'')
                            (Some (JsObj [(''capturedText'',
                               case captured of Some c \<Rightarrow> JsStr c | None \<Rightarrow> JsUndefined)])))
                      (ret (Some captured)))
          else ret None
      | _ \<Rightarrow> ret None)"

definition on_element ::
  "'s device_env \<Rightarrow> appium_session \<Rightarrow> (string \<times> string) list \<Rightarrow> nat \<Rightarrow> nat \<Rightarrow> ui_step \<Rightarrow> ms \<Rightarrow> string
     \<Rightarrow> ui_flow_result \<Rightarrow> ('s, ui_flow_result) eff" where
  "on_element E ses ctx index len step stepStart loc acc =
     bindE (locate E ses index len step loc) (\<lambda>found.
       case found of
         None \<Rightarrow> record_step E stepStart step True acc
       | Some el \<Rightarrow>
           bindE (catchE (act E ses ctx index len step el)
                    (\<lambda>cause. throwE (act_error index len step cause))) (\<lambda>captured.
             record_step E stepStart step False
               (case captured of None \<Rightarrow> acc | Some c \<Rightarrow> acc\<lparr>fr_capturedText := c\<rparr>)))"

definition run_step ::
  "'s device_env \<Rightarrow> appium_session \<Rightarrow> (string \<times> string) list \<Rightarrow> nat \<Rightarrow> nat \<Rightarrow> ui_step \<Rightarrow> ui_flow_result
     \<Rightarrow> ('s, ui_flow_result) eff" where
  "run_step E ses ctx index len step acc =
     bindE (nowE E) (\<lambda>stepStart.
     bindE (abortedE E) (\<lambda>aborted.
       if aborted
       then throwE (cancelled_before index step)
       else case step of
         Wait name t \<Rightarrow>
           thenE (logE E DEBUG (''Step '' @ position index len @ '': '' @ name @ '' - waiting ''
                    @ show_int t @ ''ms'') None)
             (thenE (delayE E t) (record_step E stepStart step False acc))
       | _ \<Rightarrow>
           (let loc = interpolate (step_value step) ctx
            in thenE (logE E DEBUG (''Step '' @ position index len @ '': '' @ step_name step)
                   (Some (JsObj [(''action'', JsStr (step_action step)), (''using'', JsStr (step_using step)),
                                 (''value'', JsStr loc), (''timeoutMs'', JsNum (step_timeoutMs step))])))
               (case step of
                  AssertGone _ _ _ _ \<Rightarrow>
                    thenE (catchE (waitForElementGone E ses (step_using step) loc (step_timeoutMs step))
                             (\<lambda>cause. throwE (gone_error index len step loc)))
                      (record_step E stepStart step False acc)
                | _ \<Rightarrow>
                    on_element E ses ctx index len step stepStart loc acc))))"

primrec run_steps ::
  "'s device_env \<Rightarrow> appium_session \<Rightarrow> (string \<times> string) list \<Rightarrow> nat \<Rightarrow> nat \<Rightarrow> ui_step list \<Rightarrow> ui_flow_result
     \<Rightarrow> ('s, ui_flow_result) eff" where
  "run_steps E ses ctx index len [] acc = ret acc"
| "run_steps E ses ctx index len (step # steps) acc =
     bindE (run_step E ses ctx index len step acc)
       (\<lambda>acc'. run_steps E ses ctx (Suc index) len steps acc')"

definition runUiFlow ::
  "'s device_env \<Rightarrow> appium_session \<Rightarrow> ui_step list \<Rightarrow> (string \<times> string) list \<Rightarrow> ('s, ui_flow_result) eff" where
  "runUiFlow E ses steps ctx =
     bindE (run_steps E ses ctx 0 (length steps) steps flow_start) (\<lambda>acc.
       ret (acc\<lparr>fr_totalMs := sum_list (map st_ms (fr_timings acc))\<rparr>))"

subsection \<open>Reading a successful step\<close>

lemma catchE_Inr:
  assumes "catchE m h r = Some (Inr y, r2)"
  obtains "m r = Some (Inr y, r2)" | e r1 where "m r = Some (Inl e, r1)" "h e r1 = Some (Inr y, r2)"
  using assms by (auto simp: catchE_def split: option.splits sum.splits prod.splits)

lemma catchE_throw_Inr [simp]:
  "catchE m (\<lambda>e. throwE (f e)) r = Some (Inr y, r2) \<longleftrightarrow> m r = Some (Inr y, r2)"
  by (auto simp: catchE_def throwE_def split: option.splits sum.splits prod.splits)

lemma emits_waits [emits_intros]:
  assumes "\<And>u b out. Q (EvFetch POST u b out)" and "\<And>t. Q (EvSleep t)"
  shows "emits Q (waitForElement E ses using value tm)" "emits Q (waitForElementGone E ses using value tm)"
proof -
  have sub: "poll_event e \<Longrightarrow> Q e" for e by (cases e) (auto simp: poll_event_def assms)
  show "emits Q (waitForElement E ses using value tm)"
    using waitForElement_ends [of E ses "using" "value" tm] sub
    by (intro emitsI) (fastforce simp: ends_with_def)
  show "emits Q (waitForElementGone E ses using value tm)"
    using waitForElementGone_ends [of E ses "using" "value" tm] sub
    by (intro emitsI) (fastforce simp: ends_with_def)
qed

text \<open>The events a flow leaves: requests to Appium, sleeps and log lines.\<close>

definition flow_event :: "event \<Rightarrow> bool" where
  "flow_event e = (case e of EvFetch m u b out \<Rightarrow> True | EvSleep t \<Rightarrow> True | EvLog l m \<Rightarrow> True | _ \<Rightarrow> False)"

lemma flow_event_simps [simp]: "flow_event (EvFetch m u b out)" "flow_event (EvSleep t)" "flow_event (EvLog l x)"
  by (simp_all add: flow_event_def)

lemma emits_record_step [emits_intros]: "emits Q (record_step E st step sk acc)"
  by (simp add: record_step_def emits_intros)

lemma emits_locate [emits_intros]: "emits flow_event (locate E ses i n step loc)"
  unfolding locate_def by (intro emits_intros) simp_all

lemma emits_act [emits_intros]: "emits flow_event (act E ses ctx i n step el)"
  unfolding act_def by (auto simp: Let_def split: ui_step.splits intro!: emits_intros)

lemma emits_on_element [emits_intros]: "emits flow_event (on_element E ses ctx i n step st loc acc)"
  unfolding on_element_def by (auto split: option.splits intro!: emits_intros)

lemma emits_run_step [emits_intros]: "emits flow_event (run_step E ses ctx i n step acc)"
  unfolding run_step_def by (auto simp: Let_def split: ui_step.splits option.splits intro!: emits_intros)

lemma emits_run_steps [emits_intros]: "emits flow_event (run_steps E ses ctx i n steps acc)"
  by (induction steps arbitrary: i acc) (auto intro!: emits_intros)

lemma emits_runUiFlow [emits_intros]: "emits flow_event (runUiFlow E ses steps ctx)"
  by (simp add: runUiFlow_def emits_intros)

lemma settles_flow [settles_intros]:
  assumes "clock_laws E"
  shows "settles (record_step E st step sk acc)" "settles (locate E ses i n step loc)"
    "settles (act E ses ctx i n step el)"
  unfolding record_step_def locate_def act_def
  by (auto simp: Let_def split: ui_step.splits intro!: settles_intros assms)

lemma settles_on_element [settles_intros]: "clock_laws E \<Longrightarrow> settles (on_element E ses ctx i n step st loc acc)"
  unfolding on_element_def by (auto split: option.splits intro!: settles_intros)

lemma settles_run_step [settles_intros]:
  "clock_laws E \<Longrightarrow> settles (run_step E ses ctx i n step acc)"
  unfolding run_step_def
  by (auto simp: Let_def split: ui_step.splits option.splits intro!: settles_intros)

lemma settles_run_steps [settles_intros]:
  "clock_laws E \<Longrightarrow> settles (run_steps E ses ctx i n steps acc)"
  by (induction steps arbitrary: i acc) (auto intro!: settles_intros)

lemma settles_runUiFlow [settles_intros]: "clock_laws E \<Longrightarrow> settles (runUiFlow E ses steps ctx)"
  by (simp add: runUiFlow_def settles_intros)

subsection \<open>What a successful flow has shown\<close>

text \<open>Appium acknowledged the request.\<close>

fun acknowledged :: "http_method \<Rightarrow> string \<Rightarrow> js option \<Rightarrow> event \<Rightarrow> bool" where
  "acknowledged m url b (EvFetch m' url' b' (FetchJson st tx payload)) = (m' = m \<and> url' = url \<and> b' = b \<and> http_ok st)"
| "acknowledged m url b _ = False"

text \<open>The evidence a step leaves among the events \<open>evs\<close> when it was not skipped.\<close>

definition step_evidence :: "appium_session \<Rightarrow> (string \<times> string) list \<Rightarrow> ui_step \<Rightarrow> event list \<Rightarrow> bool" where
  "step_evidence ses ctx step evs =
     (let seen = list_ex (shows_element ses (step_using step) (interpolate (step_value step) ctx)) evs
      in case step of
        Tap _ _ _ _ _ \<Rightarrow>
          seen \<and> (\<exists>el. list_ex (acknowledged POST (element_url ses el ''/click'') (Some (JsObj []))) evs)
      | Type _ _ _ _ text _ _ \<Rightarrow>
          seen \<and> (\<exists>el. list_ex (acknowledged POST (element_url ses el ''/value'')
                           (Some (JsObj [(''text'', JsStr (interpolate text ctx))]))) evs)
      | AssertVisible _ _ _ _ _ \<Rightarrow> seen
      | AssertGone _ _ _ _ \<Rightarrow>
          list_ex (shows_none ses (step_using step) (interpolate (step_value step) ctx)) evs
      | Wait _ t \<Rightarrow> EvSleep t \<in> set evs)"

lemma step_evidence_mono:
  assumes "step_evidence ses ctx step evs" and "set evs \<subseteq> set evs'"
  shows "step_evidence ses ctx step evs'"
proof -
  have m: "list_ex P evs \<Longrightarrow> list_ex P evs'" for P using assms(2) by (auto simp: list_ex_iff)
  show ?thesis
    using assms unfolding step_evidence_def Let_def
    by (cases step) (auto dest: m)
qed

text \<open>The events between two states of a run.\<close>

definition since :: "'s run \<Rightarrow> 's run \<Rightarrow> event list \<Rightarrow> bool" where
  "since r r1 evs \<longleftrightarrow> ru_trace r1 = ru_trace r @ evs"

lemma since_trans: "since r r1 a \<Longrightarrow> since r1 r2 b \<Longrightarrow> since r r2 (a @ b)"
  by (simp add: since_def)

lemma emits_since: "emits Q m \<Longrightarrow> m r = Some (x, r1) \<Longrightarrow> \<exists>evs. since r r1 evs"
  by (auto simp: since_def dest: emitsD)

lemma acknowledged_call:
  assumes "appiumFetch E url m b r = Some (Inr payload, r1)"
  shows "\<exists>evs. since r r1 evs \<and> list_ex (acknowledged m url b) evs"
  using assms by (rule appiumFetch_Inr) (auto simp: since_def)

lemma wait_since:
  assumes "waitForElement E ses using value tm r = Some (Inr el, r1)"
  shows "\<exists>evs. since r r1 evs \<and> list_ex (shows_element ses using value) evs"
proof -
  from waitForElement_ends [OF assms] obtain evs where
    "ru_trace r1 = ru_trace r @ evs" "evs \<noteq> []" "shows_element ses using value (List.last evs)"
    by (auto simp: ends_with_def)
  then show ?thesis by (auto simp: since_def list_ex_iff intro: last_in_set)
qed

lemma gone_since:
  assumes "waitForElementGone E ses using value tm r = Some (Inr u, r1)"
  shows "\<exists>evs. since r r1 evs \<and> list_ex (shows_none ses using value) evs"
proof -
  from waitForElementGone_ends [OF assms] obtain evs where
    "ru_trace r1 = ru_trace r @ evs" "evs \<noteq> []" "shows_none ses using value (List.last evs)"
    by (auto simp: ends_with_def)
  then show ?thesis by (auto simp: since_def list_ex_iff intro: last_in_set)
qed

lemma locate_found:
  assumes "locate E ses i n step loc r = Some (Inr (Some el), r1)"
  shows "\<exists>evs. since r r1 evs \<and> list_ex (shows_element ses (step_using step) loc) evs"
  using assms unfolding locate_def
  by (elim catchE_Inr bindE_Inr) (auto dest: wait_since elim!: bindE_Inr split: if_splits)

lemma locate_skipped: "locate E ses i n step loc r = Some (Inr None, r1) \<Longrightarrow> may_skip step"
  unfolding locate_def by (elim catchE_Inr bindE_Inr) (auto split: if_splits)

lemma record_step_run:
  "record_step E st step sk acc r = Some (y, r1) \<Longrightarrow>
     r1 = r \<and> y = Inr (acc\<lparr>fr_timings := fr_timings acc @ [\<lparr>st_name = step_name step, st_action = step_action step,
         st_ms = ae_clock E (ru_env r) - st, st_skipped = sk\<rparr>],
       fr_executed := (if sk then fr_executed acc else fr_executed acc @ [step_name step]),
       fr_skipped := (if sk then fr_skipped acc @ [step_name step] else fr_skipped acc)\<rparr>)"
  by (auto simp: record_step_def bindE_def nowE_def readE_def ret_def)

text \<open>An event of \<open>P\<close> lies between the two states; the second comes after the first.\<close>

definition shows_in :: "(event \<Rightarrow> bool) \<Rightarrow> 's run \<Rightarrow> 's run \<Rightarrow> bool" where
  "shows_in P r r1 \<longleftrightarrow> (\<exists>evs. since r r1 evs \<and> list_ex P evs)"

definition grown :: "'s run \<Rightarrow> 's run \<Rightarrow> bool" where
  "grown r r1 \<longleftrightarrow> (\<exists>evs. since r r1 evs)"

lemma grown_trans: "grown r r1 \<Longrightarrow> grown r1 r2 \<Longrightarrow> grown r r2"
  by (auto simp: grown_def intro: since_trans)

lemma shows_before: "shows_in P r r1 \<Longrightarrow> grown r1 r2 \<Longrightarrow> shows_in P r r2"
  unfolding shows_in_def grown_def by (meson since_trans list_ex_append)

lemma shows_after: "grown r r1 \<Longrightarrow> shows_in P r1 r2 \<Longrightarrow> shows_in P r r2"
  unfolding shows_in_def grown_def by (meson since_trans list_ex_append)

lemma shows_since: "shows_in P r r1 \<Longrightarrow> since r r1 evs \<Longrightarrow> list_ex P evs"
  by (auto simp: shows_in_def since_def)

lemma emits_grown: "emits Q m \<Longrightarrow> m r = Some (x, r1) \<Longrightarrow> grown r r1"
  by (auto simp: grown_def dest: emits_since)

lemma emits_True_calls: "emits flow_event (clickElement E ses el)" "emits flow_event (whenE b (clearElement E ses el))"
  "emits flow_event (setValue E ses el t)" "emits flow_event (logE E lvl m d)"
  by (auto intro!: emits_intros)

lemma click_shows: "clickElement E ses el r = Some (Inr u, r1) \<Longrightarrow>
    shows_in (acknowledged POST (element_url ses el ''/click'') (Some (JsObj []))) r r1"
  unfolding clickElement_def shows_in_def by (elim bindE_Inr) (auto dest: acknowledged_call)

lemma setValue_shows: "setValue E ses el v r = Some (Inr u, r1) \<Longrightarrow>
    shows_in (acknowledged POST (element_url ses el ''/value'') (Some (JsObj [(''text'', JsStr v)]))) r r1"
  unfolding setValue_def shows_in_def by (elim bindE_Inr) (auto dest: acknowledged_call)

lemma act_shows:
  assumes "act E ses ctx i n step el r = Some (Inr cap, r1)"
  shows "case step of
      Tap _ _ _ _ _ \<Rightarrow> shows_in (acknowledged POST (element_url ses el ''/click'') (Some (JsObj []))) r r1
    | Type _ _ _ _ text _ _ \<Rightarrow> shows_in (acknowledged POST (element_url ses el ''/value'')
                           (Some (JsObj [(''text'', JsStr (interpolate text ctx))]))) r r1
    | _ \<Rightarrow> True"
proof (cases step)
  case Tap
  with assms show ?thesis by (auto simp: act_def elim!: bindE_Inr intro: click_shows)
next
  case (Type name us v tm tx c opt)
  with assms obtain u1 u2 u3 ra rb where
    run: "clickElement E ses el r = Some (Inr u1, ra)" "whenE c (clearElement E ses el) ra = Some (Inr u2, rb)"
      "setValue E ses el (interpolate tx ctx) rb = Some (Inr u3, r1)"
    by (auto simp: act_def elim!: bindE_Inr)
  have "grown r rb"
    using emits_grown [OF emits_True_calls(1) run(1)] emits_grown [OF emits_True_calls(2) run(2)]
    by (rule grown_trans)
  from shows_after [OF this setValue_shows [OF run(3)]] show ?thesis using Type by simp
qed simp_all

text \<open>What a step adds to the accumulators.\<close>

definition step_recorded :: "ui_step \<Rightarrow> bool \<Rightarrow> ui_flow_result \<Rightarrow> ui_flow_result \<Rightarrow> bool" where
  "step_recorded step sk acc acc' \<longleftrightarrow>
     (\<exists>t. fr_timings acc' = fr_timings acc @ [\<lparr>st_name = step_name step, st_action = step_action step,
                                              st_ms = t, st_skipped = sk\<rparr>])
     \<and> fr_executed acc' = fr_executed acc @ (if sk then [] else [step_name step])
     \<and> fr_skipped acc' = fr_skipped acc @ (if sk then [step_name step] else [])"

lemma record_step_recorded:
  "record_step E st step sk acc r = Some (Inr acc', r1) \<Longrightarrow> r1 = r \<and> step_recorded step sk acc acc'"
  by (auto simp: step_recorded_def dest: record_step_run)

lemma step_recorded_captured:
  "step_recorded step sk (acc\<lparr>fr_capturedText := c\<rparr>) acc' = step_recorded step sk acc acc'"
  by (simp add: step_recorded_def)

lemma locate_and_act:
  assumes "locate E ses i n step (interpolate (step_value step) ctx) ra = Some (Inr (Some el), rb)"
    and "act E ses ctx i n step el rb = Some (Inr cap, r1)"
    and "\<forall>a b c d. step \<noteq> AssertGone a b c d" and "\<forall>a b. step \<noteq> Wait a b" and "grown r ra"
  shows "\<exists>evs. since r r1 evs \<and> step_evidence ses ctx step evs"
proof -
  let ?seen = "shows_element ses (step_using step) (interpolate (step_value step) ctx)"
  have g: "grown rb r1" by (rule emits_grown [OF emits_act assms(2)])
  have "shows_in ?seen ra rb" using locate_found [OF assms(1)] by (simp add: shows_in_def)
  then have seen: "shows_in ?seen r r1" using g assms(5) by (blast intro: shows_before shows_after)
  have "grown r rb" using assms(5) emits_grown [OF emits_locate assms(1)] by (rule grown_trans)
  then have acted: "shows_in P rb r1 \<Longrightarrow> shows_in P r r1" for P by (rule shows_after)
  obtain evs where evs: "since r r1 evs" using seen by (auto simp: shows_in_def)
  have "step_evidence ses ctx step evs"
    using act_shows [OF assms(2)] assms(3,4) shows_since [OF seen evs]
    by (cases step) (auto simp: step_evidence_def dest!: acted dest: shows_since [OF _ evs])
  with evs show ?thesis by blast
qed

lemma delayE_slept: "delayE E t r = Some (Inr u, r1) \<Longrightarrow> since r r1 [EvSleep t]"
  unfolding delayE_def abortedE_def
  by (elim bindE_Inr) (auto simp: perform_def since_def split: if_splits prod.splits elim!: bindE_Inr)

lemma read_same: "nowE E r = Some (Inr x, ra) \<Longrightarrow> ra = r" "abortedE E r = Some (Inr b, ra) \<Longrightarrow> ra = r"
  by (auto simp: nowE_def abortedE_def)

definition located :: "ui_step \<Rightarrow> bool" where
  "located step = (case step of AssertGone _ _ _ _ \<Rightarrow> False | Wait _ _ \<Rightarrow> False | _ \<Rightarrow> True)"

lemma run_located:
  assumes "run_step E ses ctx i n step acc r = Some (Inr acc', r1)" and "located step"
  obtains m d u ra found rb st where "logE E DEBUG m d r = Some (Inr u, ra)"
    "locate E ses i n step (interpolate (step_value step) ctx) ra = Some (Inr found, rb)"
    "(case found of
        None \<Rightarrow> record_step E st step True acc rb = Some (Inr acc', r1)
      | Some el \<Rightarrow> \<exists>cap rc. act E ses ctx i n step el rb = Some (Inr cap, rc)
          \<and> record_step E st step False (case cap of None \<Rightarrow> acc | Some c \<Rightarrow> acc\<lparr>fr_capturedText := c\<rparr>) rc
              = Some (Inr acc', r1))"
proof -
  from assms obtain m d u ra st where
    log: "logE E DEBUG m d r = Some (Inr u, ra)" and
    el: "on_element E ses ctx i n step st (interpolate (step_value step) ctx) acc ra = Some (Inr acc', r1)"
    by (cases step) (auto simp: located_def run_step_def Let_def elim!: bindE_Inr dest!: read_same split: if_splits)
  from el obtain found rb where
    found: "locate E ses i n step (interpolate (step_value step) ctx) ra = Some (Inr found, rb)"
    and rest: "(case found of
        None \<Rightarrow> record_step E st step True acc
      | Some el \<Rightarrow>
          bindE (catchE (act E ses ctx i n step el) (\<lambda>cause. throwE (act_error i n step cause))) (\<lambda>captured.
            record_step E st step False
              (case captured of None \<Rightarrow> acc | Some c \<Rightarrow> acc\<lparr>fr_capturedText := c\<rparr>))) rb = Some (Inr acc', r1)"
    unfolding on_element_def by (elim bindE_Inr)
  show thesis
    by (rule that [OF log found]) (use rest in \<open>auto elim!: bindE_Inr split: option.splits\<close>)
qed

lemma run_step_done:
  assumes "run_step E ses ctx i n step acc r = Some (Inr acc', r1)"
  shows "\<exists>evs sk. since r r1 evs \<and> step_recorded step sk acc acc' \<and> (sk \<longrightarrow> may_skip step)
    \<and> (\<not> sk \<longrightarrow> step_evidence ses ctx step evs)"
proof (cases "located step")
  case True
  from assms True obtain m d u ra found rb st where
    run: "logE E DEBUG m d r = Some (Inr u, ra)"
      "locate E ses i n step (interpolate (step_value step) ctx) ra = Some (Inr found, rb)"
    and rest: "(case found of
        None \<Rightarrow> record_step E st step True acc rb = Some (Inr acc', r1)
      | Some el \<Rightarrow> \<exists>cap rc. act E ses ctx i n step el rb = Some (Inr cap, rc)
          \<and> record_step E st step False (case cap of None \<Rightarrow> acc | Some c \<Rightarrow> acc\<lparr>fr_capturedText := c\<rparr>) rc
              = Some (Inr acc', r1))"
    by (rule run_located)
  have g: "grown r ra" by (rule emits_grown [OF emits_True_calls(4) run(1)])
  show ?thesis
  proof (cases found)
    case None
    with rest have rec: "rb = r1" "step_recorded step True acc acc'" by (auto dest: record_step_recorded)
    have "grown r rb" using g emits_grown [OF emits_locate run(2)] by (rule grown_trans)
    with rec locate_skipped [OF run(2) [unfolded None]] show ?thesis by (auto simp: grown_def)
  next
    case (Some el)
    with rest obtain cap rc where act: "act E ses ctx i n step el rb = Some (Inr cap, rc)"
      and rec: "rc = r1" "step_recorded step False acc acc'"
      by (auto dest!: record_step_recorded simp: step_recorded_captured split: option.splits)
    from locate_and_act [OF run(2) [unfolded Some] act _ _ g] True rec show ?thesis
      by (auto simp: located_def split: ui_step.splits)
  qed
next
  case False
  then consider name t where "step = Wait name t" | name us v tm where "step = AssertGone name us v tm"
    by (auto simp: located_def split: ui_step.splits)
  then show ?thesis
  proof cases
    case 1
    with assms obtain m u v st ra rb where
      "logE E DEBUG m None r = Some (Inr u, ra)" "delayE E t ra = Some (Inr v, rb)"
      and rec: "record_step E st step False acc rb = Some (Inr acc', r1)"
      by (auto simp: run_step_def elim!: bindE_Inr dest!: read_same split: if_splits)
    then have "shows_in (\<lambda>e. e = EvSleep t) r rb"
      using emits_grown [OF emits_True_calls(4)] delayE_slept [of E t ra v rb]
      by (intro shows_after [of r ra]) (auto simp: shows_in_def)
    with 1 record_step_recorded [OF rec] show ?thesis
      by (auto simp: shows_in_def step_evidence_def list_ex_iff)
  next
    case 2
    let ?loc = "interpolate v ctx"
    from assms 2 obtain m d u w st ra rb where
      run: "logE E DEBUG m d r = Some (Inr u, ra)" "waitForElementGone E ses us ?loc tm ra = Some (Inr w, rb)"
      and rec: "record_step E st step False acc rb = Some (Inr acc', r1)"
      by (auto simp: run_step_def Let_def elim!: bindE_Inr dest!: read_same split: if_splits)
    have "shows_in (shows_none ses us ?loc) ra rb" using gone_since [OF run(2)] by (simp add: shows_in_def)
    with emits_grown [OF emits_True_calls(4) run(1)] have "shows_in (shows_none ses us ?loc) r rb"
      by (rule shows_after)
    with 2 record_step_recorded [OF rec] show ?thesis by (auto simp: shows_in_def step_evidence_def)
  qed
qed

lemma run_steps_done:
  assumes "run_steps E ses ctx i n steps acc r = Some (Inr acc', r1)"
  shows "\<exists>evs tms. since r r1 evs \<and> fr_timings acc' = fr_timings acc @ tms
    \<and> list_all2 (\<lambda>step t. st_name t = step_name step \<and> st_action t = step_action step
         \<and> (st_skipped t \<longrightarrow> may_skip step) \<and> (\<not> st_skipped t \<longrightarrow> step_evidence ses ctx step evs)) steps tms
    \<and> fr_executed acc' = fr_executed acc @ map st_name (filter (\<lambda>t. \<not> st_skipped t) tms)
    \<and> fr_skipped acc' = fr_skipped acc @ map st_name (filter st_skipped tms)"
  using assms
proof (induction steps arbitrary: i acc r)
  case Nil
  then show ?case by (auto simp: since_def)
next
  case (Cons step steps)
  from Cons.prems obtain acc1 ra where
    one: "run_step E ses ctx i n step acc r = Some (Inr acc1, ra)" and
    more: "run_steps E ses ctx (Suc i) n steps acc1 ra = Some (Inr acc', r1)"
    by (auto elim!: bindE_Inr)
  from run_step_done [OF one] obtain a sk where
    a: "since r ra a" "step_recorded step sk acc acc1" "sk \<longrightarrow> may_skip step"
      "\<not> sk \<longrightarrow> step_evidence ses ctx step a" by blast
  from Cons.IH [OF more] obtain b tms where
    b: "since ra r1 b" "fr_timings acc' = fr_timings acc1 @ tms"
      "list_all2 (\<lambda>step t. st_name t = step_name step \<and> st_action t = step_action step
         \<and> (st_skipped t \<longrightarrow> may_skip step) \<and> (\<not> st_skipped t \<longrightarrow> step_evidence ses ctx step b)) steps tms"
      "fr_executed acc' = fr_executed acc1 @ map st_name (filter (\<lambda>t. \<not> st_skipped t) tms)"
      "fr_skipped acc' = fr_skipped acc1 @ map st_name (filter st_skipped tms)" by blast
  from a(2) obtain t where t: "fr_timings acc1 = fr_timings acc @ [t]" "st_name t = step_name step"
    "st_action t = step_action step" "st_skipped t = sk"
    "fr_executed acc1 = fr_executed acc @ (if sk then [] else [step_name step])"
    "fr_skipped acc1 = fr_skipped acc @ (if sk then [step_name step] else [])"
    by (auto simp: step_recorded_def)
  have "list_all2 (\<lambda>step t. st_name t = step_name step \<and> st_action t = step_action step
      \<and> (st_skipped t \<longrightarrow> may_skip step) \<and> (\<not> st_skipped t \<longrightarrow> step_evidence ses ctx step (a @ b)))
      steps tms"
    by (rule list_all2_mono [OF b(3)]) (auto intro: step_evidence_mono)
  then show ?case
    using a b t
    by (intro exI [of _ "a @ b"] exI [of _ "t # tms"]) (auto intro: since_trans step_evidence_mono)
qed

lemma runUiFlow_done:
  assumes "runUiFlow E ses steps ctx r = Some (Inr res, r1)"
  obtains evs where "ru_trace r1 = ru_trace r @ evs"
    "list_all2 (\<lambda>step t. st_name t = step_name step \<and> st_action t = step_action step
       \<and> (st_skipped t \<longrightarrow> may_skip step) \<and> (\<not> st_skipped t \<longrightarrow> step_evidence ses ctx step evs))
       steps (fr_timings res)"
    "fr_executed res = map st_name (filter (\<lambda>t. \<not> st_skipped t) (fr_timings res))"
    "fr_skipped res = map st_name (filter st_skipped (fr_timings res))"
    "fr_totalMs res = sum_list (map st_ms (fr_timings res))"
proof -
  from assms obtain acc where
    run: "run_steps E ses ctx 0 (length steps) steps flow_start r = Some (Inr acc, r1)"
    and res: "res = acc\<lparr>fr_totalMs := sum_list (map st_ms (fr_timings acc))\<rparr>"
    unfolding runUiFlow_def by (auto elim!: bindE_Inr)
  from run_steps_done [OF run] that show thesis by (auto simp: res since_def flow_start_def)
qed


lemma those_Some: "those xs = Some ys \<Longrightarrow> list_all2 (\<lambda>x y. x = Some y) xs ys"
  by (induction xs arbitrary: ys) (auto split: option.splits)

lemma assertion_evidence:
  assumes "is_assertion step" and "step_evidence ses ctx step evs"
  shows "\<exists>us v. list_ex (shows_element ses us v) evs \<or> list_ex (shows_none ses us v) evs"
  using assms by (cases step) (auto simp: is_assertion_def step_action_def step_evidence_def)

lemma assertion_not_optional: "is_assertion step \<Longrightarrow> \<not> may_skip step"
  by (cases step) (auto simp: is_assertion_def step_action_def may_skip_def)

lemma uiFlowSchema_Some:
  "uiFlowSchema v = Some steps \<Longrightarrow> steps \<noteq> [] \<and> list_ex is_assertion steps"
  by (auto simp: uiFlowSchema_def split: js.splits Option.bind_splits if_splits)

lemma flow_makes_an_assertion:
  assumes "list_ex is_assertion steps" and "runUiFlow E ses steps ctx r = Some (Inr res, r1)"
  shows "\<exists>evs us v. ru_trace r1 = ru_trace r @ evs
    \<and> (list_ex (shows_element ses us v) evs \<or> list_ex (shows_none ses us v) evs)"
proof -
  from assms(2) obtain evs where tr: "ru_trace r1 = ru_trace r @ evs" and
    all: "list_all2 (\<lambda>step t. st_name t = step_name step \<and> st_action t = step_action step
       \<and> (st_skipped t \<longrightarrow> may_skip step) \<and> (\<not> st_skipped t \<longrightarrow> step_evidence ses ctx step evs))
       steps (fr_timings res)" by (rule runUiFlow_done)
  from assms(1) obtain step where "step \<in> set steps" "is_assertion step" by (auto simp: list_ex_iff)
  with all have "step_evidence ses ctx step evs"
    using assertion_not_optional by (auto simp: list_all2_conv_all_nth in_set_conv_nth)
  from assertion_evidence [OF \<open>is_assertion step\<close> this] tr show ?thesis by blast
qed


text \<open>The rules a step obeys once the schema has taken it.\<close>

definition step_ok :: "ui_step \<Rightarrow> bool" where
  "step_ok step =
     (step_name step \<noteq> [] \<and>
      (case step of
         Wait _ t \<Rightarrow> 1 \<le> t \<and> t \<le> 120000
       | _ \<Rightarrow> step_using step \<in> set LOCATOR_STRATEGIES \<and> step_value step \<noteq> []
              \<and> 1 \<le> step_timeoutMs step \<and> step_timeoutMs step \<le> 600000))"

lemma field_rules:
  "field_nonempty v = Some s \<Longrightarrow> s \<noteq> []"
  "field_enum xs v = Some s \<Longrightarrow> s \<in> set xs"
  "field_int lo hi v = Some n \<Longrightarrow> lo \<le> n \<and> n \<le> hi"
  "lo \<le> d \<Longrightarrow> d \<le> hi \<Longrightarrow> field_default d (field_int lo hi) v = Some n \<Longrightarrow> lo \<le> n \<and> n \<le> hi"
  by (auto simp: field_nonempty_def field_enum_def field_int_def field_default_def split: js.splits if_splits)

lemma parse_base_ok:
  assumes "parse_base v = Some (name, using, value, tm)"
  shows "name \<noteq> [] \<and> using \<in> set LOCATOR_STRATEGIES \<and> value \<noteq> [] \<and> 1 \<le> tm \<and> tm \<le> 600000"
  using assms field_rules(4) [of 1 DEFAULT_STEP_TIMEOUT_MS 600000 "js_get v ''timeoutMs''" tm]
  by (auto simp: parse_base_def DEFAULT_STEP_TIMEOUT_MS_def split: Option.bind_splits dest: field_rules)

lemma uiStepSchema_ok: "uiStepSchema v = Some step \<Longrightarrow> step_ok step"
  by (auto simp: uiStepSchema_def Let_def step_ok_def split: js.splits Option.bind_splits if_splits prod.splits
      dest: parse_base_ok field_rules)

text \<open>
  Every step of a flow the schema took has a name, and a locator strategy UiAutomator2 has, a
  non-empty locator and a timeout of at most ten minutes, or is a wait of at most two; there is at
  least one step, and one that asserts.
\<close>

theorem uiFlowSchema_bounds:
  assumes "uiFlowSchema v = Some steps"
  shows "steps \<noteq> [] \<and> list_ex is_assertion steps \<and> list_all step_ok steps"
proof -
  from assms obtain vs where "those (map uiStepSchema vs) = Some steps"
    by (auto simp: uiFlowSchema_def split: js.splits Option.bind_splits if_splits)
  from those_Some [OF this] have "\<forall>i < length steps. uiStepSchema (vs ! i) = Some (steps ! i)"
    by (auto simp: list_all2_conv_all_nth)
  then have "list_all step_ok steps"
    by (auto simp: list_all_length dest: uiStepSchema_ok)
  with uiFlowSchema_Some [OF assms] show ?thesis by blast
qed

subsection \<open>How a flow fails\<close>

text \<open>What step number \<open>i\<close> may throw.\<close>

definition step_failure :: "nat \<Rightarrow> ui_step \<Rightarrow> exn \<Rightarrow> bool" where
  "step_failure i step e \<longleftrightarrow>
     (\<exists>k m. e = UiStepError k (step_name step) i m
        \<and> (k = StillPresent \<longleftrightarrow> step_action step = ''assertGone'')
        \<and> (k = NotFound \<longrightarrow> \<not> may_skip step) \<and> step_action step \<noteq> ''wait'')
     \<or> e = cancelled_before i step
     \<or> step_action step = ''wait'' \<and> e = GenericError ''Aborted''"

lemma step_errors:
  "located step \<Longrightarrow> \<not> (may_skip step \<and> isMissingElement cause) \<Longrightarrow> step_failure i step (locate_error i n step loc cause)"
  "located step \<Longrightarrow> step_failure i step (act_error i n step cause)"
  "step_action step = ''assertGone'' \<Longrightarrow> step_failure i step (gone_error i n step loc)"
  "step_failure i step (cancelled_before i step)"
  "step_action step = ''wait'' \<Longrightarrow> step_failure i step (GenericError ''Aborted'')"
  unfolding step_failure_def locate_error_def act_error_def gone_error_def
  by (cases "isMissingElement cause"; cases step; simp add: located_def step_action_def)+

lemma locate_throws: "located step \<Longrightarrow> throws (step_failure i step) (locate E ses i n step loc)"
  unfolding locate_def by (intro throws_catch throws_if throws_bind throws_basic throws_ret throws_throwE step_errors)

lemma record_step_throws [throws_intros]: "throws T (record_step E st step sk acc)"
  by (simp add: record_step_def throws_intros)

lemma run_step_throws: "throws (step_failure i step) (run_step E ses ctx i n step acc)"
proof (cases "located step")
  case True
  have "throws (step_failure i step) (on_element E ses ctx i n step st loc acc)" for st loc
    unfolding on_element_def
    by (auto split: option.splits intro!: throws_bind throws_catch throws_throwE locate_throws record_step_throws
        step_errors True)
  with True show ?thesis
    unfolding run_step_def
    by (cases step) (auto simp: Let_def located_def
        intro!: throws_bind throws_basic throws_if throws_throwE step_errors(4))
next
  case False
  then consider (wait) name t where "step = Wait name t"
    | (gone) name us v tm where "step = AssertGone name us v tm"
    by (auto simp: located_def split: ui_step.splits)
  then show ?thesis
  proof cases
    case wait
    then have "step_action step = ''wait''" by (simp add: step_action_def)
    from step_errors(4) step_errors(5) [OF this] show ?thesis
      unfolding run_step_def wait
      by (auto intro!: throws_intros)
  next
    case gone
    then have "step_action step = ''assertGone''" by (simp add: step_action_def)
    from step_errors(4) step_errors(3) [OF this] show ?thesis
      unfolding run_step_def gone
      by (auto simp: Let_def intro!: throws_intros)
  qed
qed

lemma run_steps_throws:
  "throws (\<lambda>e. \<exists>k < length steps. step_failure (i + k) (steps ! k) e) (run_steps E ses ctx i n steps acc)"
proof (induction steps arbitrary: i acc)
  case (Cons step steps)
  have "throws (\<lambda>e. \<exists>k < length (step # steps). step_failure (i + k) ((step # steps) ! k) e)
      (run_step E ses ctx i n step acc)"
    using run_step_throws [of i step] unfolding throws_def by (metis add.right_neutral length_Cons nth_Cons_0 zero_less_Suc)
  moreover have "throws (\<lambda>e. \<exists>k < length (step # steps). step_failure (i + k) ((step # steps) ! k) e)
      (run_steps E ses ctx (Suc i) n steps acc')" for acc'
    using Cons.IH [of "Suc i" acc'] unfolding throws_def by (metis Suc_less_eq add_Suc_shift length_Cons nth_Cons_Suc)
  ultimately show ?case by (auto intro!: throws_bind)
qed (simp add: throws_intros)

lemma runUiFlow_throws:
  "throws (\<lambda>e. \<exists>i < length steps. step_failure i (steps ! i) e) (runUiFlow E ses steps ctx)"
  unfolding runUiFlow_def using run_steps_throws [of steps 0]
  by (intro throws_bind throws_ret) simp


text \<open>
  A flow always ends, with a result or an error, as long as the clock does not go back and a sleep
  takes its time: no answer of Appium keeps a step waiting past its timeout.
\<close>

theorem runUiFlow_returns:
  assumes "clock_laws E"
  shows "\<exists>out r1. runUiFlow E ses steps ctx r = Some (out, r1)"
  using settlesD [OF settles_runUiFlow [OF assms]] .

subsection \<open>What the substitution does\<close>

lemma placeholder_rest: "placeholder s = Some (key, rest) \<Longrightarrow> take (length s - length rest) s @ rest = s"
proof -
  assume a: "placeholder s = Some (key, rest)"
  have sub: "suffix (dropWhile P xs) xs" for P and xs :: string
    by (metis suffix_def takeWhile_dropWhile_id)
  have "suffix rest s"
    using a by (auto simp: placeholder_def Let_def split: if_splits)
      (metis sub suffix_drop suffix_order.trans)
  then show ?thesis by (auto simp: suffix_def)
qed

lemma interpolate_no_values: "interpolate s [] = s"
proof (induction s "[] :: (string \<times> string) list" rule: interpolate.induct)
  case (2 c s)
  then show ?case by (auto split: option.splits dest: placeholder_rest)
qed simp

lemma words_and_blanks: "word_char c \<Longrightarrow> \<not> js_ws c" "\<not> word_char (CHR ''}'')" "\<not> js_ws (CHR ''}'')"
  by (auto simp: word_char_def js_ws_def Let_def)

lemma dropWhile_all: "list_all P xs \<Longrightarrow> dropWhile P (xs @ ys) = dropWhile P ys"
  by (induction xs) auto

lemma takeWhile_all: "list_all P xs \<Longrightarrow> takeWhile P (xs @ ys) = xs @ takeWhile P ys"
  by (induction xs) auto

lemma placeholder_exact:
  assumes "key \<noteq> []" "list_all word_char key" "list_all js_ws pre" "list_all js_ws post"
  shows "placeholder (''{{'' @ pre @ key @ post @ ''}}'' @ rest) = Some (key, rest)"
proof -
  have first: "dropWhile js_ws (key @ t) = key @ t" for t
    using assms(1,2) words_and_blanks(1) by (cases key) auto
  have blank: "takeWhile word_char (post @ ''}}'' @ t) = []" "dropWhile word_char (post @ ''}}'' @ t) = post @ ''}}'' @ t" for t
    using assms(4) words_and_blanks by (cases post; auto)+
  have "dropWhile js_ws (pre @ key @ post @ ''}}'' @ rest) = key @ post @ ''}}'' @ rest"
    using dropWhile_all [OF assms(3)] first by simp
  moreover have "takeWhile word_char (key @ post @ ''}}'' @ rest) = key"
    using takeWhile_all [OF assms(2)] blank(1) by simp
  moreover have "dropWhile word_char (key @ post @ ''}}'' @ rest) = post @ ''}}'' @ rest"
    using dropWhile_all [OF assms(2)] blank(2) by simp
  moreover have "dropWhile js_ws (post @ ''}}'' @ rest) = ''}}'' @ rest"
    using dropWhile_all [OF assms(4)] words_and_blanks(3) by simp
  ultimately show ?thesis
    using assms(1) by (simp add: placeholder_def Let_def js_starts_with_def)
qed

text \<open>
  The substitution. A placeholder - a name between double braces, with or without blanks around
  it - is replaced by the job's value of that name when there is one and stays as it is when there
  is none; the value is not looked into again; a text is unchanged when the job has no values.
\<close>

theorem interpolate_placeholder:
  assumes "key \<noteq> []" "list_all word_char key" "list_all js_ws pre" "list_all js_ws post"
  shows "interpolate (''{{'' @ pre @ key @ post @ ''}}'' @ rest) ctx =
      (case map_of ctx key of Some v \<Rightarrow> v | None \<Rightarrow> ''{{'' @ pre @ key @ post @ ''}}'') @ interpolate rest ctx
    \<and> interpolate s [] = s"
proof -
  have cut: "take (length (a @ rest) - length rest) (a @ rest) = a" for a :: string by simp
  have "take (length (''{{'' @ pre @ key @ post @ ''}}'' @ rest) - length rest) (''{{'' @ pre @ key @ post @ ''}}'' @ rest)
      = ''{{'' @ pre @ key @ post @ ''}}''"
    using cut [of "''{{'' @ pre @ key @ post @ ''}}''"] by (simp only: append_assoc)
  with placeholder_exact [OF assms, of rest] show ?thesis
    by (auto simp: interpolate_no_values split: option.splits)
qed

subsection \<open>Witnesses\<close>

definition ex_steps :: "ui_step list" where
  "ex_steps = [Tap ''open'' ''id'' ''btn'' 100 False, AssertVisible ''posted'' ''id'' ''ok'' 100 True]"

definition ex_flow_json :: js where
  "ex_flow_json = JsArr
     [JsObj [(''action'', JsStr ''tap''), (''name'', JsStr ''open''), (''using'', JsStr ''id''),
             (''value'', JsStr ''btn''), (''timeoutMs'', JsNum 100)],
      JsObj [(''action'', JsStr ''assertVisible''), (''name'', JsStr ''posted''), (''using'', JsStr ''id''),
             (''value'', JsStr ''ok''), (''timeoutMs'', JsNum 100), (''captureText'', JsBool True)]]"

lemma ex_flow_parsed: "uiFlowSchema ex_flow_json = Some ex_steps"
  by code_simp

definition run0 :: "int run" where
  "run0 = \<lparr>ru_env = 0, ru_trace = []\<rparr>"

definition ex_flow_result :: ui_flow_result where
  "ex_flow_result =
     \<lparr>fr_executed = [''open'', ''posted''], fr_skipped = [], fr_capturedText = Some ''text'',
      fr_timings = [\<lparr>st_name = ''open'', st_action = ''tap'', st_ms = 2, st_skipped = False\<rparr>,
                    \<lparr>st_name = ''posted'', st_action = ''assertVisible'', st_ms = 2, st_skipped = False\<rparr>],
      fr_totalMs = 4\<rparr>"

lemma ex_flow_run: "\<exists>r1. runUiFlow ex_env ex_session ex_steps [] run0 = Some (Inr ex_flow_result, r1)"
proof -
  have "map_option fst (runUiFlow ex_env ex_session ex_steps [] run0) = Some (Inr ex_flow_result)" by code_simp
  then show ?thesis by (cases "runUiFlow ex_env ex_session ex_steps [] run0") auto
qed



theorem uiFlowSchema_bounds_witness: "list_all step_ok ex_steps"
  using uiFlowSchema_bounds [OF ex_flow_parsed] by blast

definition ex_stopped_env :: "int device_env" where
  "ex_stopped_env = ex_env\<lparr>ae_aborted := \<lambda>s. True\<rparr>"

lemma ex_flow_stopped:
  "\<exists>r1. runUiFlow ex_stopped_env ex_session ex_steps [] run0
     = Some (Inl (cancelled_before 0 (Tap ''open'' ''id'' ''btn'' 100 False)), r1)"
proof -
  have "map_option fst (runUiFlow ex_stopped_env ex_session ex_steps [] run0)
      = Some (Inl (cancelled_before 0 (Tap ''open'' ''id'' ''btn'' 100 False)))" by code_simp
  then show ?thesis by (cases "runUiFlow ex_stopped_env ex_session ex_steps [] run0") auto
qed


theorem runUiFlow_returns_witness:
  "\<exists>out r1. runUiFlow ex_env ex_session ex_steps [] run0 = Some (out, r1)"
  by (rule runUiFlow_returns [OF ex_env_laws])

theorem interpolate_placeholder_witness:
  "interpolate ''{{ k }}!'' [(''k'', ''{{k}}'')] = ''{{k}}!''"
  using interpolate_placeholder [of "''k''" "'' ''" "'' ''" "''!''" "[(''k'', ''{{k}}'')]" "[]"]
  by (simp add: word_char_def js_ws_def placeholder_def js_starts_with_def)

end
