(* ===== verification/Device_Config.thy ===== *)
theory Device_Config
  imports Ui_Flow "HOL-Library.Monad_Syntax"
begin

text \<open>
  The configuration an Android account keeps in its credentials: the schemas of
  \<open>lib/android/proxyGateway.ts\<close>, \<open>cameraBridge.ts\<close>, \<open>redroidProvider.ts\<close> and
  \<open>emulatorProvider.ts\<close>, and \<open>androidCredentialsSchema\<close> of \<open>lib/publisher/android.ts\<close>. A schema is
  a function of the parsed JSON that gives the validated value with its defaults, or \<open>None\<close>
  where zod reports an issue. Whether a text is a URL is zod's to say, and a parameter.
\<close>

definition MAX_SAFE_INTEGER :: int where
  "MAX_SAFE_INTEGER = 9007199254740991"

definition field_positive :: "js \<Rightarrow> int option" where
  "field_positive = field_int 1 MAX_SAFE_INTEGER"

definition field_object :: "(js \<Rightarrow> 'a option) \<Rightarrow> js \<Rightarrow> 'a option" where
  "field_object p v = (case v of JsObj kvs \<Rightarrow> p v | _ \<Rightarrow> None)"

definition field_optional :: "(js \<Rightarrow> 'a option) \<Rightarrow> js \<Rightarrow> 'a option option" where
  "field_optional p v = (if v = JsUndefined then Some None else map_option Some (p v))"

definition field_nullable :: "(js \<Rightarrow> 'a option) \<Rightarrow> js \<Rightarrow> 'a option option" where
  "field_nullable p v = (if v = JsNull then Some None else map_option Some (p v))"

text \<open>\<open>prefault({})\<close>: an absent value is parsed as an empty object.\<close>

definition field_prefault :: "(js \<Rightarrow> 'a option) \<Rightarrow> js \<Rightarrow> 'a option" where
  "field_prefault p v = p (if v = JsUndefined then JsObj [] else v)"

definition field_array :: "(js \<Rightarrow> 'a option) \<Rightarrow> js \<Rightarrow> 'a list option" where
  "field_array p v = (case v of JsArr vs \<Rightarrow> those (map p vs) | _ \<Rightarrow> None)"

text \<open>\<open>z.record(key, value)\<close>, as the list of its entries.\<close>

definition field_record :: "(string \<Rightarrow> bool) \<Rightarrow> (js \<Rightarrow> 'a option) \<Rightarrow> js \<Rightarrow> (string \<times> 'a) list option" where
  "field_record key p v =
     (case v of
        JsObj kvs \<Rightarrow> those (map (\<lambda>kv. if key (fst kv) then map_option (Pair (fst kv)) (p (snd kv)) else None) kvs)
      | _ \<Rightarrow> None)"

definition field_url :: "(string \<Rightarrow> bool) \<Rightarrow> js \<Rightarrow> string option" where
  "field_url is_url v = (case v of JsStr s \<Rightarrow> if is_url s then Some s else None | _ \<Rightarrow> None)"

definition field_path :: "js \<Rightarrow> string option" where
  "field_path v = (case v of JsStr s \<Rightarrow> if js_starts_with s ''/'' then Some s else None | _ \<Rightarrow> None)"

subsection \<open>The gateway and the camera bridge\<close>

record egress_check_config =
  ec_enabled :: bool
  ec_url :: string
  ec_timeoutSeconds :: int
  ec_probeBinary :: "string option"

record gateway_config =
  gw_image :: string
  gw_logLevel :: string
  gw_env :: "(string \<times> string) list"
  gw_settleMs :: ms
  gw_harden :: bool
  gw_disableIpv6 :: bool
  gw_egressCheck :: egress_check_config

definition egressCheckSchema :: "(string \<Rightarrow> bool) \<Rightarrow> js \<Rightarrow> egress_check_config option" where
  "egressCheckSchema is_url = field_object (\<lambda>v. do {
     enabled \<leftarrow> field_default True field_bool (js_get v ''enabled'');
     url \<leftarrow> field_default ''http://api.ipify.org'' (field_url is_url) (js_get v ''url'');
     timeoutSeconds \<leftarrow> field_default 20 (field_int 1 120) (js_get v ''timeoutSeconds'');
     probeBinary \<leftarrow> field_optional field_nonempty (js_get v ''probeBinary'');
     Some \<lparr>ec_enabled = enabled, ec_url = url, ec_timeoutSeconds = timeoutSeconds,
           ec_probeBinary = probeBinary\<rparr>
   })"

definition proxyGatewayConfigSchema :: "(string \<Rightarrow> bool) \<Rightarrow> js \<Rightarrow> gateway_config option" where
  "proxyGatewayConfigSchema is_url = field_object (\<lambda>v. do {
     image \<leftarrow> field_default ''xjasonlyu/tun2socks:v2.5.1'' field_nonempty (js_get v ''image'');
     logLevel \<leftarrow> field_default ''info'' (field_enum [''debug'', ''info'', ''warn'', ''error'', ''silent''])
                   (js_get v ''logLevel'');
     env \<leftarrow> field_default [] (field_record (\<lambda>k. True) field_string) (js_get v ''env'');
     settleMs \<leftarrow> field_default 2000 (field_int 0 60000) (js_get v ''settleMs'');
     harden \<leftarrow> field_default True field_bool (js_get v ''harden'');
     disableIpv6 \<leftarrow> field_default True field_bool (js_get v ''disableIpv6'');
     egressCheck \<leftarrow> field_prefault (egressCheckSchema is_url) (js_get v ''egressCheck'');
     Some \<lparr>gw_image = image, gw_logLevel = logLevel, gw_env = env, gw_settleMs = settleMs,
           gw_harden = harden, gw_disableIpv6 = disableIpv6, gw_egressCheck = egressCheck\<rparr>
   })"

record bridge_config =
  br_image :: string
  br_sourceUrlTemplate :: string
  br_pixelFormat :: string
  br_width :: int
  br_height :: int
  br_frameRate :: int
  br_settleMs :: ms
  br_extraArgs :: "string list"

definition cameraBridgeConfigSchema :: "js \<Rightarrow> bridge_config option" where
  "cameraBridgeConfigSchema = field_object (\<lambda>v. do {
     image \<leftarrow> field_default ''jrottenberg/ffmpeg:7.1-alpine'' field_nonempty (js_get v ''image'');
     source \<leftarrow> field_default ''rtsp://mediamtx:8554/{stream}'' field_nonempty (js_get v ''sourceUrlTemplate'');
     pixelFormat \<leftarrow> field_default ''yuyv422'' field_nonempty (js_get v ''pixelFormat'');
     width \<leftarrow> field_default 1280 field_positive (js_get v ''width'');
     height \<leftarrow> field_default 720 field_positive (js_get v ''height'');
     frameRate \<leftarrow> field_default 30 (field_int 1 60) (js_get v ''frameRate'');
     settleMs \<leftarrow> field_default 2000 (field_int 0 60000) (js_get v ''settleMs'');
     extraArgs \<leftarrow> field_default [] (field_array field_string) (js_get v ''extraArgs'');
     Some \<lparr>br_image = image, br_sourceUrlTemplate = source, br_pixelFormat = pixelFormat, br_width = width,
           br_height = height, br_frameRate = frameRate, br_settleMs = settleMs, br_extraArgs = extraArgs\<rparr>
   })"

subsection \<open>The two kinds of container\<close>

datatype connect_via = PublishedPort | ContainerName

definition field_connectVia :: "js \<Rightarrow> connect_via option" where
  "field_connectVia v =
     (case v of
        JsStr s \<Rightarrow> if s = ''published-port'' then Some PublishedPort
                   else if s = ''container-name'' then Some ContainerName else None
      | _ \<Rightarrow> None)"

record redroid_config =
  rd_image :: string
  rd_sessionVolume :: "string option"
  rd_connectVia :: connect_via
  rd_connectHost :: string
  rd_network :: "string option"
  rd_controlNetwork :: "string option"
  rd_proxyGateway :: gateway_config
  rd_memoryLimit :: string
  rd_width :: int
  rd_height :: int
  rd_dpi :: int
  rd_gpuMode :: string
  rd_binderfsPath :: "string option"
  rd_useMemfd :: bool
  rd_extraArgs :: "string list"
  rd_startTimeoutSeconds :: int

definition redroidConfigSchema :: "(string \<Rightarrow> bool) \<Rightarrow> js \<Rightarrow> redroid_config option" where
  "redroidConfigSchema is_url = field_object (\<lambda>v. do {
     image \<leftarrow> field_nonempty (js_get v ''image'');
     sessionVolume \<leftarrow> field_optional field_nonempty (js_get v ''sessionVolume'');
     connectVia \<leftarrow> field_default PublishedPort field_connectVia (js_get v ''connectVia'');
     connectHost \<leftarrow> field_default ''127.0.0.1'' field_nonempty (js_get v ''connectHost'');
     network \<leftarrow> field_optional field_nonempty (js_get v ''network'');
     controlNetwork \<leftarrow> field_optional field_nonempty (js_get v ''controlNetwork'');
     proxyGateway \<leftarrow> field_prefault (proxyGatewayConfigSchema is_url) (js_get v ''proxyGateway'');
     memoryLimit \<leftarrow> field_default ''4g'' field_nonempty (js_get v ''memoryLimit'');
     width \<leftarrow> field_default 1080 field_positive (js_get v ''width'');
     height \<leftarrow> field_default 1920 field_positive (js_get v ''height'');
     dpi \<leftarrow> field_default 480 field_positive (js_get v ''dpi'');
     gpuMode \<leftarrow> field_default ''guest'' (field_enum [''guest'', ''host'', ''auto'']) (js_get v ''gpuMode'');
     binderfsPath \<leftarrow> field_default (Some ''/dev/binderfs'') (field_nullable field_nonempty)
                       (js_get v ''binderfsPath'');
     useMemfd \<leftarrow> field_default True field_bool (js_get v ''useMemfd'');
     extraArgs \<leftarrow> field_default [] (field_array field_string) (js_get v ''extraArgs'');
     startTimeoutSeconds \<leftarrow> field_default 120 (field_int 1 900) (js_get v ''startTimeoutSeconds'');
     Some \<lparr>rd_image = image, rd_sessionVolume = sessionVolume, rd_connectVia = connectVia,
           rd_connectHost = connectHost, rd_network = network, rd_controlNetwork = controlNetwork,
           rd_proxyGateway = proxyGateway, rd_memoryLimit = memoryLimit, rd_width = width,
           rd_height = height, rd_dpi = dpi, rd_gpuMode = gpuMode, rd_binderfsPath = binderfsPath,
           rd_useMemfd = useMemfd, rd_extraArgs = extraArgs, rd_startTimeoutSeconds = startTimeoutSeconds\<rparr>
   })"

record camera_config =
  cam_bridge :: bridge_config
  cam_front :: string
  cam_back :: string

definition emulatorCameraSchema :: "js \<Rightarrow> camera_config option" where
  "emulatorCameraSchema = field_object (\<lambda>v. do {
     bridge \<leftarrow> field_prefault cameraBridgeConfigSchema (js_get v ''bridge'');
     front \<leftarrow> field_default ''webcam0'' field_nonempty (js_get v ''front'');
     back \<leftarrow> field_default ''none'' field_nonempty (js_get v ''back'');
     Some \<lparr>cam_bridge = bridge, cam_front = front, cam_back = back\<rparr>
   })"

record emulator_config =
  em_image :: string
  em_avdName :: string
  em_sessionVolume :: "string option"
  em_connectVia :: connect_via
  em_connectHost :: string
  em_network :: "string option"
  em_controlNetwork :: "string option"
  em_cameraNetwork :: "string option"
  em_proxyGateway :: gateway_config
  em_kvmDevice :: string
  em_adbPublicKeyPath :: "string option"
  em_camera :: "camera_config option"
  em_memoryLimit :: string
  em_width :: int
  em_height :: int
  em_dpi :: int
  em_extraArgs :: "string list"
  em_startTimeoutSeconds :: int

definition emulatorConfigSchema :: "(string \<Rightarrow> bool) \<Rightarrow> js \<Rightarrow> emulator_config option" where
  "emulatorConfigSchema is_url = field_object (\<lambda>v. do {
     image \<leftarrow> field_nonempty (js_get v ''image'');
     avdName \<leftarrow> field_default ''onboarding'' field_nonempty (js_get v ''avdName'');
     sessionVolume \<leftarrow> field_optional field_nonempty (js_get v ''sessionVolume'');
     connectVia \<leftarrow> field_default PublishedPort field_connectVia (js_get v ''connectVia'');
     connectHost \<leftarrow> field_default ''127.0.0.1'' field_nonempty (js_get v ''connectHost'');
     network \<leftarrow> field_optional field_nonempty (js_get v ''network'');
     controlNetwork \<leftarrow> field_optional field_nonempty (js_get v ''controlNetwork'');
     cameraNetwork \<leftarrow> field_optional field_nonempty (js_get v ''cameraNetwork'');
     proxyGateway \<leftarrow> field_prefault (proxyGatewayConfigSchema is_url) (js_get v ''proxyGateway'');
     kvmDevice \<leftarrow> field_default ''/dev/kvm'' field_nonempty (js_get v ''kvmDevice'');
     adbPublicKeyPath \<leftarrow> field_optional field_nonempty (js_get v ''adbPublicKeyPath'');
     camera \<leftarrow> field_optional emulatorCameraSchema (js_get v ''camera'');
     memoryLimit \<leftarrow> field_default ''6g'' field_nonempty (js_get v ''memoryLimit'');
     width \<leftarrow> field_default 1080 field_positive (js_get v ''width'');
     height \<leftarrow> field_default 1920 field_positive (js_get v ''height'');
     dpi \<leftarrow> field_default 420 field_positive (js_get v ''dpi'');
     extraArgs \<leftarrow> field_default [] (field_array field_string) (js_get v ''extraArgs'');
     startTimeoutSeconds \<leftarrow> field_default 300 (field_int 1 1800) (js_get v ''startTimeoutSeconds'');
     Some \<lparr>em_image = image, em_avdName = avdName, em_sessionVolume = sessionVolume,
           em_connectVia = connectVia, em_connectHost = connectHost, em_network = network,
           em_controlNetwork = controlNetwork, em_cameraNetwork = cameraNetwork,
           em_proxyGateway = proxyGateway, em_kvmDevice = kvmDevice,
           em_adbPublicKeyPath = adbPublicKeyPath, em_camera = camera, em_memoryLimit = memoryLimit,
           em_width = width, em_height = height, em_dpi = dpi, em_extraArgs = extraArgs,
           em_startTimeoutSeconds = startTimeoutSeconds\<rparr>
   })"

subsection \<open>The credentials of an Android account\<close>

record android_credentials =
  ac_appiumUrl :: string
  ac_adbCommand :: string
  ac_adbHost :: "string option"
  ac_adbPort :: "int option"
  ac_deviceSerial :: "string option"
  ac_redroid :: "redroid_config option"
  ac_emulator :: "emulator_config option"
  ac_remoteVideoPath :: string
  ac_packageName :: string
  ac_activityName :: "string option"
  ac_apkPath :: "string option"
  ac_bootTimeoutSeconds :: int
  ac_appiumTimeoutSeconds :: int
  ac_launchSettleMs :: ms
  ac_flow :: "ui_step list"
  ac_flows :: "(string \<times> ui_step list) list option"
  ac_verifyFlow :: "ui_step list option"

definition androidCredentialsSchema :: "(string \<Rightarrow> bool) \<Rightarrow> js \<Rightarrow> android_credentials option" where
  "androidCredentialsSchema is_url = field_object (\<lambda>v. do {
     appiumUrl \<leftarrow> field_url is_url (js_get v ''appiumUrl'');
     adbCommand \<leftarrow> field_default ''adb'' field_nonempty (js_get v ''adbCommand'');
     adbHost \<leftarrow> field_optional field_nonempty (js_get v ''adbHost'');
     adbPort \<leftarrow> field_optional field_positive (js_get v ''adbPort'');
     deviceSerial \<leftarrow> field_optional field_nonempty (js_get v ''deviceSerial'');
     redroid \<leftarrow> field_optional (redroidConfigSchema is_url) (js_get v ''redroid'');
     emulator \<leftarrow> field_optional (emulatorConfigSchema is_url) (js_get v ''emulator'');
     remoteVideoPath \<leftarrow> field_default ''/sdcard/DCIM/upload.mp4'' field_path (js_get v ''remoteVideoPath'');
     packageName \<leftarrow> field_nonempty (js_get v ''packageName'');
     activityName \<leftarrow> field_optional field_nonempty (js_get v ''activityName'');
     apkPath \<leftarrow> field_optional field_nonempty (js_get v ''apkPath'');
     bootTimeoutSeconds \<leftarrow> field_default 180 (field_int 1 900) (js_get v ''bootTimeoutSeconds'');
     appiumTimeoutSeconds \<leftarrow> field_default 120 (field_int 1 900) (js_get v ''appiumTimeoutSeconds'');
     launchSettleMs \<leftarrow> field_default 3000 (field_int 0 60000) (js_get v ''launchSettleMs'');
     flow \<leftarrow> uiFlowSchema (js_get v ''flow'');
     flows \<leftarrow> field_optional (field_record (\<lambda>k. k \<noteq> []) uiFlowSchema) (js_get v ''flows'');
     verifyFlow \<leftarrow> field_optional uiFlowSchema (js_get v ''verifyFlow'');
     if redroid \<noteq> None \<and> emulator \<noteq> None then None
     else Some \<lparr>ac_appiumUrl = appiumUrl, ac_adbCommand = adbCommand, ac_adbHost = adbHost,
           ac_adbPort = adbPort, ac_deviceSerial = deviceSerial, ac_redroid = redroid,
           ac_emulator = emulator, ac_remoteVideoPath = remoteVideoPath, ac_packageName = packageName,
           ac_activityName = activityName, ac_apkPath = apkPath, ac_bootTimeoutSeconds = bootTimeoutSeconds,
           ac_appiumTimeoutSeconds = appiumTimeoutSeconds, ac_launchSettleMs = launchSettleMs,
           ac_flow = flow, ac_flows = flows, ac_verifyFlow = verifyFlow\<rparr>
   })"

end
