(* ===== verification/Device_Interface.thy ===== *)
theory Device_Interface
  imports Effects
begin

text \<open>
  The interface \<open>AndroidDevice\<close> of \<open>lib/android/device.ts\<close> as a contract: whatever implements it,
  its operations end (the two that wait, as long as time passes) and leave alone the marks the
  driver makes when it acquires and releases a device.
\<close>

definition own_mark :: "event \<Rightarrow> bool" where
  "own_mark e = (case e of EvAcquire b \<Rightarrow> True | EvRelease \<Rightarrow> True | _ \<Rightarrow> False)"

lemma own_mark_simps [simp]:
  "own_mark (EvAcquire b)" "own_mark EvRelease" "\<not> own_mark (EvFetch m u c out)" "\<not> own_mark (EvSleep t)"
  "\<not> own_mark (EvLog l x)" "\<not> own_mark (EvStore k b)" "\<not> own_mark (EvLaunch b)" "\<not> own_mark (EvRunning b)"
  "\<not> own_mark (EvPush p q b)" "\<not> own_mark (EvScan p b)" "\<not> own_mark (EvRemove p b)"
  "\<not> own_mark (EvInstalled b)" "\<not> own_mark (EvInstall p b)" "\<not> own_mark (EvReady t b)"
  "\<not> own_mark (EvHandOver ep)" "\<not> own_mark (EvHuman h)" "\<not> own_mark (EvDescribe p)"
  "\<not> own_mark (EvExec cmd args ex)" "\<not> own_mark (EvLookup host)" "\<not> own_mark (EvDirectIp ip)"
  "\<not> own_mark (EvLease n b)" "\<not> own_mark (EvFree n)"
  "\<not> own_mark (EvJobActive j act)"
  by (simp_all add: own_mark_def)

abbreviation quiet :: "('s, 'a) eff \<Rightarrow> bool" where
  "quiet m \<equiv> emits (\<lambda>e. \<not> own_mark e) m"

text \<open>
  Nor do they start or remove containers, or lease cameras: that is for those who made the device.
\<close>

definition plain_event :: "event \<Rightarrow> bool" where
  "plain_event e = (case e of
       EvAcquire b \<Rightarrow> False | EvRelease \<Rightarrow> False | EvLease n b \<Rightarrow> False | EvFree n \<Rightarrow> False
     | EvExec cmd args out \<Rightarrow> \<not> (cmd = ''docker'' \<and> args \<noteq> [] \<and> hd args \<in> {''run'', ''rm''})
     | _ \<Rightarrow> True)"

lemma plain_event_simps [simp]:
  "plain_event (EvFetch m u c out')" "plain_event (EvSleep t)" "plain_event (EvLog l x)" "plain_event (EvStore k b)"
  "plain_event (EvLaunch b)" "plain_event (EvRunning b)" "plain_event (EvPush p q b)" "plain_event (EvScan p b)"
  "plain_event (EvRemove p b)" "plain_event (EvInstalled b)" "plain_event (EvInstall p b)" "plain_event (EvReady t b)"
  "plain_event (EvHandOver ep)" "plain_event (EvHuman h)" "plain_event (EvDescribe p)" "plain_event (EvLookup host)"
  "plain_event (EvDirectIp ip)" "plain_event (EvJobActive j act)"
  "plain_event (EvExec cmd args out) \<longleftrightarrow> \<not> (cmd = ''docker'' \<and> args \<noteq> [] \<and> hd args \<in> {''run'', ''rm''})"
  "\<not> plain_event (EvLease n b)" "\<not> plain_event (EvFree n)"
  by (simp_all add: plain_event_def)

lemma plain_unmarked: "plain_event e \<Longrightarrow> \<not> own_mark e"
  by (auto simp: plain_event_def own_mark_def split: event.splits)

abbreviation plain :: "('s, 'a) eff \<Rightarrow> bool" where
  "plain m \<equiv> emits plain_event m"

lemma plain_quiet: "plain m \<Longrightarrow> quiet m"
  by (erule emits_mono) (rule plain_unmarked)

locale android_device =
  fixes E :: "'s device_env" and dev :: "'s device"
  assumes ready_settles: "clock_laws E \<Longrightarrow> settles (dv_waitUntilReady dev t)"
    and push_settles: "clock_laws E \<Longrightarrow> settles (dv_pushMedia dev l p)"
    and scan_settles: "settles (dv_scanMedia dev p)"
    and launch_settles: "settles (dv_launch dev pkg act)"
    and running_settles: "settles (dv_isAppRunning dev pkg)"
    and installed_settles: "settles (dv_isPackageInstalled dev pkg)"
    and install_settles: "settles (dv_installPackage dev apk)"
    and push_file_settles: "settles (dv_pushFile dev l p)"
    and remove_settles: "settles (dv_removeFile dev p)"
    and probe_settles: "settles (dv_probe dev args sig)"
    and ready_plain: "plain (dv_waitUntilReady dev t)"
    and push_plain: "plain (dv_pushMedia dev l p)"
    and scan_plain: "plain (dv_scanMedia dev p)"
    and launch_plain: "plain (dv_launch dev pkg act)"
    and running_plain: "plain (dv_isAppRunning dev pkg)"
    and installed_plain: "plain (dv_isPackageInstalled dev pkg)"
    and install_plain: "plain (dv_installPackage dev apk)"
    and push_file_plain: "plain (dv_pushFile dev l p)"
    and remove_plain: "plain (dv_removeFile dev p)"
    and probe_plain: "plain (dv_probe dev args sig)"
begin

lemmas device_settles = scan_settles launch_settles running_settles installed_settles install_settles
  push_file_settles remove_settles probe_settles

lemmas device_waits = ready_settles push_settles

lemmas device_plain = ready_plain push_plain scan_plain launch_plain running_plain installed_plain install_plain
  push_file_plain remove_plain probe_plain

lemmas ready_quiet = ready_plain [THEN plain_quiet]
lemmas push_quiet = push_plain [THEN plain_quiet]
lemmas scan_quiet = scan_plain [THEN plain_quiet]
lemmas launch_quiet = launch_plain [THEN plain_quiet]
lemmas running_quiet = running_plain [THEN plain_quiet]
lemmas installed_quiet = installed_plain [THEN plain_quiet]
lemmas install_quiet = install_plain [THEN plain_quiet]
lemmas push_file_quiet = push_file_plain [THEN plain_quiet]
lemmas remove_quiet = remove_plain [THEN plain_quiet]
lemmas probe_quiet = probe_plain [THEN plain_quiet]

lemmas device_quiet = ready_quiet push_quiet scan_quiet launch_quiet running_quiet installed_quiet install_quiet
  push_file_quiet remove_quiet probe_quiet

end

end
