(* ===== verification/Iso_Date.thy ===== *)
theory Iso_Date
  imports Js_Text
begin

text \<open>
  \<open>new Date(t).toISOString()\<close>, for the instants from 1970 on whose year has four digits, and
  \<open>Date.parse\<close> on strings of that form. What \<open>Date.parse\<close> makes of other strings differs between engines:
  it is a parameter. A string it prints is read back as the instant it was printed from.
\<close>

definition leap_year :: "nat \<Rightarrow> bool" where
  "leap_year y \<longleftrightarrow> y mod 4 = 0 \<and> (y mod 100 \<noteq> 0 \<or> y mod 400 = 0)"

definition month_lengths :: "nat \<Rightarrow> nat list" where
  "month_lengths y = [31, if leap_year y then 29 else 28, 31, 30, 31, 30, 31, 31, 30, 31, 30, 31]"

definition year_length :: "nat \<Rightarrow> nat" where
  "year_length y = (if leap_year y then 366 else 365)"

lemma year_length_months: "sum_list (month_lengths y) = year_length y"
  by (simp add: month_lengths_def year_length_def)

text \<open>The year, and the day in it, of a day counted from the first of January of \<open>y\<close>.\<close>

function year_of :: "nat \<Rightarrow> nat \<Rightarrow> nat \<times> nat" where
  "year_of y d = (if d < year_length y then (y, d) else year_of (Suc y) (d - year_length y))"
  by pat_completeness auto
termination by (relation "measure snd") (auto simp: year_length_def)

declare year_of.simps [simp del]

fun month_of :: "nat \<Rightarrow> nat list \<Rightarrow> nat \<Rightarrow> nat \<times> nat" where
  "month_of m [] d = (m, d)"
| "month_of m (l # ls) d = (if d < l then (m, d) else month_of (Suc m) ls (d - l))"

fun days_before :: "nat \<Rightarrow> nat \<Rightarrow> nat" where
  "days_before y 0 = 0"
| "days_before y (Suc n) = year_length y + days_before (Suc y) n"

definition day_number :: "nat \<Rightarrow> nat \<Rightarrow> nat \<Rightarrow> nat" where
  "day_number y m d = days_before 1970 (y - 1970) + sum_list (take (m - 1) (month_lengths y)) + (d - 1)"

definition pad :: "nat \<Rightarrow> nat \<Rightarrow> string" where
  "pad k n = replicate (k - length (show_nat n)) (CHR ''0'') @ show_nat n"

definition toISOString :: "ms \<Rightarrow> string" where
  "toISOString t =
     (let n = nat t; (y, yd) = year_of 1970 (n div 86400000); (m, md) = month_of 1 (month_lengths y) yd;
          s = n mod 86400000
      in pad 4 y @ ''-'' @ pad 2 m @ ''-'' @ pad 2 (md + 1) @ ''T'' @ pad 2 (s div 3600000) @ '':''
         @ pad 2 (s div 60000 mod 60) @ '':'' @ pad 2 (s div 1000 mod 60) @ ''.'' @ pad 3 (s mod 1000) @ ''Z'')"

text \<open>The digits at a place of the string, and whether the rest has the form.\<close>

definition field_at :: "nat \<Rightarrow> nat \<Rightarrow> string \<Rightarrow> nat" where
  "field_at i k s = nat (digits_value (take k (drop i s)))"

definition iso_shape :: "string \<Rightarrow> bool" where
  "iso_shape s \<longleftrightarrow> length s = 24
     \<and> list_all (\<lambda>i. digit (s ! i)) [0, 1, 2, 3, 5, 6, 8, 9, 11, 12, 14, 15, 17, 18, 20, 21, 22]
     \<and> s ! 4 = CHR ''-'' \<and> s ! 7 = CHR ''-'' \<and> s ! 10 = CHR ''T'' \<and> s ! 13 = CHR '':'' \<and> s ! 16 = CHR '':''
     \<and> s ! 19 = CHR ''.'' \<and> s ! 23 = CHR ''Z''"

definition iso_parse :: "string \<Rightarrow> ms option" where
  "iso_parse s =
     (let y = field_at 0 4 s; m = field_at 5 2 s; d = field_at 8 2 s;
          h = field_at 11 2 s; mi = field_at 14 2 s; se = field_at 17 2 s; ml = field_at 20 3 s
      in if iso_shape s \<and> 1970 \<le> y \<and> 1 \<le> m \<and> m \<le> 12 \<and> 1 \<le> d \<and> d \<le> month_lengths y ! (m - 1)
            \<and> h < 24 \<and> mi < 60 \<and> se < 60
         then Some (int (day_number y m d * 86400000 + h * 3600000 + mi * 60000 + se * 1000 + ml))
         else None)"

definition Date_parse :: "(string \<Rightarrow> ms option) \<Rightarrow> string \<Rightarrow> ms option" where
  "Date_parse other s = (case iso_parse s of Some t \<Rightarrow> Some t | None \<Rightarrow> other s)"

lemma digit_chars:
  "char_of (48 :: nat) = CHR ''0''" "char_of (49 :: nat) = CHR ''1''" "char_of (50 :: nat) = CHR ''2''"
  "char_of (51 :: nat) = CHR ''3''" "char_of (52 :: nat) = CHR ''4''" "char_of (53 :: nat) = CHR ''5''"
  "char_of (54 :: nat) = CHR ''6''" "char_of (55 :: nat) = CHR ''7''" "char_of (56 :: nat) = CHR ''8''"
  "char_of (57 :: nat) = CHR ''9''"
  by code_simp+

lemma iso_example: "toISOString 5345678 = ''1970-01-01T01:29:05.678Z''"
proof -
  have "year_of 1970 0 = (1970, 0)" by (subst year_of.simps) (simp add: year_length_def leap_year_def)
  moreover have "month_of 1 (month_lengths 1970) 0 = (1, 0)" by (simp add: month_lengths_def)
  moreover have "pad 4 1970 = ''1970''" "pad 2 1 = ''01''" "pad 2 29 = ''29''" "pad 2 5 = ''05''" "pad 3 678 = ''678''"
    by code_simp+
  ultimately show ?thesis by (simp add: toISOString_def Let_def)
qed

subsection \<open>What is printed is read back\<close>

lemma year_of_sum:
  "year_of y d = (z, e) \<Longrightarrow> y \<le> z \<and> days_before y (z - y) + e = d \<and> e < year_length z"
proof (induction y d arbitrary: z e rule: year_of.induct)
  case (1 y d)
  show ?case
  proof (cases "d < year_length y")
    case True
    with "1.prems" show ?thesis by (subst (asm) year_of.simps) auto
  next
    case False
    with "1.prems" have "year_of (Suc y) (d - year_length y) = (z, e)" by (subst (asm) year_of.simps) auto
    from "1.IH" [OF False this] have "Suc y \<le> z" "days_before (Suc y) (z - Suc y) + e = d - year_length y"
      "e < year_length z" by auto
    moreover have "days_before y (z - y) = year_length y + days_before (Suc y) (z - Suc y)"
      using \<open>Suc y \<le> z\<close> days_before.simps(2) [of y "z - Suc y"] by (simp add: Suc_diff_Suc)
    ultimately show ?thesis using False by simp
  qed
qed

lemma month_of_sum:
  "month_of k ls d = (m, e) \<Longrightarrow> d < sum_list ls
    \<Longrightarrow> k \<le> m \<and> m < k + length ls \<and> sum_list (take (m - k) ls) + e = d \<and> e < ls ! (m - k)"
proof (induction ls arbitrary: k d)
  case (Cons l ls)
  show ?case
  proof (cases "d < l")
    case False
    with Cons.IH [of "Suc k" "d - l"] Cons.prems have
      "Suc k \<le> m" "m < Suc k + length ls" "sum_list (take (m - Suc k) ls) + e = d - l" "e < ls ! (m - Suc k)"
      by auto
    moreover then have "m - k = Suc (m - Suc k)" by simp
    ultimately show ?thesis using False by simp
  qed (use Cons.prems in simp)
qed simp

lemma digits_zeros: "digits_value (replicate n (CHR ''0'') @ s) = digits_value s"
  by (induction n) (simp_all add: digits_value_def digit_value_def)

lemma show_nat_length: "0 < k \<Longrightarrow> n < 10 ^ k \<Longrightarrow> length (show_nat n) \<le> k"
proof (induction k arbitrary: n)
  case (Suc k)
  show ?case
  proof (cases "n < 10")
    case True
    then show ?thesis by (subst show_nat.simps) simp
  next
    case False
    then have "0 < k" using Suc.prems(2) by (cases k) auto
    with Suc.IH [of "n div 10"] Suc.prems False show ?thesis
      by (subst show_nat.simps) (simp add: less_mult_imp_div_less mult.commute)
  qed
qed simp

lemma pad_facts:
  assumes "0 < k" and "n < 10 ^ k"
  shows "length (pad k n) = k" "list_all digit (pad k n)" "nat (digits_value (pad k n)) = n"
  using show_nat_length [OF assms] show_nat_parses [of n]
  by (auto simp: pad_def digits_zeros list_all_iff digit_def)

lemma clock_sum:
  fixes s :: nat
  shows "s div 3600000 * 3600000 + s div 60000 mod 60 * 60000 + s div 1000 mod 60 * 1000 + s mod 1000 = s"
proof -
  have "s div 60000 = s div 1000 div 60" "s div 3600000 = s div 60000 div 60"
    by (simp_all flip: div_mult2_eq)
  with div_mult_mod_eq [of "s div 1000" 60] div_mult_mod_eq [of "s div 60000" 60] div_mult_mod_eq [of s 1000]
  show ?thesis by linarith
qed

text \<open>
  The age the reaper gives a container is its true age: the creation time a provider writes in
  a container's label is read back as the very millisecond, for every instant up to the year 9999.
\<close>

theorem Date_parse_toISOString:
  assumes "0 \<le> t" and "fst (year_of 1970 (nat t div 86400000)) < 10000"
  shows "Date_parse other (toISOString t) = Some t"
proof -
  define n where "n = nat t"
  obtain y yd where y: "year_of 1970 (n div 86400000) = (y, yd)" by fastforce
  obtain m md where m: "month_of 1 (month_lengths y) yd = (m, md)" by fastforce
  define h mi se ml where fields: "h = n mod 86400000 div 3600000" "mi = n mod 86400000 div 60000 mod 60"
    "se = n mod 86400000 div 1000 mod 60" "ml = n mod 86400000 mod 1000"
  have year: "1970 \<le> y" "days_before 1970 (y - 1970) + yd = n div 86400000" "yd < sum_list (month_lengths y)"
    "y < 10000"
    using year_of_sum [OF y] y assms(2) by (simp_all add: year_length_months n_def)
  have month: "1 \<le> m" "m \<le> 12" "sum_list (take (m - 1) (month_lengths y)) + md = yd" "md < month_lengths y ! (m - 1)"
    using month_of_sum [OF m year(3)] by (auto simp: month_lengths_def)
  have "set (month_lengths y) \<subseteq> {28, 29, 30, 31}" "m - 1 < length (month_lengths y)"
    using month(1,2) by (auto simp: month_lengths_def)
  then have "month_lengths y ! (m - 1) < 32" using nth_mem by fastforce
  then have day: "md + 1 < 100" using month(4) by simp
  have small: "h < 24" "mi < 60" "se < 60" "ml < 1000" unfolding fields by (simp_all add: less_mult_imp_div_less)
  from pad_facts [of 4 y] pad_facts [of 2 m] pad_facts [of 2 "md + 1"] pad_facts [of 2 h] pad_facts [of 2 mi]
    pad_facts [of 2 se] pad_facts [of 3 ml] year(4) month(2) day small
  have pads: "length (pad 4 y) = 4 \<and> list_all digit (pad 4 y) \<and> nat (digits_value (pad 4 y)) = y"
    "length (pad 2 m) = 2 \<and> list_all digit (pad 2 m) \<and> nat (digits_value (pad 2 m)) = m"
    "length (pad 2 (md + 1)) = 2 \<and> list_all digit (pad 2 (md + 1)) \<and> nat (digits_value (pad 2 (md + 1))) = md + 1"
    "length (pad 2 h) = 2 \<and> list_all digit (pad 2 h) \<and> nat (digits_value (pad 2 h)) = h"
    "length (pad 2 mi) = 2 \<and> list_all digit (pad 2 mi) \<and> nat (digits_value (pad 2 mi)) = mi"
    "length (pad 2 se) = 2 \<and> list_all digit (pad 2 se) \<and> nat (digits_value (pad 2 se)) = se"
    "length (pad 3 ml) = 3 \<and> list_all digit (pad 3 ml) \<and> nat (digits_value (pad 3 ml)) = ml"
    by simp_all
  obtain a1 a2 a3 a4 b1 b2 c1 c2 d1 d2 e1 e2 f1 f2 g1 g2 g3 where digits:
    "pad 4 y = [a1, a2, a3, a4]" "pad 2 m = [b1, b2]" "pad 2 (md + 1) = [c1, c2]" "pad 2 h = [d1, d2]"
    "pad 2 mi = [e1, e2]" "pad 2 se = [f1, f2]" "pad 3 ml = [g1, g2, g3]"
    using pads by (auto simp: length_Suc_conv numeral_eq_Suc)
  have string: "toISOString t = [a1, a2, a3, a4, CHR ''-'', b1, b2, CHR ''-'', c1, c2, CHR ''T'', d1, d2, CHR '':'',
      e1, e2, CHR '':'', f1, f2, CHR ''.'', g1, g2, g3, CHR ''Z'']"
    unfolding toISOString_def Let_def n_def [symmetric] y prod.case m fields [symmetric] digits by simp
  have "day_number y m (md + 1) = n div 86400000"
    using year(2) month(3) by (simp add: day_number_def)
  moreover have "n div 86400000 * 86400000 + h * 3600000 + mi * 60000 + se * 1000 + ml = n"
    unfolding fields using clock_sum [of "n mod 86400000"] div_mult_mod_eq [of n 86400000] by linarith
  ultimately have sum: "day_number y m (md + 1) * 86400000 + h * 3600000 + mi * 60000 + se * 1000 + ml = n" by simp
  have parts: "field_at 0 4 (toISOString t) = y" "field_at 5 2 (toISOString t) = m" "field_at 8 2 (toISOString t) = md + 1"
    "field_at 11 2 (toISOString t) = h" "field_at 14 2 (toISOString t) = mi" "field_at 17 2 (toISOString t) = se"
    "field_at 20 3 (toISOString t) = ml"
    using pads unfolding digits by (simp_all add: field_at_def string)
  have "iso_shape (toISOString t)" using pads unfolding digits by (simp add: iso_shape_def string)
  then have "iso_parse (toISOString t) = Some (int n)"
    unfolding iso_parse_def parts Let_def using year(1) month small sum by simp
  then show ?thesis using assms(1) by (simp add: Date_parse_def n_def)
qed

end
