(* ===== verification/Gateway.thy ===== *)
theory Gateway
  imports Docker Device_Config Device_Interface Iso_Date
begin

text \<open>
  \<open>lib/android/proxyGateway.ts\<close>: the container that carries a device's traffic to the account's
  proxy. The loop that watches a container that was just started is shared with the camera bridge.
\<close>

definition gatewayContainerName :: "string \<Rightarrow> string" where
  "gatewayContainerName jobId = take 60 (''redroid-gw-'' @ jobId)"

record 's gateway =
  gt_name :: string
  gt_networkMode :: string
  gt_controlSubnets :: "string list"
  gt_remove :: "('s, unit) eff"

record gateway_options =
  go_proxy :: proxy_runtime
  go_jobId :: string
  go_accountId :: string
  go_config :: gateway_config
  go_network :: "string option"
  go_controlNetwork :: "string option"
  go_publishContainerPort :: "nat option"

subsection \<open>Watching a container start\<close>

text \<open>The end of a round: \<open>setTimeout\<close> for what is left until the deadline, between 1 and 500 ms.\<close>

definition watch_pause :: "'s device_env \<Rightarrow> ms \<Rightarrow> ('s, unit + unit) eff" where
  "watch_pause E deadline =
     bindE (nowE E) (\<lambda>now. if now \<ge> deadline then stop ()
       else bindE (nowE E) (\<lambda>now'. thenE (sleepE E (min 500 (max 1 (deadline - now')))) (again ())))"

definition watch_container :: "'s device_env \<Rightarrow> string \<Rightarrow> ms \<Rightarrow> string \<Rightarrow> string \<Rightarrow> ('s, unit) eff" where
  "watch_container E name settleMs cancelled exited =
     bindE (nowE E) (\<lambda>start. loopE (\<lambda>u.
       bindE (abortedE E) (\<lambda>aborted.
         if aborted then throwE (GenericError cancelled)
         else bindE (isRunning E name JobSignal) (\<lambda>running.
           if \<not> running then throwE (GenericError exited) else watch_pause E (start + settleMs)))) ())"

definition assertStillRunning :: "'s device_env \<Rightarrow> string \<Rightarrow> ms \<Rightarrow> ('s, unit) eff" where
  "assertStillRunning E name settleMs =
     watch_container E name settleMs ''Cancelled while starting the egress gateway''
       (''The egress gateway '' @ name @ '' exited on startup. tun2socks does this when the proxy URL ''
        @ ''cannot be parsed, or when /dev/net/tun is missing on the host (modprobe tun).'')"

subsection \<open>Starting and removing\<close>

definition remove_and_log ::
  "'s device_env \<Rightarrow> string \<Rightarrow> string \<Rightarrow> (string \<times> js) list \<Rightarrow> string \<Rightarrow> ('s, unit) eff" where
  "remove_and_log E name done_msg data failed_msg =
     catchE (thenE (docker_remove E name) (logE E INFO done_msg (Some (JsObj ((''container'', JsStr name) # data)))))
       (\<lambda>cause. logE E WARN failed_msg
         (Some (JsObj [(''container'', JsStr name), (''error'', JsStr (exn_message cause))])))"

definition gateway_remove :: "'s device_env \<Rightarrow> string \<Rightarrow> ('s, unit) eff" where
  "gateway_remove E name =
     remove_and_log E name ''Egress gateway removed'' [] ''Could not remove the egress gateway; the reaper will collect it''"

definition gateway_env :: "gateway_config \<Rightarrow> proxy_runtime \<Rightarrow> (string \<times> string) list" where
  "gateway_env cfg proxy =
     put ''LOGLEVEL'' (gw_logLevel cfg) (put ''PROXY'' (proxyUrl proxy) (gw_env cfg))"

definition gateway_spec :: "gateway_options \<Rightarrow> ms \<Rightarrow> run_spec" where
  "gateway_spec opts now =
     \<lparr>rs_image = gw_image (go_config opts), rs_name = gatewayContainerName (go_jobId opts),
      rs_labels = [(OWNER_LABEL, OWNER_VALUE), (JOB_LABEL, go_jobId opts), (ACCOUNT_LABEL, go_accountId opts),
                   (ROLE_LABEL, GATEWAY_ROLE), (CREATED_AT_LABEL, toISOString now)],
      rs_publishContainerPort = go_publishContainerPort opts, rs_volumes = [],
      rs_env = gateway_env (go_config opts) (go_proxy opts), rs_privileged = False,
      rs_capAdd = [''NET_ADMIN''], rs_devices = [''/dev/net/tun''], rs_network = go_network opts,
      rs_sysctls = (if gw_disableIpv6 (go_config opts)
                    then [(''net.ipv6.conf.all.disable_ipv6'', ''1''), (''net.ipv6.conf.default.disable_ipv6'', ''1'')]
                    else []),
      rs_memoryLimit = None, rs_command = []\<rparr>"

text \<open>The \<open>catch\<close> of a container that did not come up: its last words, its removal, the error.\<close>

definition give_up :: "'s device_env \<Rightarrow> string \<Rightarrow> ('s, unit) eff \<Rightarrow> exn \<Rightarrow> ('s, 'a) eff" where
  "give_up E name remove error =
     bindE (docker_logs E name 40) (\<lambda>logs.
       thenE remove
         (throwE (GenericError (exn_message error
            @ (if logs \<noteq> [] then lf @ ''--- last lines of '' @ name @ '' ---'' @ lf @ logs else [])))))"

definition attach_control :: "'s device_env \<Rightarrow> string \<Rightarrow> string option \<Rightarrow> ('s, string list) eff" where
  "attach_control E name controlNetwork =
     (if opt_truthy controlNetwork
      then thenE (connectNetwork E (the controlNetwork) name JobSignal)
           (bindE (networkSubnets E (the controlNetwork) JobSignal) (\<lambda>subnets.
             thenE (logE E INFO ''Attached the gateway to the control network''
               (Some (JsObj [(''container'', JsStr name), (''network'', JsStr (the controlNetwork)),
                             (''subnets'', JsArr (map JsStr subnets))])))
             (ret subnets)))
      else ret [])"

definition startProxyGateway :: "'s device_env \<Rightarrow> gateway_options \<Rightarrow> ('s, 's gateway) eff" where
  "startProxyGateway E opts =
     (let name = gatewayContainerName (go_jobId opts)
      in thenE (ignoreE (docker_remove E name))
         (thenE (logE E INFO ''Starting the egress gateway for this account''
            (Some (JsObj [(''container'', JsStr name), (''image'', JsStr (gw_image (go_config opts))),
                          (''egress'', JsStr (redactProxyUrl (go_proxy opts)))])))
         (bindE (nowE E) (\<lambda>now.
          thenE (docker_run E (gateway_spec opts now) JobSignal)
         (bindE (catchE
            (thenE (assertStillRunning E name (gw_settleMs (go_config opts)))
              (attach_control E name (go_controlNetwork opts)))
            (give_up E name (gateway_remove E name))) (\<lambda>controlSubnets.
          ret \<lparr>gt_name = name, gt_networkMode = ''container:'' @ name, gt_controlSubnets = controlSubnets,
               gt_remove = gateway_remove E name\<rparr>))))))"

subsection \<open>Every call ends\<close>

lemma watch_pause_paced: "clock_laws E \<Longrightarrow> paced E deadline (watch_pause E deadline)"
  unfolding paced_def watch_pause_def
  by (auto simp: nowE_def elim!: bindE_Inr split: if_splits) (fastforce dest: sleep_clock)

lemma watch_settles: "clock_laws E \<Longrightarrow> settles (watch_container E name t c x)"
  unfolding watch_container_def
  by (rule settles_deadline_loop [where t = t]; intro settles_intros paced_intros forwards_intros watch_pause_paced)
    (auto simp: abortedE_def watch_pause_def intro!: settles_intros)

lemma remove_returns: "returns (\<lambda>_. True) (remove_and_log E name a b c)"
  unfolding remove_and_log_def
  by (intro returns_calm) (auto simp: logE_def intro!: settles_intros throws_intros)

lemma settles_removal [settles_intros]: "settles (remove_and_log E name a b c)" "settles (gateway_remove E name)"
  unfolding remove_and_log_def gateway_remove_def by (auto intro!: settles_intros)

lemma settles_give_up [settles_intros]: "settles rm \<Longrightarrow> settles (give_up E name rm e)"
  unfolding give_up_def by (auto intro!: settles_intros)

lemma startProxyGateway_settles: "clock_laws E \<Longrightarrow> settles (startProxyGateway E opts)"
  unfolding startProxyGateway_def attach_control_def assertStillRunning_def Let_def
  by (auto intro!: settles_intros watch_settles)

lemma plain_watch [emits_intros]: "plain (watch_container E name t c x)"
  unfolding watch_container_def watch_pause_def isRunning_def by (auto intro!: emits_intros)

lemma plain_attach [emits_intros]: "plain (attach_control E name net)"
  unfolding attach_control_def connectNetwork_def networkSubnets_def
  by (auto intro!: emits_intros split: exn.splits)

lemma plain_logs [emits_intros]: "plain (docker_logs E name n)" "plain (isRunning E name sig)"
  "plain (hostPort E name port sig)" "plain (ensureVolume E name ls)" "plain (listByLabel E l v)"
  unfolding docker_ops by (auto intro!: emits_intros)

lemma quiet_docker_ops [emits_intros]: "quiet (docker_run E spec sig)" "quiet (docker_remove E name)"
  unfolding docker_ops by (auto intro!: emits_intros)

lemma quiet_removal [emits_intros]:
  "quiet (remove_and_log E name a b m)" "quiet (gateway_remove E name)" "quiet rm \<Longrightarrow> quiet (give_up E name rm e)"
  unfolding remove_and_log_def gateway_remove_def give_up_def
  by (auto intro!: emits_intros plain_quiet [OF plain_logs(1)])

lemma quiet_startProxyGateway [emits_intros]: "quiet (startProxyGateway E opts)"
  unfolding startProxyGateway_def assertStillRunning_def Let_def
  by (intro emits_intros plain_quiet [OF plain_watch] plain_quiet [OF plain_attach]) simp_all

subsection \<open>The environment of the gateway\<close>

lemma filter_key: "distinct (map fst xs) \<Longrightarrow> map_of xs k = Some v \<Longrightarrow> filter (\<lambda>kv. fst kv = k) xs = [(k, v)]"
proof (induction xs)
  case (Cons x xs)
  show ?case
  proof (cases "fst x = k")
    case True
    with Cons.prems have "\<forall>kv \<in> set xs. fst kv \<noteq> k" by (auto simp: image_iff)
    then have "filter (\<lambda>kv. fst kv = k) xs = []" by (simp add: filter_empty_conv)
    with True Cons.prems show ?thesis by (cases x) simp
  qed (use Cons in \<open>cases x; simp\<close>)
qed simp

text \<open>
  No setting of the operator can send an account's traffic through another proxy: of the
  variables the gateway's container is given, whatever the configuration adds, \<open>PROXY\<close> is the URL of
  the proxy the account was assigned, once, and it is among the arguments \<open>docker run\<close> gets.
\<close>

theorem gateway_proxy_fixed:
  fixes opts :: gateway_options and now :: ms
  defines "env \<equiv> gateway_env (go_config opts) (go_proxy opts)"
  assumes "distinct (map fst (gw_env (go_config opts)))"
  shows "filter (\<lambda>kv. fst kv = ''PROXY'') env = [(''PROXY'', proxyUrl (go_proxy opts))]
    \<and> (\<exists>a b. run_args (gateway_spec opts now) = a @ flag_each ''--env'' (pairs ''='' env) @ b)"
proof
  have keys: "distinct (map fst env)" using assms(2) by (simp add: env_def gateway_env_def put_keys)
  have "map_of env ''PROXY'' = Some (proxyUrl (go_proxy opts))" by (simp add: env_def gateway_env_def map_of_put)
  with keys show "filter (\<lambda>kv. fst kv = ''PROXY'') env = [(''PROXY'', proxyUrl (go_proxy opts))]" by (rule filter_key)
  show "\<exists>a b. run_args (gateway_spec opts now) = a @ flag_each ''--env'' (pairs ''='' env) @ b"
    unfolding run_args_def gateway_spec_def env_def run_spec.simps
    by (metis append.assoc)
qed

end
