(* ===== verification/Egress_Policy.thy ===== *)
theory Egress_Policy
  imports Docker Device_Interface
begin

text \<open>
  \<open>lib/android/egressPolicy.ts\<close>: the script that pins the network namespace of a device to its
  proxy gateway, as text, and its application. The firewall chain of the script is the print of a
  list of rules, whose effect on a packet is proved below. A dash in a message is a hyphen here.
\<close>

abbreviation sq :: string where "sq \<equiv> [CHR 0x27]"
abbreviation bs :: string where "bs \<equiv> [CHR 0x5C]"

definition CHAIN :: string where
  "CHAIN = ''REDROID_EGRESS''"

record egress_policy =
  pol_table :: string
  pol_mark :: string
  pol_tunDevice :: string
  pol_controlSubnets :: "string list"
  pol_bypassPref :: int
  pol_tunPref :: int
  pol_proxyEndpoints :: "(string \<times> nat) list"
  pol_adbPort :: nat

text \<open>Every caller leaves the ADB port at its default.\<close>

definition policyFromEnv :: "(string \<times> string) list \<Rightarrow> string list \<Rightarrow> (string \<times> nat) list \<Rightarrow> egress_policy" where
  "policyFromEnv env controlSubnets proxyEndpoints =
     \<lparr>pol_table = (case map_of env ''TABLE'' of Some v \<Rightarrow> v | None \<Rightarrow> ''0x22b''),
      pol_mark = (case map_of env ''FWMARK'' of Some v \<Rightarrow> v | None \<Rightarrow> ''0x22b''),
      pol_tunDevice = (case map_of env ''TUN'' of Some v \<Rightarrow> v | None \<Rightarrow> ''tun0''),
      pol_controlSubnets = controlSubnets, pol_bypassPref = 90, pol_tunPref = 100,
      pol_proxyEndpoints = proxyEndpoints, pol_adbPort = 5555\<rparr>"

definition resolveProxyEndpoints :: "'s device_env \<Rightarrow> string \<Rightarrow> nat \<Rightarrow> ('s, (string \<times> nat) list) eff" where
  "resolveProxyEndpoints E host port =
     bindE (perform (\<lambda>_. EvLookup host) (ae_lookup E host)) (\<lambda>found.
       ret (map (\<lambda>address. (address, port)) (case found of Some xs \<Rightarrow> xs | None \<Rightarrow> [])))"

subsection \<open>The script\<close>

definition script_backend :: "string list" where
  \<open>script_backend =
     [''set -eu'',
      ''IPT=""'',
      ''for candidate in iptables-nft iptables-legacy iptables; do'',
      ''  if command -v "$candidate" >/dev/null 2>&1 && "$candidate" -S >/dev/null 2>&1; then'',
      ''    IPT="$candidate"'',
      ''    break'',
      ''  fi'',
      ''done'',
      ''if [ -z "$IPT" ]; then'',
      ''  echo "ERROR: no iptables backend in this container can reach the filter table," '' @ bs,
      ''       "so the egress firewall cannot be built and the device would run unfiltered." >&2'',
      ''  exit 1'',
      ''fi'',
      ''echo "INFO: iptables backend: $IPT"'']\<close>

definition script_routing :: "egress_policy \<Rightarrow> string list" where
  \<open>script_routing p =
     (let bypass = show_int (pol_bypassPref p); second = show_int (pol_bypassPref p + 1);
          tun = show_int (pol_tunPref p); local = show_int (pol_tunPref p - 5)
      in [''BYPASS_TABLE=$(ip route show table all 2>/dev/null | awk -v tun="'' @ pol_tunDevice p @ ''" '' @ sq
            @ ''$1=="default" && index($0, "dev " tun)==0 { t="main"; ''
            @ ''for (i=1;i<=NF;i++) if ($i=="table") t=$(i+1); print t; exit }'' @ sq @ '')'',
          ''BYPASS_TABLE=${BYPASS_TABLE:-main}'',
          ''echo "INFO: bypass table for the gateway'' @ sq @ ''s own traffic: $BYPASS_TABLE"'',
          ''ip rule del pref '' @ bypass @ '' 2>/dev/null || true'',
          ''ip rule del pref '' @ second @ '' 2>/dev/null || true'',
          ''ip rule del pref '' @ tun @ '' 2>/dev/null || true'',
          ''ip rule add fwmark '' @ pol_mark p @ '' lookup "$BYPASS_TABLE" pref '' @ bypass,
          ''ip rule add fwmark '' @ pol_mark p @ '' lookup main pref '' @ second,
          ''while ip rule del pref '' @ local @ '' 2>/dev/null; do :; done'',
          ''for net in $(ip -o -4 route show table all scope link 2>/dev/null |''
            @ '' awk -v tun="'' @ pol_tunDevice p @ ''" '' @ sq @ ''$1 ~ /^[0-9]+'' @ bs @ ''.[0-9]+'' @ bs @ ''.[0-9]+''
            @ bs @ ''.[0-9]+'' @ bs @ ''/[0-9]+$/ &&''
            @ '' index($0, "dev " tun)==0 {print $1}'' @ sq @ '' | sort -u); do'',
          ''  ip rule add to "$net" lookup "$BYPASS_TABLE" pref '' @ local,
          ''done'',
          ''ip rule add lookup '' @ pol_table p @ '' pref '' @ tun])\<close>

definition script_marks :: "egress_policy \<Rightarrow> string list" where
  \<open>script_marks p =
     (let mangleRule = ''-m mark ! --mark '' @ pol_mark p @ ''/0xffff -j MARK --set-xmark 0x0/0xffffffff''
      in [''if "$IPT" -t mangle -C OUTPUT '' @ mangleRule @ '' 2>/dev/null || "$IPT" -t mangle -A OUTPUT '' @ mangleRule
            @ '' 2>/dev/null; then :; else'',
          ''  echo "WARN: could not clear netd'' @ sq @ ''s socket marks with $IPT - no mangle table or no MARK target."'',
          ''fi''])\<close>

text \<open>The rules of the chain in order; each is printed as one line of the script.\<close>

datatype acl_rule =
    AllowOut string              \<comment> \<open>an interface\<close>
  | AllowAdbReplies nat
  | AllowEstablished             \<comment> \<open>best effort: needs conntrack\<close>
  | AllowEndpoint string nat
  | AllowMarked string           \<comment> \<open>best effort: needs the mark match\<close>
  | AllowSubnet string
  | RejectRest                   \<comment> \<open>or drop, where there is no REJECT target\<close>

definition acl_rules :: "egress_policy \<Rightarrow> acl_rule list" where
  "acl_rules p =
     [AllowOut ''lo'', AllowOut (pol_tunDevice p), AllowAdbReplies (pol_adbPort p), AllowEstablished]
     @ map (\<lambda>(address, port). AllowEndpoint address port) (pol_proxyEndpoints p)
     @ [AllowMarked (pol_mark p)]
     @ map AllowSubnet (pol_controlSubnets p)
     @ [RejectRest]"

fun acl_line :: "acl_rule \<Rightarrow> string" where
  \<open>acl_line (AllowOut dev) = ''"$IPT" -A '' @ CHAIN @ '' -o '' @ dev @ '' -j ACCEPT''\<close>
| \<open>acl_line (AllowAdbReplies port) = ''"$IPT" -A '' @ CHAIN @ '' -p tcp --sport '' @ show_nat port @ '' -j ACCEPT''\<close>
| \<open>acl_line AllowEstablished =
     ''"$IPT" -A '' @ CHAIN @ '' -m conntrack --ctstate ESTABLISHED,RELATED -j ACCEPT 2>/dev/null ||''
     @ '' echo "WARN: no conntrack match available; only ADB replies are permitted back out."''\<close>
| \<open>acl_line (AllowEndpoint address port) =
     ''"$IPT" -A '' @ CHAIN @ '' -d '' @ address @ '' -p tcp --dport '' @ show_nat port @ '' -j ACCEPT''\<close>
| \<open>acl_line (AllowMarked mark) =
     ''"$IPT" -A '' @ CHAIN @ '' -m mark --mark '' @ mark @ ''/0xffff -j ACCEPT 2>/dev/null ||''
     @ '' echo "WARN: no mark match available; only the resolved proxy addresses are reachable."''\<close>
| \<open>acl_line (AllowSubnet net) = ''"$IPT" -A '' @ CHAIN @ '' -d '' @ net @ '' -j ACCEPT''\<close>
| \<open>acl_line RejectRest =
     ''"$IPT" -A '' @ CHAIN @ '' -j REJECT --reject-with icmp-admin-prohibited 2>/dev/null || "$IPT" -A '' @ CHAIN @ '' -j DROP''\<close>

definition egressPolicyScript :: "egress_policy \<Rightarrow> string" where
  \<open>egressPolicyScript p = js_join lf
     (script_backend @ script_routing p @ script_marks p
      @ [''"$IPT" -N '' @ CHAIN @ '' 2>/dev/null || "$IPT" -F '' @ CHAIN]
      @ map acl_line (acl_rules p)
      @ [''"$IPT" -C OUTPUT -j '' @ CHAIN @ '' 2>/dev/null || "$IPT" -I OUTPUT 1 -j '' @ CHAIN])\<close>

definition applyEgressPolicy :: "'s device_env \<Rightarrow> string \<Rightarrow> egress_policy \<Rightarrow> ('s, unit) eff" where
  "applyEgressPolicy E gatewayName p =
     thenE (logE E INFO ''Pinning the device namespace to the proxy gateway''
       (Some (JsObj [(''container'', JsStr gatewayName), (''tunDevice'', JsStr (pol_tunDevice p)),
                     (''controlSubnets'', JsArr (map JsStr (pol_controlSubnets p)))])))
     (bindE (catchE (docker_exec E gatewayName [''sh'', ''-c'', egressPolicyScript p] JobSignal)
        (\<lambda>cause. throwE (GenericError
           (''Could not pin the network namespace to '' @ pol_tunDevice p @ ''. The device would run with ''
            @ ''Android'' @ sq @ ''s own routing, which sends its traffic out of eth0 regardless of the proxy: ''
            @ exn_message cause)))) (\<lambda>output.
        let warnings = filter (\<lambda>line. js_starts_with line ''WARN:'') (map js_trim (js_lines output))
        in thenE (whenE (warnings \<noteq> [])
             (logE E WARN ''The namespace was pinned, but with a weaker policy than intended''
                (Some (JsObj [(''warnings'', JsArr (map JsStr warnings))]))))
           (bindE (catchE (docker_exec E gatewayName [''ip'', ''rule'', ''show''] JobSignal) (\<lambda>e. ret [])) (\<lambda>rules.
             logE E DEBUG ''Routing rules after hardening''
               (Some (JsObj [(''ipRule'', JsStr (if rules \<noteq> [] then rules else ''(unavailable)''))]))))))"

subsection \<open>What the chain lets out\<close>

text \<open>
  A packet, as far as the rules look at it. Whether an address is in a subnet and a mark matches is
  left to the kernel: \<open>matches\<close>. Rules that need a module the kernel has not are not installed:
  \<open>conntrack\<close> and \<open>marks\<close> say which are. The last rule denies either way.
\<close>

record packet =
  pk_out :: string
  pk_proto :: string
  pk_sport :: nat
  pk_dport :: nat
  pk_dst :: string
  pk_established :: bool
  pk_mark :: string

record kernel =
  kn_conntrack :: bool
  kn_marks :: bool
  kn_in :: "string \<Rightarrow> string \<Rightarrow> bool"       \<comment> \<open>an address and what \<open>-d\<close> names\<close>
  kn_marked :: "string \<Rightarrow> string \<Rightarrow> bool"

fun installed :: "kernel \<Rightarrow> acl_rule \<Rightarrow> bool" where
  "installed k AllowEstablished = kn_conntrack k"
| "installed k (AllowMarked m) = kn_marks k"
| "installed k r = True"

fun rule_matches :: "kernel \<Rightarrow> packet \<Rightarrow> acl_rule \<Rightarrow> bool" where
  "rule_matches k x (AllowOut dev) = (pk_out x = dev)"
| "rule_matches k x (AllowAdbReplies port) = (pk_proto x = ''tcp'' \<and> pk_sport x = port)"
| "rule_matches k x AllowEstablished = pk_established x"
| "rule_matches k x (AllowEndpoint address port) =
     (kn_in k (pk_dst x) address \<and> pk_proto x = ''tcp'' \<and> pk_dport x = port)"
| "rule_matches k x (AllowMarked mark) = kn_marked k (pk_mark x) mark"
| "rule_matches k x (AllowSubnet net) = kn_in k (pk_dst x) net"
| "rule_matches k x RejectRest = True"

text \<open>The verdict of a chain: that of the first rule that matches.\<close>

fun accepts :: "kernel \<Rightarrow> packet \<Rightarrow> acl_rule list \<Rightarrow> bool option" where
  "accepts k x [] = None"
| "accepts k x (r # rs) =
     (if installed k r \<and> rule_matches k x r then Some (r \<noteq> RejectRest) else accepts k x rs)"

lemma accepts_allowing:
  "RejectRest \<notin> set rs \<Longrightarrow> accepts k x (rs @ [RejectRest]) = Some (\<exists>r \<in> set rs. installed k r \<and> rule_matches k x r)"
  by (induction rs) auto

definition may_leave :: "kernel \<Rightarrow> egress_policy \<Rightarrow> packet \<Rightarrow> bool" where
  "may_leave k p x \<longleftrightarrow>
     pk_out x \<in> {''lo'', pol_tunDevice p}
     \<or> (pk_proto x = ''tcp'' \<and> pk_sport x = pol_adbPort p)
     \<or> (kn_conntrack k \<and> pk_established x)
     \<or> (\<exists>(address, port) \<in> set (pol_proxyEndpoints p). kn_in k (pk_dst x) address \<and> pk_proto x = ''tcp'' \<and> pk_dport x = port)
     \<or> (kn_marks k \<and> kn_marked k (pk_mark x) (pol_mark p))
     \<or> (\<exists>net \<in> set (pol_controlSubnets p). kn_in k (pk_dst x) net)"


subsection \<open>Every call ends\<close>

lemma settles_policy [settles_intros]:
  "settles (resolveProxyEndpoints E host port)" "settles (applyEgressPolicy E gw p)"
  unfolding resolveProxyEndpoints_def applyEgressPolicy_def by (auto simp: Let_def intro!: settles_intros)

lemma plain_policy [emits_intros]:
  "plain (resolveProxyEndpoints E host port)" "plain (applyEgressPolicy E gw p)"
  unfolding resolveProxyEndpoints_def applyEgressPolicy_def docker_exec_def by (auto simp: Let_def intro!: emits_intros)

end
