(* ===== verification/Adb.thy ===== *)
theory Adb
  imports Device_Interface Js_Text Proxy_Config
begin

text \<open>
  \<open>lib/android/adb.ts\<close> and \<open>lib/android/device.ts\<close>: the commands of \<open>adb\<close>, which decide from its
  exit code or from what it printed whether they worked, and \<open>AdbDevice\<close>, the device built on
  them. Every command of a device carries the signal of the job, a probe the one it is given.
\<close>

record adb_target =
  tg_serial :: "string option"
  tg_host :: "string option"
  tg_port :: "int option"

definition DEFAULT_ADB_TIMEOUT_MS :: ms where
  "DEFAULT_ADB_TIMEOUT_MS = 600000"

definition UNREACHABLE_PATTERNS :: "string list" where
  "UNREACHABLE_PATTERNS =
     [''device not found'', ''device offline'', ''no devices/emulators found'', ''device unauthorized'',
      ''connection refused'', ''protocol fault'', ''cannot connect to daemon'']"

definition adbError :: "string \<Rightarrow> int \<Rightarrow> string \<Rightarrow> exn" where
  "adbError msg code se =
     AdbError code se (list_ex (js_includes (js_lower (msg @ '' '' @ se))) UNREACHABLE_PATTERNS) msg"

definition buildAdbArgs :: "adb_target option \<Rightarrow> string list" where
  "buildAdbArgs target =
     (case target of
        None \<Rightarrow> []
      | Some t \<Rightarrow>
          (if opt_truthy (tg_host t) then [''-H'', the (tg_host t)] else [])
          @ (case tg_port t of Some p \<Rightarrow> [''-P'', show_int p] | None \<Rightarrow> [])
          @ (if opt_truthy (tg_serial t) then [''-s'', the (tg_serial t)] else []))"

definition exit_code :: "exec_outcome \<Rightarrow> int" where
  "exit_code out = (case out of ExecOk so se \<Rightarrow> 0 | ExecFailed code so se m k \<Rightarrow> (case code of Some n \<Rightarrow> n | None \<Rightarrow> 1))"

definition failure_detail :: "string \<Rightarrow> string \<Rightarrow> bool \<Rightarrow> string" where
  "failure_detail so se killed =
     join_some '' | '' (map js_trim
       [if killed then ''killed after '' @ show_int DEFAULT_ADB_TIMEOUT_MS @ ''ms'' else [],
        se, js_join lf (last_n 3 (js_lines so))])"

definition execAdb ::
  "'s device_env \<Rightarrow> string \<Rightarrow> adb_target option \<Rightarrow> string list \<Rightarrow> exec_signal \<Rightarrow> bool \<Rightarrow> ('s, adb_result) eff" where
  "execAdb E cmd target args sig allowFailure =
     (let commandArgs = buildAdbArgs target @ args
      in bindE (execE E cmd commandArgs sig DEFAULT_ADB_TIMEOUT_MS) (\<lambda>out. case out of
           ExecOk so se \<Rightarrow> ret \<lparr>ar_stdout = js_trim so, ar_stderr = js_trim se, ar_code = 0\<rparr>
         | ExecFailed code so se msg killed \<Rightarrow>
             (let stderr = js_trim se; stdout = js_trim so; exitCode = exit_code out
              in bindE (signalAborted E sig) (\<lambda>aborted.
                 if aborted
                 then throwE (GenericError (''ADB command aborted: '' @ cmd @ '' '' @ js_join '' '' commandArgs))
                 else if allowFailure then ret \<lparr>ar_stdout = stdout, ar_stderr = stderr, ar_code = exitCode\<rparr>
                 else throwE (adbError
                   (''ADB command failed ('' @ cmd @ '' '' @ js_join '' '' commandArgs @ '') exit '' @ show_int exitCode
                    @ '': '' @ first_nonempty [failure_detail stdout stderr killed, msg, ''Error''])
                   exitCode (js_trim (stderr @ lf @ stdout)))))))"

subsection \<open>The commands\<close>

definition adbListDevices :: "'s device_env \<Rightarrow> string \<Rightarrow> adb_target option \<Rightarrow> exec_signal \<Rightarrow> ('s, string list) eff" where
  "adbListDevices E cmd target sig =
     bindE (execAdb E cmd target [''devices'', ''-l''] sig False) (\<lambda>res.
       ret (filter (\<lambda>serial. serial \<noteq> [])
         (map (\<lambda>line. let parts = split_ws line
                in if length parts < 2 \<or> parts ! 1 \<noteq> ''device'' then [] else parts ! 0)
           (filter (\<lambda>line. line \<noteq> [] \<and> \<not> js_starts_with line ''List of devices attached'')
             (map js_trim (js_lines (ar_stdout res)))))))"

definition adbConnect :: "'s device_env \<Rightarrow> string \<Rightarrow> adb_target option \<Rightarrow> string \<Rightarrow> exec_signal \<Rightarrow> ('s, unit) eff" where
  "adbConnect E cmd target address sig =
     bindE (execAdb E cmd target [''connect'', address] sig False) (\<lambda>res.
       if mentions [''unable to connect'', ''failed to connect'', ''cannot connect''] (ar_stdout res)
       then throwE (adbError (''adb connect '' @ address @ '' failed: '' @ ar_stdout res) 1 (ar_stdout res))
       else ret ())"

definition adbDisconnect :: "'s device_env \<Rightarrow> string \<Rightarrow> adb_target option \<Rightarrow> string \<Rightarrow> exec_signal \<Rightarrow> ('s, unit) eff" where
  "adbDisconnect E cmd target address sig =
     thenE (execAdb E cmd target [''disconnect'', address] sig True) (ret ())"

definition adbPushFile :: "'s device_env \<Rightarrow> string \<Rightarrow> adb_target \<Rightarrow> string \<Rightarrow> string \<Rightarrow> ('s, unit) eff" where
  "adbPushFile E cmd target localPath remotePath =
     bindE (execAdb E cmd (Some target) [''push'', localPath, remotePath] JobSignal True) (\<lambda>res.
       let output = js_trim (ar_stdout res @ lf @ ar_stderr res)
       in if ar_code res \<noteq> 0
             \<or> mentions [''error:'', ''failed to copy'', ''No space left'', ''Permission denied'', ''Read-only''] output
          then throwE (adbError (''adb push '' @ localPath @ '' -> '' @ remotePath @ '' failed (exit ''
                 @ show_int (ar_code res) @ ''): '' @ output) (ar_code res) output)
          else ret ())"

definition adbShell :: "'s device_env \<Rightarrow> string \<Rightarrow> adb_target \<Rightarrow> string list \<Rightarrow> ('s, string) eff" where
  "adbShell E cmd target args =
     bindE (execAdb E cmd (Some target) (''shell'' # args) JobSignal False) (\<lambda>res. ret (ar_stdout res))"

definition adbShellProbe ::
  "'s device_env \<Rightarrow> string \<Rightarrow> adb_target \<Rightarrow> string list \<Rightarrow> exec_signal \<Rightarrow> ('s, adb_result) eff" where
  "adbShellProbe E cmd target args sig = execAdb E cmd (Some target) (''shell'' # args) sig True"

definition adbMkdir :: "'s device_env \<Rightarrow> string \<Rightarrow> adb_target \<Rightarrow> string \<Rightarrow> ('s, unit) eff" where
  "adbMkdir E cmd target dir = thenE (adbShell E cmd target [''mkdir'', ''-p'', dir]) (ret ())"

definition adbRemoveFile :: "'s device_env \<Rightarrow> string \<Rightarrow> adb_target \<Rightarrow> string \<Rightarrow> ('s, unit) eff" where
  "adbRemoveFile E cmd target path = thenE (adbShell E cmd target [''rm'', ''-f'', path]) (ret ())"

definition adbStartActivity :: "'s device_env \<Rightarrow> string \<Rightarrow> adb_target \<Rightarrow> string \<Rightarrow> ('s, unit) eff" where
  "adbStartActivity E cmd target component =
     bindE (adbShell E cmd target [''am'', ''start'', ''-W'', ''-n'', component]) (\<lambda>stdout.
       if list_ex (\<lambda>line. js_starts_with line ''Error:'') (regex_lines stdout)
       then throwE (adbError (''am start '' @ component @ '' failed: '' @ stdout) 1 stdout)
       else ret ())"

text \<open>\<open>/^[\w.]+\/[\w.$]+$/\<close>.\<close>

definition is_component :: "string \<Rightarrow> bool" where
  "is_component s =
     (let pkg = takeWhile (\<lambda>c. word_char c \<or> c = CHR ''.'') s; rest = drop (length pkg) s
      in pkg \<noteq> [] \<and> js_starts_with rest ''/'' \<and> length rest > 1
         \<and> list_all (\<lambda>c. word_char c \<or> c = CHR ''.'' \<or> c = CHR ''$'') (drop 1 rest))"

definition adbLaunchPackage :: "'s device_env \<Rightarrow> string \<Rightarrow> adb_target \<Rightarrow> string \<Rightarrow> ('s, unit) eff" where
  "adbLaunchPackage E cmd target pkg =
     bindE (adbShellProbe E cmd target [''cmd'', ''package'', ''resolve-activity'', ''--brief'', pkg] JobSignal) (\<lambda>resolved.
       case (ar_code resolved, last_line (ar_stdout resolved)) of
         (c, line) \<Rightarrow>
           (if c = 0 \<and> line \<noteq> None \<and> is_component (the line)
            then adbStartActivity E cmd target (the line)
            else bindE (adbShellProbe E cmd target
                    [''monkey'', ''-p'', pkg, ''-c'', ''android.intent.category.LAUNCHER'', ''1''] JobSignal) (\<lambda>monkey.
                 let output = ar_stdout monkey @ lf @ ar_stderr monkey
                 in if mentions [''No activities found'', ''Monkey aborted''] output
                    then throwE (adbError (pkg @ '' has no launcher activity, so there is nothing to open. ''
                           @ ''Set activityName in the account credentials to name the entry point explicitly.'')
                           (ar_code monkey) output)
                    else ret ())))"

definition adbIsBootCompleted :: "'s device_env \<Rightarrow> string \<Rightarrow> adb_target \<Rightarrow> ('s, bool) eff" where
  "adbIsBootCompleted E cmd target =
     bindE (adbShellProbe E cmd target [''getprop'', ''sys.boot_completed''] JobSignal) (\<lambda>res.
       ret (ar_code res = 0 \<and> js_trim (ar_stdout res) = ''1''))"

definition adbIsBootAnimationDone :: "'s device_env \<Rightarrow> string \<Rightarrow> adb_target \<Rightarrow> ('s, bool) eff" where
  "adbIsBootAnimationDone E cmd target =
     bindE (adbShellProbe E cmd target [''getprop'', ''init.svc.bootanim''] JobSignal) (\<lambda>res.
       ret (ar_code res = 0 \<and> js_trim (ar_stdout res) = ''stopped''))"

definition adbInstallPackage :: "'s device_env \<Rightarrow> string \<Rightarrow> adb_target \<Rightarrow> string \<Rightarrow> ('s, unit) eff" where
  "adbInstallPackage E cmd target apk =
     bindE (execAdb E cmd (Some target) [''install'', ''-r'', ''-g'', apk] JobSignal False) (\<lambda>res.
       let output = ar_stdout res @ lf @ ar_stderr res
       in if mentions [''Failure'', ''Error:'', ''INSTALL_FAILED''] output
          then throwE (adbError (''adb install '' @ apk @ '' failed: '' @ js_trim output) 1 output)
          else ret ())"

definition adbIsPackageInstalled :: "'s device_env \<Rightarrow> string \<Rightarrow> adb_target \<Rightarrow> string \<Rightarrow> ('s, bool) eff" where
  "adbIsPackageInstalled E cmd target pkg =
     bindE (adbShellProbe E cmd target [''pm'', ''path'', pkg] JobSignal) (\<lambda>res.
       ret (ar_code res = 0 \<and> js_includes (ar_stdout res) ''package:''))"

definition adbFileSize :: "'s device_env \<Rightarrow> string \<Rightarrow> adb_target \<Rightarrow> string \<Rightarrow> ('s, int option) eff" where
  "adbFileSize E cmd target path =
     bindE (adbShellProbe E cmd target [''stat'', ''-c'', ''%s'', path] JobSignal) (\<lambda>res.
       ret (if ar_code res \<noteq> 0 then None else js_parse_int (js_trim (ar_stdout res))))"

definition adbIsAppRunning :: "'s device_env \<Rightarrow> string \<Rightarrow> adb_target \<Rightarrow> string \<Rightarrow> ('s, bool) eff" where
  "adbIsAppRunning E cmd target pkg =
     bindE (adbShellProbe E cmd target [''pidof'', pkg] JobSignal) (\<lambda>res.
       ret (ar_code res = 0 \<and> js_trim (ar_stdout res) \<noteq> []))"

subsection \<open>The device\<close>

definition remoteDirectory :: "string \<Rightarrow> string" where
  "remoteDirectory path =
     (let dir = rev (drop 1 (dropWhile (\<lambda>c. c \<noteq> CHR ''/'') (rev path)))
      in if dir \<noteq> [] then dir else ''/sdcard'')"

lemma remoteDirectory_examples:
  "remoteDirectory ''/sdcard/DCIM/v.mp4'' = ''/sdcard/DCIM''" "remoteDirectory ''/v.mp4'' = ''/sdcard''"
  "remoteDirectory ''v.mp4'' = ''/sdcard''"
  by code_simp+

definition waitForBoot :: "'s device_env \<Rightarrow> string \<Rightarrow> adb_target \<Rightarrow> ms \<Rightarrow> ('s, unit) eff" where
  "waitForBoot E cmd target timeoutMs =
     bindE (nowE E) (\<lambda>start. let deadline = start + timeoutMs in
       loopE (\<lambda>lastError. while_before E deadline
           (bindE (abortedE E) (\<lambda>aborted.
              if aborted then throwE (GenericError ''Cancelled while waiting for the Android device to boot'')
              else bindE (catchE
                     (bindE (adbIsBootCompleted E cmd target) (\<lambda>booted.
                        if booted
                        then bindE (adbIsBootAnimationDone E cmd target) (\<lambda>still. ret (still, lastError))
                        else ret (False, lastError)))
                     (\<lambda>e. ret (False, Some e))) (\<lambda>x.
                   if fst x then stop () else thenE (sleepE E 2000) (again (snd x)))))
           (throwE (GenericError
             (''Android device '' @ (case tg_serial target of Some s \<Rightarrow> s | None \<Rightarrow> ''(default)'')
              @ '' did not report sys.boot_completed=1 within '' @ show_int timeoutMs @ ''ms''
              @ (case lastError of Some e \<Rightarrow> '': '' @ exn_message e | None \<Rightarrow> [])))))
         None)"

definition waitUntilWritable :: "'s device_env \<Rightarrow> string \<Rightarrow> adb_target \<Rightarrow> string \<Rightarrow> ms \<Rightarrow> ('s, unit) eff" where
  "waitUntilWritable E cmd target dir timeoutMs =
     bindE (nowE E) (\<lambda>start. let deadline = start + timeoutMs; probe = dir @ ''/.redroid-writable'' in
       loopE (\<lambda>u. bindE (abortedE E) (\<lambda>aborted.
           if aborted then throwE (GenericError (''Cancelled while waiting for '' @ dir @ '' to become writable''))
           else bindE (adbShellProbe E cmd target [''touch'', probe] JobSignal) (\<lambda>res.
             if ar_code res = 0
             then thenE (ignoreE (adbShellProbe E cmd target [''rm'', ''-f'', probe] JobSignal)) (stop ())
             else let lastOutput = js_trim (ar_stdout res @ '' '' @ ar_stderr res)
                  in until_deadline E deadline 2000
                       (throwE (GenericError (dir @ '' never became writable within '' @ show_int timeoutMs @ ''ms''
                          @ (if lastOutput \<noteq> [] then '': '' @ lastOutput else []))))
                       ())))
         ())"

definition pushMedia :: "'s device_env \<Rightarrow> string \<Rightarrow> adb_target \<Rightarrow> string \<Rightarrow> string \<Rightarrow> ('s, int option) eff" where
  "pushMedia E cmd target localPath remotePath =
     (let dir = remoteDirectory remotePath
      in thenE (adbMkdir E cmd target dir)
         (thenE (waitUntilWritable E cmd target dir 120000)
         (thenE (ignoreE (adbRemoveFile E cmd target remotePath))
         (thenE (adbPushFile E cmd target localPath remotePath)
           (adbFileSize E cmd target remotePath)))))"

definition AdbDevice :: "'s device_env \<Rightarrow> string \<Rightarrow> adb_target \<Rightarrow> 's device" where
  "AdbDevice E cmd target =
     \<lparr>dv_waitUntilReady = waitForBoot E cmd target,
      dv_pushMedia = pushMedia E cmd target,
      dv_scanMedia = (\<lambda>path. thenE (adbShell E cmd target
         [''am'', ''broadcast'', ''-a'', ''android.intent.action.MEDIA_SCANNER_SCAN_FILE'', ''-d'', ''file://'' @ path]) (ret ())),
      dv_launch = (\<lambda>pkg activity. if opt_truthy activity
         then adbStartActivity E cmd target (pkg @ ''/'' @ the activity) else adbLaunchPackage E cmd target pkg),
      dv_isAppRunning = adbIsAppRunning E cmd target,
      dv_isPackageInstalled = adbIsPackageInstalled E cmd target,
      dv_installPackage = adbInstallPackage E cmd target,
      dv_pushFile = adbPushFile E cmd target,
      dv_removeFile = adbRemoveFile E cmd target,
      dv_probe = adbShellProbe E cmd target\<rparr>"

subsection \<open>Every command ends, and only runs adb\<close>

lemma settles_execAdb [settles_intros]: "settles (execAdb E cmd target args sig b)"
  unfolding execAdb_def signalAborted_def by (auto simp: Let_def intro!: settles_intros split: exec_outcome.splits)

lemma emits_execAdb [emits_intros]:
  "(\<And>out. Q (EvExec cmd (buildAdbArgs target @ args) out)) \<Longrightarrow> emits Q (execAdb E cmd target args sig b)"
  unfolding execAdb_def signalAborted_def by (auto simp: Let_def intro!: emits_intros split: exec_outcome.splits)

lemma forwards_execAdb [forwards_intros]: "clock_laws E \<Longrightarrow> forwards E (execAdb E cmd target args sig b)"
  unfolding execAdb_def signalAborted_def by (auto simp: Let_def intro!: forwards_intros split: exec_outcome.splits)

lemma plain_adb_args [simp]:
  "a \<noteq> ''run'' \<Longrightarrow> a \<noteq> ''rm'' \<Longrightarrow> hd (buildAdbArgs target @ a # args) \<noteq> ''run''"
  "a \<noteq> ''run'' \<Longrightarrow> a \<noteq> ''rm'' \<Longrightarrow> hd (buildAdbArgs target @ a # args) \<noteq> ''rm''"
  by (auto simp: buildAdbArgs_def split: option.splits)

lemmas adb_commands = adbListDevices_def adbConnect_def adbDisconnect_def adbPushFile_def adbShell_def adbShellProbe_def
  adbMkdir_def adbRemoveFile_def adbStartActivity_def adbLaunchPackage_def adbIsBootCompleted_def
  adbIsBootAnimationDone_def adbInstallPackage_def adbIsPackageInstalled_def adbFileSize_def adbIsAppRunning_def

lemma settles_adb [settles_intros]:
  "settles (adbConnect E cmd tgt address sig)" "settles (adbDisconnect E cmd tgt address sig)"
  "settles (adbPushFile E cmd target l p)" "settles (adbShell E cmd target args)"
  "settles (adbShellProbe E cmd target args sig)" "settles (adbMkdir E cmd target dir)"
  "settles (adbRemoveFile E cmd target p)" "settles (adbStartActivity E cmd target c)"
  "settles (adbLaunchPackage E cmd target pkg)" "settles (adbIsBootCompleted E cmd target)"
  "settles (adbIsBootAnimationDone E cmd target)" "settles (adbInstallPackage E cmd target apk)"
  "settles (adbIsPackageInstalled E cmd target pkg)" "settles (adbFileSize E cmd target p)"
  "settles (adbIsAppRunning E cmd target pkg)" "settles (adbListDevices E cmd tgt sig)"
  unfolding adb_commands by (auto simp: Let_def intro!: settles_intros)

lemma emits_adb [emits_intros]:
  assumes "\<And>args out. Q (EvExec cmd args out)"
  shows "emits Q (adbConnect E cmd tgt address sig)" "emits Q (adbDisconnect E cmd tgt address sig)"
    "emits Q (adbPushFile E cmd target l p)" "emits Q (adbShell E cmd target args)"
    "emits Q (adbShellProbe E cmd target args sig)" "emits Q (adbMkdir E cmd target dir)"
    "emits Q (adbRemoveFile E cmd target p)" "emits Q (adbStartActivity E cmd target c)"
    "emits Q (adbLaunchPackage E cmd target pkg)" "emits Q (adbIsBootCompleted E cmd target)"
    "emits Q (adbIsBootAnimationDone E cmd target)" "emits Q (adbInstallPackage E cmd target apk)"
    "emits Q (adbIsPackageInstalled E cmd target pkg)" "emits Q (adbFileSize E cmd target p)"
    "emits Q (adbIsAppRunning E cmd target pkg)" "emits Q (adbListDevices E cmd tgt sig)"
  unfolding adb_commands by (auto simp: Let_def intro!: emits_intros assms)

lemma forwards_adb [forwards_intros]:
  assumes "clock_laws E"
  shows "forwards E (adbConnect E cmd tgt address sig)" "forwards E (adbShellProbe E cmd target args sig)"
    "forwards E (adbIsBootCompleted E cmd target)" "forwards E (adbIsBootAnimationDone E cmd target)"
  unfolding adb_commands by (auto simp: Let_def intro!: forwards_intros assms)

lemma waitForBoot_settles: "clock_laws E \<Longrightarrow> settles (waitForBoot E cmd target t)"
  unfolding waitForBoot_def Let_def
  by (rule settles_deadline_loop [where t = t]; intro settles_intros paced_intros forwards_intros)
    (auto simp: abortedE_def settles_intros)

lemma waitUntilWritable_settles: "clock_laws E \<Longrightarrow> settles (waitUntilWritable E cmd target dir t)"
  unfolding waitUntilWritable_def Let_def
  by (rule settles_deadline_loop [where t = t]; intro settles_intros paced_intros forwards_intros)
    (auto simp: abortedE_def settles_intros)

lemma waits_emit [emits_intros]:
  assumes "\<And>args out. Q (EvExec cmd args out)" and "\<And>t. Q (EvSleep t)"
  shows "emits Q (waitForBoot E cmd target tm)" "emits Q (waitUntilWritable E cmd target dir tm)"
  unfolding waitForBoot_def waitUntilWritable_def Let_def
  by (intro emits_intros; simp add: assms)+

lemma plain_adb [emits_intros]:
  "plain (adbConnect E cmd tgt address sig)" "plain (adbDisconnect E cmd tgt address sig)"
  unfolding adb_commands by (auto intro!: emits_intros)

lemma plain_AdbDevice:
  "plain (dv_waitUntilReady (AdbDevice E cmd target) t)" "plain (dv_pushMedia (AdbDevice E cmd target) l p)"
  "plain (dv_scanMedia (AdbDevice E cmd target) p)" "plain (dv_launch (AdbDevice E cmd target) pkg act)"
  "plain (dv_isAppRunning (AdbDevice E cmd target) pkg)" "plain (dv_isPackageInstalled (AdbDevice E cmd target) pkg)"
  "plain (dv_installPackage (AdbDevice E cmd target) apk)" "plain (dv_pushFile (AdbDevice E cmd target) l p)"
  "plain (dv_removeFile (AdbDevice E cmd target) p)" "plain (dv_probe (AdbDevice E cmd target) args sig)"
  unfolding AdbDevice_def pushMedia_def waitForBoot_def waitUntilWritable_def adb_commands
  by (auto simp: Let_def intro!: emits_intros)

lemma settles_AdbDevice:
  "clock_laws E \<Longrightarrow> settles (dv_waitUntilReady (AdbDevice E cmd target) t)"
  "clock_laws E \<Longrightarrow> settles (dv_pushMedia (AdbDevice E cmd target) l p)"
  "settles (dv_scanMedia (AdbDevice E cmd target) p)" "settles (dv_launch (AdbDevice E cmd target) pkg act)"
  "settles (dv_isAppRunning (AdbDevice E cmd target) pkg)" "settles (dv_isPackageInstalled (AdbDevice E cmd target) pkg)"
  "settles (dv_installPackage (AdbDevice E cmd target) apk)" "settles (dv_pushFile (AdbDevice E cmd target) l p)"
  "settles (dv_removeFile (AdbDevice E cmd target) p)" "settles (dv_probe (AdbDevice E cmd target) args sig)"
  unfolding AdbDevice_def pushMedia_def
  by (auto simp: Let_def intro!: settles_intros waitForBoot_settles waitUntilWritable_settles)

interpretation adb: android_device E "AdbDevice E cmd target" for E cmd target
  by unfold_locales (rule settles_AdbDevice plain_AdbDevice | assumption)+

end
