(* ===== verification/Egress_Check.thy ===== *)
theory Egress_Check
  imports Egress_Policy Adb
begin

text \<open>
  \<open>lib/android/egressCheck.ts\<close>, the question a device is asked about its own address, and
  \<open>lib/android/devicePersona.ts\<close>, which makes its clock and locale agree with the answer. The
  module's cache of the worker's own address is \<open>ae_directIp\<close>; \<open>EvDirectIp\<close> marks in the trace what
  \<open>directEgressIp\<close> answered.
\<close>

definition PUSHED_PROBE :: string where
  "PUSHED_PROBE = ''/data/local/tmp/redroid-probe''"

text \<open>\<open>device.probe(args, signal).catch(() => null)\<close>.\<close>

definition probe_or_null :: "'s device \<Rightarrow> string list \<Rightarrow> ('s, adb_result option) eff" where
  "probe_or_null dev args =
     catchE (bindE (dv_probe dev args JobSignal) (\<lambda>res. ret (Some res))) (\<lambda>e. ret None)"

definition ensureProbeBinary :: "'s device_env \<Rightarrow> 's device \<Rightarrow> string \<Rightarrow> ('s, unit) eff" where
  "ensureProbeBinary E dev localPath =
     bindE (probe_or_null dev [PUSHED_PROBE, ''--version'']) (\<lambda>present.
       if map_option ar_code present = Some 0 then ret ()
       else thenE (logE E INFO ''Copying the egress probe onto the device''
                (Some (JsObj [(''from'', JsStr localPath), (''to'', JsStr PUSHED_PROBE)])))
           (thenE (dv_pushFile dev localPath PUSHED_PROBE)
           (thenE (dv_probe dev [''chmod'', ''755'', PUSHED_PROBE] JobSignal)
           (bindE (dv_probe dev [PUSHED_PROBE, ''--version''] JobSignal) (\<lambda>check.
             if ar_code check \<noteq> 0
             then throwE (EgressUnreachableError
               (localPath @ '' was copied to '' @ PUSHED_PROBE @ '' but does not run there: ''
                @ first_nonempty [take 200 (js_trim (ar_stdout check @ '' '' @ ar_stderr check)),
                                  ''exit '' @ show_int (ar_code check)]
                @ ''. It has to be statically linked and built for the device architecture (arm64 on Graviton).''))
             else ret ())))))"

definition resolveSpec :: "'s device_env \<Rightarrow> string \<Rightarrow> string \<Rightarrow> (exn, string) result" where
  "resolveSpec E url address =
     (case ae_parseUrl E url of
        None \<Rightarrow> Inl (GenericError ''Invalid URL'')
      | Some (protocol, hostname, port) \<Rightarrow>
          Inr (hostname @ '':'' @ first_nonempty [port, if protocol = ''https:'' then ''443'' else ''80'']
               @ '':'' @ address))"

definition egressCheckHost :: "'s device_env \<Rightarrow> string \<Rightarrow> string option" where
  "egressCheckHost E url =
     (case ae_parseUrl E url of
        None \<Rightarrow> None
      | Some (protocol, hostname, port) \<Rightarrow> if ip_pattern hostname then None else Some hostname)"

subsection \<open>Reading an answer\<close>

text \<open>\<open>/^ip=([0-9a-f.:]+)\s*$/im\<close> on one line.\<close>

definition traced_line :: "string \<Rightarrow> string option" where
  "traced_line line =
     (let rest = drop 3 line; address = takeWhile ip_char rest
      in if js_lower (take 3 line) = ''ip='' \<and> address \<noteq> [] \<and> list_all js_ws (drop (length address) rest)
         then Some address else None)"

fun first_some :: "('a \<Rightarrow> 'b option) \<Rightarrow> 'a list \<Rightarrow> 'b option" where
  "first_some f [] = None"
| "first_some f (x # xs) = (case f x of Some y \<Rightarrow> Some y | None \<Rightarrow> first_some f xs)"

definition firstAddress :: "string \<Rightarrow> string option" where
  "firstAddress raw =
     (case first_some traced_line (regex_lines raw) of
        Some address \<Rightarrow> Some address
      | None \<Rightarrow> (case last_line raw of
                   Some candidate \<Rightarrow> if ip_pattern candidate then Some candidate else None
                 | None \<Rightarrow> None))"

lemma firstAddress_examples:
  "firstAddress (''fl=1'' @ lf @ ''ip=203.0.113.9'' @ lf @ ''ts=2'') = Some ''203.0.113.9''"
  "firstAddress (lf @ '' 198.51.100.7 '' @ lf) = Some ''198.51.100.7''"
  "firstAddress ''<html>'' = None" "firstAddress [] = None"
  by code_simp+

lemma firstAddress_nonempty: "firstAddress raw \<noteq> Some []"
proof -
  have "first_some traced_line ls \<noteq> Some []" for ls
    by (induction ls) (auto simp: traced_line_def Let_def split: option.splits if_splits)
  then show ?thesis by (auto simp: firstAddress_def ip_pattern_def split: option.splits if_splits)
qed

subsection \<open>Asking the device\<close>

definition egress_attempts :: "string \<Rightarrow> int \<Rightarrow> string option \<Rightarrow> string list list" where
  "egress_attempts url timeoutSeconds spec =
     (let curl = [''-sL'', ''--max-time'', show_int timeoutSeconds]
            @ (case spec of Some s \<Rightarrow> [''--resolve'', s] | None \<Rightarrow> []) @ [url]
      in [PUSHED_PROBE # curl, ''curl'' # curl,
          [''toybox'', ''wget'', ''-q'', ''-O'', ''-'', url], [''wget'', ''-q'', ''-O'', ''-'', url]])"

text \<open>The loop over the tools: an address, or what was wrong with each of them.\<close>

fun ask_tools ::
  "'s device_env \<Rightarrow> 's device \<Rightarrow> int \<Rightarrow> string list list \<Rightarrow> string list \<Rightarrow> ('s, string list + string) eff" where
  "ask_tools E dev timeoutSeconds [] failures = ret (Inl failures)"
| "ask_tools E dev timeoutSeconds (command # commands) failures =
     bindE (attemptE (dv_probe dev command (JobSignalOrTimeout (timeoutSeconds * 1000)))) (\<lambda>outcome.
       case outcome of
         Inl e \<Rightarrow>
           bindE (abortedE E) (\<lambda>aborted.
             if aborted then throwE e
             else ask_tools E dev timeoutSeconds commands
               (failures @ [hd command @ '': no answer within '' @ show_int timeoutSeconds @ ''s'']))
       | Inr res \<Rightarrow>
           (let address = firstAddress (ar_stdout res);
                detail = take 200 (js_trim (ar_stdout res @ '' '' @ ar_stderr res))
            in if ar_code res = 0 \<and> address \<noteq> None then ret (Inr (the address))
               else ask_tools E dev timeoutSeconds commands
                 (failures @ [hd command @ '': exit '' @ show_int (ar_code res)
                              @ (if detail \<noteq> [] then '' - '' @ detail else [])])))"

definition unreachable_message :: "string \<Rightarrow> string list \<Rightarrow> string option \<Rightarrow> string" where
  "unreachable_message url failures probeBinary =
     ''The device could not fetch '' @ url @ ''. Tried: '' @ js_join ''; '' failures @ ''. ''
     @ (if list_all (\<lambda>failure. js_includes failure ''exit 127'') failures
        then ''Nothing answered because the device has no HTTP client - a stock AOSP image ships neither ''
          @ ''curl nor a toybox with the wget applet, and this says nothing about the proxy. ''
          @ (if opt_truthy probeBinary
             then ''This account points probeBinary at '' @ the probeBinary @ '', so that copy should have been made: ''
               @ ''check the worker can read that path.''
             else ''This account has no proxyGateway.egressCheck.probeBinary configured - note that it ''
               @ ''lives in the encrypted credentials, so setting it means rewriting the account with ''
               @ ''`npm run account:add -- --account <id> --credentials-file <file>`, not restarting the worker.'')
          @ '' Or turn the check off with proxyGateway.egressCheck.enabled=false.''
        else ''A timeout on every tool means the tunnel is swallowing the packets. Read the gateway log ''
          @ ''below before anything else: '' @ quoted ''connection not allowed by ruleset'' @ '' is the proxy refusing ''
          @ ''this destination - residential providers block public DNS resolvers and odd ports as a ''
          @ ''matter of course - and the fix is another egressCheck.url, not another routing rule.'')"

definition deviceEgressIp ::
  "'s device_env \<Rightarrow> 's device \<Rightarrow> string \<Rightarrow> int \<Rightarrow> string option \<Rightarrow> string option \<Rightarrow> ('s, string) eff" where
  "deviceEgressIp E dev url timeoutSeconds resolvedAddress probeBinary =
     bindE (if opt_truthy resolvedAddress
            then liftE (map_sum id Some (resolveSpec E url (the resolvedAddress))) else ret None) (\<lambda>spec.
     bindE (ask_tools E dev timeoutSeconds (egress_attempts url timeoutSeconds spec) []) (\<lambda>answer.
       case answer of
         Inr address \<Rightarrow> ret address
       | Inl failures \<Rightarrow> throwE (EgressUnreachableError (unreachable_message url failures probeBinary))))"

subsection \<open>Asking the gateway and the worker\<close>

definition gatewayEgressIp :: "'s device_env \<Rightarrow> string \<Rightarrow> string \<Rightarrow> int \<Rightarrow> ('s, string option) eff" where
  "gatewayEgressIp E gatewayName url timeoutSeconds =
     bindE (catchE (docker_exec E gatewayName
         [''wget'', ''-q'', ''-O'', ''-'', ''-T'', show_int timeoutSeconds, url] JobSignal) (\<lambda>e. ret []))
       (\<lambda>stdout. ret (firstAddress stdout))"

definition diagnostics_script :: string where
  \<open>diagnostics_script = js_join lf
     [''IPT=iptables'',
      ''for c in iptables-nft iptables-legacy iptables; do'',
      ''  if "$c" -S >/dev/null 2>&1; then IPT="$c"; break; fi'',
      ''done'',
      ''echo "== ip rule =="; ip rule show 2>&1'',
      ''echo "== routes (all tables) =="; ip route show table all 2>&1 | head -40'',
      ''echo "== egress ACL counters =="; "$IPT" -nvL REDROID_EGRESS 2>&1'']\<close>

definition gatewayDiagnostics :: "'s device_env \<Rightarrow> string \<Rightarrow> ('s, string) eff" where
  "gatewayDiagnostics E gatewayName =
     bindE (catchE (docker_exec E gatewayName [''sh'', ''-c'', diagnostics_script] JobSignal)
              (\<lambda>e. ret (''(diagnostics unavailable: '' @ exn_message e @ '')'')))
       (\<lambda>output. ret (take 4000 (js_trim output)))"

definition directEgressIp :: "'s device_env \<Rightarrow> string \<Rightarrow> ms \<Rightarrow> ('s, string option) eff" where
  "directEgressIp E url timeoutMs =
     noteE (\<lambda>x. EvDirectIp (case x of Inr v \<Rightarrow> v | Inl e \<Rightarrow> None))
       (bindE (readE (ae_directIp E)) (\<lambda>cached.
          if map_option fst cached = Some url then ret (snd (the cached))
          else perform (\<lambda>_. EvLookup url) (\<lambda>s.
            let (response, s1) = ae_getText E url timeoutMs s;
                val = (case response of Some (True, body) \<Rightarrow> firstAddress body | _ \<Rightarrow> None)
            in (val, ae_cacheIp E url val s1))))"

text \<open>The \<open>catch\<close> of \<open>assertProxiedEgress\<close>: who is to blame when the device has no answer.\<close>

definition blame :: "'s device_env \<Rightarrow> string \<Rightarrow> string \<Rightarrow> int \<Rightarrow> exn \<Rightarrow> ('s, string) eff" where
  "blame E gatewayName url timeoutSeconds error =
     bindE (gatewayEgressIp E gatewayName url timeoutSeconds) (\<lambda>fromGateway.
       if opt_truthy fromGateway
       then throwE (EgressUnreachableError
         (''The device cannot reach '' @ url @ '' but its gateway can ('' @ the fromGateway
          @ ''), so the proxy works and Android is not using it - check the routing rules inside ''
          @ gatewayName @ ''. '' @ exn_message error))
       else bindE (gatewayDiagnostics E gatewayName) (\<lambda>state.
         throwE (EgressUnreachableError
           (''Neither the device nor its gateway can reach '' @ url @ '': nothing is relaying traffic. ''
            @ exn_message error @ lf @ ''--- inside '' @ gatewayName @ '' ---'' @ lf @ state))))"

definition assertProxiedEgress ::
  "'s device_env \<Rightarrow> 's device \<Rightarrow> string \<Rightarrow> string \<Rightarrow> int \<Rightarrow> string option \<Rightarrow> string option \<Rightarrow> ('s, string) eff" where
  "assertProxiedEgress E dev gatewayName url timeoutSeconds resolvedAddress probeBinary =
     bindE (catchE (deviceEgressIp E dev url timeoutSeconds resolvedAddress probeBinary)
         (blame E gatewayName url timeoutSeconds)) (\<lambda>deviceIp.
     bindE (directEgressIp E url (timeoutSeconds * 1000)) (\<lambda>directIp.
       if opt_truthy directIp \<and> deviceIp = the directIp then throwE (EgressLeakError deviceIp (the directIp))
       else thenE (logE E INFO ''Egress verified from inside the device''
              (Some (JsObj [(''deviceIp'', JsStr deviceIp),
                (''directIp'', JsStr (case directIp of Some d \<Rightarrow> d | None \<Rightarrow> ''(unknown, comparison skipped)''))])))
            (ret deviceIp)))"

subsection \<open>The persona\<close>

definition TIMEZONE_PROP :: string where "TIMEZONE_PROP = ''persist.sys.timezone''"
definition LOCALE_PROP :: string where "LOCALE_PROP = ''persist.sys.locale''"

record persona_result =
  ps_timezone :: "(string \<times> bool) option"   \<comment> \<open>wanted, applied\<close>
  ps_locale :: "(string \<times> bool) option"     \<comment> \<open>wanted, pending\<close>

definition readProp :: "'s device \<Rightarrow> string \<Rightarrow> ('s, string option) eff" where
  "readProp dev prop =
     bindE (probe_or_null dev [''getprop'', prop]) (\<lambda>result.
       ret (case result of
              Some res \<Rightarrow> if ar_code res = 0 then or_null (js_trim (ar_stdout res)) else None
            | None \<Rightarrow> None))"

definition applyTimezone :: "'s device \<Rightarrow> string \<Rightarrow> ('s, bool) eff" where
  "applyTimezone dev zone =
     bindE (readProp dev TIMEZONE_PROP) (\<lambda>current.
       if current = Some zone then ret True
       else thenE (dv_probe dev [''setprop'', TIMEZONE_PROP, zone] JobSignal)
            (bindE (readProp dev TIMEZONE_PROP) (\<lambda>now'. ret (now' = Some zone))))"

definition opt_field :: "string \<Rightarrow> js option \<Rightarrow> (string \<times> js) list" where
  "opt_field k v = (case v of Some x \<Rightarrow> [(k, x)] | None \<Rightarrow> [])"

definition alignDeviceToEgress :: "'s device_env \<Rightarrow> 's device \<Rightarrow> proxy_runtime \<Rightarrow> ('s, persona_result) eff" where
  "alignDeviceToEgress E dev proxy =
     bindE (if opt_truthy (rt_timezone proxy)
            then bindE (applyTimezone dev (the (rt_timezone proxy))) (\<lambda>applied.
                   thenE (whenE (\<not> applied)
                     (logE E WARN ''Could not set the device time zone; its clock disagrees with where it exits''
                       (Some (JsObj [(''wanted'', JsStr (the (rt_timezone proxy)))]))))
                   (ret (Some (the (rt_timezone proxy), applied))))
            else ret None) (\<lambda>timezone.
     bindE (if opt_truthy (rt_locale proxy)
            then bindE (readProp dev LOCALE_PROP) (\<lambda>current.
                   let pending = (current \<noteq> Some (the (rt_locale proxy)))
                   in thenE (if pending
                        then thenE (dv_probe dev [''setprop'', LOCALE_PROP, the (rt_locale proxy)] JobSignal) (ret ())
                        else ret ())
                      (ret (Some (the (rt_locale proxy), pending))))
            else ret None) (\<lambda>locale.
     thenE (if timezone \<noteq> None \<or> locale \<noteq> None
            then bindE (probe_or_null dev [''date'']) (\<lambda>clock.
                   logE E INFO ''Device aligned to its egress region'' (Some (JsObj
                     (opt_field ''timezone'' (map_option (JsStr \<circ> fst) timezone)
                      @ opt_field ''timezoneApplied'' (map_option (JsBool \<circ> snd) timezone)
                      @ opt_field ''locale'' (map_option (JsStr \<circ> fst) locale)
                      @ opt_field ''localeAppliesNextRun'' (map_option (JsBool \<circ> snd) locale)
                      @ opt_field ''deviceClock'' (map_option JsStr
                          (Option.bind clock (\<lambda>res. or_null (js_trim (ar_stdout res)))))))))
            else ret ())
     (ret \<lparr>ps_timezone = timezone, ps_locale = locale\<rparr>)))"

subsection \<open>Every call ends\<close>

lemma blame_blames: "throws (\<lambda>e. \<exists>m. e = EgressUnreachableError m) (blame E gw url ts error)"
  "yields (\<lambda>x. False) (blame E gw url ts error)"
  unfolding blame_def gatewayEgressIp_def gatewayDiagnostics_def
  by (auto intro!: throws_intros yields_intros)

lemma settles_asking [settles_intros]:
  "settles (blame E gw url ts error)" "settles (gatewayEgressIp E gw url ts)" "settles (gatewayDiagnostics E gw)" "settles (directEgressIp E url t)"
  unfolding blame_def gatewayEgressIp_def gatewayDiagnostics_def directEgressIp_def
  by (auto simp: Let_def intro!: settles_intros)

lemma plain_asking [emits_intros]:
  "plain (blame E gw url ts error)" "plain (gatewayEgressIp E gw url ts)" "plain (gatewayDiagnostics E gw)" "plain (directEgressIp E url t)"
  unfolding blame_def gatewayEgressIp_def gatewayDiagnostics_def directEgressIp_def docker_exec_def
  by (auto simp: Let_def intro!: emits_intros)

context android_device
begin

lemma ask_settles: "settles (ask_tools E' dev ts commands failures)"
  by (induction commands arbitrary: failures)
    (auto simp: Let_def intro!: settles_intros device_settles split: sum.splits)

lemma ask_plain: "plain (ask_tools E' dev ts commands failures)"
  by (induction commands arbitrary: failures)
    (auto simp: Let_def intro!: emits_intros device_plain split: sum.splits)

lemma check_settles:
  "settles (deviceEgressIp E' dev url ts addr pb)" "settles (ensureProbeBinary E' dev p)" "settles (assertProxiedEgress E' dev gw url ts addr pb)"
  "settles (alignDeviceToEgress E' dev px)"
  unfolding ensureProbeBinary_def deviceEgressIp_def assertProxiedEgress_def alignDeviceToEgress_def probe_or_null_def
    applyTimezone_def readProp_def
  by (auto simp: Let_def intro!: settles_intros device_settles ask_settles split: sum.splits)

lemma check_plain:
  "plain (deviceEgressIp E' dev url ts addr pb)" "plain (ensureProbeBinary E' dev p)" "plain (assertProxiedEgress E' dev gw url ts addr pb)"
  "plain (alignDeviceToEgress E' dev px)"
  unfolding ensureProbeBinary_def deviceEgressIp_def assertProxiedEgress_def alignDeviceToEgress_def probe_or_null_def
    applyTimezone_def readProp_def
  by (auto simp: Let_def intro!: emits_intros device_plain ask_plain split: sum.splits)

end
subsection \<open>What the check establishes\<close>

text \<open>What a command on the device printed, as \<open>execAdb\<close> hands it back.\<close>

definition exec_stdout :: "exec_outcome \<Rightarrow> string" where
  "exec_stdout out = js_trim (case out of ExecOk so se \<Rightarrow> so | ExecFailed code so se m k \<Rightarrow> so)"

text \<open>The command left in the trace that answered with the address.\<close>

definition device_answered :: "string \<Rightarrow> adb_target \<Rightarrow> string \<Rightarrow> string \<Rightarrow> event \<Rightarrow> bool" where
  "device_answered adb target url address e \<longleftrightarrow>
     (\<exists>tool out. e = EvExec adb (buildAdbArgs (Some target) @ ''shell'' # tool @ [url]) out
        \<and> exit_code out = 0 \<and> firstAddress (exec_stdout out) = Some address)"

lemma probe_answer:
  assumes "adbShellProbe E adb target args sig r = Some (Inr res, r1)"
  shows "\<exists>out. ru_trace r1 = ru_trace r @ [EvExec adb (buildAdbArgs (Some target) @ ''shell'' # args) out]
    \<and> exit_code out = ar_code res \<and> exec_stdout out = ar_stdout res"
proof -
  let ?args = "buildAdbArgs (Some target) @ ''shell'' # args"
  obtain out s where out: "ae_exec E adb ?args sig DEFAULT_ADB_TIMEOUT_MS (ru_env r) = (out, s)" by fastforce
  from assms show ?thesis
    by (intro exI [of _ out], cases out)
      (auto simp: adbShellProbe_def execAdb_def Let_def execE_def perform_def signalAborted_def exit_code_def
        exec_stdout_def bindE_def readE_def ret_def throwE_def out split: if_splits)
qed

lemma ask_tools_answer:
  assumes "ask_tools E (AdbDevice E adb target) ts commands failures r = Some (Inr (Inr address), r1)"
    and "\<forall>c \<in> set commands. \<exists>tool. c = tool @ [url]"
  shows "\<exists>a e. ru_trace r1 = ru_trace r @ a @ [e] \<and> device_answered adb target url address e"
  using assms
proof (induction commands arbitrary: failures r)
  case Nil
  then show ?case by simp
next
  case (Cons command commands)
  let ?probe = "adbShellProbe E adb target command (JobSignalOrTimeout (ts * 1000))"
  have later: ?case if "ask_tools E (AdbDevice E adb target) ts commands fs r2 = Some (Inr (Inr address), r1)"
    "?probe r = Some (x, r2)" for fs r2 x
  proof -
    have "emits (\<lambda>e. True) ?probe" by (intro emits_intros) simp
    from emitsD [OF this that(2)] obtain evs where "ru_trace r2 = ru_trace r @ evs" by blast
    moreover from Cons.IH [OF that(1)] Cons.prems(2) obtain a e
      where "ru_trace r1 = ru_trace r2 @ a @ [e]" "device_answered adb target url address e" by auto
    ultimately show ?thesis by (metis append.assoc)
  qed
  obtain x r2 where probe: "?probe r = Some (x, r2)" using settlesD [OF settles_adb(5)] by blast
  show ?case
  proof (cases x)
    case (Inl e)
    with Cons.prems(1) probe show ?thesis
      by (auto simp: attemptE_def AdbDevice_def bindE_def ret_def abortedE_def readE_def throwE_def
          split: if_splits intro: later [OF _ probe])
  next
    case (Inr res)
    show ?thesis
    proof (cases "ar_code res = 0 \<and> firstAddress (ar_stdout res) \<noteq> None")
      case True
      with Cons.prems(1) probe Inr have "r1 = r2" "firstAddress (ar_stdout res) = Some address"
        by (auto simp: attemptE_def AdbDevice_def bindE_def ret_def)
      moreover obtain tool where "command = tool @ [url]" using Cons.prems(2) by auto
      ultimately show ?thesis
        using probe_answer [OF probe [unfolded Inr]] True by (auto simp: device_answered_def)
    next
      case False
      with Cons.prems(1) probe Inr show ?thesis
        by (auto simp: attemptE_def AdbDevice_def bindE_def ret_def Let_def intro: later [OF _ probe])
    qed
  qed
qed

lemma deviceEgressIp_answer:
  assumes "deviceEgressIp E (AdbDevice E adb target) url ts resolved probe r = Some (Inr address, r1)"
  shows "\<exists>a e. ru_trace r1 = ru_trace r @ a @ [e] \<and> device_answered adb target url address e"
proof -
  from assms obtain spec r0 where
    tools: "ask_tools E (AdbDevice E adb target) ts (egress_attempts url ts spec) [] r0 = Some (Inr (Inr address), r1)"
    and r0: "r0 = r"
    unfolding deviceEgressIp_def
    by (auto elim!: bindE_Inr split: sum.splits if_splits)
  have "\<forall>c \<in> set (egress_attempts url ts spec). \<exists>tool. c = tool @ [url]"
    by (auto simp: egress_attempts_def Let_def)
  from ask_tools_answer [OF tools this] show ?thesis by (simp add: r0)
qed

lemma directEgressIp_marks:
  assumes "directEgressIp E url t r = Some (x, r1)"
  shows "\<exists>v evs. x = Inr v \<and> ru_trace r1 = ru_trace r @ evs @ [EvDirectIp v] \<and> (\<forall>e \<in> set evs. \<exists>h. e = EvLookup h)"
  using assms
  by (auto simp: directEgressIp_def noteE_def bindE_def readE_def perform_def ret_def Let_def
      split: prod.splits if_splits option.splits)

text \<open>The evidence of a verdict: the device's answer, and after it the worker's own address.\<close>

definition verified :: "string \<Rightarrow> adb_target \<Rightarrow> string \<Rightarrow> string \<Rightarrow> string option \<Rightarrow> event list \<Rightarrow> bool" where
  "verified adb target url address direct evs \<longleftrightarrow>
     (\<exists>a e b c. evs = a @ [e] @ b @ [EvDirectIp direct] @ c \<and> device_answered adb target url address e)"

lemma check_decides:
  assumes "assertProxiedEgress E (AdbDevice E adb target) gw url ts resolved probe r = Some (x, r1)"
  shows "\<exists>evs. ru_trace r1 = ru_trace r @ evs \<and>
    (case x of
       Inr address \<Rightarrow> \<exists>direct. verified adb target url address direct evs \<and> direct \<noteq> Some address
     | Inl e \<Rightarrow> (\<exists>address. e = EgressLeakError address address \<and> verified adb target url address (Some address) evs)
                \<or> (\<exists>m. e = EgressUnreachableError m))"
proof -
  let ?ask = "deviceEgressIp E (AdbDevice E adb target) url ts resolved probe"
  let ?check = "assertProxiedEgress E (AdbDevice E adb target) gw url ts resolved probe"
  have "emits (\<lambda>e. True) ?check" by (rule emits_mono [OF adb.check_plain(3)]) simp
  from emitsD [OF this assms] obtain evs where evs: "ru_trace r1 = ru_trace r @ evs" by blast
  obtain y r2 where ask: "?ask r = Some (y, r2)" using settlesD [OF adb.check_settles(1)] by blast
  show ?thesis
  proof (cases y)
    case (Inl error)
    obtain z r3 where blame: "blame E gw url ts error r2 = Some (z, r3)" using settlesD [OF settles_asking(1)] by blast
    then obtain m where "z = Inl (EgressUnreachableError m)"
      by (cases z) (blast dest: throwsD [OF blame_blames(1)] yieldsD [OF blame_blames(2)])+
    with assms ask Inl blame have "x = Inl (EgressUnreachableError m)"
      by (simp add: assertProxiedEgress_def bindE_def catchE_def)
    with evs show ?thesis by auto
  next
    case (Inr address)
    obtain v r3 where direct: "directEgressIp E url (ts * 1000) r2 = Some (Inr v, r3)"
      using settlesD [OF settles_asking(4)] directEgressIp_marks by metis
    obtain a e where "ru_trace r2 = ru_trace r @ a @ [e]"
      and answered: "device_answered adb target url address e"
      using deviceEgressIp_answer ask Inr by blast
    moreover note answered
    moreover from directEgressIp_marks [OF direct] obtain b where "ru_trace r3 = ru_trace r2 @ b @ [EvDirectIp v]" by auto
    ultimately have trace: "ru_trace r3 = ru_trace r @ a @ [e] @ b @ [EvDirectIp v]"
      and ok: "verified adb target url address v (a @ [e] @ b @ [EvDirectIp v] @ c)" for c
      by (auto simp: verified_def)
    have rest: "assertProxiedEgress E (AdbDevice E adb target) gw url ts resolved probe r
      = (if opt_truthy v \<and> address = the v then Some (Inl (EgressLeakError address (the v)), r3)
         else Some (Inr address, r3\<lparr>ru_env := ae_log E INFO ''Egress verified from inside the device''
              (Some (JsObj [(''deviceIp'', JsStr address),
                (''directIp'', JsStr (case v of Some d \<Rightarrow> d | None \<Rightarrow> ''(unknown, comparison skipped)''))])) (ru_env r3),
            ru_trace := ru_trace r3 @ [EvLog INFO ''Egress verified from inside the device'']\<rparr>))"
      using ask Inr direct
      by (simp add: assertProxiedEgress_def bindE_def catchE_def logE_def perform_def throwE_def ret_def)
    show ?thesis
    proof (cases "opt_truthy v \<and> address = the v")
      case True
      then have "v = Some address" by (auto simp: opt_truthy_def)
      with True rest assms trace ok [of "[]"] show ?thesis by auto
    next
      case False
      moreover have "address \<noteq> []" using answered firstAddress_nonempty
        by (auto simp: device_answered_def)
      ultimately have "v \<noteq> Some address" by (auto simp: opt_truthy_def)
      with False rest assms trace ok [of "[EvLog INFO ''Egress verified from inside the device'']"] show ?thesis
        by auto
    qed
  qed
qed


end
