(* ===== verification/Device_Provider.thy ===== *)
theory Device_Provider
  imports Device_Config Adb
begin

text \<open>
  \<open>lib/android/deviceProvider.ts\<close> and \<open>lib/android/evidence.ts\<close>: getting a device with the app on
  it, and the screenshots and page sources kept of a run. A provider is a computation that
  acquires a device; what every provider promises the driver is the locale \<open>device_provider\<close>.
\<close>

record 's acquired =
  aq_device :: "'s device"
  aq_serial :: "string option"
  aq_egressIp :: "string option"
  aq_release :: "('s, unit) eff"

record acquire_context =
  cx_jobId :: string
  cx_accountId :: string
  cx_packageName :: string
  cx_apkPath :: "string option"
  cx_requirePackage :: bool

record 's provider =
  dp_kind :: string
  dp_acquire :: "acquire_context \<Rightarrow> ('s, 's acquired) eff"

subsection \<open>The app on the device\<close>

definition isPackageInstalled :: "'s device \<Rightarrow> string \<Rightarrow> ('s, bool) eff" where
  "isPackageInstalled dev pkg = noteE (\<lambda>x. EvInstalled (x = Inr True)) (dv_isPackageInstalled dev pkg)"

definition installPackage :: "'s device \<Rightarrow> string \<Rightarrow> ('s, unit) eff" where
  "installPackage dev apk = noteE (\<lambda>x. EvInstall apk (succeeded x)) (dv_installPackage dev apk)"

definition waitUntilReady :: "'s device \<Rightarrow> ms \<Rightarrow> ('s, unit) eff" where
  "waitUntilReady dev t = noteE (\<lambda>x. EvReady t (succeeded x)) (dv_waitUntilReady dev t)"

definition package_data :: "acquire_context \<Rightarrow> (string \<times> js) list" where
  "package_data cx = [(''packageName'', JsStr (cx_packageName cx))]"

text \<open>An \<open>apkPath\<close> that is the empty string counts as none (\<open>!context.apkPath\<close>).\<close>

definition ensurePackageInstalled ::
  "'s device_env \<Rightarrow> 's device \<Rightarrow> acquire_context \<Rightarrow> ('s, unit) eff" where
  "ensurePackageInstalled E dev cx =
     (let required = cx_requirePackage cx; pkg = cx_packageName cx
      in bindE (isPackageInstalled dev pkg) (\<lambda>there.
         if there then ret ()
         else if \<not> opt_truthy (cx_apkPath cx)
         then (if \<not> required
               then logE E WARN (''The app is not on the device and no apkPath was configured. Handing over the ''
                      @ ''phone anyway - install it yourself before confirming, or the verification flow will ''
                      @ ''have nothing to check.'') (Some (JsObj (package_data cx)))
               else throwE (PackageNotInstalledError pkg))
         else (let apk = the (cx_apkPath cx);
                   data = package_data cx @ [(''apkPath'', JsStr apk)]
               in thenE (logE E INFO ''App is missing from the device, installing it'' (Some (JsObj data)))
                  (bindE (catchE (thenE (installPackage dev apk) (ret True))
                            (\<lambda>e. if required then throwE e
                                  else thenE (logE E WARN
                                         ''Could not install the app; handing over the phone without it''
                                         (Some (JsObj (data @ [(''error'', JsStr (exn_message e))]))))
                                       (ret False))) (\<lambda>installed.
                   if \<not> installed then ret ()
                   else bindE (isPackageInstalled dev pkg) (\<lambda>there'.
                     if there' then logE E INFO ''App installed'' (Some (JsObj (package_data cx)))
                     else if \<not> required
                     then logE E WARN (''The installer reported success but the package manager cannot resolve ''
                            @ ''the app. Handing over the phone anyway.'') (Some (JsObj (package_data cx)))
                     else throwE (PackageNotInstalledError pkg)))))))"

subsection \<open>A device that is already there\<close>

record attached_config =
  at_adbCommand :: string
  at_deviceSerial :: "string option"
  at_adbHost :: "string option"
  at_adbPort :: "int option"
  at_bootTimeoutSeconds :: int

definition attached_acquire ::
  "'s device_env \<Rightarrow> attached_config \<Rightarrow> acquire_context \<Rightarrow> ('s, 's acquired) eff" where
  "attached_acquire E cfg cx =
     (let dev = AdbDevice E (at_adbCommand cfg)
            \<lparr>tg_serial = at_deviceSerial cfg, tg_host = at_adbHost cfg, tg_port = at_adbPort cfg\<rparr>
      in thenE (waitUntilReady dev (at_bootTimeoutSeconds cfg * 1000))
         (thenE (ensurePackageInstalled E dev cx)
           (ret \<lparr>aq_device = dev, aq_serial = at_deviceSerial cfg, aq_egressIp = None, aq_release = ret ()\<rparr>)))"

definition attached_provider :: "'s device_env \<Rightarrow> attached_config \<Rightarrow> 's provider" where
  "attached_provider E cfg = \<lparr>dp_kind = ''attached'', dp_acquire = attached_acquire E cfg\<rparr>"

subsection \<open>Evidence\<close>

record evidence =
  evi_screenshotKey :: "string option"
  evi_pageSourceKey :: "string option"
  evi_failures :: "string list"

definition slug_char :: "char \<Rightarrow> bool" where
  "slug_char c = (word_char c \<or> c = CHR ''.'' \<or> c = CHR ''-'')"

fun collapse :: "bool \<Rightarrow> string \<Rightarrow> string" where
  "collapse open_run [] = []"
| "collapse open_run (c # s) =
     (if slug_char c then c # collapse False s
      else if open_run then collapse True s else CHR ''-'' # collapse True s)"

definition slug :: "string \<Rightarrow> string" where
  "slug s =
     (let dash = (\<lambda>c. c = CHR ''-'');
          t = take 60 (rev (dropWhile dash (rev (dropWhile dash (collapse False s)))))
      in if t = [] then ''step'' else t)"

lemma slug_examples: "slug ''--tap: Post!'' = ''tap-Post''" "slug ''?!'' = ''step''"
  by code_simp+

definition put_artifact :: "'s device_env \<Rightarrow> string \<Rightarrow> string \<Rightarrow> ('s, unit) eff" where
  "put_artifact E key content = invoke (\<lambda>x. EvStore key (succeeded x)) (ae_put E key content)"

text \<open>One guarded piece of evidence: the key it was stored under, or the reason it is missing.\<close>

definition grab ::
  "'s device_env \<Rightarrow> string \<Rightarrow> string \<Rightarrow> ('s, string) eff \<Rightarrow> ('s, string option \<times> string list) eff" where
  "grab E what key m =
     catchE (bindE m (\<lambda>content.
               if content = [] then ret (None, [])
               else thenE (put_artifact E key content) (ret (Some key, []))))
       (\<lambda>e. ret (None, [what @ '': '' @ exn_message e]))"

definition captureEvidence ::
  "'s device_env \<Rightarrow> appium_session \<Rightarrow> string \<Rightarrow> string \<Rightarrow> ('s, evidence) eff" where
  "captureEvidence E ses jobId label =
     bindE (nowE E) (\<lambda>now.
       let pre = ''artifacts/'' @ jobId @ ''/'' @ show_int now @ ''-'' @ slug label
       in bindE (readE (ae_storage E)) (\<lambda>broken.
          case broken of
            Some why \<Rightarrow> ret \<lparr>evi_screenshotKey = None, evi_pageSourceKey = None,
                              evi_failures = [''storage unavailable: '' @ why]\<rparr>
          | None \<Rightarrow>
              bindE (grab E ''screenshot'' (pre @ ''.png'') (takeScreenshot E ses)) (\<lambda>(shot, f1).
              bindE (grab E ''page source'' (pre @ ''.xml'') (getPageSource E ses)) (\<lambda>(page, f2).
                ret \<lparr>evi_screenshotKey = shot, evi_pageSourceKey = page, evi_failures = f1 @ f2\<rparr>))))"

text \<open>Capturing evidence never throws and always ends, whatever storage and Appium do.\<close>

lemma grab_calm: "throws (\<lambda>e. False) (grab E what key m)"
  unfolding grab_def by (intro throws_catch throws_ret)

lemma captureEvidence_calm [throws_intros]: "throws T (captureEvidence E ses jobId label)"
proof -
  have "throws (\<lambda>e. False) (captureEvidence E ses jobId label)"
    unfolding captureEvidence_def
    by (auto simp: Let_def split: option.splits intro!: throws_intros grab_calm)
  then show ?thesis by (auto simp: throws_def)
qed

lemma settles_captureEvidence [settles_intros]: "settles (captureEvidence E ses jobId label)"
  unfolding captureEvidence_def grab_def put_artifact_def
  by (auto simp: Let_def split: option.splits prod.splits intro!: settles_intros)

subsection \<open>What a provider promises\<close>

text \<open>
  A provider's \<open>acquire\<close> ends as long as time passes, with a device that keeps the device's contract
  and a \<open>release\<close> that ends, or with an error; and it leaves the driver's marks alone.
\<close>

locale device_provider =
  fixes E :: "'s device_env" and acquire :: "acquire_context \<Rightarrow> ('s, 's acquired) eff"
  assumes acquire_settles: "clock_laws E \<Longrightarrow> settles (acquire cx)"
    and acquire_quiet: "quiet (acquire cx)"
    and acquire_device: "yields (\<lambda>a. android_device E (aq_device a)) (acquire cx)"
    and release_settles: "yields (\<lambda>a. settles (aq_release a)) (acquire cx)"
    and release_quiet: "yields (\<lambda>a. quiet (aq_release a)) (acquire cx)"
begin

lemma acquire_noted:
  "clock_laws E \<Longrightarrow> settles (noteE (\<lambda>x. EvAcquire (succeeded x)) (acquire cx))"
  by (intro settles_note acquire_settles)

lemma acquire_events:
  assumes "noteE (\<lambda>x. EvAcquire (succeeded x)) (acquire cx) r = Some (x, r1)"
  shows "\<exists>evs. ru_trace r1 = ru_trace r @ evs @ [EvAcquire (succeeded x)] \<and> (\<forall>e \<in> set evs. \<not> own_mark e)"
  using assms emitsD [OF acquire_quiet]
  by (fastforce simp: noteE_def split: option.splits)

lemma acquired_sound:
  assumes "acquire cx r = Some (Inr a, r1)"
  shows "android_device E (aq_device a)" "settles (aq_release a)" "quiet (aq_release a)"
  using yieldsD [OF acquire_device assms] yieldsD [OF release_settles assms] yieldsD [OF release_quiet assms]
  by simp_all

end

context android_device
begin

lemma ensure_quiet: "quiet (ensurePackageInstalled E' dev cx)"
  unfolding ensurePackageInstalled_def isPackageInstalled_def installPackage_def
  by (auto simp: Let_def intro!: emits_intros device_quiet)

lemma ensure_settles: "settles (ensurePackageInstalled E' dev cx)"
  unfolding ensurePackageInstalled_def isPackageInstalled_def installPackage_def
  by (auto simp: Let_def intro!: settles_intros device_settles)

lemma ready_noted: "clock_laws E \<Longrightarrow> settles (waitUntilReady dev t)" "quiet (waitUntilReady dev t)"
  unfolding waitUntilReady_def by (auto intro!: settles_intros emits_intros device_waits device_quiet)

end

interpretation attached: device_provider E "attached_acquire E cfg" for E cfg
  by unfold_locales
    (auto simp: attached_acquire_def Let_def adb.android_device_axioms
      intro!: settles_intros emits_intros yields_intros adb.ensure_quiet adb.ensure_settles adb.ready_noted)

end
