(* ===== verification/Containers.thy ===== *)
theory Containers
  imports Gateway Egress_Check Device_Provider
begin

text \<open>
  What the two container providers, \<open>lib/android/redroidProvider.ts\<close> and \<open>emulatorProvider.ts\<close>, do in
  the same way: refusing a second run of an account, finding the device's address, waiting for
  it, pinning its traffic to the gateway, and explaining a failure from the containers' logs. The
  texts that differ are arguments.
\<close>

record provider_options =
  po_proxy :: "proxy_runtime option"
  po_adbCommand :: string
  po_adbServer :: "adb_target option"
  po_bootTimeoutSeconds :: int

definition serial_target :: "adb_target option \<Rightarrow> string \<Rightarrow> adb_target" where
  "serial_target server serial =
     \<lparr>tg_serial = Some serial, tg_host = Option.bind server tg_host, tg_port = Option.bind server tg_port\<rparr>"

definition refuseConcurrentRunForAccount :: "'s device_env \<Rightarrow> acquire_context \<Rightarrow> ('s, unit) eff" where
  "refuseConcurrentRunForAccount E cx =
     bindE (listByLabel E ACCOUNT_LABEL (cx_accountId cx)) (\<lambda>existing.
       let others = filter (\<lambda>c. map_of (ct_labels c) JOB_LABEL \<noteq> Some (cx_jobId cx)) existing
       in if others \<noteq> []
          then throwE (GenericError (''Account '' @ cx_accountId cx @ '' already has a container running (''
                 @ js_join '', '' (map ct_name others)
                 @ ''). Two runs would share one session volume and corrupt it.''))
          else ret ())"

definition start_gateway ::
  "'s device_env \<Rightarrow> proxy_runtime option \<Rightarrow> acquire_context \<Rightarrow> gateway_config \<Rightarrow> string option \<Rightarrow> string option
    \<Rightarrow> connect_via \<Rightarrow> ('s, 's gateway option) eff" where
  "start_gateway E proxy cx cfg network controlNetwork connectVia =
     (case proxy of
        None \<Rightarrow> ret None
      | Some px \<Rightarrow>
          bindE (startProxyGateway E
              \<lparr>go_proxy = px, go_jobId = cx_jobId cx, go_accountId = cx_accountId cx, go_config = cfg,
               go_network = network, go_controlNetwork = controlNetwork,
               go_publishContainerPort = (if connectVia = PublishedPort then Some 5555 else None)\<rparr>)
            (\<lambda>g. ret (Some g)))"

subsection \<open>Reaching the device\<close>

definition resolveSerial ::
  "'s device_env \<Rightarrow> connect_via \<Rightarrow> string \<Rightarrow> int \<Rightarrow> string \<Rightarrow> string \<Rightarrow> ('s, string) eff" where
  "resolveSerial E connectVia connectHost startTimeoutSeconds cancelled host =
     (if connectVia = ContainerName then ret (host @ '':5555'')
      else bindE (nowE E) (\<lambda>start. loopE (\<lambda>u.
        while_before E (start + startTimeoutSeconds * 1000)
          (bindE (abortedE E) (\<lambda>aborted.
             if aborted then throwE (GenericError cancelled)
             else bindE (hostPort E host 5555 JobSignal) (\<lambda>port.
               if port \<noteq> None then stop (connectHost @ '':'' @ show_int (the port))
               else bindE (isRunning E host JobSignal) (\<lambda>running.
                 if \<not> running then throwE (GenericError (''Container '' @ host @ '' exited before publishing its ADB port''))
                 else thenE (sleepE E 500) (again ())))))
          (throwE (GenericError (''Container '' @ host @ '' never published its ADB port within ''
             @ show_int startTimeoutSeconds @ ''s'')))) ()))"

definition await_adb ::
  "'s device_env \<Rightarrow> provider_options \<Rightarrow> int \<Rightarrow> string \<Rightarrow> string \<Rightarrow> string \<Rightarrow> string \<Rightarrow> 's gateway option \<Rightarrow> ('s, unit) eff" where
  "await_adb E opts startTimeoutSeconds cancelled stopped serial name gateway =
     bindE (nowE E) (\<lambda>start. loopE (\<lambda>u.
       bindE (abortedE E) (\<lambda>aborted.
         if aborted then throwE (GenericError cancelled)
         else bindE (isRunning E name JobSignal) (\<lambda>running.
           if \<not> running then throwE (GenericError stopped)
           else bindE (case gateway of Some g \<Rightarrow> isRunning E (gt_name g) JobSignal | None \<Rightarrow> ret True) (\<lambda>up.
             if \<not> up then throwE (GenericError (''The egress gateway '' @ gt_name (the gateway)
                    @ '' stopped while waiting for ADB, so the device has no network''))
             else bindE (attemptE (adbConnect E (po_adbCommand opts) (po_adbServer opts) serial JobSignal)) (\<lambda>outcome.
               case outcome of
                 Inr v \<Rightarrow> stop ()
               | Inl error \<Rightarrow> until_deadline E (start + startTimeoutSeconds * 1000) 1000
                   (throwE (GenericError (''ADB never accepted a connection to '' @ serial @ '' within ''
                      @ show_int startTimeoutSeconds @ ''s: '' @ exn_message error)))
                   ()))))) ())"

definition waitUntilUsable ::
  "'s device_env \<Rightarrow> provider_options \<Rightarrow> int \<Rightarrow> string \<Rightarrow> string \<Rightarrow> string \<Rightarrow> string \<Rightarrow> 's gateway option \<Rightarrow> ('s, 's device) eff" where
  "waitUntilUsable E opts startTimeoutSeconds cancelled stopped serial name gateway =
     (let dev = AdbDevice E (po_adbCommand opts) (serial_target (po_adbServer opts) serial)
      in thenE (await_adb E opts startTimeoutSeconds cancelled stopped serial name gateway)
         (thenE (waitUntilReady dev (po_bootTimeoutSeconds opts * 1000)) (ret dev)))"

subsection \<open>Pinning the egress\<close>

definition pinEgress ::
  "'s device_env \<Rightarrow> gateway_config \<Rightarrow> 's gateway \<Rightarrow> proxy_runtime \<Rightarrow> 's device \<Rightarrow> ('s, string option) eff" where
  "pinEgress E cfg gateway proxy dev =
     thenE (if gw_harden cfg
            then bindE (resolveProxyEndpoints E (rt_host proxy) (nat (rt_port proxy))) (\<lambda>endpoints.
                   thenE (whenE (endpoints = [])
                     (logE E WARN (''Could not resolve the proxy host, so the firewall can only recognise the gateway'' @ sq @ ''s ''
                        @ ''traffic by its fwmark. On a kernel without xt_mark the run will fail the egress check.'')
                        (Some (JsObj [(''host'', JsStr (rt_host proxy))]))))
                   (applyEgressPolicy E (gt_name gateway)
                     (policyFromEnv (gw_env cfg) (gt_controlSubnets gateway) endpoints)))
            else ret ())
     (thenE (alignDeviceToEgress E dev proxy)
       (if \<not> ec_enabled (gw_egressCheck cfg)
        then thenE (logE E WARN ''Egress check disabled; nothing has verified where this device exits'' None) (ret None)
        else (let check = gw_egressCheck cfg; checkHost = egressCheckHost E (ec_url check)
              in thenE (if opt_truthy (ec_probeBinary check) then ensureProbeBinary E dev (the (ec_probeBinary check)) else ret ())
                 (bindE (if opt_truthy checkHost then resolveProxyEndpoints E (the checkHost) 80 else ret []) (\<lambda>resolved.
                  bindE (assertProxiedEgress E dev (gt_name gateway) (ec_url check) (ec_timeoutSeconds check)
                           (case resolved of [] \<Rightarrow> None | (address, port) # _ \<Rightarrow> Some address) (ec_probeBinary check))
                    (\<lambda>ip. ret (Some ip)))))))"

subsection \<open>Explaining a failure\<close>

fun log_sections :: "'s device_env \<Rightarrow> string list \<Rightarrow> ('s, string list) eff" where
  "log_sections E [] = ret []"
| "log_sections E (c # cs) =
     bindE (docker_logs E c 40) (\<lambda>logs.
       bindE (log_sections E cs) (\<lambda>rest.
         ret ((if logs \<noteq> [] then ''--- last lines of '' @ c @ '' ---'' @ lf @ logs else []) # rest)))"

definition enrich :: "'s device_env \<Rightarrow> exn \<Rightarrow> string list \<Rightarrow> ('s, exn) eff" where
  "enrich E error names =
     bindE (log_sections E (filter (\<lambda>n. n \<noteq> []) names)) (\<lambda>sections.
       let detail = join_some lf sections
       in ret (if detail = [] then error else GenericError (exn_message error @ lf @ detail)))"

text \<open>The common end of \<open>release\<close>: the connection to the device.\<close>

definition disconnect :: "'s device_env \<Rightarrow> provider_options \<Rightarrow> string option \<Rightarrow> ('s, unit) eff" where
  "disconnect E opts serial =
     (if opt_truthy serial
      then ignoreE (adbDisconnect E (po_adbCommand opts) (po_adbServer opts) (the serial) NoSignal)
      else ret ())"

subsection \<open>Every call ends\<close>

lemma resolveSerial_settles: "clock_laws E \<Longrightarrow> settles (resolveSerial E via h t c host)"
  unfolding resolveSerial_def
  by (rule settles_if, intro settles_intros,
      rule settles_deadline_loop [where t = "t * 1000"];
      auto simp: abortedE_def intro!: settles_intros paced_intros forwards_intros)

lemma await_adb_settles: "clock_laws E \<Longrightarrow> settles (await_adb E opts t c st serial name gw)"
  unfolding await_adb_def
  by (rule settles_deadline_loop [where t = "t * 1000"];
      intro settles_intros paced_intros forwards_intros;
      auto simp: abortedE_def split: option.splits sum.splits
        intro!: settles_intros forwards_intros paced_intros)

lemma waitUntilUsable_settles: "clock_laws E \<Longrightarrow> settles (waitUntilUsable E opts t c st serial name gw)"
  unfolding waitUntilUsable_def Let_def
  by (intro settles_intros await_adb_settles adb.ready_noted)

lemma waitUntilUsable_device:
  "yields (\<lambda>dev. dev = AdbDevice E (po_adbCommand opts) (serial_target (po_adbServer opts) serial))
     (waitUntilUsable E opts t c st serial name gw)"
  unfolding waitUntilUsable_def Let_def by (intro yields_intros refl)

lemma settles_enrich [settles_intros]: "settles (log_sections E cs)" "settles (enrich E e names)"
proof -
  show sections: "settles (log_sections E cs)" for cs
    by (induction cs) (auto intro!: settles_intros)
  show "settles (enrich E e names)" unfolding enrich_def by (auto simp: Let_def intro!: settles_intros sections)
qed

lemma enrich_returns: "throws T (enrich E e names)"
proof -
  have "throws T (log_sections E cs)" for cs
    by (induction cs) (auto intro!: throws_intros)
  then show ?thesis unfolding enrich_def by (auto simp: Let_def intro!: throws_intros)
qed

lemma plain_enrich [emits_intros]: "plain (log_sections E cs)" "plain (enrich E e names)"
proof -
  show sections: "plain (log_sections E cs)" for cs
    by (induction cs) (auto intro!: emits_intros)
  show "plain (enrich E e names)" unfolding enrich_def by (auto simp: Let_def intro!: emits_intros sections)
qed

lemma disconnect_calm [settles_intros, emits_intros, returns_intros]:
  "settles (disconnect E opts s)" "plain (disconnect E opts s)" "returns (\<lambda>_. True) (disconnect E opts s)"
  unfolding disconnect_def by (auto intro!: settles_intros emits_intros returns_intros)

lemma plain_reaching [emits_intros]:
  "plain (refuseConcurrentRunForAccount E cx)" "plain (resolveSerial E via h t c host)"
  "plain (await_adb E opts t c st serial name gw)" "plain (waitUntilUsable E opts t c st serial name gw)"
  unfolding waitUntilUsable_def refuseConcurrentRunForAccount_def resolveSerial_def await_adb_def waitUntilReady_def
  by (auto simp: Let_def intro!: emits_intros adb.device_plain split: sum.splits option.splits)

lemma settles_refuse [settles_intros]: "settles (refuseConcurrentRunForAccount E cx)"
  unfolding refuseConcurrentRunForAccount_def by (auto simp: Let_def intro!: settles_intros)

lemma start_gateway_settles: "clock_laws E \<Longrightarrow> settles (start_gateway E px cx cfg n c via)"
  unfolding start_gateway_def by (auto intro!: settles_intros startProxyGateway_settles split: option.splits)

lemma startProxyGateway_shape:
  "yields (\<lambda>g. gt_name g = gatewayContainerName (go_jobId opts) \<and> gt_remove g = gateway_remove E (gt_name g)
    \<and> gt_networkMode g = ''container:'' @ gt_name g) (startProxyGateway E opts)"
  unfolding startProxyGateway_def Let_def by (auto intro!: yields_intros)

definition own_gateway :: "'s device_env \<Rightarrow> string \<Rightarrow> 's gateway option \<Rightarrow> bool" where
  "own_gateway E jobId gateway \<longleftrightarrow> (\<forall>g. gateway = Some g \<longrightarrow>
     gt_name g = gatewayContainerName jobId \<and> gt_remove g = gateway_remove E (gt_name g)
     \<and> gt_networkMode g = ''container:'' @ gt_name g)"

lemma start_gateway_own: "yields (own_gateway E (cx_jobId cx)) (start_gateway E px cx cfg n c via)"
proof (cases px)
  case (Some p)
  show ?thesis unfolding start_gateway_def Some option.case
    by (rule yields_bind [OF startProxyGateway_shape]) (auto simp: own_gateway_def intro!: yields_intros)
qed (auto simp: start_gateway_def own_gateway_def intro!: yields_intros)

lemma own_gateway_remove:
  "own_gateway E j gw \<Longrightarrow> settles (case gw of Some g \<Rightarrow> gt_remove g | None \<Rightarrow> ret ())"
  by (auto simp: own_gateway_def intro!: settles_intros split: option.splits)

lemma quiet_start_gateway [emits_intros]: "quiet (start_gateway E px cx cfg n cn via)"
  unfolding start_gateway_def by (auto intro!: emits_intros split: option.splits)

context android_device
begin

lemma pinEgress_settles: "settles (pinEgress E' cfg gw px dev)"
  unfolding pinEgress_def
  by (auto simp: Let_def intro!: settles_intros check_settles split: list.splits)

lemma pinEgress_plain: "plain (pinEgress E' cfg gw px dev)"
  unfolding pinEgress_def
  by (auto simp: Let_def intro!: emits_intros check_plain split: list.splits)

lemma ensure_plain: "plain (ensurePackageInstalled E' dev cx)"
  unfolding ensurePackageInstalled_def isPackageInstalled_def installPackage_def
  by (auto simp: Let_def intro!: emits_intros device_plain)

end

end
