(* ===== verification/Redroid.thy ===== *)
theory Redroid
  imports Containers
begin

text \<open>
  \<open>lib/android/redroidProvider.ts\<close>: one throwaway Android container per job, inside its gateway's
  network when the account has a proxy, and removed with it whatever happens.
\<close>

definition containerName :: "string \<Rightarrow> string" where
  "containerName jobId = take 60 (''redroid-job-'' @ jobId)"

definition sessionVolumeName :: "redroid_config \<Rightarrow> string \<Rightarrow> string" where
  "sessionVolumeName cfg accountId =
     (case rd_sessionVolume cfg of Some v \<Rightarrow> v | None \<Rightarrow> ''redroid-session-'' @ accountId)"

definition redroid_spec :: "redroid_config \<Rightarrow> acquire_context \<Rightarrow> 's gateway option \<Rightarrow> ms \<Rightarrow> run_spec" where
  "redroid_spec cfg cx gateway now =
     \<lparr>rs_image = rd_image cfg, rs_name = containerName (cx_jobId cx),
      rs_labels = [(OWNER_LABEL, OWNER_VALUE), (JOB_LABEL, cx_jobId cx), (ACCOUNT_LABEL, cx_accountId cx),
                   (ROLE_LABEL, DEVICE_ROLE), (CREATED_AT_LABEL, toISOString now)],
      rs_publishContainerPort = (if rd_connectVia cfg = PublishedPort \<and> gateway = None then Some 5555 else None),
      rs_volumes = (sessionVolumeName cfg (cx_accountId cx), ''/data'')
        # (if opt_truthy (rd_binderfsPath cfg) then [(the (rd_binderfsPath cfg), ''/dev/binderfs'')] else []),
      rs_env = [], rs_privileged = True, rs_capAdd = [], rs_devices = [],
      rs_network = (case gateway of Some g \<Rightarrow> Some (gt_networkMode g) | None \<Rightarrow> rd_network cfg),
      rs_sysctls = [], rs_memoryLimit = Some (rd_memoryLimit cfg),
      rs_command =
        [''androidboot.redroid_width='' @ show_int (rd_width cfg), ''androidboot.redroid_height='' @ show_int (rd_height cfg),
         ''androidboot.redroid_dpi='' @ show_int (rd_dpi cfg), ''androidboot.redroid_gpu_mode='' @ rd_gpuMode cfg]
        @ (if rd_useMemfd cfg then [''androidboot.use_memfd=1''] else []) @ rd_extraArgs cfg\<rparr>"

definition redroid_release ::
  "'s device_env \<Rightarrow> provider_options \<Rightarrow> string \<Rightarrow> 's gateway option \<Rightarrow> string option \<Rightarrow> ('s, unit) eff" where
  "redroid_release E opts name gateway serial =
     thenE (disconnect E opts serial)
     (thenE (remove_and_log E name ''Ephemeral Android container removed'' []
               ''Could not remove the Android container; the reaper will collect it'')
       (case gateway of Some g \<Rightarrow> gt_remove g | None \<Rightarrow> ret ()))"

text \<open>From a device that answers to one with its egress verified and the app on it.\<close>

definition redroid_prepare ::
  "'s device_env \<Rightarrow> redroid_config \<Rightarrow> provider_options \<Rightarrow> acquire_context \<Rightarrow> 's gateway option \<Rightarrow> string
    \<Rightarrow> ('s, 's device \<times> string option) eff" where
  "redroid_prepare E cfg opts cx gateway serial =
     (let name = containerName (cx_jobId cx)
      in bindE (waitUntilUsable E opts (rd_startTimeoutSeconds cfg) ''Cancelled while connecting to the Android container''
                 (''Container '' @ name @ '' stopped while waiting for ADB'') serial name gateway) (\<lambda>dev.
         bindE (case (gateway, po_proxy opts) of
                  (Some g, Some px) \<Rightarrow> pinEgress E (rd_proxyGateway cfg) g px dev
                | _ \<Rightarrow> ret None) (\<lambda>egressIp.
         thenE (ensurePackageInstalled E dev cx)
         (thenE (logE E INFO ''Android container ready''
             (Some (JsObj [(''container'', JsStr name), (''serial'', JsStr serial)])))
           (ret (dev, egressIp))))))"

text \<open>The \<open>try\<close> block; the variable \<open>serial\<close> is what \<open>release\<close> sees.\<close>

definition redroid_try ::
  "'s device_env \<Rightarrow> redroid_config \<Rightarrow> provider_options \<Rightarrow> acquire_context \<Rightarrow> 's gateway option
    \<Rightarrow> ('s, (exn, 's acquired) result \<times> string option) eff" where
  "redroid_try E cfg opts cx gateway =
     (let name = containerName (cx_jobId cx)
      in tryL (thenE (logE E INFO ''Starting ephemeral Android container''
                (Some (JsObj ([(''container'', JsStr name), (''image'', JsStr (rd_image cfg)),
                              (''sessionVolume'', JsStr (sessionVolumeName cfg (cx_accountId cx)))]
                             @ opt_field ''egressGateway'' (map_option (JsStr \<circ> gt_name) gateway)))))
              (bindE (nowE E) (\<lambda>now. docker_run E (redroid_spec cfg cx gateway now) JobSignal))) None (\<lambda>_.
         tryL (resolveSerial E (rd_connectVia cfg) (rd_connectHost cfg) (rd_startTimeoutSeconds cfg)
                ''Cancelled while waiting for the container to publish its ADB port''
                (case gateway of Some g \<Rightarrow> gt_name g | None \<Rightarrow> name)) None (\<lambda>serial.
         tryL (redroid_prepare E cfg opts cx gateway serial) (Some serial) (\<lambda>(dev, egressIp).
           ret (Inr \<lparr>aq_device = dev, aq_serial = Some serial, aq_egressIp = egressIp,
                     aq_release = redroid_release E opts name gateway (Some serial)\<rparr>, Some serial)))))"

definition redroid_acquire ::
  "'s device_env \<Rightarrow> redroid_config \<Rightarrow> provider_options \<Rightarrow> acquire_context \<Rightarrow> ('s, 's acquired) eff" where
  "redroid_acquire E cfg opts cx =
     (let name = containerName (cx_jobId cx)
      in thenE (refuseConcurrentRunForAccount E cx)
         (thenE (ensureVolume E (sessionVolumeName cfg (cx_accountId cx))
                  [(OWNER_LABEL, OWNER_VALUE), (ACCOUNT_LABEL, cx_accountId cx)])
         (thenE (ignoreE (docker_remove E name))
         (bindE (start_gateway E (po_proxy opts) cx (rd_proxyGateway cfg) (rd_network cfg) (rd_controlNetwork cfg)
                   (rd_connectVia cfg)) (\<lambda>gateway.
          bindE (redroid_try E cfg opts cx gateway) (\<lambda>(outcome, serial). case outcome of
              Inr acquired \<Rightarrow> ret acquired
            | Inl error \<Rightarrow>
                bindE (enrich E error [name, (case gateway of Some g \<Rightarrow> gt_name g | None \<Rightarrow> [])]) (\<lambda>enriched.
                  thenE (redroid_release E opts name gateway serial) (throwE enriched))))))))"

subsection \<open>It keeps the contract of a provider\<close>

lemma redroid_release_settles: "own_gateway E j gw \<Longrightarrow> settles (redroid_release E opts name gw s)"
  unfolding redroid_release_def by (intro settles_intros own_gateway_remove disconnect_calm)

lemma redroid_prepare_settles: "clock_laws E \<Longrightarrow> settles (redroid_prepare E cfg opts cx gw serial)"
  unfolding redroid_prepare_def Let_def
  by (rule settles_from [OF waitUntilUsable_settles waitUntilUsable_device])
    (auto intro!: settles_intros adb.pinEgress_settles adb.ensure_settles split: option.splits)

lemma redroid_try_settles: "clock_laws E \<Longrightarrow> settles (redroid_try E cfg opts cx gw)"
  unfolding redroid_try_def Let_def
  by (auto intro!: settles_intros resolveSerial_settles redroid_prepare_settles)

lemma redroid_acquire_settles: "clock_laws E \<Longrightarrow> settles (redroid_acquire E cfg opts cx)"
  unfolding redroid_acquire_def Let_def
  by (intro settles_intros settles_from [OF start_gateway_settles start_gateway_own])
    (auto intro!: settles_intros redroid_try_settles redroid_release_settles split: sum.splits)

text \<open>What an acquisition hands over: a device of \<open>adb\<close> and the release of this job's containers.\<close>

definition redroid_handle :: "'s device_env \<Rightarrow> provider_options \<Rightarrow> string \<Rightarrow> 's acquired \<Rightarrow> bool" where
  "redroid_handle E opts jobId a \<longleftrightarrow>
     (\<exists>serial gw. own_gateway E jobId gw \<and> aq_serial a = Some serial
        \<and> aq_device a = AdbDevice E (po_adbCommand opts) (serial_target (po_adbServer opts) serial)
        \<and> aq_release a = redroid_release E opts (containerName jobId) gw (Some serial))"

lemma redroid_prepare_device:
  "yields (\<lambda>x. fst x = AdbDevice E (po_adbCommand opts) (serial_target (po_adbServer opts) serial))
     (redroid_prepare E cfg opts cx gw serial)"
  unfolding redroid_prepare_def Let_def
  by (rule yields_bind [OF waitUntilUsable_device]) (auto intro!: yields_intros)

lemma redroid_try_handle:
  assumes "own_gateway E (cx_jobId cx) gw"
  shows "yields (\<lambda>(x, serial). \<forall>a. x = Inr a \<longrightarrow> redroid_handle E opts (cx_jobId cx) a) (redroid_try E cfg opts cx gw)"
  unfolding redroid_try_def Let_def
  by (intro yields_tryL yields_tryL_from [OF redroid_prepare_device])
    (use assms in \<open>auto simp: redroid_handle_def intro!: yields_intros\<close>)

lemma redroid_acquire_handle: "yields (redroid_handle E opts (cx_jobId cx)) (redroid_acquire E cfg opts cx)"
  unfolding redroid_acquire_def Let_def
  by (rule yields_then, rule yields_then, rule yields_then, rule yields_bind [OF start_gateway_own], rule yields_bind [OF redroid_try_handle])
    (auto intro!: yields_intros split: sum.splits)

lemma quiet_redroid_release: "own_gateway E j gw \<Longrightarrow> quiet (redroid_release E opts name gw s)"
  unfolding redroid_release_def own_gateway_def
  by (auto intro!: emits_intros plain_quiet [OF disconnect_calm(2)] split: option.splits)

lemma quiet_redroid_try: "quiet (redroid_try E cfg opts cx gw)"
proof -
  have "quiet (redroid_prepare E cfg opts cx gw serial)" for serial
    unfolding redroid_prepare_def Let_def
    by (rule emits_from [OF plain_quiet waitUntilUsable_device], intro emits_intros)
      (auto intro!: emits_intros plain_quiet [OF adb.pinEgress_plain] plain_quiet [OF adb.ensure_plain] split: option.splits)
  then show ?thesis
    unfolding redroid_try_def Let_def
    by (auto intro!: emits_intros plain_quiet [OF plain_reaching(2)])
qed

lemma redroid_acquire_quiet: "quiet (redroid_acquire E cfg opts cx)"
  unfolding redroid_acquire_def Let_def
  by (intro emits_intros plain_quiet [OF plain_reaching(1)] plain_quiet [OF plain_logs(4)]
      emits_from [OF quiet_start_gateway start_gateway_own])
    (auto intro!: emits_intros quiet_redroid_try quiet_redroid_release plain_quiet [OF plain_enrich(2)] split: sum.splits)

interpretation redroid: device_provider E "redroid_acquire E cfg opts" for E cfg opts
proof
  fix cx
  show "clock_laws E \<Longrightarrow> settles (redroid_acquire E cfg opts cx)" by (rule redroid_acquire_settles)
  show "quiet (redroid_acquire E cfg opts cx)" by (rule redroid_acquire_quiet)
  have handle: "redroid_handle E opts (cx_jobId cx) a \<Longrightarrow>
      android_device E (aq_device a) \<and> settles (aq_release a) \<and> quiet (aq_release a)" for a
    by (auto simp: redroid_handle_def adb.android_device_axioms intro: redroid_release_settles quiet_redroid_release)
  with redroid_acquire_handle [of E opts cx cfg] show
    "yields (\<lambda>a. android_device E (aq_device a)) (redroid_acquire E cfg opts cx)"
    "yields (\<lambda>a. settles (aq_release a)) (redroid_acquire E cfg opts cx)"
    "yields (\<lambda>a. quiet (aq_release a)) (redroid_acquire E cfg opts cx)"
    by (auto simp: yields_def)
qed

end
