(* ===== verification/Camera.thy ===== *)
theory Camera
  imports Gateway Appium
begin

text \<open>
  \<open>lib/android/cameraSlots.ts\<close>, \<open>cameraBridge.ts\<close> and \<open>cameraIngest.ts\<close>: lending a host camera to one
  job at a time, and the container that feeds it. The variables of the environment these modules
  read are the record \<open>camera_vars\<close>.
\<close>

record camera_vars =
  cv_devicePool :: string                    \<comment> \<open>\<open>CAMERA_DEVICE_POOL\<close>\<close>
  cv_number :: "string \<Rightarrow> int option"        \<comment> \<open>\<open>Number(s)\<close>, when that is an integer\<close>
  cv_onboardingTimeoutMs :: ms
  cv_ingestUrlTemplate :: string
  cv_controlApiUrl :: string
  cv_publishTimeoutMs :: ms

subsection \<open>The lease of a device\<close>

definition leaseTtlSeconds :: "camera_vars \<Rightarrow> int" where
  "leaseTtlSeconds V = - ((- cv_onboardingTimeoutMs V) div 1000) + 60 * 60"

definition leaseKey :: "nat \<Rightarrow> string" where
  "leaseKey index = ''camera:slot:'' @ show_nat index"

definition releaseIfHeld :: "'s device_env \<Rightarrow> nat \<Rightarrow> string \<Rightarrow> ('s, bool) eff" where
  "releaseIfHeld E index jobId = invoke (\<lambda>x. EvFree index) (ae_delIf E (leaseKey index) jobId)"

definition hostDevicePath :: "nat \<Rightarrow> string" where
  "hostDevicePath index = ''/dev/video'' @ show_nat index"

definition deviceMapping :: "nat \<Rightarrow> string" where
  "deviceMapping index = hostDevicePath index @ '':/dev/video0''"

definition noCameraAvailable :: "nat list \<Rightarrow> exn" where
  "noCameraAvailable pool = GenericError
     (if pool = []
      then ''No camera devices are configured. Set CAMERA_DEVICE_POOL to the v4l2loopback ''
        @ ''indices created on the host, e.g. '' @ quoted ''10,11,12,13'' @ ''.''
      else ''Every camera device is in use ('' @ js_join '', '' (map hostDevicePath pool) @ ''). ''
        @ ''Either a session is still live on each, or the pool is smaller than the ''
        @ ''number of onboarding jobs allowed to run at once.'')"

record 's camera_slot =
  cs_index :: nat
  cs_hostDevice :: string
  cs_mapping :: string
  cs_release :: "('s, unit) eff"   \<comment> \<open>the first call; a later one does nothing\<close>

definition cameraPool :: "camera_vars \<Rightarrow> nat list" where
  "cameraPool V =
     (let raw = js_trim (cv_devicePool V)
      in if raw = [] then []
         else map nat (filter (\<lambda>i. i \<ge> 0)
           (concat (map (\<lambda>entry. case cv_number V (js_trim entry) of Some i \<Rightarrow> [i] | None \<Rightarrow> [])
             (js_split (CHR '','') raw)))))"

fun acquire_from :: "'s device_env \<Rightarrow> camera_vars \<Rightarrow> string \<Rightarrow> nat list \<Rightarrow> nat list \<Rightarrow> ('s, 's camera_slot) eff" where
  "acquire_from E V jobId pool [] = throwE (noCameraAvailable pool)"
| "acquire_from E V jobId pool (index # rest) =
     bindE (invoke (\<lambda>x. EvLease index (x = Inr True)) (ae_setNx E (leaseKey index) jobId (leaseTtlSeconds V))) (\<lambda>won.
       if \<not> won then acquire_from E V jobId pool rest
       else ret \<lparr>cs_index = index, cs_hostDevice = hostDevicePath index, cs_mapping = deviceMapping index,
                 cs_release = ignoreE (releaseIfHeld E index jobId)\<rparr>)"

definition acquireCameraSlot :: "'s device_env \<Rightarrow> camera_vars \<Rightarrow> string \<Rightarrow> ('s, 's camera_slot) eff" where
  "acquireCameraSlot E V jobId = acquire_from E V jobId (cameraPool V) (cameraPool V)"

text \<open>The loop of \<open>reconcileCameraSlots\<close>; a failed lookup counts as an active job.\<close>

fun reconcile_from ::
  "'s device_env \<Rightarrow> nat set \<Rightarrow> (string \<Rightarrow> ('s, bool) eff) \<Rightarrow> nat list \<Rightarrow> nat list \<Rightarrow> ('s, nat list) eff" where
  "reconcile_from E held isJobActive [] freed = ret freed"
| "reconcile_from E held isJobActive (index # rest) freed =
     (if index \<in> held then reconcile_from E held isJobActive rest freed
      else bindE (invoke (\<lambda>x. EvLookup (leaseKey index)) (ae_redisGet E (leaseKey index))) (\<lambda>jobId.
        if \<not> opt_truthy jobId then reconcile_from E held isJobActive rest freed
        else bindE (catchE (isJobActive (the jobId)) (\<lambda>e. ret True)) (\<lambda>active.
          if active then reconcile_from E held isJobActive rest freed
          else bindE (releaseIfHeld E index (the jobId)) (\<lambda>released.
            reconcile_from E held isJobActive rest (if released then freed @ [index] else freed)))))"

definition reconcileCameraSlots ::
  "'s device_env \<Rightarrow> camera_vars \<Rightarrow> nat set \<Rightarrow> (string \<Rightarrow> ('s, bool) eff) \<Rightarrow> ('s, nat list) eff" where
  "reconcileCameraSlots E V held isJobActive = reconcile_from E held isJobActive (cameraPool V) []"

subsection \<open>The bridge\<close>

definition bridgeContainerName :: "string \<Rightarrow> string" where
  "bridgeContainerName jobId = take 60 (''redroid-cam-'' @ jobId)"

definition cameraStreamName :: "string \<Rightarrow> string" where
  "cameraStreamName jobId = ''cam-'' @ jobId"

definition cameraIngestUrl :: "camera_vars \<Rightarrow> string \<Rightarrow> string option" where
  "cameraIngestUrl V jobId =
     (if cv_ingestUrlTemplate V = [] then None
      else Some (js_replace_all ''{jobId}'' jobId
             (js_replace_all ''{stream}'' (cameraStreamName jobId) (cv_ingestUrlTemplate V))))"

definition ffmpegArgs :: "bridge_config \<Rightarrow> string \<Rightarrow> string list" where
  "ffmpegArgs cfg source =
     [''-hide_banner'', ''-loglevel'', ''warning'', ''-rtsp_transport'', ''tcp'', ''-i'', source, ''-vf'',
      ''scale='' @ show_int (br_width cfg) @ '':'' @ show_int (br_height cfg) @ '',fps='' @ show_int (br_frameRate cfg),
      ''-pix_fmt'', br_pixelFormat cfg]
     @ br_extraArgs cfg @ [''-f'', ''v4l2'', ''/dev/video0'']"

record bridge_options =
  bo_jobId :: string
  bo_accountId :: string
  bo_cameraIndex :: nat
  bo_deviceMapping :: string
  bo_config :: bridge_config
  bo_network :: "string option"

record 's bridge =
  cb_name :: string
  cb_cameraIndex :: nat
  cb_remove :: "('s, unit) eff"

definition bridge_source :: "bridge_options \<Rightarrow> string" where
  "bridge_source opts = js_replace_all ''{stream}'' (cameraStreamName (bo_jobId opts)) (br_sourceUrlTemplate (bo_config opts))"

definition bridge_spec :: "bridge_options \<Rightarrow> ms \<Rightarrow> run_spec" where
  "bridge_spec opts now =
     \<lparr>rs_image = br_image (bo_config opts), rs_name = bridgeContainerName (bo_jobId opts),
      rs_labels = [(OWNER_LABEL, OWNER_VALUE), (JOB_LABEL, bo_jobId opts), (ACCOUNT_LABEL, bo_accountId opts),
                   (ROLE_LABEL, CAMERA_ROLE), (CAMERA_LABEL, show_nat (bo_cameraIndex opts)),
                   (CREATED_AT_LABEL, toISOString now)],
      rs_publishContainerPort = None, rs_volumes = [], rs_env = [], rs_privileged = False, rs_capAdd = [],
      rs_devices = [bo_deviceMapping opts], rs_network = bo_network opts, rs_sysctls = [], rs_memoryLimit = None,
      rs_command = ffmpegArgs (bo_config opts) (bridge_source opts)\<rparr>"

definition bridge_remove :: "'s device_env \<Rightarrow> string \<Rightarrow> nat \<Rightarrow> ('s, unit) eff" where
  "bridge_remove E name cameraIndex =
     remove_and_log E name ''Camera bridge removed'' [(''cameraIndex'', JsNum (int cameraIndex))]
       ''Could not remove the camera bridge; the reaper will collect it''"

definition assertStillFeeding :: "'s device_env \<Rightarrow> string \<Rightarrow> ms \<Rightarrow> ('s, unit) eff" where
  "assertStillFeeding E name settleMs =
     watch_container E name settleMs ''Cancelled while starting the camera bridge''
       (''The camera bridge '' @ name @ '' exited on startup. ffmpeg does this when nothing is ''
        @ ''publishing to the media server yet, when the host device does not exist ''
        @ ''(check CAMERA_DEVICE_POOL against the v4l2loopback video_nr= on the host), or ''
        @ ''when the device rejects the pixel format.'')"

definition startCameraBridge :: "'s device_env \<Rightarrow> bridge_options \<Rightarrow> ('s, 's bridge) eff" where
  "startCameraBridge E opts =
     (let name = bridgeContainerName (bo_jobId opts); remove = bridge_remove E name (bo_cameraIndex opts)
      in thenE (ignoreE (docker_remove E name))
         (thenE (logE E INFO ''Starting the camera bridge''
            (Some (JsObj [(''container'', JsStr name), (''cameraIndex'', JsNum (int (bo_cameraIndex opts))),
                          (''source'', JsStr (bridge_source opts)),
                          (''pixelFormat'', JsStr (br_pixelFormat (bo_config opts)))])))
         (bindE (nowE E) (\<lambda>now.
          thenE (docker_run E (bridge_spec opts now) JobSignal)
         (thenE (catchE (assertStillFeeding E name (br_settleMs (bo_config opts))) (give_up E name remove))
          (ret \<lparr>cb_name = name, cb_cameraIndex = bo_cameraIndex opts, cb_remove = remove\<rparr>))))))"

subsection \<open>Waiting for the operator's camera\<close>

text \<open>\<open>s.replace(/\/+$/, '')\<close>.\<close>

definition strip_slashes :: "string \<Rightarrow> string" where
  "strip_slashes s = rev (dropWhile (\<lambda>c. c = CHR ''/'') (rev s))"

text \<open>One poll: whether the path is being published, the status and the transport error to remember.\<close>

definition camera_poll ::
  "'s device_env \<Rightarrow> string \<Rightarrow> int option \<Rightarrow> ('s, bool \<times> int option \<times> string option) eff" where
  "camera_poll E url lastStatus =
     bindE (perform (EvFetch GET url None) (ae_fetch E GET url None)) (\<lambda>out. ret (case out of
         FetchFailed m \<Rightarrow> (False, lastStatus, Some m)
       | FetchNotJson st err \<Rightarrow> (False, Some st, if http_ok st then Some err else None)
       | FetchJson st text path \<Rightarrow>
           if \<not> http_ok st then (False, Some st, None)
           else (case js_prop ''ready'' path of
                   Inl e \<Rightarrow> (False, Some st, Some (exn_message e))
                 | Inr ready \<Rightarrow> (ready = JsBool True \<and> js_get path ''source'' \<noteq> JsNull, Some st, None))))"

definition not_published :: "string \<Rightarrow> string \<Rightarrow> ms \<Rightarrow> int option \<Rightarrow> string option \<Rightarrow> exn" where
  "not_published apiUrl stream timeoutMs lastStatus lastTransportError = GenericError
     (if opt_truthy lastTransportError
      then ''Could not reach the media server at '' @ apiUrl @ '' while waiting for a camera ('' @ the lastTransportError
        @ ''). This is a configuration problem, not a missing operator.''
      else if lastStatus \<noteq> None \<and> lastStatus \<noteq> Some 404 \<and> lastStatus \<noteq> Some 200
      then ''The media server answered '' @ show_int (the lastStatus) @ '' for '' @ stream
        @ '', so this worker cannot tell whether a camera was published. Check the API access list - ''
        @ ''the operator may well have granted their camera.''
      else ''Nothing published a camera to '' @ stream @ '' within '' @ show_int ((timeoutMs + 500) div 1000)
        @ ''s. The operator never granted their camera, or the dashboard could not reach the ''
        @ ''media server - getUserMedia needs a secure context, so check that it is served over HTTPS.'')"

definition waitForCameraPublisher :: "'s device_env \<Rightarrow> camera_vars \<Rightarrow> string \<Rightarrow> ('s, unit) eff" where
  "waitForCameraPublisher E V jobId =
     (let apiUrl = strip_slashes (cv_controlApiUrl V); timeoutMs = cv_publishTimeoutMs V;
          stream = cameraStreamName jobId; url = apiUrl @ ''/v3/paths/get/'' @ stream
      in if apiUrl = []
         then throwE (GenericError
           (''This account is configured to lend a camera, but CAMERA_CONTROL_API_URL is not set, ''
            @ ''so there is no way to tell whether the operator is publishing one.''))
         else bindE (nowE E) (\<lambda>start. loopE (\<lambda>lastStatus.
           bindE (abortedE E) (\<lambda>aborted.
             if aborted then throwE (GenericError ''Cancelled while waiting for the operator to grant their camera'')
             else bindE (camera_poll E url lastStatus) (\<lambda>(publishing, status, transport).
               if publishing then stop ()
               else until_deadline E (start + timeoutMs) 1000
                      (throwE (not_published apiUrl stream timeoutMs status transport)) status))) None))"

subsection \<open>Every call ends\<close>

lemma settles_camera_slot [settles_intros]:
  "settles (acquire_from E V jobId pool rest)" "settles (acquireCameraSlot E V jobId)" "settles (releaseIfHeld E n j)"
proof -
  have all: "settles (acquire_from E V jobId pool rest)" for pool rest
    by (induction rest) (auto intro!: settles_intros)
  show "settles (acquire_from E V jobId pool rest)" "settles (acquireCameraSlot E V jobId)"
    by (simp_all add: acquireCameraSlot_def all)
  show "settles (releaseIfHeld E n j)" by (simp add: releaseIfHeld_def settles_intros)
qed

lemma settles_poll [settles_intros]: "settles (camera_poll E url st)"
  unfolding camera_poll_def by (auto intro!: settles_intros)

lemma forwards_poll [forwards_intros]: "clock_laws E \<Longrightarrow> forwards E (camera_poll E url st)"
  unfolding camera_poll_def
  by (intro forwards_bind forwards_ret)
    (auto simp: forwards_def perform_def clock_laws_def Let_def split: prod.splits, metis snd_conv)

lemma plain_poll [emits_intros]: "plain (waitForCameraPublisher E V jobId)"
  unfolding waitForCameraPublisher_def camera_poll_def
  by (auto simp: Let_def intro!: emits_intros)

lemma waitForCameraPublisher_settles: "clock_laws E \<Longrightarrow> settles (waitForCameraPublisher E V jobId)"
  unfolding waitForCameraPublisher_def Let_def
  by (rule settles_if, intro settles_intros,
      rule settles_deadline_loop [where t = "cv_publishTimeoutMs V"];
      auto simp: abortedE_def intro!: settles_intros paced_intros forwards_intros)

lemma startCameraBridge_settles: "clock_laws E \<Longrightarrow> settles (startCameraBridge E opts)"
  unfolding startCameraBridge_def assertStillFeeding_def bridge_remove_def Let_def
  by (auto intro!: settles_intros watch_settles)

subsection \<open>One job per camera\<close>

text \<open>
  What Redis promises, over the map \<open>holder\<close> from its keys to their values: \<open>SET NX\<close> is granted just
  when the key is free, and the release script deletes just a key with the given value. A command
  that fails may or may not have been carried out. Keys that expire do so between two calls.
\<close>

definition set_nx_law :: "'s device_env \<Rightarrow> ('s \<Rightarrow> string \<Rightarrow> string option) \<Rightarrow> bool" where
  "set_nx_law E holder \<longleftrightarrow> (\<forall>k v t s. let s1 = snd (ae_setNx E k v t s) in
     case fst (ae_setNx E k v t s) of
       Inr won \<Rightarrow> (won \<longleftrightarrow> holder s k = None) \<and> holder s1 = (if won then (holder s)(k \<mapsto> v) else holder s)
     | Inl e \<Rightarrow> holder s1 = holder s \<or> holder s k = None \<and> holder s1 = (holder s)(k \<mapsto> v))"

definition del_if_law :: "'s device_env \<Rightarrow> ('s \<Rightarrow> string \<Rightarrow> string option) \<Rightarrow> bool" where
  "del_if_law E holder \<longleftrightarrow> (\<forall>k v s. let s1 = snd (ae_delIf E k v s) in
     case fst (ae_delIf E k v s) of
       Inr gone \<Rightarrow> (gone \<longleftrightarrow> holder s k = Some v) \<and> holder s1 = (if gone then (holder s)(k := None) else holder s)
     | Inl e \<Rightarrow> holder s1 = holder s \<or> holder s k = Some v \<and> holder s1 = (holder s)(k := None))"

lemma leaseKey_inj: "leaseKey m = leaseKey n \<longleftrightarrow> m = n"
  unfolding leaseKey_def same_append_eq by (metis js_parse_show_nat of_nat_eq_iff option.inject)

lemma acquire_from_leases:
  assumes "set_nx_law E holder" and "acquire_from E V j pool rest r = Some (x, r1)"
  shows "case x of
      Inr slot \<Rightarrow> cs_index slot \<in> set rest \<and> holder (ru_env r) (leaseKey (cs_index slot)) = None
        \<and> holder (ru_env r1) = (holder (ru_env r))(leaseKey (cs_index slot) \<mapsto> j)
        \<and> cs_mapping slot = deviceMapping (cs_index slot)
        \<and> cs_release slot = ignoreE (releaseIfHeld E (cs_index slot) j)
    | Inl e \<Rightarrow> e = noCameraAvailable pool \<and> (\<forall>n \<in> set rest. holder (ru_env r) (leaseKey n) \<noteq> None)
        \<or> (\<exists>k t s. fst (ae_setNx E k j t s) = Inl e)"
  using assms(2)
proof (induction rest arbitrary: r)
  case (Cons n rest)
  obtain y s where set: "ae_setNx E (leaseKey n) j (leaseTtlSeconds V) (ru_env r) = (y, s)" by fastforce
  have law: "case y of Inr won \<Rightarrow> (won \<longleftrightarrow> holder (ru_env r) (leaseKey n) = None)
        \<and> holder s = (if won then (holder (ru_env r))(leaseKey n \<mapsto> j) else holder (ru_env r)) | Inl e \<Rightarrow> True"
    using assms(1) [unfolded set_nx_law_def, rule_format, of "leaseKey n" j "leaseTtlSeconds V" "ru_env r"] set
    by (auto simp: Let_def split: sum.splits)
  show ?case
  proof (cases y)
    case (Inl e)
    with Cons.prems set have "x = Inl e" by (simp add: bindE_def invoke_def Let_def)
    moreover have "fst (ae_setNx E (leaseKey n) j (leaseTtlSeconds V) (ru_env r)) = Inl e" by (simp add: set Inl)
    ultimately show ?thesis by auto
  next
    case (Inr won)
    show ?thesis
    proof (cases won)
      case True
      with Cons.prems set Inr law show ?thesis by (auto simp: bindE_def invoke_def Let_def ret_def)
    next
      case False
      with Cons.prems set Inr have "acquire_from E V j pool rest
          (r\<lparr>ru_env := s, ru_trace := ru_trace r @ [EvLease n (y = Inr True)]\<rparr>) = Some (x, r1)"
        by (simp add: bindE_def invoke_def Let_def)
      from Cons.IH [OF this] law Inr False show ?thesis by (auto split: sum.splits)
    qed
  qed
qed (auto simp: throwE_def)

text \<open>
  C12. A camera is lent to one job at a time, as long as Redis does what it promises. A job is
  given an index of the pool whose lease was free, the lease is its own from then on and no other
  lease is touched; it is told that every camera is in use only when every one is; and its
  release, which never throws, gives back its own lease or nothing - a lease that expired and went to
  another job stays with that job.
\<close>

theorem camera_lent_once:
  assumes "set_nx_law E holder" and "del_if_law E holder"
    and "acquireCameraSlot E V j r = Some (x, r1)"
  shows "case x of
      Inr slot \<Rightarrow> (let key = leaseKey (cs_index slot) in
          cs_index slot \<in> set (cameraPool V) \<and> holder (ru_env r) key = None
          \<and> holder (ru_env r1) = (holder (ru_env r))(key \<mapsto> j)
          \<and> (\<forall>r2. \<exists>r3. cs_release slot r2 = Some (Inr (), r3)
               \<and> (holder (ru_env r3) = holder (ru_env r2)
                  \<or> holder (ru_env r2) key = Some j \<and> holder (ru_env r3) = (holder (ru_env r2))(key := None))))
    | Inl e \<Rightarrow> e = noCameraAvailable (cameraPool V) \<and> (\<forall>n \<in> set (cameraPool V). holder (ru_env r) (leaseKey n) \<noteq> None)
        \<or> (\<exists>k t s. fst (ae_setNx E k j t s) = Inl e)"
proof (cases x)
  case (Inl e)
  with acquire_from_leases [OF assms(1) assms(3) [unfolded acquireCameraSlot_def]] show ?thesis by auto
next
  case (Inr slot)
  note slot = acquire_from_leases [OF assms(1) assms(3) [unfolded acquireCameraSlot_def], unfolded Inr, simplified]
  let ?key = "leaseKey (cs_index slot)"
  have "\<exists>r3. cs_release slot r2 = Some (Inr (), r3) \<and> (holder (ru_env r3) = holder (ru_env r2)
      \<or> holder (ru_env r2) ?key = Some j \<and> holder (ru_env r3) = (holder (ru_env r2))(?key := None))" for r2
  proof -
    obtain y s where del: "ae_delIf E ?key j (ru_env r2) = (y, s)" by fastforce
    from assms(2) [unfolded del_if_law_def, rule_format, of ?key j "ru_env r2"] del
    have "holder s = holder (ru_env r2) \<or> holder (ru_env r2) ?key = Some j \<and> holder s = (holder (ru_env r2))(?key := None)"
      by (auto simp: Let_def split: sum.splits if_splits)
    moreover have "cs_release slot r2 = Some (Inr (), r2\<lparr>ru_env := s, ru_trace := ru_trace r2 @ [EvFree (cs_index slot)]\<rparr>)"
      using slot del by (cases y) (simp_all add: ignoreE_def catchE_def bindE_def releaseIfHeld_def invoke_def ret_def Let_def)
    ultimately show ?thesis by simp
  qed
  with slot Inr show ?thesis by (simp add: Let_def)
qed

end
