(* ===== verification/Emulator.thy ===== *)
theory Emulator
  imports Containers Camera
begin

text \<open>
  \<open>lib/android/emulatorProvider.ts\<close>: the Android emulator in a container, for accounts that need a
  camera. Everything but the session volume is made inside the \<open>try\<close>, and the variables the teardown
  looks at are the record \<open>emulator_locals\<close>.
\<close>

definition emulator_containerName :: "string \<Rightarrow> string" where
  "emulator_containerName jobId = take 60 (''emulator-job-'' @ jobId)"

definition emulator_sessionVolumeName :: "emulator_config \<Rightarrow> string \<Rightarrow> string" where
  "emulator_sessionVolumeName cfg accountId =
     (case em_sessionVolume cfg of Some v \<Rightarrow> v | None \<Rightarrow> ''emulator-session-'' @ accountId)"

definition emulatorArgs :: "emulator_config \<Rightarrow> proxy_runtime option \<Rightarrow> string list" where
  "emulatorArgs cfg proxy =
     (case Option.bind proxy rt_timezone of
        Some zone \<Rightarrow> if zone \<noteq> [] then [''-timezone'', zone] else []
      | None \<Rightarrow> [])
     @ [''-avd'', em_avdName cfg, ''-skin'', show_int (em_width cfg) @ ''x'' @ show_int (em_height cfg), ''-prop'',
        ''qemu.sf.lcd_density='' @ show_int (em_dpi cfg),
        ''-camera-front'', (case em_camera cfg of Some c \<Rightarrow> cam_front c | None \<Rightarrow> ''none''),
        ''-camera-back'', (case em_camera cfg of Some c \<Rightarrow> cam_back c | None \<Rightarrow> ''none'')]
     @ em_extraArgs cfg"

record 's emulator_locals =
  el_camera :: "'s camera_slot option"
  el_bridge :: "'s bridge option"
  el_gateway :: "'s gateway option"
  el_serial :: "string option"

definition emulator_spec ::
  "emulator_config \<Rightarrow> provider_options \<Rightarrow> acquire_context \<Rightarrow> 's emulator_locals \<Rightarrow> ms \<Rightarrow> run_spec" where
  "emulator_spec cfg opts cx lo now =
     \<lparr>rs_image = em_image cfg, rs_name = emulator_containerName (cx_jobId cx),
      rs_labels = [(OWNER_LABEL, OWNER_VALUE), (JOB_LABEL, cx_jobId cx), (ACCOUNT_LABEL, cx_accountId cx),
                   (ROLE_LABEL, DEVICE_ROLE), (CREATED_AT_LABEL, toISOString now)]
        @ (case el_camera lo of Some c \<Rightarrow> [(CAMERA_LABEL, show_nat (cs_index c))] | None \<Rightarrow> []),
      rs_publishContainerPort =
        (if em_connectVia cfg = PublishedPort \<and> el_gateway lo = None then Some 5555 else None),
      rs_volumes = (emulator_sessionVolumeName cfg (cx_accountId cx), ''/avd'')
        # (if opt_truthy (em_adbPublicKeyPath cfg)
           then [(the (em_adbPublicKeyPath cfg), ''/root/.android/adbkey.pub:ro'')] else []),
      rs_env = [], rs_privileged = False, rs_capAdd = [],
      rs_devices = em_kvmDevice cfg # (case el_camera lo of Some c \<Rightarrow> [cs_mapping c] | None \<Rightarrow> []),
      rs_network = (case el_gateway lo of Some g \<Rightarrow> Some (gt_networkMode g) | None \<Rightarrow> em_network cfg),
      rs_sysctls = [], rs_memoryLimit = Some (em_memoryLimit cfg), rs_command = emulatorArgs cfg (po_proxy opts)\<rparr>"

definition emulator_teardown ::
  "'s device_env \<Rightarrow> provider_options \<Rightarrow> string \<Rightarrow> 's emulator_locals \<Rightarrow> ('s, unit) eff" where
  "emulator_teardown E opts name lo =
     thenE (disconnect E opts (el_serial lo))
     (thenE (remove_and_log E name ''Emulator container removed'' []
               ''Could not remove the emulator container; the reaper will collect it'')
     (thenE (case el_bridge lo of Some b \<Rightarrow> cb_remove b | None \<Rightarrow> ret ())
     (thenE (case el_camera lo of Some c \<Rightarrow> cs_release c | None \<Rightarrow> ret ())
       (case el_gateway lo of Some g \<Rightarrow> gt_remove g | None \<Rightarrow> ret ()))))"

subsection \<open>The steps of the try block\<close>

definition emulator_resolveSerial :: "'s device_env \<Rightarrow> emulator_config \<Rightarrow> string \<Rightarrow> ('s, string) eff" where
  "emulator_resolveSerial E cfg host =
     resolveSerial E (em_connectVia cfg) (em_connectHost cfg) (em_startTimeoutSeconds cfg)
       ''Cancelled while waiting for the emulator to publish its ADB port'' host"

definition emulator_waitUntilUsable ::
  "'s device_env \<Rightarrow> emulator_config \<Rightarrow> provider_options \<Rightarrow> string \<Rightarrow> string \<Rightarrow> 's gateway option \<Rightarrow> ('s, 's device) eff" where
  "emulator_waitUntilUsable E cfg opts serial name gateway =
     (let dev = AdbDevice E (po_adbCommand opts) (serial_target (po_adbServer opts) serial)
      in thenE (await_adb E opts (em_startTimeoutSeconds cfg) ''Cancelled while connecting to the emulator''
             (''Container '' @ name @ '' stopped while waiting for ADB. An emulator exits on startup when ''
              @ em_kvmDevice cfg @ '' is missing or unreadable, which on EC2 means the instance was ''
              @ ''not launched with nested virtualization enabled.'') serial name gateway)
         (thenE (catchE (waitUntilReady dev (po_bootTimeoutSeconds opts * 1000)) (\<lambda>error.
            if \<not> opt_truthy (em_adbPublicKeyPath cfg)
            then throwE (GenericError (exn_message error @ lf @ lf
                   @ ''This account has no `adbPublicKeyPath`. The system image is a user build, so the ''
                   @ ''device only accepts adb clients whose key the emulator injected at boot - and ''
                   @ ''nothing injected the shared adb server'' @ sq @ ''s. Extract it once with:'' @ lf
                   @ ''  docker cp <adb-server>:/home/appuser/.android/adbkey.pub ./adbkey.pub''))
            else throwE error))
          (ret dev)))"

definition emulator_pinEgress ::
  "'s device_env \<Rightarrow> emulator_config \<Rightarrow> 's gateway \<Rightarrow> proxy_runtime \<Rightarrow> 's device \<Rightarrow> ('s, string option) eff" where
  "emulator_pinEgress E cfg gateway proxy dev = pinEgress E (em_proxyGateway cfg) gateway proxy dev"

definition emulator_prepare ::
  "'s device_env \<Rightarrow> emulator_config \<Rightarrow> provider_options \<Rightarrow> acquire_context \<Rightarrow> 's emulator_locals \<Rightarrow> string
    \<Rightarrow> ('s, 's device \<times> string option) eff" where
  "emulator_prepare E cfg opts cx lo serial =
     (let name = emulator_containerName (cx_jobId cx)
      in bindE (emulator_waitUntilUsable E cfg opts serial name (el_gateway lo)) (\<lambda>dev.
         bindE (case (el_gateway lo, po_proxy opts) of
                  (Some g, Some px) \<Rightarrow> emulator_pinEgress E cfg g px dev
                | _ \<Rightarrow> ret None) (\<lambda>egressIp.
         thenE (ensurePackageInstalled E dev cx)
         (thenE (logE E INFO ''Emulator ready''
             (Some (JsObj ([(''container'', JsStr name), (''serial'', JsStr serial)]
                @ opt_field ''cameraIndex'' (map_option (JsNum \<circ> int \<circ> cs_index) (el_camera lo))))))
           (ret (dev, egressIp))))))"

text \<open>The camera, when the account lends one: wait for the operator, lease a device, feed it.\<close>

definition emulator_camera ::
  "'s device_env \<Rightarrow> camera_vars \<Rightarrow> emulator_config \<Rightarrow> acquire_context \<Rightarrow> 's emulator_locals
    \<Rightarrow> ('s emulator_locals \<Rightarrow> ('s, (exn, 'b) result \<times> 's emulator_locals) eff)
    \<Rightarrow> ('s, (exn, 'b) result \<times> 's emulator_locals) eff" where
  "emulator_camera E V cfg cx lo k =
     (case em_camera cfg of
        None \<Rightarrow> k lo
      | Some cam \<Rightarrow>
          tryL (thenE (logE E INFO ''Waiting for the operator to grant their camera'' None)
                 (waitForCameraPublisher E V (cx_jobId cx))) lo (\<lambda>_.
          tryL (acquireCameraSlot E V (cx_jobId cx)) lo (\<lambda>camera.
            let lo1 = lo\<lparr>el_camera := Some camera\<rparr>
            in tryL (thenE (logE E INFO ''Leased a camera device''
                   (Some (JsObj [(''cameraIndex'', JsNum (int (cs_index camera))),
                                 (''hostDevice'', JsStr (cs_hostDevice camera))])))
                 (startCameraBridge E \<lparr>bo_jobId = cx_jobId cx, bo_accountId = cx_accountId cx,
                    bo_cameraIndex = cs_index camera, bo_deviceMapping = cs_mapping camera,
                    bo_config = cam_bridge cam, bo_network = em_cameraNetwork cfg\<rparr>)) lo1 (\<lambda>bridge.
               k (lo1\<lparr>el_bridge := Some bridge\<rparr>)))))"

definition emulator_try ::
  "'s device_env \<Rightarrow> camera_vars \<Rightarrow> emulator_config \<Rightarrow> provider_options \<Rightarrow> acquire_context
    \<Rightarrow> ('s, (exn, 's acquired) result \<times> 's emulator_locals) eff" where
  "emulator_try E V cfg opts cx =
     (let name = emulator_containerName (cx_jobId cx)
      in emulator_camera E V cfg cx \<lparr>el_camera = None, el_bridge = None, el_gateway = None, el_serial = None\<rparr> (\<lambda>lo.
         tryL (start_gateway E (po_proxy opts) cx (em_proxyGateway cfg) (em_network cfg) (em_controlNetwork cfg)
                 (em_connectVia cfg)) lo (\<lambda>gateway.
           let lo2 = lo\<lparr>el_gateway := gateway\<rparr>
           in tryL (thenE (logE E INFO ''Starting ephemeral emulator container''
                  (Some (JsObj ([(''container'', JsStr name), (''image'', JsStr (em_image cfg)),
                                 (''avd'', JsStr (em_avdName cfg)),
                                 (''sessionVolume'', JsStr (emulator_sessionVolumeName cfg (cx_accountId cx)))]
                      @ opt_field ''egressGateway'' (map_option (JsStr \<circ> gt_name) gateway)
                      @ opt_field ''cameraIndex'' (map_option (JsNum \<circ> int \<circ> cs_index) (el_camera lo))))))
                (bindE (nowE E) (\<lambda>now. docker_run E (emulator_spec cfg opts cx lo2 now) JobSignal))) lo2 (\<lambda>_.
              tryL (emulator_resolveSerial E cfg (case gateway of Some g \<Rightarrow> gt_name g | None \<Rightarrow> name)) lo2 (\<lambda>serial.
                let lo3 = lo2\<lparr>el_serial := Some serial\<rparr>
                in tryL (emulator_prepare E cfg opts cx lo3 serial) lo3 (\<lambda>(dev, egressIp).
                     ret (Inr \<lparr>aq_device = dev, aq_serial = Some serial, aq_egressIp = egressIp,
                               aq_release = emulator_teardown E opts name lo3\<rparr>, lo3)))))))"

definition emulator_acquire ::
  "'s device_env \<Rightarrow> camera_vars \<Rightarrow> emulator_config \<Rightarrow> provider_options \<Rightarrow> acquire_context \<Rightarrow> ('s, 's acquired) eff" where
  "emulator_acquire E V cfg opts cx =
     (let name = emulator_containerName (cx_jobId cx)
      in thenE (refuseConcurrentRunForAccount E cx)
         (thenE (ensureVolume E (emulator_sessionVolumeName cfg (cx_accountId cx))
                  [(OWNER_LABEL, OWNER_VALUE), (ACCOUNT_LABEL, cx_accountId cx)])
         (thenE (ignoreE (docker_remove E name))
         (bindE (emulator_try E V cfg opts cx) (\<lambda>(outcome, lo). case outcome of
              Inr acquired \<Rightarrow> ret acquired
            | Inl error \<Rightarrow>
                bindE (enrich E error [name, (case el_gateway lo of Some g \<Rightarrow> gt_name g | None \<Rightarrow> []),
                         (case el_bridge lo of Some b \<Rightarrow> cb_name b | None \<Rightarrow> [])]) (\<lambda>enriched.
                  thenE (emulator_teardown E opts name lo) (throwE enriched)))))))"

subsection \<open>It keeps the contract of a provider\<close>

text \<open>What the variables of the \<open>try\<close> block can hold: this job's own camera, bridge and gateway.\<close>

definition own_locals :: "'s device_env \<Rightarrow> string \<Rightarrow> 's emulator_locals \<Rightarrow> bool" where
  "own_locals E jobId lo \<longleftrightarrow> own_gateway E jobId (el_gateway lo)
     \<and> (\<forall>c. el_camera lo = Some c \<longrightarrow> cs_release c = ignoreE (releaseIfHeld E (cs_index c) jobId))
     \<and> (\<forall>b. el_bridge lo = Some b \<longrightarrow> cb_name b = bridgeContainerName jobId
          \<and> cb_remove b = bridge_remove E (cb_name b) (cb_cameraIndex b))"

lemma own_locals_simps [simp]:
  "own_locals E j \<lparr>el_camera = None, el_bridge = None, el_gateway = None, el_serial = None\<rparr>"
  "own_locals E j (lo\<lparr>el_serial := s\<rparr>) \<longleftrightarrow> own_locals E j lo"
  by (auto simp: own_locals_def own_gateway_def)

lemma acquireCameraSlot_own:
  "yields (\<lambda>c. cs_release c = ignoreE (releaseIfHeld E (cs_index c) j)) (acquireCameraSlot E V j)"
proof -
  have "yields (\<lambda>c. cs_release c = ignoreE (releaseIfHeld E (cs_index c) j)) (acquire_from E V j pool rest)" for pool rest
    by (induction rest) (auto intro!: yields_intros)
  then show ?thesis by (simp add: acquireCameraSlot_def)
qed

lemma startCameraBridge_own:
  "yields (\<lambda>b. cb_name b = bridgeContainerName (bo_jobId opts) \<and> cb_remove b = bridge_remove E (cb_name b) (cb_cameraIndex b))
     (startCameraBridge E opts)"
  unfolding startCameraBridge_def Let_def by (auto intro!: yields_intros)

lemma emulator_camera_settles:
  "clock_laws E \<Longrightarrow> (\<And>lo. settles (k lo)) \<Longrightarrow> settles (emulator_camera E V cfg cx lo k)"
  unfolding emulator_camera_def
  by (auto simp: Let_def split: option.splits
      intro!: settles_intros waitForCameraPublisher_settles startCameraBridge_settles)

lemma emulator_waitUntilUsable_facts:
  "clock_laws E \<Longrightarrow> settles (emulator_waitUntilUsable E cfg opts serial name gw)"
  "plain (emulator_waitUntilUsable E cfg opts serial name gw)"
  "yields (\<lambda>dev. dev = AdbDevice E (po_adbCommand opts) (serial_target (po_adbServer opts) serial))
     (emulator_waitUntilUsable E cfg opts serial name gw)"
  unfolding emulator_waitUntilUsable_def Let_def waitUntilReady_def
  by (auto intro!: settles_intros emits_intros yields_intros await_adb_settles adb.device_waits adb.device_plain)

lemma emulator_prepare_facts:
  "clock_laws E \<Longrightarrow> settles (emulator_prepare E cfg opts cx lo serial)"
  "plain (emulator_prepare E cfg opts cx lo serial)"
  "yields (\<lambda>x. fst x = AdbDevice E (po_adbCommand opts) (serial_target (po_adbServer opts) serial))
     (emulator_prepare E cfg opts cx lo serial)"
proof -
  note from_device = emulator_waitUntilUsable_facts(3)
  show "settles (emulator_prepare E cfg opts cx lo serial)" if "clock_laws E"
    unfolding emulator_prepare_def Let_def emulator_pinEgress_def
    by (rule settles_from [OF emulator_waitUntilUsable_facts(1) from_device], rule that)
      (auto intro!: settles_intros adb.pinEgress_settles adb.ensure_settles split: option.splits)
  show "plain (emulator_prepare E cfg opts cx lo serial)"
    unfolding emulator_prepare_def Let_def emulator_pinEgress_def
    by (rule emits_from [OF emulator_waitUntilUsable_facts(2) from_device])
      (auto intro!: emits_intros adb.pinEgress_plain adb.ensure_plain split: option.splits)
  show "yields (\<lambda>x. fst x = AdbDevice E (po_adbCommand opts) (serial_target (po_adbServer opts) serial))
      (emulator_prepare E cfg opts cx lo serial)"
    unfolding emulator_prepare_def Let_def
    by (rule yields_bind [OF from_device]) (auto intro!: yields_intros)
qed

lemma emulator_try_settles: "clock_laws E \<Longrightarrow> settles (emulator_try E V cfg opts cx)"
  unfolding emulator_try_def Let_def emulator_resolveSerial_def
  by (intro emulator_camera_settles)
    (auto intro!: settles_intros start_gateway_settles resolveSerial_settles emulator_prepare_facts)

lemma quiet_camera_steps: "quiet (acquireCameraSlot E V j)" "quiet (startCameraBridge E opts)"
proof -
  have "quiet (acquire_from E V j pool rest)" for pool rest
    by (induction rest) (auto intro!: emits_intros)
  then show "quiet (acquireCameraSlot E V j)" by (simp add: acquireCameraSlot_def)
  show "quiet (startCameraBridge E opts)"
    unfolding startCameraBridge_def assertStillFeeding_def bridge_remove_def Let_def
    by (intro emits_intros plain_quiet [OF plain_watch]) simp_all
qed

lemma quiet_camera:
  "(\<And>lo. quiet (k lo)) \<Longrightarrow> quiet (emulator_camera E V cfg cx lo k)"
  unfolding emulator_camera_def
  by (auto simp: Let_def split: option.splits intro!: emits_intros plain_quiet [OF plain_poll] quiet_camera_steps)

lemma emulator_try_quiet: "quiet (emulator_try E V cfg opts cx)"
  unfolding emulator_try_def Let_def emulator_resolveSerial_def
  by (intro quiet_camera)
    (auto intro!: emits_intros plain_quiet [OF plain_reaching(2)] plain_quiet [OF emulator_prepare_facts(2)])

lemma teardown_facts:
  assumes "own_locals E j lo"
  shows "settles (emulator_teardown E opts name lo)" "quiet (emulator_teardown E opts name lo)"
  using assms unfolding emulator_teardown_def own_locals_def own_gateway_def bridge_remove_def releaseIfHeld_def
  by (auto intro!: settles_intros emits_intros plain_quiet [OF disconnect_calm(2)] split: option.splits)

text \<open>What an acquisition hands over, and what its variables hold when it ends.\<close>

definition emulator_handle :: "'s device_env \<Rightarrow> provider_options \<Rightarrow> string \<Rightarrow> 's acquired \<Rightarrow> bool" where
  "emulator_handle E opts jobId a \<longleftrightarrow>
     (\<exists>serial lo. own_locals E jobId lo \<and> el_serial lo = Some serial \<and> aq_serial a = Some serial
        \<and> aq_device a = AdbDevice E (po_adbCommand opts) (serial_target (po_adbServer opts) serial)
        \<and> aq_release a = emulator_teardown E opts (emulator_containerName jobId) lo)"

text \<open>Past the camera step the variables have a camera and its bridge just when the account lends one.\<close>

definition camera_ready :: "emulator_config \<Rightarrow> 's emulator_locals \<Rightarrow> bool" where
  "camera_ready cfg lo \<longleftrightarrow> (el_camera lo = None \<longleftrightarrow> em_camera cfg = None) \<and> (el_bridge lo = None \<longleftrightarrow> em_camera cfg = None)"

lemma emulator_camera_own:
  fixes E :: "'s device_env"
  assumes "own_locals E (cx_jobId cx) lo" and "el_camera lo = None" and "el_bridge lo = None"
    and "\<And>lo. own_locals E (cx_jobId cx) lo \<Longrightarrow> camera_ready cfg lo \<Longrightarrow> yields P (k lo)"
    and "\<And>e lo. own_locals E (cx_jobId cx) lo \<Longrightarrow> P (Inl e, lo)"
  shows "yields P (emulator_camera E V cfg cx lo k)"
proof (cases "em_camera cfg")
  case None
  then show ?thesis using assms by (simp add: emulator_camera_def camera_ready_def)
next
  case (Some cam)
  have leased: "own_locals E (cx_jobId cx) (lo\<lparr>el_camera := Some c\<rparr>)"
    if "cs_release c = ignoreE (releaseIfHeld E (cs_index c) (cx_jobId cx))" for c :: "'s camera_slot"
    using assms(1) that by (simp add: own_locals_def)
  have "own_locals E (cx_jobId cx) (lo\<lparr>el_camera := Some c, el_bridge := Some b\<rparr>)"
    if "cs_release c = ignoreE (releaseIfHeld E (cs_index c) (cx_jobId cx))"
      and "cb_name b = bridgeContainerName (cx_jobId cx) \<and> cb_remove b = bridge_remove E (cb_name b) (cb_cameraIndex b)"
    for c :: "'s camera_slot" and b :: "'s bridge"
    using leased [OF that(1)] that(2) by (simp add: own_locals_def)
  moreover have "camera_ready cfg (lo\<lparr>el_camera := Some c, el_bridge := Some b\<rparr>)" for c b
    using Some by (simp add: camera_ready_def)
  ultimately show ?thesis
    using leased assms
    unfolding emulator_camera_def Some option.case Let_def
    by - (rule yields_tryL, blast, rule yields_tryL_from [OF acquireCameraSlot_own],
        rule yields_tryL_from, rule yields_then, rule startCameraBridge_own, auto)
qed

lemma emulator_try_own:
  "yields (\<lambda>(x, lo). own_locals E (cx_jobId cx) lo \<and> (\<forall>a. x = Inr a \<longrightarrow> emulator_handle E opts (cx_jobId cx) a))
     (emulator_try E V cfg opts cx)" (is "yields ?P _")
proof -
  have prepare: "yields ?P (tryL (emulator_prepare E cfg opts cx lo serial) lo (\<lambda>(dev, egressIp).
       ret (Inr \<lparr>aq_device = dev, aq_serial = Some serial, aq_egressIp = egressIp,
                 aq_release = emulator_teardown E opts (emulator_containerName (cx_jobId cx)) lo\<rparr>, lo)))"
    if "own_locals E (cx_jobId cx) lo" "el_serial lo = Some serial" for lo serial
    by (rule yields_tryL_from [OF emulator_prepare_facts(3)])
      (use that in \<open>auto simp: emulator_handle_def intro!: yields_intros\<close>)
  have gateway: "own_locals E (cx_jobId cx) (lo\<lparr>el_gateway := gw\<rparr>)"
    if "own_locals E (cx_jobId cx) lo" "own_gateway E (cx_jobId cx) gw" for lo gw
    using that by (simp add: own_locals_def)
  show ?thesis
    unfolding emulator_try_def Let_def
    by (rule emulator_camera_own, simp, simp, simp, rule yields_tryL_from [OF start_gateway_own])
      (auto intro!: yields_tryL prepare gateway)
qed

lemma emulator_acquire_handle: "yields (emulator_handle E opts (cx_jobId cx)) (emulator_acquire E V cfg opts cx)"
  unfolding emulator_acquire_def Let_def
  by (rule yields_then, rule yields_then, rule yields_then, rule yields_bind [OF emulator_try_own])
    (auto intro!: yields_intros split: sum.splits)

interpretation emulator: device_provider E "emulator_acquire E V cfg opts" for E V cfg opts
proof
  fix cx
  show "settles (emulator_acquire E V cfg opts cx)" if "clock_laws E"
    unfolding emulator_acquire_def Let_def
    by (intro settles_intros settles_from [OF emulator_try_settles [OF that] emulator_try_own])
      (auto intro!: settles_intros teardown_facts split: sum.splits)
  show "quiet (emulator_acquire E V cfg opts cx)"
    unfolding emulator_acquire_def Let_def
    by (intro emits_intros plain_quiet [OF plain_reaching(1)] plain_quiet [OF plain_logs(4)]
        emits_from [OF emulator_try_quiet emulator_try_own])
      (auto intro!: emits_intros teardown_facts plain_quiet [OF plain_enrich(2)] split: sum.splits)
  have handle: "emulator_handle E opts (cx_jobId cx) a \<Longrightarrow>
      android_device E (aq_device a) \<and> settles (aq_release a) \<and> quiet (aq_release a)" for a
    by (auto simp: emulator_handle_def adb.android_device_axioms intro: teardown_facts)
  with emulator_acquire_handle [of E opts cx V cfg] show
    "yields (\<lambda>a. android_device E (aq_device a)) (emulator_acquire E V cfg opts cx)"
    "yields (\<lambda>a. settles (aq_release a)) (emulator_acquire E V cfg opts cx)"
    "yields (\<lambda>a. quiet (aq_release a)) (emulator_acquire E V cfg opts cx)"
    by (auto simp: yields_def)
qed

end
