(* ===== verification/Android_Publisher.thy ===== *)
theory Android_Publisher
  imports Redroid Emulator Job_Service
begin

text \<open>
  \<open>lib/publisher/android.ts\<close>: the driver that publishes and onboards on an Android device. Its
  collaborators that are not modelled (\<open>stat\<close>, zod's URL rule and the text of its issues, the lookup that describes an
  address) are the fields of \<open>android_deps\<close>.
\<close>

record 's android_deps =
  ad_env :: "'s device_env"
  ad_is_url :: "string \<Rightarrow> bool"
  ad_issues :: "js \<Rightarrow> string"
  ad_stat :: "string \<Rightarrow> 's \<Rightarrow> int option"
  ad_viewerTemplate :: string                        \<comment> \<open>\<open>DEVICE_VIEWER_URL_TEMPLATE\<close>\<close>
  ad_createProvider :: "(android_credentials \<Rightarrow> proxy_runtime option \<Rightarrow> (exn, 's provider) result) option"
  ad_camera :: camera_vars
  ad_describe :: "string \<Rightarrow> 's \<Rightarrow> (string option \<times> address_kind option) \<times> 's"

subsection \<open>Credentials, flows and paths\<close>

definition parseCredentials :: "'s android_deps \<Rightarrow> js option \<Rightarrow> (exn, android_credentials) result" where
  "parseCredentials D raw =
     (case raw of
        None \<Rightarrow> Inl (permanent ''account_has_no_credentials''
          (''This account has no stored credentials, so there is nothing telling the worker which app to drive. ''
           @ ''Create one with:  npm run account:add -- --user <userId> --name <name> --driver android ''
           @ ''--credentials-file <file.json>''))
      | Some v \<Rightarrow>
          if js_nullish v
          then Inl (permanent ''account_has_no_credentials''
            (''This account has no stored credentials, so there is nothing telling the worker which app to drive. ''
             @ ''Create one with:  npm run account:add -- --user <userId> --name <name> --driver android ''
             @ ''--credentials-file <file.json>''))
          else (case androidCredentialsSchema (ad_is_url D) v of
                  None \<Rightarrow> Inl (permanent ''invalid_android_credentials''
                            (''Android account is misconfigured - '' @ ad_issues D v))
                | Some c \<Rightarrow> Inr c))"

text \<open>
  Looking a name up in the object \<open>flows\<close> also finds what it inherits from \<open>Object.prototype\<close>.
  These values are functions, whose \<open>length\<close> is a number, and \<open>__proto__\<close> itself, which has none:
  a flow of that many steps, none of them defined.
\<close>

definition object_prototype :: "(string \<times> nat option) list" where
  "object_prototype =
     [(''constructor'', Some 1), (''hasOwnProperty'', Some 1), (''isPrototypeOf'', Some 1), (''propertyIsEnumerable'', Some 1),
      (''toLocaleString'', Some 0), (''toString'', Some 0), (''valueOf'', Some 0), (''__defineGetter__'', Some 2),
      (''__defineSetter__'', Some 2), (''__lookupGetter__'', Some 1), (''__lookupSetter__'', Some 1), (''__proto__'', None)]"

datatype flow_steps = Steps "ui_step list" | Inherited "nat option"

definition flow_lookup :: "(string \<times> ui_step list) list \<Rightarrow> string \<Rightarrow> flow_steps option" where
  "flow_lookup flows name =
     (case map_of flows name of
        Some steps \<Rightarrow> Some (Steps steps)
      | None \<Rightarrow> map_option Inherited (map_of object_prototype name))"

definition selectFlow :: "android_credentials \<Rightarrow> string option \<Rightarrow> (exn, string \<times> flow_steps) result" where
  "selectFlow c flowType =
     (if isDefaultFlow flowType
      then Inr (DEFAULT_FLOW_TYPE,
        case Option.bind (ac_flows c) (\<lambda>fs. map_of fs DEFAULT_FLOW_TYPE) of
          Some steps \<Rightarrow> Steps steps
        | None \<Rightarrow> Steps (ac_flow c))
      else (let name = the flowType
            in case Option.bind (ac_flows c) (\<lambda>fs. flow_lookup fs name) of
                 Some steps \<Rightarrow> Inr (name, steps)
               | None \<Rightarrow> Inl (permanent ''unknown_flow_type''
                   (''This account has no flow named '' @ quoted name @ ''. Configured flows: ''
                    @ js_join '', '' (DEFAULT_FLOW_TYPE # (case ac_flows c of Some fs \<Rightarrow> map fst fs | None \<Rightarrow> []))
                    @ ''.''))))"

definition last_index :: "char \<Rightarrow> string \<Rightarrow> int" where
  "last_index c s = (if c \<in> set s then int (length s) - 1 - int (length (takeWhile (\<lambda>d. d \<noteq> c) (rev s))) else - 1)"

definition uniqueRemotePath :: "string \<Rightarrow> string \<Rightarrow> string" where
  "uniqueRemotePath configured jobId =
     (if js_includes configured ''{jobId}'' then js_replace_all ''{jobId}'' jobId configured
      else let slash = last_index (CHR ''/'') configured; dot = last_index (CHR ''.'') configured
           in if dot > slash
              then take (nat dot) configured @ ''-'' @ jobId @ drop (nat dot) configured
              else configured @ ''-'' @ jobId)"

lemma uniqueRemotePath_examples:
  "uniqueRemotePath ''/sdcard/DCIM/upload.mp4'' ''j1'' = ''/sdcard/DCIM/upload-j1.mp4''"
  "uniqueRemotePath ''/sd.card/up'' ''j1'' = ''/sd.card/up-j1''"
  "uniqueRemotePath ''/sdcard/{jobId}/v.mp4'' ''j1'' = ''/sdcard/j1/v.mp4''"
  by code_simp+

definition viewerUrlFor :: "'s android_deps \<Rightarrow> string \<Rightarrow> string option" where
  "viewerUrlFor D serial =
     (if ad_viewerTemplate D = [] then None
      else let once = encodeURIComponent serial
           in Some (js_replace_all ''{serial}'' once
                (js_replace_all ''{serialDouble}'' (encodeURIComponent once) (ad_viewerTemplate D))))"

text \<open>The decision of \<open>defaultProvider\<close>; a port of 0 cannot pass the schema, so a present port is truthy.\<close>

definition adb_server :: "android_credentials \<Rightarrow> adb_target option" where
  "adb_server c =
     (if opt_truthy (ac_adbHost c) \<or> ac_adbPort c \<noteq> None
      then Some \<lparr>tg_serial = None, tg_host = ac_adbHost c, tg_port = ac_adbPort c\<rparr> else None)"

definition container_options :: "android_credentials \<Rightarrow> proxy_runtime option \<Rightarrow> provider_options" where
  "container_options c proxy =
     \<lparr>po_proxy = proxy, po_adbCommand = ac_adbCommand c, po_adbServer = adb_server c,
      po_bootTimeoutSeconds = ac_bootTimeoutSeconds c\<rparr>"

definition defaultProvider ::
  "'s android_deps \<Rightarrow> android_credentials \<Rightarrow> proxy_runtime option \<Rightarrow> (exn, 's provider) result" where
  "defaultProvider D c proxy =
     (case ac_redroid c of
        Some cfg \<Rightarrow> Inr \<lparr>dp_kind = ''redroid'',
          dp_acquire = redroid_acquire (ad_env D) cfg (container_options c proxy)\<rparr>
      | None \<Rightarrow>
          (case ac_emulator c of
             Some cfg \<Rightarrow> Inr \<lparr>dp_kind = ''emulator'',
               dp_acquire = emulator_acquire (ad_env D) (ad_camera D) cfg (container_options c proxy)\<rparr>
           | None \<Rightarrow>
               if proxy \<noteq> None
               then Inl (permanent ''proxy_requires_ephemeral_device''
                 (''This account is assigned a proxy, which is enforced by running the device inside a gateway ''
                  @ ''container's network namespace. That is only possible for containers this worker creates, so ''
                  @ ''the account needs a `redroid` or `emulator` block in its credentials - or no proxy.''))
               else Inr (attached_provider (ad_env D)
                 \<lparr>at_adbCommand = ac_adbCommand c, at_deviceSerial = ac_deviceSerial c,
                  at_adbHost = ac_adbHost c, at_adbPort = ac_adbPort c,
                  at_bootTimeoutSeconds = ac_bootTimeoutSeconds c\<rparr>)))"

definition createProvider ::
  "'s android_deps \<Rightarrow> android_credentials \<Rightarrow> proxy_runtime option \<Rightarrow> (exn, 's provider) result" where
  "createProvider D c proxy =
     (case ad_createProvider D of Some f \<Rightarrow> f c proxy | None \<Rightarrow> defaultProvider D c proxy)"

subsection \<open>The retry policy\<close>

fun classify :: "exn \<Rightarrow> exn" where
  "classify (PublishError c r a m) = PublishError c r a m"
| "classify (PackageNotInstalledError p) =
     permanent ''app_not_installed'' (exn_message (PackageNotInstalledError p))"
| "classify (EgressLeakError d h) = permanent ''egress_leak_detected'' (exn_message (EgressLeakError d h))"
| "classify (EgressUnreachableError m) = transient ''egress_unreachable'' m"
| "classify (UiStepError k n i m) =
     (case k of
        InteractionFailed \<Rightarrow> transient ''ui_interaction_failed'' m
      | NotFound \<Rightarrow> permanent ''ui_step_not_found'' m
      | StillPresent \<Rightarrow> permanent ''ui_step_still_present'' m)"
| "classify (AppiumTransportError m) = transient ''appium_unreachable'' m"
| "classify (AppiumProtocolError st code m) =
     (if code = ''invalid session id'' \<or> st = 404
      then transient ''appium_session_lost'' m
      else permanent ''appium_rejected_request'' m)"
| "classify (AdbError c err unreachable m) =
     (if unreachable then transient ''device_unreachable'' m else permanent ''adb_command_rejected'' m)"
| "classify (DeferJobError d m) = transient ''android_flow_failed'' m"
| "classify (UnrecoverableError m) = transient ''android_flow_failed'' m"
| "classify (DelayedError m) = transient ''android_flow_failed'' m"
| "classify (DockerError m err) = transient ''android_flow_failed'' m"
| "classify (GenericError m) = transient ''android_flow_failed'' m"

subsection \<open>The parts of a run\<close>

definition passes_acquire :: "exn \<Rightarrow> bool" where
  "passes_acquire e =
     (case e of PackageNotInstalledError p \<Rightarrow> True | PublishError c r a m \<Rightarrow> True
      | EgressLeakError d h \<Rightarrow> True | EgressUnreachableError m \<Rightarrow> True | _ \<Rightarrow> False)"

definition acquire_error :: "exn \<Rightarrow> exn" where
  "acquire_error e =
     (if passes_acquire e then e
      else transient ''device_not_ready'' (''Could not obtain an Android device: '' @ exn_message e))"

definition acquire ::
  "'s provider \<Rightarrow> android_credentials \<Rightarrow> string \<Rightarrow> string \<Rightarrow> bool \<Rightarrow> ('s, 's acquired) eff" where
  "acquire provider c accountId jobId requirePackage =
     catchE (noteE (\<lambda>x. EvAcquire (succeeded x))
        (dp_acquire provider \<lparr>cx_jobId = jobId, cx_accountId = accountId, cx_packageName = ac_packageName c,
           cx_apkPath = ac_apkPath c, cx_requirePackage = requirePackage\<rparr>))
       (\<lambda>e. throwE (acquire_error e))"

definition assertMediaIsStaged :: "'s android_deps \<Rightarrow> publisher_video \<Rightarrow> ('s, unit) eff" where
  "assertMediaIsStaged D v =
     bindE (readE (ad_stat D (pv_localPath v))) (\<lambda>sz.
       case sz of
         None \<Rightarrow> throwE (transient ''media_unreadable'' (''Staged media is not readable at '' @ pv_localPath v))
       | Some onDisk \<Rightarrow>
           if onDisk \<noteq> pv_sizeBytes v
           then throwE (permanent ''media_size_mismatch''
                  (''Staged media is '' @ show_int onDisk @ '' bytes but the record says '' @ show_int (pv_sizeBytes v)))
           else ret ())"

definition stageMedia ::
  "'s android_deps \<Rightarrow> 's device \<Rightarrow> string \<Rightarrow> string \<Rightarrow> int \<Rightarrow> ('s, unit) eff" where
  "stageMedia D dev remotePath localPath expectedBytes =
     bindE (noteE (\<lambda>x. EvPush localPath remotePath (x = Inr (Some expectedBytes)))
             (dv_pushMedia dev localPath remotePath)) (\<lambda>remoteSize.
       case remoteSize of
         None \<Rightarrow> throwE (transient ''media_push_missing''
                   (''Pushed '' @ remotePath @ '' but the device reports no such file''))
       | Some n \<Rightarrow>
           if n \<noteq> expectedBytes
           then throwE (transient ''media_push_truncated''
                  (''Pushed '' @ show_int expectedBytes @ '' bytes but the device reports '' @ show_int n
                   @ '' at '' @ remotePath))
           else thenE (noteE (\<lambda>x. EvScan remotePath (succeeded x)) (dv_scanMedia dev remotePath))
                  (logE (ad_env D) DEBUG ''Media staged on device''
                     (Some (JsObj [(''remotePath'', JsStr remotePath), (''bytes'', JsNum n)]))))"

definition startSession :: "'s android_deps \<Rightarrow> android_credentials \<Rightarrow> string option \<Rightarrow> ('s, appium_session) eff" where
  "startSession D c serial =
     createAppiumSession (ad_env D) (ac_appiumUrl c)
       (JsObj ([(''platformName'', JsStr ''Android''), (''appium:automationName'', JsStr ''UiAutomator2''),
                (''appium:appPackage'', JsStr (ac_packageName c))]
          @ (if opt_truthy (ac_activityName c) then [(''appium:appActivity'', JsStr (the (ac_activityName c)))] else [])
          @ (if opt_truthy serial then [(''appium:udid'', JsStr (the serial))] else [])
          @ [(''appium:noReset'', JsBool True), (''appium:newCommandTimeout'', JsNum (ac_appiumTimeoutSeconds c))]))"

definition launch :: "'s device \<Rightarrow> android_credentials \<Rightarrow> ('s, unit) eff" where
  "launch dev c = noteE (\<lambda>x. EvLaunch (succeeded x)) (dv_launch dev (ac_packageName c) (ac_activityName c))"

definition settle :: "'s android_deps \<Rightarrow> android_credentials \<Rightarrow> ('s, unit) eff" where
  "settle D c = whenE (ac_launchSettleMs c > 0) (sleepE (ad_env D) (ac_launchSettleMs c))"

definition isAppRunning :: "'s device \<Rightarrow> android_credentials \<Rightarrow> ('s, bool) eff" where
  "isAppRunning dev c = noteE (\<lambda>x. EvRunning (x = Inr True)) (dv_isAppRunning dev (ac_packageName c))"

definition names_js :: "string list \<Rightarrow> js" where
  "names_js xs = JsArr (map JsStr xs)"

definition timing_js :: "step_timing \<Rightarrow> js" where
  "timing_js t = JsObj [(''name'', JsStr (st_name t)), (''action'', JsStr (st_action t)),
                        (''ms'', JsNum (st_ms t)), (''skipped'', JsBool (st_skipped t))]"

definition opt_str :: "string option \<Rightarrow> js" where
  "opt_str v = (case v of Some s \<Rightarrow> JsStr s | None \<Rightarrow> JsUndefined)"

definition succeed ::
  "'s android_deps \<Rightarrow> ui_flow_result \<Rightarrow> string \<Rightarrow> appium_session \<Rightarrow> ('s, publish_result) eff" where
  "succeed D result jobId ses =
     bindE (captureEvidence (ad_env D) ses jobId ''success'') (\<lambda>ev.
     thenE (logE (ad_env D) INFO ''Android flow completed''
       (Some (JsObj [(''executed'', names_js (fr_executed result)), (''skipped'', names_js (fr_skipped result)),
                     (''capturedText'', opt_str (fr_capturedText result)), (''totalMs'', JsNum (fr_totalMs result)),
                     (''timings'', JsArr (map timing_js (fr_timings result))),
                     (''screenshotKey'', opt_str (evi_screenshotKey ev)),
                     (''pageSourceKey'', opt_str (evi_pageSourceKey ev))])))
       (ret \<lparr>res_externalPostId = (case fr_capturedText result of Some t \<Rightarrow> t | None \<Rightarrow> ''android_'' @ jobId),
             res_url = None,
             res_metrics = Some \<lparr>rm_totalMs = fr_totalMs result, rm_steps = fr_timings result\<rparr>\<rparr>))"

definition failed_step :: "exn \<Rightarrow> (string \<times> nat) option" where
  "failed_step e = (case e of UiStepError k n i m \<Rightarrow> Some (n, i) | _ \<Rightarrow> None)"

definition step_data :: "exn \<Rightarrow> (string \<times> js) list" where
  "step_data e =
     (case failed_step e of
        Some (n, i) \<Rightarrow> [(''stepName'', JsStr n), (''stepIndex'', JsNum (int i))] | None \<Rightarrow> [])"

definition recordFailure ::
  "'s android_deps \<Rightarrow> exn \<Rightarrow> appium_session option \<Rightarrow> string \<Rightarrow> ('s, unit) eff" where
  "recordFailure D e session jobId =
     (case session of
        None \<Rightarrow> logE (ad_env D) ERROR ''Android run failed before a session existed''
                  (Some (JsObj ((''error'', JsStr (exn_message e)) # step_data e)))
      | Some ses \<Rightarrow>
          bindE (captureEvidence (ad_env D) ses jobId
                   (''failure-'' @ (case failed_step e of Some (n, i) \<Rightarrow> n | None \<Rightarrow> ''run''))) (\<lambda>ev.
            logE (ad_env D) ERROR ''Android run failed''
              (Some (JsObj ((''error'', JsStr (exn_message e)) # step_data e
                 @ [(''screenshotKey'', opt_str (evi_screenshotKey ev)),
                    (''pageSourceKey'', opt_str (evi_pageSourceKey ev)),
                    (''evidenceFailures'', if evi_failures ev \<noteq> [] then names_js (evi_failures ev)
                                           else JsUndefined)])))))"

text \<open>Running what \<open>selectFlow\<close> found: reading a step that is undefined throws.\<close>

definition run_selected ::
  "'s android_deps \<Rightarrow> appium_session \<Rightarrow> flow_steps \<Rightarrow> (string \<times> string) list \<Rightarrow> ('s, ui_flow_result) eff" where
  "run_selected D ses steps ctx =
     (case steps of
        Steps l \<Rightarrow> runUiFlow (ad_env D) ses l ctx
      | Inherited n \<Rightarrow>
          if n = None \<or> n = Some 0 then runUiFlow (ad_env D) ses [] ctx
          else bindE (abortedE (ad_env D)) (\<lambda>aborted.
                 throwE (GenericError (''Cannot read properties of undefined (reading ''
                   @ (if aborted then ''name'' else ''action'') @ '')''))))"

subsection \<open>Publishing\<close>

record 's locals =
  lo_acquired :: "'s acquired option"
  lo_mediaPushed :: bool
  lo_session :: "appium_session option"

definition no_locals :: "'s locals" where
  "no_locals = \<lparr>lo_acquired = None, lo_mediaPushed = False, lo_session = None\<rparr>"

definition release :: "'s acquired \<Rightarrow> ('s, unit) eff" where
  "release a = ignoreE (noteE (\<lambda>x. EvRelease) (aq_release a))"

text \<open>The \<open>finally\<close> block: every step is guarded, the device goes last.\<close>

definition cleanup :: "'s android_deps \<Rightarrow> string option \<Rightarrow> 's locals \<Rightarrow> ('s, unit) eff" where
  "cleanup D remotePath lo =
     thenE (case lo_session lo of
              Some ses \<Rightarrow> ignoreE (deleteAppiumSession (ad_env D) ses) | None \<Rightarrow> ret ())
     (thenE (case (lo_mediaPushed lo, lo_acquired lo, remotePath) of
               (True, Some a, Some path) \<Rightarrow>
                 ignoreE (noteE (\<lambda>x. EvRemove path (succeeded x)) (dv_removeFile (aq_device a) path))
             | _ \<Rightarrow> ret ())
       (case lo_acquired lo of Some a \<Rightarrow> release a | None \<Rightarrow> ret ()))"

definition publish_try ::
  "'s android_deps \<Rightarrow> publish_request \<Rightarrow> android_credentials \<Rightarrow> string \<times> flow_steps \<Rightarrow> 's provider \<Rightarrow> string option
     \<Rightarrow> ('s, (exn, publish_result) result \<times> 's locals) eff" where
  "publish_try D req c flow provider remotePath =
     (let E = ad_env D; lo0 = no_locals; jobId = pr_jobId req
      in tryL (acquire provider c (pa_id (pr_account req)) jobId True) lo0 (\<lambda>a.
         let lo1 = lo0\<lparr>lo_acquired := Some a\<rparr>
         in tryL (case (pr_video req, remotePath) of
                    (Some v, Some path) \<Rightarrow>
                      thenE (stageMedia D (aq_device a) path (pv_localPath v) (pv_sizeBytes v)) (ret True)
                  | _ \<Rightarrow> ret False) lo1 (\<lambda>staged.
         let lo2 = lo1\<lparr>lo_mediaPushed := staged\<rparr>
         in tryL (startSession D c (aq_serial a)) lo2 (\<lambda>ses.
         let lo3 = lo2\<lparr>lo_session := Some ses\<rparr>
         in tryL
           (thenE (logE E INFO ''Appium session started'' (Some (JsObj [(''sessionId'', JsStr (as_sessionId ses))])))
            (thenE (launch (aq_device a) c)
             (thenE (settle D c)
              (bindE (isAppRunning (aq_device a) c) (\<lambda>running.
                if \<not> running
                then throwE (permanent ''app_not_running''
                  (ac_packageName c @ '' is not running after launch - it failed to start or crashed immediately''))
                else bindE (run_selected D ses (snd flow)
                       ([(''caption'', pr_caption req), (''jobId'', jobId)]
                        @ (case (pr_video req, remotePath) of
                             (Some v, Some path) \<Rightarrow> [(''remoteVideoPath'', path), (''fileName'', pv_fileName v)]
                           | _ \<Rightarrow> [])))
                       (\<lambda>result. succeed D result jobId ses))))))
           lo3 (\<lambda>res. ret (Inr res, lo3))))))"

definition flow_length :: "flow_steps \<Rightarrow> js" where
  "flow_length steps = (case steps of Steps l \<Rightarrow> JsNum (int (length l)) | Inherited (Some n) \<Rightarrow> JsNum (int n)
     | Inherited None \<Rightarrow> JsUndefined)"

definition android_publish :: "'s android_deps \<Rightarrow> publish_request \<Rightarrow> ('s, publish_result) eff" where
  "android_publish D req =
     bindE (liftE (parseCredentials D (pa_credentials (pr_account req)))) (\<lambda>c.
     bindE (liftE (selectFlow c (pr_flowType req))) (\<lambda>flow.
     thenE (case pr_video req of Some v \<Rightarrow> assertMediaIsStaged D v | None \<Rightarrow> ret ())
     (bindE (liftE (createProvider D c (pa_proxy (pr_account req)))) (\<lambda>provider.
     let remotePath = (case pr_video req of
           Some v \<Rightarrow> Some (uniqueRemotePath (ac_remoteVideoPath c) (pr_jobId req)) | None \<Rightarrow> None)
     in thenE (logE (ad_env D) INFO ''Starting Android run''
          (Some (JsObj [(''accountId'', JsStr (pa_id (pr_account req))), (''packageName'', JsStr (ac_packageName c)),
                        (''provider'', JsStr (dp_kind provider)), (''flowType'', JsStr (fst flow)),
                        (''egress'', JsStr (case pa_proxy (pr_account req) of
                            Some p \<Rightarrow> redactProxyUrl p | None \<Rightarrow> ''host network'')),
                        (''remotePath'', opt_str remotePath), (''steps'', flow_length (snd flow))])))
        (bindE (publish_try D req c flow provider remotePath) (\<lambda>(out, lo).
           finallyE
             (case out of
                Inr res \<Rightarrow> ret res
              | Inl e \<Rightarrow> thenE (recordFailure D e (lo_session lo) (pr_jobId req)) (throwE (classify e)))
             (cleanup D remotePath lo)))))))"

subsection \<open>Onboarding\<close>

text \<open>
  The two callbacks of the request: telling the job that the device is up, which may throw, and
  the wait for the operator, which may also not end.
\<close>

record 's onboarding_request =
  oq_jobId :: string
  oq_account :: publisher_account
  oq_onDeviceReady :: "device_endpoint \<Rightarrow> 's \<Rightarrow> (exn, unit) result \<times> 's"
  oq_awaitHuman :: "'s \<Rightarrow> ((exn, human_outcome) result \<times> 's) option"

definition await_human :: "'s onboarding_request \<Rightarrow> ('s, human_outcome) eff" where
  "await_human req = (\<lambda>r. case oq_awaitHuman req (ru_env r) of
       None \<Rightarrow> None
     | Some (x, s) \<Rightarrow> Some (x, r\<lparr>ru_env := s, ru_trace := ru_trace r
         @ [EvHuman (case x of Inr h \<Rightarrow> Some h | Inl e \<Rightarrow> None)]\<rparr>))"

definition hand_over :: "'s onboarding_request \<Rightarrow> device_endpoint \<Rightarrow> ('s, unit) eff" where
  "hand_over req ep = invoke (\<lambda>x. EvHandOver ep) (oq_onDeviceReady req ep)"

definition verify ::
  "'s android_deps \<Rightarrow> ui_step list \<Rightarrow> appium_session \<Rightarrow> string \<Rightarrow> ('s, onboarding_result) eff" where
  "verify D verifyFlow ses jobId =
     catchE
       (bindE (runUiFlow (ad_env D) ses verifyFlow [(''jobId'', jobId)]) (\<lambda>result.
        bindE (captureEvidence (ad_env D) ses jobId ''onboarding-verified'') (\<lambda>ev.
        thenE (logE (ad_env D) INFO ''Session verified''
          (Some (JsObj [(''executed'', names_js (fr_executed result)),
                        (''capturedText'', opt_str (fr_capturedText result)),
                        (''screenshotKey'', opt_str (evi_screenshotKey ev))])))
          (ret \<lparr>or_outcome = Verified, or_details = fr_capturedText result\<rparr>))))
       (\<lambda>e. bindE (captureEvidence (ad_env D) ses jobId ''onboarding-unverified'') (\<lambda>ev.
          thenE (logE (ad_env D) ERROR ''Operator confirmed but the session could not be verified''
            (Some (JsObj [(''error'', JsStr (exn_message e)), (''screenshotKey'', opt_str (evi_screenshotKey ev)),
                          (''pageSourceKey'', opt_str (evi_pageSourceKey ev))])))
            (ret \<lparr>or_outcome = Unverified, or_details = Some (exn_message e)\<rparr>)))"

text \<open>Putting the app on screen; a failure is reported and stepped over.\<close>

definition show_app :: "'s android_deps \<Rightarrow> android_credentials \<Rightarrow> 's device \<Rightarrow> ('s, unit) eff" where
  "show_app D c dev =
     catchE
       (thenE (launch dev c)
         (thenE (settle D c)
           (bindE (isAppRunning dev c) (\<lambda>running.
              if running then ret ()
              else logE (ad_env D) WARN (ac_packageName c @ '' is not running after launch. The phone is yours anyway - ''
                     @ ''open or install the app from the screen before confirming.'')
                     (Some (JsObj [(''packageName'', JsStr (ac_packageName c)),
                                   (''activityName'', opt_str (ac_activityName c))]))))))
       (\<lambda>e. logE (ad_env D) WARN ''Could not launch the app; handing over the phone anyway''
          (Some (JsObj [(''packageName'', JsStr (ac_packageName c)), (''error'', JsStr (exn_message e))])))"

definition address_kind_text :: "address_kind \<Rightarrow> string" where
  "address_kind_text k = (case k of Hosting \<Rightarrow> ''hosting'' | ProxyListed \<Rightarrow> ''proxy'' | Mobile \<Rightarrow> ''mobile''
     | Unflagged \<Rightarrow> ''unflagged'')"

definition describe :: "'s android_deps \<Rightarrow> string option \<Rightarrow> ('s, string option \<times> address_kind option) eff" where
  "describe D ip =
     (if opt_truthy ip then perform (\<lambda>x. EvDescribe (the ip)) (ad_describe D (the ip)) else ret (None, None))"

definition endpoint_of ::
  "'s android_deps \<Rightarrow> android_credentials \<Rightarrow> 's acquired \<Rightarrow> string option \<times> address_kind option \<Rightarrow> device_endpoint" where
  "endpoint_of D c a address =
     (let serial = (case aq_serial a of Some x \<Rightarrow> x | None \<Rightarrow>
                     (case ac_deviceSerial c of Some x \<Rightarrow> x | None \<Rightarrow> ''unknown''))
      in \<lparr>ep_serial = serial, ep_adbHost = ac_adbHost c, ep_adbPort = ac_adbPort c,
          ep_viewerUrl = viewerUrlFor D serial, ep_egressIp = aq_egressIp a,
          ep_egressLocation = fst address, ep_egressKind = snd address\<rparr>)"

definition onboard_try ::
  "'s android_deps \<Rightarrow> 's onboarding_request \<Rightarrow> android_credentials \<Rightarrow> ui_step list \<Rightarrow> 's provider
     \<Rightarrow> ('s, (exn, onboarding_result) result \<times> 's locals) eff" where
  "onboard_try D req c verifyFlow provider =
     (let E = ad_env D; lo0 = no_locals; jobId = oq_jobId req
      in tryL (acquire provider c (pa_id (oq_account req)) jobId False) lo0 (\<lambda>a.
         let lo1 = lo0\<lparr>lo_acquired := Some a\<rparr>
         in tryL
           (thenE (show_app D c (aq_device a))
            (bindE (describe D (aq_egressIp a)) (\<lambda>address.
             thenE (hand_over req (endpoint_of D c a address))
             (thenE (whenE (opt_truthy (aq_egressIp a))
                (logE E INFO ''Device egress address''
                  (Some (JsObj [(''egressIp'', opt_str (aq_egressIp a)),
                     (''location'', case fst address of Some l \<Rightarrow> JsStr l | None \<Rightarrow> JsNull),
                     (''kind'', case snd address of Some k \<Rightarrow> JsStr (address_kind_text k) | None \<Rightarrow> JsNull)]))))
               (await_human req)))))
           lo1 (\<lambda>outcome.
         case outcome of
           HumanCancelled reason \<Rightarrow>
             tryL (logE E WARN ''Onboarding cancelled while waiting for the operator''
                    (Some (JsObj [(''reason'', JsStr reason)]))) lo1
               (\<lambda>_. ret (Inr \<lparr>or_outcome = Cancelled, or_details = Some reason\<rparr>, lo1))
         | HumanExpired reason \<Rightarrow>
             tryL (logE E WARN ''Onboarding abandoned'' (Some (JsObj [(''reason'', JsStr reason)]))) lo1
               (\<lambda>_. ret (Inr \<lparr>or_outcome = Abandoned, or_details = Some reason\<rparr>, lo1))
         | Confirmed confirmedAt \<Rightarrow>
             tryL (thenE (logE E INFO ''Operator confirmed, verifying the session''
                            (Some (JsObj [(''confirmedAt'', JsStr (toISOString confirmedAt))])))
                     (startSession D c (aq_serial a))) lo1 (\<lambda>ses.
             let lo2 = lo1\<lparr>lo_session := Some ses\<rparr>
             in tryL (verify D verifyFlow ses jobId) lo2 (\<lambda>res. ret (Inr res, lo2))))))"

definition no_verify_flow :: exn where
  "no_verify_flow = permanent ''no_verify_flow''
     (''Interactive onboarding requires a verifyFlow in the account credentials - ''
      @ ''without one there is no way to confirm the login actually happened.'')"

definition android_onboard :: "'s android_deps \<Rightarrow> 's onboarding_request \<Rightarrow> ('s, onboarding_result) eff" where
  "android_onboard D req =
     bindE (liftE (parseCredentials D (pa_credentials (oq_account req)))) (\<lambda>c.
       case ac_verifyFlow c of
         None \<Rightarrow> throwE no_verify_flow
       | Some verifyFlow \<Rightarrow>
           bindE (liftE (createProvider D c (pa_proxy (oq_account req)))) (\<lambda>provider.
           thenE (logE (ad_env D) INFO ''Starting interactive onboarding''
             (Some (JsObj [(''accountId'', JsStr (pa_id (oq_account req))), (''packageName'', JsStr (ac_packageName c)),
                           (''provider'', JsStr (dp_kind provider)),
                           (''egress'', JsStr (case pa_proxy (oq_account req) of
                               Some p \<Rightarrow> redactProxyUrl p | None \<Rightarrow> ''host network''))])))
           (bindE (onboard_try D req c verifyFlow provider) (\<lambda>(out, lo).
             finallyE
               (case out of
                  Inr res \<Rightarrow> ret res
                | Inl e \<Rightarrow> thenE (recordFailure D e (lo_session lo) (oq_jobId req)) (throwE (classify e)))
               (cleanup D None lo)))))"

end
