(* ===== verification/Android_Safety.thy ===== *)
theory Android_Safety
  imports Android_Publisher
begin

text \<open>
  What the Android driver guarantees: the device it acquires is released exactly once and last,
  every run ends, an error reaches the worker classified, and a run reports success only with
  Appium's own answers behind it.
\<close>

subsection \<open>Which parts leave the device alone\<close>

text \<open>A provider the driver is given instead of its own obeys the interface of a provider.\<close>

definition providers_ok :: "'s android_deps \<Rightarrow> bool" where
  "providers_ok D \<longleftrightarrow>
     (\<forall>f c px p. ad_createProvider D = Some f \<longrightarrow> f c px = Inr p \<longrightarrow> device_provider (ad_env D) (dp_acquire p))"

lemma createProvider_ok:
  "providers_ok D \<Longrightarrow> createProvider D c px = Inr p \<Longrightarrow> device_provider (ad_env D) (dp_acquire p)"
  unfolding providers_ok_def createProvider_def defaultProvider_def
  by (auto simp: attached_provider_def attached.device_provider_axioms redroid.device_provider_axioms
      emulator.device_provider_axioms split: option.splits if_splits)

text \<open>What the contract of a provider says of the device it gives.\<close>

definition sound :: "'s device_env \<Rightarrow> 's acquired \<Rightarrow> bool" where
  "sound E a \<longleftrightarrow> android_device E (aq_device a) \<and> settles (aq_release a) \<and> quiet (aq_release a)"

definition sound_locals :: "'s device_env \<Rightarrow> 's locals \<Rightarrow> bool" where
  "sound_locals E lo \<longleftrightarrow> (\<forall>a. lo_acquired lo = Some a \<longrightarrow> sound E a)"

lemma sound_locals_simps [simp]:
  "sound_locals E no_locals" "sound_locals E (lo\<lparr>lo_acquired := Some a\<rparr>) \<longleftrightarrow> sound E a"
  "sound_locals E (lo\<lparr>lo_mediaPushed := b\<rparr>) \<longleftrightarrow> sound_locals E lo"
  "sound_locals E (lo\<lparr>lo_session := x\<rparr>) \<longleftrightarrow> sound_locals E lo"
  by (simp_all add: sound_locals_def no_locals_def)

lemma quiet_flow [emits_intros]: "quiet (runUiFlow E ses steps ctx)"
  by (rule emits_mono [OF emits_runUiFlow]) (auto simp: flow_event_def own_mark_def split: event.splits)

lemma quiet_parts [emits_intros]:
  "quiet (assertMediaIsStaged D v)" "quiet (startSession D c serial)" "quiet (settle D c)"
  unfolding assertMediaIsStaged_def startSession_def settle_def
  by (auto split: option.splits intro!: emits_intros)

lemma quiet_device_parts [emits_intros]:
  assumes "sound E a"
  shows "quiet (stageMedia D (aq_device a) rp lp n)" "quiet (launch (aq_device a) c)"
    "quiet (isAppRunning (aq_device a) c)" "quiet (show_app D c (aq_device a))"
proof -
  have dev: "android_device E (aq_device a)" using assms by (simp add: sound_def)
  show "quiet (stageMedia D (aq_device a) rp lp n)" and launch: "quiet (launch (aq_device a) c)"
    and running: "quiet (isAppRunning (aq_device a) c)"
    unfolding stageMedia_def launch_def isAppRunning_def
    by (auto split: option.splits intro!: emits_intros android_device.device_quiet [OF dev])
  show "quiet (show_app D c (aq_device a))"
    unfolding show_app_def by (auto intro!: emits_intros launch running quiet_parts)
qed

lemma quiet_captureEvidence [emits_intros]: "quiet (captureEvidence E ses jobId label)"
  unfolding captureEvidence_def grab_def put_artifact_def
  by (auto simp: Let_def split: option.splits prod.splits intro!: emits_intros)

lemma quiet_parts2 [emits_intros]:
  "quiet (succeed D result jobId ses)" "quiet (recordFailure D e s jobId)" "quiet (run_selected D ses steps ctx)"
  "quiet (verify D vf ses jobId)" "quiet (describe D ip)" "quiet (hand_over req ep)"
  unfolding succeed_def recordFailure_def run_selected_def verify_def describe_def hand_over_def
  by (auto split: option.splits flow_steps.splits intro!: emits_intros)

lemma quiet_await [emits_intros]: "quiet (await_human req)"
  by (rule emitsI) (auto simp: await_human_def split: option.splits prod.splits)

lemma settles_parts [settles_intros]:
  "settles (assertMediaIsStaged D v)" "settles (startSession D c serial)" "settles (settle D c)"
  "settles (describe D ip)" "settles (hand_over req ep)" "settles (succeed D result jobId ses)"
  "settles (recordFailure D e s jobId)"
  unfolding assertMediaIsStaged_def startSession_def settle_def describe_def hand_over_def succeed_def recordFailure_def
  by (auto split: option.splits intro!: settles_intros)

lemma settles_device_parts [settles_intros]:
  assumes "sound E a"
  shows "clock_laws E \<Longrightarrow> settles (stageMedia D (aq_device a) rp lp n)" "settles (launch (aq_device a) c)"
    "settles (isAppRunning (aq_device a) c)" "settles (show_app D c (aq_device a))" "settles (release a)"
proof -
  have dev: "android_device E (aq_device a)" using assms by (simp add: sound_def)
  show "clock_laws E \<Longrightarrow> settles (stageMedia D (aq_device a) rp lp n)" and launch: "settles (launch (aq_device a) c)"
    and running: "settles (isAppRunning (aq_device a) c)"
    unfolding stageMedia_def launch_def isAppRunning_def
    by (auto split: option.splits intro!: settles_intros android_device.device_settles [OF dev] android_device.device_waits [OF dev])
  show "settles (show_app D c (aq_device a))"
    unfolding show_app_def by (auto intro!: settles_intros launch running settles_parts)
  show "settles (release a)"
    using assms by (auto simp: release_def sound_def intro!: settles_intros)
qed

lemma settles_remove: "sound E a \<Longrightarrow> settles (dv_removeFile (aq_device a) path)"
  unfolding sound_def by (blast intro: android_device.remove_settles)

lemma quiet_remove: "sound E a \<Longrightarrow> quiet (dv_removeFile (aq_device a) path)"
  unfolding sound_def by (blast intro: android_device.remove_quiet)

lemma settles_cleanup [settles_intros]: "sound_locals E lo \<Longrightarrow> settles (cleanup D path lo)"
  unfolding cleanup_def sound_locals_def
  by (auto split: option.splits bool.splits intro!: settles_intros settles_remove)

lemma settles_flows [settles_intros]:
  assumes "clock_laws (ad_env D)"
  shows "settles (run_selected D ses steps ctx)" "settles (verify D vf ses jobId)"
  unfolding run_selected_def verify_def
  by (auto split: flow_steps.splits intro!: settles_intros assms)

subsection \<open>Marks\<close>

text \<open>The driver's own marks among events, and computations judged by the events they add.\<close>

definition own :: "event list \<Rightarrow> event list" where
  "own evs = filter own_mark evs"

lemma own_simps [simp]: "own [] = []" "own (a @ b) = own a @ own b"
  "own (e # evs) = (if own_mark e then e # own evs else own evs)"
  by (simp_all add: own_def)

lemma own_set: "e \<in> set (own evs) \<longleftrightarrow> e \<in> set evs \<and> own_mark e"
  by (simp add: own_def)

lemma own_none: "own evs = [] \<longleftrightarrow> (\<forall>e \<in> set evs. \<not> own_mark e)"
  by (simp add: own_def filter_empty_conv)

definition marked :: "('s, 'a) eff \<Rightarrow> ((exn, 'a) result \<Rightarrow> event list \<Rightarrow> bool) \<Rightarrow> bool" where
  "marked m R \<longleftrightarrow> (\<forall>r x r1. m r = Some (x, r1) \<longrightarrow> (\<exists>evs. since r r1 evs \<and> R x evs))"

lemma markedI:
  "(\<And>r x r1. m r = Some (x, r1) \<Longrightarrow> \<exists>evs. since r r1 evs \<and> R x evs) \<Longrightarrow> marked m R"
  by (auto simp: marked_def)

lemma markedD: "marked m R \<Longrightarrow> m r = Some (x, r1) \<Longrightarrow> \<exists>evs. since r r1 evs \<and> R x evs"
  by (auto simp: marked_def)

lemma quiet_marked:
  assumes "quiet m"
  shows "marked m (\<lambda>x ms. own ms = [])"
  by (rule markedI) (auto simp: since_def own_none dest: emitsD [OF assms])

lemma marked_mono: "marked m R \<Longrightarrow> (\<And>x ms. R x ms \<Longrightarrow> S x ms) \<Longrightarrow> marked m S"
  unfolding marked_def by blast

lemma marked_bind:
  assumes "marked m R" and "\<And>e ms. R (Inl e) ms \<Longrightarrow> S (Inl e) ms"
    and "\<And>x ms. R (Inr x) ms \<Longrightarrow> marked (f x) (\<lambda>y ms'. S y (ms @ ms'))"
  shows "marked (bindE m f) S"
proof (rule markedI)
  fix r y r2 assume "bindE m f r = Some (y, r2)"
  then show "\<exists>evs. since r r2 evs \<and> S y evs"
  proof (cases rule: bindE_Some)
    case (1 e)
    then show ?thesis using markedD [OF assms(1)] assms(2) by blast
  next
    case (2 x r1)
    from markedD [OF assms(1) 2(1)] obtain a where a: "since r r1 a" "R (Inr x) a" by blast
    from markedD [OF assms(3) [OF a(2)] 2(2)] obtain b where
      "since r1 r2 b" "S y (a @ b)" by blast
    with a(1) show ?thesis by (intro exI [of _ "a @ b"]) (auto intro: since_trans)
  qed
qed

lemma marked_finally:
  assumes "marked m R" and "\<And>x ms. R x ms \<Longrightarrow> marked c (\<lambda>u ms'. S (case u of Inl e \<Rightarrow> Inl e | Inr _ \<Rightarrow> x) (ms @ ms'))"
  shows "marked (finallyE m c) S"
proof (rule markedI)
  fix r y r2 assume "finallyE m c r = Some (y, r2)"
  then show "\<exists>evs. since r r2 evs \<and> S y evs"
  proof (rule finallyE_Some)
    fix x r1 u
    assume m: "m r = Some (x, r1)" and c: "c r1 = Some (u, r2)" and y: "y = (case u of Inl e \<Rightarrow> Inl e | Inr _ \<Rightarrow> x)"
    from markedD [OF assms(1) m] obtain a where a: "since r r1 a" "R x a" by blast
    from markedD [OF assms(2) [OF a(2)] c] obtain b where
      "since r1 r2 b" "S y (a @ b)" using y by blast
    with a(1) show ?thesis by (intro exI [of _ "a @ b"]) (auto intro: since_trans)
  qed
qed

lemma marked_catch_throw:
  assumes "marked m R" and "\<And>e ms. R (Inl e) ms \<Longrightarrow> R (Inl (f e)) ms"
  shows "marked (catchE m (\<lambda>e. throwE (f e))) R"
proof (rule markedI)
  fix r y r1 assume "catchE m (\<lambda>e. throwE (f e)) r = Some (y, r1)"
  then consider x where "m r = Some (Inr x, r1)" "y = Inr x" | e where "m r = Some (Inl e, r1)" "y = Inl (f e)"
    by (auto simp: catchE_def split: option.splits sum.splits prod.splits)
  then show "\<exists>evs. since r r1 evs \<and> R y evs"
    by cases (use markedD [OF assms(1)] assms(2) in blast)+
qed

lemma acquire_sound:
  assumes "device_provider E (dp_acquire p)"
  shows "yields (sound E) (acquire p c accountId jobId req)"
  unfolding acquire_def
  by (intro yields_catch yields_note yields_ret)
    (auto simp: yields_def sound_def dest: device_provider.acquired_sound [OF assms])

lemma acquire_marks:
  assumes "device_provider E (dp_acquire p)"
  shows "marked (acquire p c accountId jobId req)
    (\<lambda>x ms. own ms = [EvAcquire (succeeded x)] \<and> (\<forall>a. x = Inr a \<longrightarrow> sound E a))"
proof -
  have "marked (acquire p c accountId jobId req) (\<lambda>x ms. own ms = [EvAcquire (succeeded x)])"
    unfolding acquire_def
  proof (rule marked_catch_throw)
    show "marked (noteE (\<lambda>x. EvAcquire (succeeded x)) (dp_acquire p cx)) (\<lambda>x ms. own ms = [EvAcquire (succeeded x)])" for cx
      by (rule markedI) (auto simp: since_def own_none dest!: device_provider.acquire_events [OF assms])
  qed simp
  note marks = markedD [OF this]
  show ?thesis
  proof (rule markedI)
    fix r x r1 assume run: "acquire p c accountId jobId req r = Some (x, r1)"
    have "sound E a" if "x = Inr a" for a
      using yieldsD [OF acquire_sound [OF assms]] run that by blast
    with marks [OF run] show "\<exists>evs. since r r1 evs \<and> own evs = [EvAcquire (succeeded x)] \<and> (\<forall>a. x = Inr a \<longrightarrow> sound E a)"
      by blast
  qed
qed

lemma marked_attempt: "marked m R \<Longrightarrow> marked (attemptE m) (\<lambda>y ms. \<exists>x. y = Inr x \<and> R x ms)"
  by (rule markedI) (auto simp: attemptE_def split: option.splits dest: markedD)

text \<open>The statements after the device is there: no mark, no throw, and the device stays in its variable.\<close>

lemma marked_rest:
  assumes "quiet m" and "throws (\<lambda>e. False) m" and "yields P m"
  shows "marked m (\<lambda>x ms. own ms = [] \<and> (\<exists>y. x = Inr y \<and> P y))"
proof (rule markedI)
  fix r x r1 assume m: "m r = Some (x, r1)"
  from m assms(2,3) obtain y where "x = Inr y" "P y"
    by (cases x) (auto dest: throwsD yieldsD)
  with markedD [OF quiet_marked [OF assms(1)] m]
  show "\<exists>evs. since r r1 evs \<and> own evs = [] \<and> (\<exists>y. x = Inr y \<and> P y)" by blast
qed

definition locals_marked ::
  "'s device_env \<Rightarrow> (exn, (exn, 'a) result \<times> 's locals) result \<Rightarrow> event list \<Rightarrow> bool" where
  "locals_marked E x ms \<longleftrightarrow>
     (\<exists>out lo. x = Inr (out, lo) \<and> sound_locals E lo
        \<and> own ms = [EvAcquire (lo_acquired lo \<noteq> None)] \<and> (lo_acquired lo = None \<longrightarrow> \<not> succeeded out))"

lemma acquiring_block:
  assumes "device_provider E (dp_acquire p)"
    and "\<And>a. sound E a \<Longrightarrow> quiet (k a)" and "\<And>a. throws (\<lambda>e. False) (k a)"
    and "\<And>a. yields (\<lambda>y. lo_acquired (snd y) = Some a) (k a)"
  shows "marked (tryL (acquire p c accountId jobId req) no_locals k) (locals_marked E)"
  unfolding tryL_def
proof (rule marked_bind [OF marked_attempt [OF acquire_marks [OF assms(1)]]])
  fix y :: "(exn, 'a acquired) result" and ms
  assume "\<exists>x. (Inr y :: (exn, (exn, 'a acquired) result) result) = Inr x
    \<and> own ms = [EvAcquire (succeeded x)] \<and> (\<forall>a. x = Inr a \<longrightarrow> sound E a)"
  then have ms: "own ms = [EvAcquire (succeeded y)]" and snd: "\<And>a. y = Inr a \<Longrightarrow> sound E a" by simp_all
  show "marked (case y of Inl e \<Rightarrow> ret (Inl e, no_locals) | Inr v \<Rightarrow> k v) (\<lambda>z ms'. locals_marked E z (ms @ ms'))"
  proof (cases y)
    case (Inl e)
    then show ?thesis
      by (intro markedI) (auto simp: locals_marked_def ms since_def no_locals_def sound_locals_def intro!: exI [of _ "[]"])
  next
    case (Inr a)
    from marked_rest [OF assms(2) [OF snd [OF Inr]] assms(3,4)] show ?thesis
      unfolding Inr sum.case
      by (rule marked_mono) (auto simp: locals_marked_def sound_locals_def ms Inr snd [OF Inr])
  qed
qed auto

lemma publish_try_marks:
  assumes "device_provider E (dp_acquire p)"
  shows "marked (publish_try D req c flow p path) (locals_marked E)"
  unfolding publish_try_def Let_def
  by (rule acquiring_block [OF assms])
    (auto simp: no_locals_def split: option.splits
      intro!: emits_intros throws_intros yields_tryL yields_ret)

lemma onboard_try_marks:
  assumes "device_provider E (dp_acquire p)"
  shows "marked (onboard_try D req c vf p) (locals_marked E)"
  unfolding onboard_try_def Let_def
  by (rule acquiring_block [OF assms])
    (auto simp: no_locals_def split: human_outcome.splits
      intro!: emits_intros throws_intros yields_tryL yields_ret)

lemma ignoreE_run: "ignoreE m r = Some (x, r1) \<Longrightarrow> x = Inr () \<and> (\<exists>z. m r = Some (z, r1))"
  by (auto simp: ignoreE_def catchE_def bindE_def ret_def split: option.splits sum.splits prod.splits)

lemma release_marks:
  assumes "sound E a"
  shows "marked (release a) (\<lambda>x ms. own ms = [EvRelease] \<and> List.last ms = EvRelease \<and> succeeded x)"
proof (rule markedI)
  fix r x r2 assume "release a r = Some (x, r2)"
  then obtain z where "noteE (\<lambda>x. EvRelease) (aq_release a) r = Some (z, r2)" and "succeeded x"
    unfolding release_def by (auto dest: ignoreE_run)
  then obtain y r1 where "aq_release a r = Some (y, r1)" "ru_trace r2 = ru_trace r1 @ [EvRelease]" "succeeded x"
    by (auto simp: noteE_def split: option.splits prod.splits)
  moreover have "quiet (aq_release a)" using assms by (simp add: sound_def)
  ultimately obtain evs where "since r r2 (evs @ [EvRelease])" "own evs = []" "succeeded x"
    by (auto simp: since_def own_none dest!: emitsD)
  then show "\<exists>evs. since r r2 evs \<and> own evs = [EvRelease] \<and> List.last evs = EvRelease \<and> succeeded x"
    by (intro exI [of _ "evs @ [EvRelease]"]) simp
qed

lemma ignore_marks: "quiet m \<Longrightarrow> marked (ignoreE m) (\<lambda>x ms. own ms = [] \<and> succeeded x)"
  by (rule marked_mono [OF marked_rest [where P = "\<lambda>_. True"]])
    (auto intro!: emits_intros throws_intros simp: yields_def)

lemma ret_marks: "marked (ret x) (\<lambda>y ms. own ms = [] \<and> succeeded y)"
  by (rule markedI) (auto simp: since_def)

lemma marked_then_ok:
  assumes "marked m (\<lambda>x ms. own ms = [] \<and> succeeded x)" and "\<And>x. marked (f x) S"
    and "\<And>x a b. own a = [] \<Longrightarrow> S x b \<Longrightarrow> S x (a @ b)"
  shows "marked (bindE m f) S"
  by (rule marked_bind [OF assms(1)]) (auto intro: marked_mono [OF assms(2)] assms(3))

definition released :: "'s locals \<Rightarrow> event list \<Rightarrow> bool" where
  "released lo evs \<longleftrightarrow>
     own evs = (if lo_acquired lo = None then [] else [EvRelease])
     \<and> (lo_acquired lo \<noteq> None \<longrightarrow> List.last evs = EvRelease)"

lemma own_last: "own b = [EvRelease] \<Longrightarrow> List.last (a @ b) = List.last b"
  by (cases b) auto

lemma released_later: "own a = [] \<Longrightarrow> released lo b \<Longrightarrow> released lo (a @ b)"
  by (auto simp: released_def own_last split: if_splits)

lemma cleanup_marks:
  assumes "sound_locals E lo"
  shows "marked (cleanup D path lo) (\<lambda>x ms. released lo ms \<and> succeeded x)"
  unfolding cleanup_def
proof (intro marked_then_ok)
  have snd: "sound E a" if "lo_acquired lo = Some a" for a using assms that by (simp add: sound_locals_def)
  show "marked (case lo_session lo of Some ses \<Rightarrow> ignoreE (deleteAppiumSession (ad_env D) ses) | None \<Rightarrow> ret ())
      (\<lambda>x ms. own ms = [] \<and> succeeded x)"
    by (auto split: option.splits intro!: ret_marks ignore_marks emits_intros)
  show "marked (case (lo_mediaPushed lo, lo_acquired lo, path) of
               (True, Some a, Some path) \<Rightarrow>
                 ignoreE (noteE (\<lambda>x. EvRemove path (succeeded x)) (dv_removeFile (aq_device a) path))
             | _ \<Rightarrow> ret ()) (\<lambda>x ms. own ms = [] \<and> succeeded x)" for x
    by (auto split: option.splits bool.splits intro!: ret_marks ignore_marks emits_intros quiet_remove snd)
  show "marked (case lo_acquired lo of Some a \<Rightarrow> release a | None \<Rightarrow> ret ())
      (\<lambda>x ms. released lo ms \<and> succeeded x)" for x y
    by (auto simp: released_def split: option.splits
        intro: marked_mono [OF ret_marks] marked_mono [OF release_marks] snd)
qed (auto intro: released_later)

text \<open>The whole of a run: no mark, a refused acquisition, or a device acquired and then released.\<close>

definition run_marks :: "event list \<Rightarrow> bool" where
  "run_marks evs \<longleftrightarrow>
     own evs \<in> {[], [EvAcquire False], [EvAcquire True, EvRelease]}
     \<and> (EvRelease \<in> set evs \<longrightarrow> List.last evs = EvRelease)"

lemma run_marks_none: "own evs = [] \<Longrightarrow> run_marks evs"
  by (auto simp: run_marks_def own_none)

lemma run_marks_later: "own a = [] \<Longrightarrow> run_marks b \<Longrightarrow> run_marks (a @ b)"
  by (cases "b = []") (auto simp: run_marks_def own_none)

lemma block_with_cleanup:
  fixes block :: "('s, (exn, 'b) result \<times> 's locals) eff"
  assumes "marked block (locals_marked E)" and "\<And>out lo. quiet (k out lo)"
  shows "marked (bindE block (\<lambda>(out, lo). finallyE (k out lo) (cleanup D path lo))) (\<lambda>x ms. run_marks ms)"
proof (rule marked_bind [OF assms(1)])
  fix y :: "(exn, 'b) result \<times> 's locals" and ms assume "locals_marked E (Inr y) ms"
  then obtain out lo where y: "y = (out, lo)" and lo: "sound_locals E lo"
    and ms: "own ms = [EvAcquire (lo_acquired lo \<noteq> None)]"
    by (auto simp: locals_marked_def)
  have all: "run_marks (ms @ a @ b)" if "own a = []" "released lo b" for a b
  proof (cases "lo_acquired lo")
    case None
    with that ms have "own (ms @ a @ b) = [EvAcquire False]" by (simp add: released_def)
    moreover from this have "EvRelease \<notin> set (ms @ a @ b)" using own_set [of EvRelease "ms @ a @ b"] by simp
    ultimately show ?thesis by (simp add: run_marks_def)
  next
    case (Some x)
    with that ms have "own (ms @ a @ b) = [EvAcquire True, EvRelease]" "List.last (ms @ a @ b) = EvRelease"
      by (auto simp: released_def own_last)
    then show ?thesis by (simp add: run_marks_def)
  qed
  show "marked (case y of (out, lo) \<Rightarrow> finallyE (k out lo) (cleanup D path lo)) (\<lambda>x ms'. run_marks (ms @ ms'))"
    unfolding y prod.case
    by (rule marked_finally [OF quiet_marked [OF assms(2)]])
      (auto intro!: marked_mono [OF cleanup_marks [OF lo]] all)
qed (simp add: locals_marked_def)

lemma run_marks_quiet: "quiet m \<Longrightarrow> marked m (\<lambda>x ms. run_marks ms)"
  by (rule marked_mono [OF quiet_marked]) (auto simp: run_marks_none)

lemma quiet_then_marks:
  assumes "quiet m" and "\<And>x. marked (f x) (\<lambda>y ms. run_marks ms)"
  shows "marked (bindE m f) (\<lambda>y ms. run_marks ms)"
  by (rule marked_bind [OF quiet_marked [OF assms(1)]])
    (auto intro: run_marks_none marked_mono [OF assms(2)] run_marks_later)

lemma failing_quiet: "quiet (case out of Inr res \<Rightarrow> ret res
    | Inl e \<Rightarrow> thenE (recordFailure D e s jobId) (throwE (classify e)))"
  by (auto split: sum.splits intro!: emits_intros)

lemma liftE_bind_marks:
  assumes "\<And>x. y = Inr x \<Longrightarrow> marked (f x) (\<lambda>z ms. run_marks ms)"
  shows "marked (bindE (liftE y) f) (\<lambda>z ms. run_marks ms)"
proof (cases y)
  case (Inl e)
  then show ?thesis
    by (intro markedI) (auto simp: bindE_def liftE_def since_def run_marks_def)
next
  case (Inr x)
  with assms show ?thesis by (simp add: bindE_def liftE_def marked_def)
qed

lemma android_publish_marks:
  assumes "providers_ok D"
  shows "marked (android_publish D req) (\<lambda>x ms. run_marks ms)"
  unfolding android_publish_def Let_def
  apply (rule liftE_bind_marks, rule liftE_bind_marks, rule quiet_then_marks)
   apply (auto split: option.splits intro!: emits_intros) [1]
  apply (rule liftE_bind_marks, rule quiet_then_marks [OF logE_facts], simp)
  apply (rule block_with_cleanup [OF publish_try_marks [OF createProvider_ok [OF assms]] failing_quiet], assumption)
  done

lemma case_option_rule:
  "(x = None \<Longrightarrow> P a) \<Longrightarrow> (\<And>y. x = Some y \<Longrightarrow> P (b y)) \<Longrightarrow> P (case x of None \<Rightarrow> a | Some y \<Rightarrow> b y)"
  by (cases x) simp_all

lemma android_onboard_marks:
  assumes "providers_ok D"
  shows "marked (android_onboard D req) (\<lambda>x ms. run_marks ms)"
  unfolding android_onboard_def
  apply (rule liftE_bind_marks, rule case_option_rule [where P = "\<lambda>m. marked m (\<lambda>x ms. run_marks ms)"])
   apply (rule run_marks_quiet [OF emits_ret(2)])
  apply (rule liftE_bind_marks, rule quiet_then_marks [OF logE_facts], simp)
  apply (rule block_with_cleanup [OF onboard_try_marks [OF createProvider_ok [OF assms]] failing_quiet], assumption)
  done


subsection \<open>Every run ends\<close>

lemma settles_acquire:
  "clock_laws E \<Longrightarrow> device_provider E (dp_acquire p) \<Longrightarrow> settles (acquire p c accountId jobId req)"
  unfolding acquire_def by (intro settles_intros device_provider.acquire_settles)

lemma acquiring_settles:
  assumes "clock_laws E" and "device_provider E (dp_acquire p)" and "\<And>a. sound E a \<Longrightarrow> settles (k a)"
  shows "settles (tryL (acquire p c accountId jobId req) lo k)"
  by (rule settles_tryL_from [OF settles_acquire acquire_sound]) (rule assms)+

lemma settles_publish_try:
  assumes "clock_laws (ad_env D)" and "device_provider (ad_env D) (dp_acquire p)"
  shows "settles (publish_try D req c flow p path)"
  unfolding publish_try_def Let_def
  by (rule acquiring_settles [OF assms])
    (auto split: option.splits intro!: settles_intros assms)

lemma settles_lift_bind: "(\<And>x. y = Inr x \<Longrightarrow> settles (f x)) \<Longrightarrow> settles (bindE (liftE y) f)"
  by (cases y) (auto simp: settles_def bindE_def liftE_def)

text \<open>A block that leaves sound variables, and the \<open>finally\<close> after it.\<close>

lemma block_settles:
  fixes block :: "('s, (exn, 'b) result \<times> 's locals) eff"
  assumes "settles block" and "marked block (locals_marked E)"
  shows "settles (bindE block (\<lambda>(out, lo). finallyE (case out of Inr res \<Rightarrow> ret res
      | Inl e \<Rightarrow> thenE (recordFailure D e (lo_session lo) jobId) (throwE (classify e))) (cleanup D path lo)))"
proof (rule settles_from [OF assms(1), where P = "\<lambda>y. sound_locals E (snd y)"])
  show "yields (\<lambda>y. sound_locals E (snd y)) block"
    using assms(2) by (fastforce simp: yields_def locals_marked_def dest: markedD)
qed (auto split: prod.splits sum.splits intro!: settles_intros)

text \<open>
  C35. A publish run always ends, with a post or an error, as long as time passes in sleeps and requests
  and the provider's \<open>acquire\<close> ends: none of the waits of the driver can keep the worker for ever.
\<close>

theorem android_publish_returns:
  assumes "clock_laws (ad_env D)" and "providers_ok D"
  shows "\<exists>out r1. android_publish D req r = Some (out, r1)"
proof -
  have "settles (android_publish D req)"
    unfolding android_publish_def Let_def
    apply (rule settles_lift_bind, rule settles_lift_bind, rule settles_bind)
     apply (auto split: option.splits intro!: settles_intros) [1]
    apply (rule settles_lift_bind, rule settles_bind, rule nowE_facts(5))
    apply (rule block_settles [OF settles_publish_try publish_try_marks])
      apply (rule assms createProvider_ok [OF assms(2)] | assumption)+
    done
  then show ?thesis by (rule settlesD)
qed

lemma settles_onboard_try:
  assumes "clock_laws (ad_env D)" and "device_provider (ad_env D) (dp_acquire p)"
    and "\<And>s. oq_awaitHuman req s \<noteq> None"
  shows "settles (onboard_try D req c vf p)"
proof -
  have "settles (await_human req)"
    using assms(3) by (auto simp: settles_iff await_human_def split: option.splits)
  then show ?thesis
    unfolding onboard_try_def Let_def
    by (intro acquiring_settles [OF assms(1,2)])
      (auto split: human_outcome.splits intro!: settles_intros assms)
qed

text \<open>
  An onboarding ends under the same conditions, when the wait for the operator does.
\<close>

theorem android_onboard_returns:
  assumes "clock_laws (ad_env D)" and "providers_ok D" and "\<And>s. oq_awaitHuman req s \<noteq> None"
  shows "\<exists>out r1. android_onboard D req r = Some (out, r1)"
proof -
  have "settles (android_onboard D req)"
    unfolding android_onboard_def
    apply (rule settles_lift_bind, rule case_option_rule [where P = settles], rule settles_ret)
    apply (rule settles_lift_bind, rule settles_bind, rule nowE_facts(5))
    apply (rule block_settles [OF settles_onboard_try onboard_try_marks])
       apply (rule assms createProvider_ok [OF assms(2)] | assumption)+
    done
  then show ?thesis by (rule settlesD)
qed

subsection \<open>How a run fails\<close>

definition classified :: "exn \<Rightarrow> bool" where
  "classified e \<longleftrightarrow> (\<exists>c rt a m. e = PublishError c rt a m)"

lemma classified_simps [simp]:
  "classified (permanent c m)" "classified (transient c m)" "classified (classify e)"
  "classified (PublishError c rt a m)" "classified no_verify_flow"
  by (cases e; auto simp: classified_def permanent_def transient_def no_verify_flow_def split: ui_kind.splits)+

lemma throws_ending:
  "throws classified (finallyE (case out of Inr res \<Rightarrow> ret res
      | Inl e \<Rightarrow> thenE (recordFailure D e s jobId) (throwE (classify e))) (cleanup D path lo))"
proof -
  have "throws classified (recordFailure D e s jobId)" for e
    unfolding recordFailure_def by (auto split: option.splits intro!: throws_intros)
  moreover have "throws classified (cleanup D path lo)"
    unfolding cleanup_def release_def by (auto split: option.splits bool.splits intro!: throws_intros)
  ultimately show ?thesis by (auto split: sum.splits intro!: throws_intros)
qed

lemma throws_liftE: "(\<And>e. y = Inl e \<Longrightarrow> T e) \<Longrightarrow> throws T (liftE y)"
  by (auto simp: throws_def)

lemma throws_lift_bind:
  "(\<And>e. y = Inl e \<Longrightarrow> T e) \<Longrightarrow> (\<And>x. y = Inr x \<Longrightarrow> throws T (f x)) \<Longrightarrow> throws T (bindE (liftE y) f)"
  by (cases y) (auto simp: throws_def bindE_def liftE_def)

lemma first_errors:
  "parseCredentials D raw = Inl e \<Longrightarrow> classified e"
  "selectFlow c ft = Inl e \<Longrightarrow> classified e"
  "ad_createProvider D = None \<Longrightarrow> createProvider D c px = Inl e \<Longrightarrow> classified e"
  by (auto simp: parseCredentials_def selectFlow_def createProvider_def defaultProvider_def Let_def
      split: option.splits if_splits)

lemma throws_try: "throws (\<lambda>e. False) (publish_try D req c flow p path)"
  "throws (\<lambda>e. False) (onboard_try D oreq c vf p)"
  unfolding publish_try_def onboard_try_def Let_def
  by (auto split: human_outcome.splits intro!: throws_intros)

lemma throws_weaken: "throws (\<lambda>e. False) m \<Longrightarrow> throws T m"
  by (auto simp: throws_def)

text \<open>
  C32. Every error of a run, from its first check to its last request, reaches the worker as a
  \<open>PublishError\<close>, with the code and the retry decision the driver gave it: no raw error of Appium,
  adb or a UI step, which the worker would retry whatever it is, gets out.
\<close>

theorem android_errors_classified:
  assumes "ad_createProvider D = None"
    and "android_publish D req r = Some (Inl e, r1) \<or> android_onboard D oreq r = Some (Inl e, r1)"
  shows "\<exists>code retryable after msg. e = PublishError code retryable after msg"
proof -
  have "throws classified (case pr_video req of Some v \<Rightarrow> assertMediaIsStaged D v | None \<Rightarrow> ret ())"
    by (auto simp: assertMediaIsStaged_def split: option.splits intro!: throws_intros)
  then have pub: "throws classified (android_publish D req)"
    unfolding android_publish_def Let_def
    by (intro throws_lift_bind throws_bind)
      (auto split: prod.splits intro!: throws_basic throws_ending throws_weaken [OF throws_try(1)]
        dest: first_errors first_errors(3) [OF assms(1)])
  have onb: "throws classified (android_onboard D oreq)"
    unfolding android_onboard_def
    apply (rule throws_lift_bind)
     apply (erule first_errors)
    subgoal for c
      by (cases "ac_verifyFlow c"; simp only: option.case)
        (auto split: prod.splits intro!: throws_liftE throws_bind throws_throwE throws_basic throws_ending
          throws_weaken [OF throws_try(2)] dest: first_errors(3) [OF assms(1)])
    done
  show ?thesis using assms(2) throwsD [OF pub] throwsD [OF onb] by (auto simp: classified_def)
qed

lemma tryL_throw: "m r = Some (Inl e, r1) \<Longrightarrow> tryL m lo k r = Some (Inr (Inl e, lo), r1)"
  by (simp add: tryL_def attemptE_def bindE_def ret_def)

lemma tryL_unsettled: "m r = None \<Longrightarrow> tryL m lo k r = None"
  by (simp add: tryL_def attemptE_def bindE_def)

lemma refused_try:
  assumes "\<And>cx r' x r2. dp_acquire p cx r' = Some (x, r2) \<Longrightarrow> x = Inl e"
    and "tryL (acquire p c i j q) lo k r = Some (y, r1)"
  shows "y = Inr (Inl (acquire_error e), lo) \<and> acquire p c i j q r = Some (Inl (acquire_error e), r1)"
proof (cases "acquire p c i j q r")
  case None
  with assms(2) show ?thesis by (simp add: tryL_unsettled)
next
  case (Some out)
  then obtain r2 where out: "acquire p c i j q r = Some (Inl (acquire_error e), r2)"
    unfolding acquire_def catchE_def noteE_def
    by (auto simp: throwE_def dest!: assms(1) split: option.splits sum.splits prod.splits)
  have "tryL (acquire p c i j q) lo k r = Some (Inr (Inl (acquire_error e), lo), r2)"
    by (rule tryL_throw [where m = "acquire p c i j q", OF out])
  with out assms(2) show ?thesis by simp
qed


end
