(* ===== verification/Android_Success.thy ===== *)
theory Android_Success
  imports Android_Safety
begin

text \<open>
  What a run of the Android driver that reports success has shown, for publishing and for
  onboarding; the paths it stages media under; and the devices it may run on.
\<close>

subsection \<open>The flows of valid credentials\<close>

lemma those_map_Some: "those (map f xs) = Some ys \<Longrightarrow> y \<in> set ys \<Longrightarrow> \<exists>x \<in> set xs. f x = Some y"
  by (induction xs arbitrary: ys) (auto split: option.splits)

lemma field_record_rule:
  assumes "field_record key p v = Some kvs" and "(k, x) \<in> set kvs"
  shows "\<exists>w. p w = Some x"
  using assms by (auto simp: field_record_def split: js.splits if_splits dest!: those_map_Some)

lemma field_optional_rule: "field_optional p v = Some (Some x) \<Longrightarrow> p v = Some x"
  by (auto simp: field_optional_def split: if_splits)

lemma androidCredentialsSchema_flows:
  assumes "androidCredentialsSchema u v = Some c"
  obtains f g h where "uiFlowSchema f = Some (ac_flow c)"
    "field_optional (field_record (\<lambda>k. k \<noteq> []) uiFlowSchema) g = Some (ac_flows c)"
    "field_optional uiFlowSchema h = Some (ac_verifyFlow c)"
    "ac_redroid c = None \<or> ac_emulator c = None"
  using assms unfolding androidCredentialsSchema_def field_object_def
  by (auto split: js.splits Option.bind_splits if_splits)

lemma parsed_flows_assert:
  assumes "parseCredentials D raw = Inr c"
  shows "list_ex is_assertion (ac_flow c)"
    and "ac_flows c = Some fs \<Longrightarrow> map_of fs name = Some l \<Longrightarrow> list_ex is_assertion l"
    and "ac_verifyFlow c = Some l \<Longrightarrow> list_ex is_assertion l"
    and "ac_redroid c = None \<or> ac_emulator c = None"
proof -
  from assms obtain v where "androidCredentialsSchema (ad_is_url D) v = Some c"
    by (auto simp: parseCredentials_def split: option.splits if_splits)
  then obtain f g h where fl: "uiFlowSchema f = Some (ac_flow c)"
    "field_optional (field_record (\<lambda>k. k \<noteq> []) uiFlowSchema) g = Some (ac_flows c)"
    "field_optional uiFlowSchema h = Some (ac_verifyFlow c)" "ac_redroid c = None \<or> ac_emulator c = None"
    by (rule androidCredentialsSchema_flows)
  show "list_ex is_assertion (ac_flow c)" using uiFlowSchema_Some [OF fl(1)] by simp
  show "list_ex is_assertion l" if "ac_flows c = Some fs" "map_of fs name = Some l" for fs name l
  proof -
    from that(2) have "(name, l) \<in> set fs" by (rule map_of_SomeD)
    moreover have "field_record (\<lambda>k. k \<noteq> []) uiFlowSchema g = Some fs"
      using fl(2) that(1) by (auto dest: field_optional_rule)
    ultimately obtain w where "uiFlowSchema w = Some l" using field_record_rule by metis
    then show ?thesis using uiFlowSchema_Some by blast
  qed
  show "list_ex is_assertion l" if "ac_verifyFlow c = Some l" for l
    using fl(3) that by (auto dest!: field_optional_rule uiFlowSchema_Some)
  show "ac_redroid c = None \<or> ac_emulator c = None" by (rule fl(4))
qed

lemma selectFlow_Steps:
  assumes "parseCredentials D raw = Inr c" and "selectFlow c ft = Inr (name, Steps l)"
  shows "list_ex is_assertion l"
  using assms(2) parsed_flows_assert [OF assms(1)]
  by (auto simp: selectFlow_def flow_lookup_def Let_def split: if_splits option.splits Option.bind_splits)

subsection \<open>Reading a successful run\<close>

lemma tryL_Inr:
  assumes "tryL m lo k r = Some (Inr (Inr res, lo'), r2)"
  obtains x r1 where "m r = Some (Inr x, r1)" "k x r1 = Some (Inr (Inr res, lo'), r2)"
  using assms unfolding tryL_def
  by (elim bindE_Inr) (auto simp: attemptE_def split: option.splits sum.splits)

lemma finallyE_Inr:
  assumes "finallyE m c r = Some (Inr x, r2)"
  obtains r1 u where "m r = Some (Inr x, r1)" "c r1 = Some (u, r2)"
  using assms by (auto simp: finallyE_def split: option.splits sum.splits prod.splits)

abbreviation happened :: "event \<Rightarrow> 's run \<Rightarrow> 's run \<Rightarrow> bool" where
  "happened e \<equiv> shows_in (\<lambda>e'. e' = e)"

lemma happened_iff: "happened e r r1 \<longleftrightarrow> (\<exists>evs. since r r1 evs \<and> e \<in> set evs)"
  by (auto simp: shows_in_def list_ex_iff)

lemma note_happened: "quiet m \<Longrightarrow> noteE ev m r = Some (x, r1) \<Longrightarrow> happened (ev x) r r1"
  by (fastforce simp: noteE_def happened_iff since_def split: option.splits prod.splits dest: emitsD)

lemma invoke_happened: "invoke ev op r = Some (x, r1) \<Longrightarrow> happened (ev x) r r1"
  by (auto simp: invoke_def happened_iff since_def split: prod.splits)

lemma marked_grown: "marked m R \<Longrightarrow> m r = Some (x, r1) \<Longrightarrow> grown r r1"
  by (auto simp: grown_def dest: markedD)

lemma quiet_grown: "quiet m \<Longrightarrow> m r = Some (x, r1) \<Longrightarrow> grown r r1"
  by (rule emits_grown)

lemma cleanup_grown: "sound_locals E lo \<Longrightarrow> cleanup D path lo r = Some (x, r1) \<Longrightarrow> grown r r1"
  by (rule marked_grown [OF cleanup_marks])

lemma block_sound:
  "marked block (locals_marked E) \<Longrightarrow> block r = Some (Inr (out, lo), r1) \<Longrightarrow> sound_locals E lo"
  by (fastforce simp: locals_marked_def dest: markedD)

lemma logE_grown: "logE E lvl msg d r = Some (x, r1) \<Longrightarrow> grown r r1"
  by (auto simp: logE_def perform_def grown_def since_def split: prod.splits)

lemma grown_refl: "grown r r"
  by (auto simp: grown_def since_def)

lemma isAppRunning_true:
  "sound E a \<Longrightarrow> isAppRunning (aq_device a) c r = Some (Inr True, r1) \<Longrightarrow> happened (EvRunning True) r r1"
  unfolding isAppRunning_def sound_def
  by (auto dest!: note_happened [OF android_device.running_quiet])

lemma stageMedia_pushed:
  assumes "sound E a" and "stageMedia D (aq_device a) rp lp n r = Some (Inr u, r1)"
  shows "happened (EvPush lp rp True) r r1"
proof -
  have dev: "android_device E (aq_device a)" using assms(1) by (simp add: sound_def)
  let ?rest = "\<lambda>m. thenE (noteE (\<lambda>x. EvScan rp (succeeded x)) (dv_scanMedia (aq_device a) rp))
                  (logE (ad_env D) DEBUG ''Media staged on device''
                     (Some (JsObj [(''remotePath'', JsStr rp), (''bytes'', JsNum m)])))"
  from assms(2) obtain sz ra where
    push: "noteE (\<lambda>x. EvPush lp rp (x = Inr (Some n))) (dv_pushMedia (aq_device a) lp rp) r = Some (Inr sz, ra)"
    and rest: "(case sz of
         None \<Rightarrow> throwE (transient ''media_push_missing'' (''Pushed '' @ rp @ '' but the device reports no such file''))
       | Some m \<Rightarrow>
           if m \<noteq> n
           then throwE (transient ''media_push_truncated''
                  (''Pushed '' @ show_int n @ '' bytes but the device reports '' @ show_int m @ '' at '' @ rp))
           else ?rest m) ra = Some (Inr u, r1)"
    unfolding stageMedia_def by (elim bindE_Inr)
  from rest have sz: "sz = Some n" by (auto split: option.splits if_splits)
  have "quiet (?rest n)" by (auto intro!: emits_intros android_device.scan_quiet [OF dev])
  from emits_grown [OF this] rest sz have "grown ra r1" by simp
  with note_happened [OF android_device.push_quiet [OF dev] push] sz show ?thesis by (auto intro: shows_before)
qed

lemma acquire_happened:
  assumes "acquire p c i j q r = Some (Inr a, r1)" and "device_provider E (dp_acquire p)"
  shows "happened (EvAcquire True) r r1"
proof -
  from markedD [OF acquire_marks [OF assms(2)] assms(1)] obtain evs where
    "since r r1 evs" "own evs = [EvAcquire True]" by auto
  moreover from this have "EvAcquire True \<in> set evs" using own_set [of "EvAcquire True" evs] by simp
  ultimately show ?thesis by (auto simp: happened_iff)
qed

lemma ending_Inr:
  assumes "finallyE (case out of Inr res \<Rightarrow> ret res
      | Inl e \<Rightarrow> thenE (recordFailure D e s jobId) (throwE (classify e))) c r = Some (Inr res, r1)"
  shows "out = Inr res \<and> (\<exists>u. c r = Some (u, r1))"
  using assms by (cases out) (auto elim!: finallyE_Inr bindE_Inr)

lemma succeed_Inr:
  assumes "succeed D result jobId ses r = Some (Inr res, r1)"
  shows "res_metrics res = Some \<lparr>rm_totalMs = fr_totalMs result, rm_steps = fr_timings result\<rparr>
    \<and> res_externalPostId res = (case fr_capturedText result of Some t \<Rightarrow> t | None \<Rightarrow> ''android_'' @ jobId)"
  using assms unfolding succeed_def by (auto elim!: bindE_Inr)

text \<open>What \<open>run_selected\<close> shows of a flow it ran to the end.\<close>

definition flow_shown :: "flow_steps \<Rightarrow> appium_session \<Rightarrow> (string \<times> string) list \<Rightarrow> step_timing list \<Rightarrow> event list \<Rightarrow> bool" where
  "flow_shown steps ses ctx tms evs =
     (case steps of
        Steps l \<Rightarrow> list_all2 (\<lambda>step t. st_name t = step_name step \<and> st_action t = step_action step
            \<and> (if st_skipped t then may_skip step else step_evidence ses ctx step evs)) l tms
      | Inherited n \<Rightarrow> tms = [])"

lemma flow_shown_mono: "flow_shown steps ses ctx tms evs \<Longrightarrow> set evs \<subseteq> set evs' \<Longrightarrow> flow_shown steps ses ctx tms evs'"
  by (auto simp: flow_shown_def split: flow_steps.splits elim!: list_all2_mono intro: step_evidence_mono)

lemma run_selected_shown:
  assumes "run_selected D ses steps ctx r = Some (Inr result, r1)"
  shows "\<exists>evs. since r r1 evs \<and> flow_shown steps ses ctx (fr_timings result) evs"
proof -
  have run: "\<exists>evs. since r r1 evs \<and> flow_shown (Steps l) ses ctx (fr_timings result) evs"
    if "runUiFlow (ad_env D) ses l ctx r = Some (Inr result, r1)" for l
    using that by (rule runUiFlow_done) (auto simp: since_def flow_shown_def elim!: list_all2_mono)
  show ?thesis
  proof (cases steps)
    case (Steps l)
    with assms run show ?thesis by (auto simp: run_selected_def)
  next
    case (Inherited n)
    with assms have "runUiFlow (ad_env D) ses [] ctx r = Some (Inr result, r1)"
      by (auto simp: run_selected_def elim!: bindE_Inr split: if_splits)
    from run [OF this] Inherited show ?thesis by (auto simp: flow_shown_def)
  qed
qed

text \<open>What a successful \<open>publish_try\<close> has done, one statement after the other.\<close>

definition flow_context :: "publish_request \<Rightarrow> string option \<Rightarrow> (string \<times> string) list" where
  "flow_context req path =
     [(''caption'', pr_caption req), (''jobId'', pr_jobId req)]
        @ (case (pr_video req, path) of
             (Some v, Some q) \<Rightarrow> [(''remoteVideoPath'', q), (''fileName'', pv_fileName v)] | _ \<Rightarrow> [])"

definition work_done ::
  "publish_request \<Rightarrow> string option \<Rightarrow> flow_steps \<Rightarrow> publish_result \<Rightarrow> event list \<Rightarrow> bool" where
  "work_done req path steps res evs \<longleftrightarrow>
     EvAcquire True \<in> set evs \<and> EvRunning True \<in> set evs
     \<and> (\<forall>v q. pr_video req = Some v \<longrightarrow> path = Some q \<longrightarrow> EvPush (pv_localPath v) q True \<in> set evs)
     \<and> (\<exists>ses tms. flow_shown steps ses (flow_context req path) tms evs
          \<and> map_option rm_steps (res_metrics res) = Some tms)"

lemma work_done_mono: "work_done req path steps res evs \<Longrightarrow> set evs \<subseteq> set evs' \<Longrightarrow> work_done req path steps res evs'"
  unfolding work_done_def by (elim conjE exE) (intro conjI exI; auto intro: flow_shown_mono)

lemma publish_try_Inr:
  assumes "device_provider E (dp_acquire p)" and "publish_try D req c flow p path r = Some (Inr (Inr res, lo), r1)"
  shows "\<exists>evs. since r r1 evs \<and> work_done req path (snd flow) res evs"
proof -
  let ?ctx = "[(''caption'', pr_caption req), (''jobId'', pr_jobId req)]
        @ (case (pr_video req, path) of
             (Some v, Some q) \<Rightarrow> [(''remoteVideoPath'', q), (''fileName'', pv_fileName v)] | _ \<Rightarrow> [])"
  from assms(2) obtain a ra staged rb ses r3 u v w running r4 r5 r6 rc result rd where
    acq: "acquire p c (pa_id (pr_account req)) (pr_jobId req) True r = Some (Inr a, ra)"
    and stage: "(case (pr_video req, path) of
                    (Some v, Some q) \<Rightarrow>
                      thenE (stageMedia D (aq_device a) q (pv_localPath v) (pv_sizeBytes v)) (ret True)
                  | _ \<Rightarrow> ret False) ra = Some (Inr staged, rb)"
    and ses: "startSession D c (aq_serial a) rb = Some (Inr ses, r3)"
    and l1: "logE (ad_env D) INFO ''Appium session started''
        (Some (JsObj [(''sessionId'', JsStr (as_sessionId ses))])) r3 = Some (Inr u, r4)"
    and l2: "launch (aq_device a) c r4 = Some (Inr v, r5)"
    and l3: "settle D c r5 = Some (Inr w, r6)"
    and l4: "isAppRunning (aq_device a) c r6 = Some (Inr running, rc)"
    and rest: "(if \<not> running
                then throwE (permanent ''app_not_running''
                  (ac_packageName c @ '' is not running after launch - it failed to start or crashed immediately''))
                else bindE (run_selected D ses (snd flow) ?ctx)
                       (\<lambda>result. succeed D result (pr_jobId req) ses)) rc = Some (Inr res, r1)"
    unfolding publish_try_def Let_def
    apply -
    apply (erule tryL_Inr)
    apply (erule tryL_Inr)
    apply (erule tryL_Inr)
    apply (erule tryL_Inr)
    apply (simp only: eff_simps sum.inject prod.inject)
    apply (elim bindE_Inr)
    apply (elim conjE)
    apply (hypsubst_thin)
    apply (rule that)
    apply assumption+
    done
  from rest have running: "running" by (auto split: if_splits)
  with rest obtain result rd where
    run: "run_selected D ses (snd flow) ?ctx rc = Some (Inr result, rd)"
    and suc: "succeed D result (pr_jobId req) ses rd = Some (Inr res, r1)"
    by (auto elim: bindE_Inr)
  have snd: "sound E a" by (rule yieldsD [OF acquire_sound [OF assms(1)] acq])
  have q: "quiet (case (pr_video req, path) of
                    (Some v, Some q) \<Rightarrow>
                      thenE (stageMedia D (aq_device a) q (pv_localPath v) (pv_sizeBytes v)) (ret True)
                  | _ \<Rightarrow> ret False)"
    by (auto split: option.splits intro!: emits_intros snd)
  obtain e0 where e0: "since r ra e0" "EvAcquire True \<in> set e0"
    using acquire_happened [OF acq assms(1)] by (auto simp: happened_iff)
  obtain e1 where e1: "since ra rb e1" using emitsD [OF q stage] by (auto simp: since_def)
  have push: "EvPush (pv_localPath v) q True \<in> set e1" if "pr_video req = Some v" "path = Some q" for v q
    using stage that e1 by (auto elim!: bindE_Inr dest!: stageMedia_pushed [OF snd] simp: happened_iff since_def)
  have "grown rb r3" by (rule quiet_grown [OF quiet_parts(2) ses])
  moreover have "grown r3 r4" using l1 by (rule logE_grown)
  moreover have "grown r4 r5" by (rule quiet_grown [OF quiet_device_parts(2) [OF snd] l2])
  moreover have "grown r5 r6" by (rule quiet_grown [OF quiet_parts(3) l3])
  ultimately have "grown rb r6" by (blast intro: grown_trans)
  moreover have "happened (EvRunning True) r6 rc" using isAppRunning_true [OF snd] l4 running by simp
  ultimately have "happened (EvRunning True) rb rc" by (rule shows_after)
  then obtain e2 where e2: "since rb rc e2" "EvRunning True \<in> set e2" by (auto simp: happened_iff)
  obtain e3 where e3: "since rc rd e3" "flow_shown (snd flow) ses ?ctx (fr_timings result) e3"
    using run_selected_shown [OF run] by blast
  obtain e4 where e4: "since rd r1 e4" using quiet_grown [OF quiet_parts2(1) suc] by (auto simp: grown_def)
  let ?evs = "e0 @ e1 @ e2 @ e3 @ e4"
  have "since r r1 ?evs" using e0 e1 e2 e3 e4 by (auto simp: since_def)
  moreover have "flow_shown (snd flow) ses ?ctx (fr_timings result) ?evs"
    using e3(2) by (rule flow_shown_mono) auto
  then have "work_done req path (snd flow) res ?evs"
    unfolding work_done_def flow_context_def using e0 e2 push succeed_Inr [OF suc] by auto
  ultimately show ?thesis by blast
qed

abbreviation remote_path :: "android_credentials \<Rightarrow> publish_request \<Rightarrow> string option" where
  "remote_path c req \<equiv> (case pr_video req of
      Some v \<Rightarrow> Some (uniqueRemotePath (ac_remoteVideoPath c) (pr_jobId req)) | None \<Rightarrow> None)"

lemma android_publish_Inr:
  assumes "android_publish D req r = Some (Inr res, r1)"
  obtains c flow p ra rb out lo where "parseCredentials D (pa_credentials (pr_account req)) = Inr c"
    "selectFlow c (pr_flowType req) = Inr flow" "createProvider D c (pa_proxy (pr_account req)) = Inr p" "grown r ra"
    "publish_try D req c flow p (remote_path c req) ra = Some (Inr (out, lo), rb)"
    "finallyE (case out of Inr res \<Rightarrow> ret res
        | Inl e \<Rightarrow> thenE (recordFailure D e (lo_session lo) (pr_jobId req)) (throwE (classify e)))
      (cleanup D (remote_path c req) lo) rb = Some (Inr res, r1)"
proof -
  have q: "quiet (case pr_video req of Some v \<Rightarrow> assertMediaIsStaged D v | None \<Rightarrow> ret ())"
    by (auto split: option.splits intro!: emits_intros)
  show thesis
    using assms unfolding android_publish_def Let_def
    apply (elim bindE_Inr)
    apply (simp only: eff_simps)
    apply (elim conjE)
    subgoal premises prems for c r0 flow r2 u r3 p r4 v r5 y r6
    proof -
      have "grown r r3" using prems(1) prems(7-) emitsD [OF q, of r] by (auto simp: grown_def since_def)
      moreover have "grown r4 r5" using prems by (auto dest: logE_grown)
      ultimately have "grown r r5" using prems by (auto intro: grown_trans)
      with prems show thesis by (cases y) (auto intro!: that)
    qed
    done
qed



subsection \<open>A successful onboarding\<close>

lemma verify_Inr:
  assumes "verify D vf ses jobId r = Some (Inr res, r1)" and "or_outcome res = Verified"
  shows "\<exists>evs tms. since r r1 evs \<and> flow_shown (Steps vf) ses [(''jobId'', jobId)] tms evs"
proof -
  from assms obtain result ev ra rb u where
    run: "runUiFlow (ad_env D) ses vf [(''jobId'', jobId)] r = Some (Inr result, ra)"
    and cap: "captureEvidence (ad_env D) ses jobId ''onboarding-verified'' ra = Some (Inr ev, rb)"
    and log: "logE (ad_env D) INFO ''Session verified''
          (Some (JsObj [(''executed'', names_js (fr_executed result)),
                        (''capturedText'', opt_str (fr_capturedText result)),
                        (''screenshotKey'', opt_str (evi_screenshotKey ev))])) rb = Some (Inr u, r1)"
    unfolding verify_def by (auto elim!: catchE_Inr bindE_Inr)
  have "run_selected D ses (Steps vf) [(''jobId'', jobId)] r = Some (Inr result, ra)"
    using run by (simp add: run_selected_def)
  from run_selected_shown [OF this] obtain e1 where e1: "since r ra e1"
    "flow_shown (Steps vf) ses [(''jobId'', jobId)] (fr_timings result) e1" by blast
  obtain e2 where e2: "since ra r1 e2"
    using grown_trans [OF quiet_grown [OF quiet_captureEvidence cap] logE_grown [OF log]] by (auto simp: grown_def)
  have "flow_shown (Steps vf) ses [(''jobId'', jobId)] (fr_timings result) (e1 @ e2)"
    using e1(2) by (rule flow_shown_mono) simp
  with since_trans [OF e1(1) e2] show ?thesis by blast
qed

lemma handed_over: "hand_over req ep r = Some (Inr u, r1) \<Longrightarrow> since r r1 [EvHandOver ep]"
  by (auto simp: hand_over_def invoke_def since_def split: prod.splits)

lemma human_answered: "await_human req r = Some (Inr h, r1) \<Longrightarrow> since r r1 [EvHuman (Some h)]"
  by (auto simp: await_human_def since_def split: option.splits prod.splits)

text \<open>The events of a verified onboarding: the device, the hand-over, the operator, the check.\<close>

definition onboarding_done ::
  "'s android_deps \<Rightarrow> 's onboarding_request \<Rightarrow> android_credentials \<Rightarrow> ui_step list \<Rightarrow> event list \<Rightarrow> bool" where
  "onboarding_done D req c vf evs \<longleftrightarrow>
     (\<exists>e1 ep e2 ct e3 ses tms.
        evs = e1 @ [EvHandOver ep] @ e2 @ [EvHuman (Some (Confirmed ct))] @ e3
        \<and> EvAcquire True \<in> set e1 \<and> ep_viewerUrl ep = viewerUrlFor D (ep_serial ep)
        \<and> flow_shown (Steps vf) ses [(''jobId'', oq_jobId req)] tms e3)"

lemma onboard_try_Inr:
  assumes "device_provider E (dp_acquire p)" and "onboard_try D req c vf p r = Some (Inr (Inr res, lo), r1)"
    and "or_outcome res = Verified"
  shows "\<exists>evs. since r r1 evs \<and> onboarding_done D req c vf evs"
proof -
  from assms(2) obtain a ra outcome rc where
    acq: "acquire p c (pa_id (oq_account req)) (oq_jobId req) False r = Some (Inr a, ra)"
    and wait: "thenE (show_app D c (aq_device a))
            (bindE (describe D (aq_egressIp a)) (\<lambda>address.
             thenE (hand_over req (endpoint_of D c a address))
             (thenE (whenE (opt_truthy (aq_egressIp a))
                (logE (ad_env D) INFO ''Device egress address''
                  (Some (JsObj [(''egressIp'', opt_str (aq_egressIp a)),
                     (''location'', case fst address of Some l \<Rightarrow> JsStr l | None \<Rightarrow> JsNull),
                     (''kind'', case snd address of Some k \<Rightarrow> JsStr (address_kind_text k) | None \<Rightarrow> JsNull)]))))
               (await_human req)))) ra = Some (Inr outcome, rc)"
    and rest: "(case outcome of
           HumanCancelled reason \<Rightarrow>
             tryL (logE (ad_env D) WARN ''Onboarding cancelled while waiting for the operator''
                    (Some (JsObj [(''reason'', JsStr reason)]))) (no_locals\<lparr>lo_acquired := Some a\<rparr>)
               (\<lambda>_. ret (Inr \<lparr>or_outcome = Cancelled, or_details = Some reason\<rparr>, no_locals\<lparr>lo_acquired := Some a\<rparr>))
         | HumanExpired reason \<Rightarrow>
             tryL (logE (ad_env D) WARN ''Onboarding abandoned'' (Some (JsObj [(''reason'', JsStr reason)])))
               (no_locals\<lparr>lo_acquired := Some a\<rparr>)
               (\<lambda>_. ret (Inr \<lparr>or_outcome = Abandoned, or_details = Some reason\<rparr>, no_locals\<lparr>lo_acquired := Some a\<rparr>))
         | Confirmed confirmedAt \<Rightarrow>
             tryL (thenE (logE (ad_env D) INFO ''Operator confirmed, verifying the session''
                            (Some (JsObj [(''confirmedAt'', JsStr (toISOString confirmedAt))])))
                     (startSession D c (aq_serial a))) (no_locals\<lparr>lo_acquired := Some a\<rparr>) (\<lambda>ses.
             tryL (verify D vf ses (oq_jobId req)) (no_locals\<lparr>lo_acquired := Some a, lo_session := Some ses\<rparr>)
               (\<lambda>res. ret (Inr res, no_locals\<lparr>lo_acquired := Some a, lo_session := Some ses\<rparr>)))) rc
        = Some (Inr (Inr res, lo), r1)"
    unfolding onboard_try_def Let_def by (elim tryL_Inr)
  obtain ct where ct: "outcome = Confirmed ct" using rest assms(3) by (cases outcome) (auto elim!: tryL_Inr)
  from rest [unfolded ct human_outcome.case] obtain ses rd u re where
    ses: "logE (ad_env D) INFO ''Operator confirmed, verifying the session''
        (Some (JsObj [(''confirmedAt'', JsStr (toISOString ct))])) rc = Some (Inr u, rd)"
      "startSession D c (aq_serial a) rd = Some (Inr ses, re)"
    and ver: "verify D vf ses (oq_jobId req) re = Some (Inr res, r1)"
    by (elim tryL_Inr bindE_Inr) auto
  from wait obtain address v x y z rf rg rh ri where
    pre: "show_app D c (aq_device a) ra = Some (Inr v, rf)" "describe D (aq_egressIp a) rf = Some (Inr address, rg)"
    and hand: "hand_over req (endpoint_of D c a address) rg = Some (Inr x, rh)"
    and log: "whenE (opt_truthy (aq_egressIp a))
                (logE (ad_env D) INFO ''Device egress address''
                  (Some (JsObj [(''egressIp'', opt_str (aq_egressIp a)),
                     (''location'', case fst address of Some l \<Rightarrow> JsStr l | None \<Rightarrow> JsNull),
                     (''kind'', case snd address of Some k \<Rightarrow> JsStr (address_kind_text k) | None \<Rightarrow> JsNull)]))) rh
           = Some (Inr y, ri)"
    and human: "await_human req ri = Some (Inr outcome, rc)"
    by (elim bindE_Inr)
  obtain e0 where e0: "since r ra e0" "EvAcquire True \<in> set e0"
    using acquire_happened [OF acq assms(1)] by (auto simp: happened_iff)
  have snd: "sound E a" by (rule yieldsD [OF acquire_sound [OF assms(1)] acq])
  obtain e1 where e1: "since ra rg e1"
    using grown_trans [OF quiet_grown [OF quiet_device_parts(4) [OF snd] pre(1)] quiet_grown [OF quiet_parts2(5) pre(2)]]
    by (auto simp: grown_def)
  have "grown rh ri" using log by (auto simp: whenE_def intro: logE_grown grown_refl split: if_splits)
  then obtain e2 where e2: "since rh ri e2" by (auto simp: grown_def)
  obtain e3 where e3: "since rc re e3"
    using grown_trans [OF logE_grown [OF ses(1)] quiet_grown [OF quiet_parts(2) ses(2)]] by (auto simp: grown_def)
  obtain e4 tms where e4: "since re r1 e4" "flow_shown (Steps vf) ses [(''jobId'', oq_jobId req)] tms e4"
    using verify_Inr [OF ver assms(3)] by blast
  let ?ep = "endpoint_of D c a address"
  let ?evs = "(e0 @ e1) @ [EvHandOver ?ep] @ e2 @ [EvHuman (Some (Confirmed ct))] @ (e3 @ e4)"
  have "since r r1 ?evs"
    using e0 e1 e2 e3 e4 handed_over [OF hand] human_answered [OF human] ct by (simp add: since_def)
  moreover have "flow_shown (Steps vf) ses [(''jobId'', oq_jobId req)] tms (e3 @ e4)"
    using e4(2) by (rule flow_shown_mono) auto
  then have "onboarding_done D req c vf ?evs"
    unfolding onboarding_done_def using e0
    by (intro exI [of _ "e0 @ e1"] exI [of _ ?ep] exI [of _ e2] exI [of _ ct] exI [of _ "e3 @ e4"] exI [of _ ses]
        exI [of _ tms]) (simp add: endpoint_of_def Let_def)
  ultimately show ?thesis by blast
qed

lemma onboarding_done_extend: "onboarding_done D req c vf evs \<Longrightarrow> onboarding_done D req c vf (a @ evs @ b)"
  unfolding onboarding_done_def
  apply (elim exE conjE)
  subgoal for e1 ep e2 ct e3 ses tms
    by (intro exI [of _ "a @ e1"] exI [of _ ep] exI [of _ e2] exI [of _ ct] exI [of _ "e3 @ b"] exI [of _ ses]
        exI [of _ tms]) (auto intro: flow_shown_mono)
  done

text \<open>
  C30. An account is reported logged in only when it was seen to be: a device was acquired and handed
  to the operator, the operator confirmed after that, and after the confirmation the verification
  flow of the credentials ran to its end, each of its steps with Appium's answers behind it.
\<close>

theorem verified_after_the_operator:
  assumes "providers_ok D" and "android_onboard D req r = Some (Inr res, r1)" and "or_outcome res = Verified"
  shows "\<exists>c vf evs. parseCredentials D (pa_credentials (oq_account req)) = Inr c \<and> ac_verifyFlow c = Some vf
    \<and> ru_trace r1 = ru_trace r @ evs \<and> onboarding_done D req c vf evs"
proof -
  from assms(2) obtain c vf p d u ra y rb where
    c: "parseCredentials D (pa_credentials (oq_account req)) = Inr c" "ac_verifyFlow c = Some vf"
    and p: "createProvider D c (pa_proxy (oq_account req)) = Inr p"
    and log: "logE (ad_env D) INFO ''Starting interactive onboarding'' d r = Some (Inr u, ra)"
    and block: "onboard_try D req c vf p ra = Some (Inr y, rb)"
    and ending: "(case y of (out, lo) \<Rightarrow> finallyE (case out of Inr res \<Rightarrow> ret res
        | Inl e \<Rightarrow> thenE (recordFailure D e (lo_session lo) (oq_jobId req)) (throwE (classify e)))
        (cleanup D None lo)) rb = Some (Inr res, r1)"
    unfolding android_onboard_def
    by (elim bindE_Inr) (auto elim!: bindE_Inr split: option.splits)
  obtain out lo where y: "y = (out, lo)" by (cases y)
  from ending_Inr [OF ending [unfolded y prod.case]] obtain v where out: "out = Inr res"
    and fin: "cleanup D None lo rb = Some (v, r1)" by blast
  from onboard_try_Inr [OF createProvider_ok [OF assms(1) p] block [unfolded y out] assms(3)] obtain evs where
    evs: "since ra rb evs" "onboarding_done D req c vf evs" by blast
  have sl: "sound_locals (ad_env D) lo"
    by (rule block_sound [OF onboard_try_marks [OF createProvider_ok [OF assms(1) p]] block [unfolded y]])
  from logE_grown [OF log] cleanup_grown [OF sl fin] obtain e0 e1 where "since r ra e0" "since rb r1 e1"
    by (auto simp: grown_def)
  with evs(1) have "ru_trace r1 = ru_trace r @ (e0 @ evs @ e1)" by (simp add: since_def)
  with c onboarding_done_extend [OF evs(2)] show ?thesis by blast
qed

end
