(* ===== verification/Android_Rules.thy ===== *)
theory Android_Rules
  imports Android_Success
begin

text \<open>
  Rules of the Android driver besides the course of a run: the contract of a publisher, which the
  worker relies on; the devices an account with a proxy may run on; the paths media is staged
  under; the flow names an account answers to. At the end, runs of the driver on a small world
  show that the conditions of its properties can hold.
\<close>

subsection \<open>The publisher's contract\<close>

abbreviation named_capture :: "ui_flow_result \<Rightarrow> bool" where
  "named_capture acc \<equiv> fr_capturedText acc \<noteq> Some []"

lemma yields_record_step: "named_capture acc \<Longrightarrow> yields named_capture (record_step E st step sk acc)"
  by (auto simp: record_step_def intro!: yields_intros)

lemma act_captures: "yields (\<lambda>c. c \<noteq> Some (Some [])) (act E ses ctx i n step el)"
  by (cases step) (auto simp: act_def Let_def split: if_splits intro!: yields_intros)

lemma yields_on_element:
  assumes "named_capture acc"
  shows "yields named_capture (on_element E ses ctx i n step st loc acc)"
proof -
  have "yields named_capture (bindE (catchE (act E ses ctx i n step el) (\<lambda>cause. throwE (h cause)))
      (\<lambda>captured. record_step E st step False (case captured of None \<Rightarrow> acc | Some c \<Rightarrow> acc\<lparr>fr_capturedText := c\<rparr>)))"
    for el h
    by (rule yields_bind [OF yields_catch [OF act_captures]])
      (auto intro!: yields_intros yields_record_step assms split: option.splits)
  then show ?thesis
    unfolding on_element_def
    by (auto intro!: yields_then yields_record_step assms split: option.splits)
qed

lemma yields_run_step:
  assumes "named_capture acc"
  shows "yields named_capture (run_step E ses ctx i n step acc)"
  unfolding run_step_def
  by (auto simp: Let_def intro!: yields_intros yields_record_step yields_on_element assms split: ui_step.splits)

lemma yields_run_steps: "named_capture acc \<Longrightarrow> yields named_capture (run_steps E ses ctx i n steps acc)"
proof (induction steps arbitrary: i acc)
  case (Cons step steps)
  have "yields named_capture (bindE (run_step E ses ctx i n step acc)
      (\<lambda>acc'. run_steps E ses ctx (Suc i) n steps acc'))"
    by (rule yields_bind [OF yields_run_step [OF Cons.prems]]) (rule Cons.IH)
  then show ?case by simp
qed (simp add: yields_intros)

lemma yields_runUiFlow: "yields named_capture (runUiFlow E ses steps ctx)"
  unfolding runUiFlow_def
  by (rule yields_bind [OF yields_run_steps]) (auto simp: flow_start_def intro!: yields_intros)

lemma yields_run_selected: "yields named_capture (run_selected D ses steps ctx)"
  unfolding run_selected_def
  by (auto intro!: yields_intros yields_runUiFlow split: flow_steps.splits)

text \<open>The outcome of a run and the world after it, where runs end.\<close>

definition android_call ::
  "'s android_deps \<Rightarrow> publish_request \<Rightarrow> 's \<Rightarrow> (exn, publish_result) result \<times> 's" where
  "android_call D req s =
     (case the (android_publish D req \<lparr>ru_env = s, ru_trace = []\<rparr>) of (x, r) \<Rightarrow> (x, ru_env r))"

abbreviation named_post :: "publish_result \<Rightarrow> bool" where
  "named_post res \<equiv> res_externalPostId res \<noteq> []"

lemma publish_try_names: "yields (\<lambda>y. \<forall>res. fst y = Inr res \<longrightarrow> named_post res) (publish_try D req c flow p path)"
proof -
  have "yields named_post (succeed D result jobId ses)" if "named_capture result" for result jobId ses
    using that unfolding succeed_def by (auto intro!: yields_intros split: option.splits)
  then have "yields named_post (bindE (run_selected D ses steps ctx) (\<lambda>result. succeed D result jobId ses))"
    for steps ctx jobId ses
    by (rule yields_bind [OF yields_run_selected])
  then show ?thesis
    unfolding publish_try_def Let_def
    apply -
    apply (rule yields_tryL, simp)
    apply (rule yields_tryL, simp)
    apply (rule yields_tryL, simp)
    apply (rule yields_tryL_from [where Q = named_post])
      apply ((rule yields_then)+, rule yields_if, rule yields_ret(2))
      apply assumption
     apply (rule yields_ret(1), simp_all)
    done
qed

lemma android_publish_names:
  assumes "android_publish D req r = Some (Inr res, r1)"
  shows "named_post res"
  using assms
proof (rule android_publish_Inr)
  fix c flow p ra rb out lo
  assume block: "publish_try D req c flow p (remote_path c req) ra = Some (Inr (out, lo), rb)"
    and ending: "finallyE (case out of Inr res \<Rightarrow> ret res
        | Inl e \<Rightarrow> thenE (recordFailure D e (lo_session lo) (pr_jobId req)) (throwE (classify e)))
        (cleanup D (remote_path c req) lo) rb = Some (Inr res, r1)"
  from ending_Inr [OF ending] have "out = Inr res" by blast
  with yieldsD [OF publish_try_names block] show ?thesis by simp
qed

lemma android_contract:
  assumes "clock_laws (ad_env D)" and "providers_ok D"
  shows "publisher_contract (android_call D)"
proof
  fix req s res s' assume call: "android_call D req s = (Inr res, s')"
  obtain x r1 where "android_publish D req \<lparr>ru_env = s, ru_trace = []\<rparr> = Some (x, r1)"
    using android_publish_returns [OF assms] by blast
  moreover from this call have "x = Inr res" by (auto simp: android_call_def)
  ultimately show "res_externalPostId res \<noteq> []" using android_publish_names by blast
qed

subsection \<open>Where an account with a proxy may run\<close>

text \<open>
  C39. The traffic of an account with a proxy never leaves through a device the worker did not create:
  without a container in the credentials both kinds of run are refused before anything is touched,
  an onboarding for good, and so is a publish run once its flow and its media are in order.
\<close>

theorem proxy_needs_own_device:
  assumes "ad_createProvider D = None" and "parseCredentials D (pa_credentials (pr_account req)) = Inr c"
    and "ac_redroid c = None" and "ac_emulator c = None" and "pa_proxy (pr_account req) \<noteq> None"
    and "oq_account oreq = pr_account req"
  shows "(\<exists>e. android_publish D req r = Some (Inl e, r)
        \<and> (pr_video req = None \<longrightarrow> selectFlow c (pr_flowType req) = Inr flow \<longrightarrow>
             (\<exists>m. e = PublishError ''proxy_requires_ephemeral_device'' False None m)))
    \<and> (\<exists>code m. android_onboard D oreq r = Some (Inl (PublishError code False None m), r)
        \<and> (ac_verifyFlow c \<noteq> None \<longrightarrow> code = ''proxy_requires_ephemeral_device''))"
proof -
  obtain px where px: "pa_proxy (pr_account req) = Some px" using assms(5) by blast
  then obtain m where prov: "createProvider D c (Some px)
      = Inl (PublishError ''proxy_requires_ephemeral_device'' False None m)"
    using assms by (auto simp: createProvider_def defaultProvider_def permanent_def)
  have "\<exists>e. android_publish D req r = Some (Inl e, r)
        \<and> (pr_video req = None \<longrightarrow> selectFlow c (pr_flowType req) = Inr flow \<longrightarrow>
             e = PublishError ''proxy_requires_ephemeral_device'' False None m)"
    unfolding android_publish_def
    by (auto simp: assms(2) px prov liftE_def bindE_def assertMediaIsStaged_def readE_def ret_def throwE_def
        split: sum.splits option.splits)
  then have one: "\<exists>e. android_publish D req r = Some (Inl e, r)
        \<and> (pr_video req = None \<longrightarrow> selectFlow c (pr_flowType req) = Inr flow \<longrightarrow>
             (\<exists>m. e = PublishError ''proxy_requires_ephemeral_device'' False None m))" by auto
  have "\<exists>code m. android_onboard D oreq r = Some (Inl (PublishError code False None m), r)
        \<and> (ac_verifyFlow c \<noteq> None \<longrightarrow> code = ''proxy_requires_ephemeral_device'')"
    unfolding android_onboard_def
    by (auto simp: assms(2,6) px prov liftE_def bindE_def throwE_def no_verify_flow_def permanent_def
        split: option.splits)
  with one show ?thesis by (rule conjI)
qed

subsection \<open>Where media is staged\<close>

lemma replace_length:
  "pat \<noteq> [] \<Longrightarrow> \<exists>k n. \<forall>rep. length (js_replace_all pat rep s) = k + n * length rep"
proof (induction s rule: length_induct)
  case (1 s)
  show ?case
  proof (cases s)
    case (Cons c t)
    let ?u = "if js_starts_with (c # t) pat then drop (length pat) (c # t) else t"
    have "length ?u < length s" using Cons 1(2) by (cases pat) auto
    with 1 obtain k n where kn: "\<forall>rep. length (js_replace_all pat rep ?u) = k + n * length rep" by blast
    show ?thesis
    proof (cases "js_starts_with (c # t) pat")
      case True
      with kn Cons 1(2) have "\<forall>rep. length (js_replace_all pat rep s) = k + Suc n * length rep" by simp
      then show ?thesis by blast
    next
      case False
      with kn Cons have "\<forall>rep. length (js_replace_all pat rep s) = Suc k + n * length rep" by simp
      then show ?thesis by blast
    qed
  qed auto
qed

lemma replace_shorter: "pat \<noteq> [] \<Longrightarrow> length (drop (length pat) (c # t)) < length (c # t)"
  by (cases pat) auto

lemma replace_injective:
  assumes "pat \<noteq> []" and "js_includes s pat" and "js_replace_all pat a s = js_replace_all pat b s"
  shows "a = b"
  using assms(2,3)
proof (induction s)
  case (Cons c t)
  show ?case
  proof (cases "js_starts_with (c # t) pat")
    case True
    let ?u = "drop (length pat) (c # t)"
    from replace_length [OF assms(1), of ?u] obtain k n where
      len: "\<forall>rep. length (js_replace_all pat rep ?u) = k + n * length rep" by blast
    from Cons.prems(2) True assms(1) have eq: "a @ js_replace_all pat a ?u = b @ js_replace_all pat b ?u" by simp
    then have "length a + (k + n * length a) = length b + (k + n * length b)"
      using len by (metis length_append)
    then have "Suc n * length a = Suc n * length b" by simp
    then have "length a = length b" by (simp only: mult_cancel1) simp
    with eq show ?thesis by simp
  next
    case False
    with Cons show ?thesis by simp
  qed
qed (simp add: assms(1))

text \<open>
  Two jobs never stage their media under the same name, whatever path the account configures: a
  leftover of one run is never written over by the next.
\<close>

theorem uniqueRemotePath_injective:
  assumes "uniqueRemotePath configured j = uniqueRemotePath configured k"
  shows "j = k"
proof (cases "js_includes configured ''{jobId}''")
  case True
  with assms replace_injective [OF _ True] show ?thesis by (simp add: uniqueRemotePath_def)
next
  case False
  with assms show ?thesis by (auto simp: uniqueRemotePath_def Let_def split: if_splits)
qed

subsection \<open>The flows an account answers to\<close>

text \<open>
  A flow is looked up by a property access, so an account that configures named flows also answers
  to the names every object inherits. A job with the flow type \<open>toString\<close>, \<open>valueOf\<close> or
  \<open>__proto__\<close> is not refused as unknown: its flow has no step, and the flow succeeds at once,
  without asking Appium for anything.
\<close>

theorem inherited_flow_succeeds:
  assumes "ac_flows c = Some fs" and "map_of fs name = None"
    and "name \<in> {''toString'', ''toLocaleString'', ''valueOf'', ''__proto__''}"
  shows "\<exists>n. selectFlow c (Some name) = Inr (name, Inherited n)
    \<and> run_selected D ses (Inherited n) ctx r = Some (Inr flow_start, r)"
proof -
  have "\<not> isDefaultFlow (Some name)" using assms(3) by (auto simp: isDefaultFlow_def DEFAULT_FLOW_TYPE_def truthy_def)
  moreover obtain n where "map_of object_prototype name = Some n" "n = None \<or> n = Some 0"
    using assms(3) by (auto simp: object_prototype_def)
  ultimately have "selectFlow c (Some name) = Inr (name, Inherited n)" "n = None \<or> n = Some 0"
    using assms(1,2) by (auto simp: selectFlow_def flow_lookup_def Let_def)
  then show ?thesis
    by (intro exI [of _ n]) (auto simp: run_selected_def runUiFlow_def flow_start_def)
qed

end
