(* ===== verification/Android_World.thy ===== *)
theory Android_World
  imports Android_Rules Docker
begin

text \<open>
  A small world in which every command, request and step of the Android driver works, with an
  account, a video and a provider: the runs of the driver in it show that the conditions of its
  properties can hold.
\<close>

subsection \<open>The world\<close>


text \<open>A device on which every command works, and an account that drives it.\<close>

definition ex_target :: adb_target where
  "ex_target = \<lparr>tg_serial = Some ''s'', tg_host = None, tg_port = None\<rparr>"

definition ex_device :: "int device" where
  "ex_device = AdbDevice ex_env ''adb'' ex_target"

definition ex_attached :: attached_config where
  "ex_attached =
     \<lparr>at_adbCommand = ''adb'', at_deviceSerial = Some ''s'', at_adbHost = None, at_adbPort = None,
      at_bootTimeoutSeconds = 5\<rparr>"

definition ex_provider :: "attached_config \<Rightarrow> int provider" where
  "ex_provider cfg = attached_provider ex_env cfg"

definition ex_camera :: camera_vars where
  "ex_camera = \<lparr>cv_devicePool = ''10'', cv_number = (\<lambda>s. Some 10), cv_onboardingTimeoutMs = 60000,
     cv_ingestUrlTemplate = [], cv_controlApiUrl = ''http://m'', cv_publishTimeoutMs = 1000\<rparr>"

definition ex_deps :: "int android_deps" where
  "ex_deps =
     \<lparr>ad_env = ex_env, ad_is_url = (\<lambda>s. True), ad_issues = (\<lambda>v. []), ad_stat = (\<lambda>p s. Some 10),
      ad_viewerTemplate = [], ad_createProvider = None, ad_camera = ex_camera,
      ad_describe = (\<lambda>ip s. ((None, None), s))\<rparr>"

definition ex_creds :: js where
  "ex_creds = JsObj
     [(''appiumUrl'', JsStr ''http://h''), (''packageName'', JsStr ''com.app''),
      (''flow'', ex_flow_json), (''verifyFlow'', ex_flow_json)]"

definition ex_account :: publisher_account where
  "ex_account = \<lparr>pa_id = ''a1'', pa_name = ''u'', pa_platform = SPORT_REELS, pa_externalId = None,
     pa_credentials = Some ex_creds, pa_proxy = None\<rparr>"

definition ex_video :: publisher_video where
  "ex_video = \<lparr>pv_id = ''v1'', pv_localPath = ''/tmp/v'', pv_fileName = ''v.mp4'', pv_mimeType = ''video/mp4'',
     pv_sizeBytes = 10, pv_durationSeconds = None, pv_width = None, pv_height = None\<rparr>"

definition ex_request :: publish_request where
  "ex_request = \<lparr>pr_jobId = ''j1'', pr_caption = ''c'', pr_account = ex_account, pr_video = Some ex_video,
     pr_flowType = None, pr_aborted = False\<rparr>"

definition ex_onboarding :: "int onboarding_request" where
  "ex_onboarding = \<lparr>oq_jobId = ''j1'', oq_account = ex_account, oq_onDeviceReady = (\<lambda>ep s. (Inr (), s)),
     oq_awaitHuman = (\<lambda>s. Some (Inr (Confirmed 7), s + 1))\<rparr>"

lemma ex_providers_ok: "providers_ok ex_deps"
  by (simp add: providers_ok_def ex_deps_def ex_provider_def attached_provider_def attached.device_provider_axioms)

text \<open>Every part of a run succeeds in that world, from every state.\<close>

lemma small_fetch: "returns (\<lambda>v. v = ex_answer url) (appiumFetch ex_env url m b)"
  unfolding appiumFetch_def
  by (rule returns_bind [where Q = "\<lambda>out. out = FetchJson 200 ''OK'' (ex_answer url)"])
    (auto simp: ex_env_def http_ok_def intro!: returns_intros)

lemma small_fetched [returns_intros]: "returns (\<lambda>_. True) (appiumFetch ex_env url m b)"
  by (rule returns_mono [OF small_fetch]) simp

lemma small_value: "returns (\<lambda>v. v = js_get (ex_answer url) ''value'') (response_value (appiumFetch ex_env url m b))"
  unfolding response_value_def
  by (rule returns_bind [OF small_fetch], rule returns_liftE)
    (simp_all add: js_prop_def ex_answer_def js_nullish_def)

lemma small_valued [returns_intros]: "returns (\<lambda>_. True) (response_value (appiumFetch ex_env url m b))"
  by (rule returns_mono [OF small_value]) simp

lemma small_element: "returns (\<lambda>el. el = ''e1'') (findElement ex_env ses us v)"
proof -
  have url: "suffix ''/element'' (session_url ses ''/element'')" "\<not> suffix ''/session'' (session_url ses ''/element'')"
    by (auto simp: session_url_def suffix_to_prefix)
  have "extractElementId (js_get (ex_answer (session_url ses ''/element'')) ''value'') = Inr ''e1''"
    using url
    by (simp add: ex_answer_def js_get_def extractElementId_def js_object_def js_or_else_def ELEMENT_KEY_def js_nullish_def)
  then show ?thesis
    unfolding findElement_def by (intro returns_bind [OF small_value]) (auto intro: returns_liftE)
qed

lemma small_wait [returns_intros]: "returns (\<lambda>_. True) (waitForElement ex_env ses us v t)"
proof -
  have "\<exists>x r1. wait_element_loop ex_env ses us v t d n r = Some (Inr x, r1)" for d n r
    using returnsD [OF small_element, of ses us v r]
    by (auto simp: wait_element_loop.simps [of ex_env]) (simp add: ex_env_def)
  then show ?thesis
    unfolding waitForElement_def returns_def by (simp add: bindE_def nowE_def readE_def)
qed

lemma small_calls [returns_intros]:
  "returns (\<lambda>_. True) (clickElement ex_env ses el)" "returns (\<lambda>_. True) (getElementText ex_env ses el)"
  unfolding clickElement_def getElementText_def string_value_def
  by (intro returns_intros TrueI)+

lemma small_calm [returns_intros]: "returns (\<lambda>_. True) (abortedE ex_env)" "returns (\<lambda>b. \<not> b) (abortedE ex_env)"
  by (simp_all add: abortedE_def ex_env_def returns_intros)

lemma small_step:
  assumes "step \<in> set ex_steps"
  shows "returns (\<lambda>_. True) (run_step ex_env ses ctx i n step acc)"
proof -
  have loc: "returns (\<lambda>_. True) (locate ex_env ses i n step loc)" for loc
    unfolding locate_def by (intro returns_intros TrueI)
  have act: "returns (\<lambda>_. True) (act ex_env ses ctx i n step el)" for el
    using assms unfolding act_def ex_steps_def by (auto simp: Let_def intro!: returns_intros)
  have rec: "returns (\<lambda>_. True) (record_step ex_env st step sk a)" for st sk a
    unfolding record_step_def by (intro returns_intros TrueI)
  have on: "returns (\<lambda>_. True) (on_element ex_env ses ctx i n step st loc acc)" for st loc
    unfolding on_element_def
    by (auto intro!: returns_then loc returns_catch act rec split: option.splits)
  show ?thesis
    unfolding run_step_def
    apply (rule returns_then, rule returns_basic)
    apply (rule returns_bind [OF small_calm(2)])
    using assms on unfolding ex_steps_def
    by (auto simp: Let_def intro!: returns_then returns_basic)
qed

lemma small_flow [returns_intros]: "returns (\<lambda>_. True) (runUiFlow ex_env ses ex_steps ctx)"
proof -
  have "set steps \<subseteq> set ex_steps \<Longrightarrow> returns (\<lambda>_. True) (run_steps ex_env ses ctx i n steps acc)" for steps i n acc
  proof (induction steps arbitrary: i acc)
    case (Cons step steps)
    then show ?case by (auto intro!: returns_then small_step)
  qed (simp add: returns_intros)
  then show ?thesis unfolding runUiFlow_def by (intro returns_then returns_ret) auto
qed

lemma small_evidence [returns_intros]: "returns (\<lambda>_. True) (captureEvidence ex_env ses jobId label)"
  by (rule returns_calm [OF settles_captureEvidence captureEvidence_calm])

definition ex_outputs :: "string list" where
  "ex_outputs = [''77'', ''package:/data/app'', ''10'', ''true'', ''49153'', ''1'', ''stopped'', ''5.6.7.8'', []]"

definition answers :: "string \<Rightarrow> adb_result" where
  "answers out = \<lparr>ar_stdout = out, ar_stderr = [], ar_code = 0\<rparr>"

lemma answers_simps [simp]: "ar_stdout (answers out) = out" "ar_stderr (answers out) = []" "ar_code (answers out) = 0"
  by (simp_all add: answers_def)

lemma ex_exec_outputs: "\<exists>out \<in> set ex_outputs. ex_exec args = ExecOk out []"
  by (simp add: ex_exec_def ex_outputs_def Let_def)

lemma ex_outputs_1: "list_all (\<lambda>out. js_trim out = out) ex_outputs"
  by code_simp

lemma ex_outputs_2: "list_all (\<lambda>out. \<not> mentions [''error:'', ''failed to copy'', ''No space left'', ''Permission denied'',
    ''Read-only''] (js_trim (out @ lf @ []))) ex_outputs"
  by code_simp

lemma ex_outputs_3: "list_all (\<lambda>out. \<not> mentions [''No activities found'', ''Monkey aborted''] (out @ lf @ [])) ex_outputs"
  by code_simp

lemma ex_outputs_4: "list_all (\<lambda>out. \<not> list_ex (\<lambda>line. js_starts_with line ''Error:'') (regex_lines out)) ex_outputs"
  by code_simp

lemma ex_outputs_5: "list_all (\<lambda>out. \<not> mentions [''unable to connect'', ''failed to connect'', ''cannot connect''] out) ex_outputs"
  by code_simp

lemmas ex_output = ex_outputs_1 [unfolded list_all_iff, THEN bspec] ex_outputs_2 [unfolded list_all_iff, THEN bspec]
  ex_outputs_3 [unfolded list_all_iff, THEN bspec] ex_outputs_4 [unfolded list_all_iff, THEN bspec]
  ex_outputs_5 [unfolded list_all_iff, THEN bspec]

lemma ex_numbers: "js_parse_int ''10'' = Some 10" "js_includes ''package:/data/app'' ''package:''" "js_trim [] = []"
  by code_simp+

lemma small_adb:
  "returns (\<lambda>res. ExecOk (ar_stdout res) [] = ex_exec (buildAdbArgs target @ args) \<and> res = answers (ar_stdout res)
       \<and> ar_stdout res \<in> set ex_outputs)
     (execAdb ex_env cmd target args sig b)"
proof -
  obtain out where out: "ex_exec (buildAdbArgs target @ args) = ExecOk out []" "out \<in> set ex_outputs"
    using ex_exec_outputs by blast
  then show ?thesis
    unfolding execAdb_def Let_def
    by (intro returns_bind [where Q = "\<lambda>x. x = ExecOk out []"])
      (auto simp: execE_def ex_env_def ex_output(1) ex_numbers(3) answers_def intro!: returns_intros)
qed

lemma small_probe:
  "returns (\<lambda>res. ExecOk (ar_stdout res) [] = ex_exec (buildAdbArgs (Some target) @ ''shell'' # args) \<and> res = answers (ar_stdout res)
       \<and> ar_stdout res \<in> set ex_outputs)
     (adbShellProbe ex_env cmd target args sig)"
  unfolding adbShellProbe_def by (rule small_adb)

lemma small_any_probe [returns_intros]: "returns (\<lambda>_. True) (adbShellProbe ex_env cmd target args sig)"
  by (rule returns_mono [OF small_probe]) simp

lemma small_any_shell: "returns (\<lambda>out. out \<in> set ex_outputs) (adbShell ex_env cmd target args)"
  unfolding adbShell_def by (rule returns_bind [OF small_adb]) (simp add: returns_intros)

lemma small_start: "returns (\<lambda>_. True) (adbStartActivity ex_env cmd target c)"
  unfolding adbStartActivity_def
  by (rule returns_bind [OF small_any_shell]) (simp add: ex_output(4) returns_intros)

lemma small_launch: "returns (\<lambda>_. True) (adbLaunchPackage ex_env cmd target pkg)"
  unfolding adbLaunchPackage_def
  apply (rule returns_bind [OF small_probe])
  apply (simp only: prod.case)
  apply (rule returns_if [OF small_start])
  apply (rule returns_bind [OF small_probe])
  subgoal for resolved monkey
    using ex_output(3) [of "ar_stdout monkey"]
    by (cases monkey) (simp add: answers_def Let_def returns_intros)
  done

lemma small_push: "returns (\<lambda>_. True) (adbPushFile ex_env cmd target l q)"
  unfolding adbPushFile_def
  apply (rule returns_bind [OF small_adb])
  subgoal for res
    using ex_output(2) [of "ar_stdout res"] by (cases res) (simp add: answers_def Let_def returns_intros)
  done

lemma small_reads:
  "returns (\<lambda>n. n = Some 10) (adbFileSize ex_env cmd target q)"
  "returns (\<lambda>b. b) (adbIsPackageInstalled ex_env cmd target pkg)"
  "returns (\<lambda>b. b) (adbIsAppRunning ex_env cmd target pkg)"
  "returns (\<lambda>b. b) (adbIsBootCompleted ex_env cmd target)"
  "returns (\<lambda>b. b) (adbIsBootAnimationDone ex_env cmd target)"
  unfolding adbFileSize_def adbIsPackageInstalled_def adbIsAppRunning_def adbIsBootCompleted_def adbIsBootAnimationDone_def
  by (rule returns_bind [OF small_probe], rule returns_ret,
      auto simp: ex_exec_def Let_def ex_numbers ex_output(1) js_starts_with_def dest: arg_cong [where f = ar_code])+

lemma small_boot: "0 < t \<Longrightarrow> returns (\<lambda>_. True) (waitForBoot ex_env cmd target t)"
  unfolding waitForBoot_def Let_def
  apply (rule returns_deadline_loop, assumption)
  apply (rule returns_bind [OF small_calm(2)], simp only: if_False not_False_eq_True)
  apply (rule returns_bind [where Q = fst])
   apply (rule returns_catch)
   apply (rule returns_bind [OF small_reads(4)], simp only: if_True)
   apply (rule returns_bind [OF small_reads(5)])
   apply (auto intro!: returns_ret)
  done

lemma small_push_media: "returns (\<lambda>n. n = Some 10) (pushMedia ex_env cmd target l q)"
proof -
  have "returns (\<lambda>_. True) (waitUntilWritable ex_env cmd target dir t)" for dir t
    unfolding waitUntilWritable_def Let_def
    apply (rule returns_then [OF returns_basic(3)], rule returns_loop_once)
    apply (rule returns_bind [OF small_calm(2)], simp only: if_False not_False_eq_True)
    apply (rule returns_bind [OF small_probe])
    subgoal for start aborted res
      by (cases res) (auto simp: answers_def intro!: returns_then returns_ret returns_ignore settles_intros)
    done
  moreover have "returns (\<lambda>_. True) (adbMkdir ex_env cmd target dir)" for dir
    unfolding adbMkdir_def by (intro returns_then [OF returns_mono [OF small_any_shell TrueI]] returns_ret TrueI)
  ultimately show ?thesis
    unfolding pushMedia_def Let_def
    by (intro returns_then [OF _ small_reads(1)] returns_then small_push returns_ignore settles_intros small_reads(1))
qed

lemma small_installed: "returns (\<lambda>b. b) (isPackageInstalled (AdbDevice ex_env cmd target) pkg)"
  unfolding isPackageInstalled_def AdbDevice_def by (simp add: returns_note small_reads)

lemma small_acquire:
  assumes "0 < at_bootTimeoutSeconds cfg"
  shows "returns (\<lambda>a. \<exists>t. aq_device a = AdbDevice ex_env (at_adbCommand cfg) t) (acquire (ex_provider cfg) c i j q)"
proof -
  have "returns (\<lambda>_. True) (waitUntilReady (AdbDevice ex_env cmd t) (at_bootTimeoutSeconds cfg * 1000))" for cmd t
    unfolding waitUntilReady_def AdbDevice_def using assms by (simp add: returns_note small_boot)
  then show ?thesis
    unfolding acquire_def ex_provider_def attached_provider_def attached_acquire_def ensurePackageInstalled_def Let_def
    by (auto intro!: returns_intros returns_bind [OF small_installed])
qed

lemma small_device:
  "returns (\<lambda>_. True) (launch (AdbDevice ex_env cmd t) c)" "returns (\<lambda>b. b) (isAppRunning (AdbDevice ex_env cmd t) c)"
  "returns (\<lambda>_. True) (settle ex_deps c)" "returns (\<lambda>_. True) (stageMedia ex_deps (AdbDevice ex_env cmd t) q l 10)"
  unfolding launch_def isAppRunning_def settle_def stageMedia_def
  by (auto simp: AdbDevice_def ex_deps_def
      intro!: returns_intros returns_bind [where Q = "\<lambda>m. m = Some 10"] small_start small_launch small_reads small_push_media
        returns_mono [OF small_any_shell])

lemma small_session: "returns (\<lambda>_. True) (startSession ex_deps c serial)"
proof -
  have "js_prop ''value'' (ex_answer (a @ ''/session'')) = Inr (JsObj [(''sessionId'', JsStr ''s1'')])" for a
    by (simp add: ex_answer_def js_prop_def js_get_def js_nullish_def suffix_def)
  then have "returns (\<lambda>_. True) (createAppiumSession ex_env url caps)" for url caps
    unfolding createAppiumSession_def Let_def
    by (intro returns_bind [OF small_fetch]
        returns_bind [where Q = "\<lambda>v. v = JsObj [(''sessionId'', JsStr ''s1'')]"])
      (auto simp: js_falsy_def js_nullish_def js_get_def intro!: returns_ret returns_liftE)
  then show ?thesis by (simp add: startSession_def ex_deps_def)
qed

lemma ex_creds_parsed:
  "\<exists>c. parseCredentials ex_deps (Some ex_creds) = Inr c \<and> ac_redroid c = None \<and> ac_emulator c = None
     \<and> 0 < ac_bootTimeoutSeconds c
     \<and> ac_flow c = ex_steps \<and> ac_verifyFlow c = Some ex_steps \<and> ac_remoteVideoPath c = ''/sdcard/DCIM/upload.mp4''
     \<and> selectFlow c None = Inr (DEFAULT_FLOW_TYPE, Steps ex_steps)"
proof -
  have "(case parseCredentials ex_deps (Some ex_creds) of
      Inr c \<Rightarrow> ac_redroid c = None \<and> ac_emulator c = None \<and> 0 < ac_bootTimeoutSeconds c \<and> ac_flow c = ex_steps \<and> ac_verifyFlow c = Some ex_steps
        \<and> ac_remoteVideoPath c = ''/sdcard/DCIM/upload.mp4''
        \<and> selectFlow c None = Inr (DEFAULT_FLOW_TYPE, Steps ex_steps) | _ \<Rightarrow> False)" by code_simp
  then show ?thesis by (auto split: sum.splits)
qed

lemma small_publish_try:
  assumes "0 < at_bootTimeoutSeconds cfg"
  shows "returns (\<lambda>y. \<exists>res. fst y = Inr res)
     (publish_try ex_deps ex_request c (name, Steps ex_steps) (ex_provider cfg) (Some path))"
proof -
  have env: "ad_env ex_deps = ex_env" and video: "pr_video ex_request = Some ex_video" "pv_sizeBytes ex_video = 10"
    by (simp_all add: ex_deps_def ex_request_def ex_video_def)
  have flow: "returns (\<lambda>_. True) (bindE (run_selected ex_deps ses (Steps ex_steps) ctx) (\<lambda>result. succeed ex_deps result j ses))"
    for ses ctx j
    unfolding run_selected_def succeed_def env flow_steps.case by (intro returns_intros TrueI)
  show ?thesis
    unfolding publish_try_def Let_def env video option.case prod.case snd_conv
    apply (rule returns_tryL [OF small_acquire [OF assms]], erule exE)
    apply (simp only:)
    apply (rule returns_tryL [OF returns_then])
      apply (rule small_device)
     apply (rule returns_ret, rule TrueI)
    apply (rule returns_tryL [OF small_session])
    apply (rule returns_tryL [where Q = "\<lambda>_. True"])
     apply (rule returns_then [OF returns_basic(1)], rule returns_then [OF small_device(1)],
       rule returns_then [OF small_device(3)], rule returns_bind [OF small_device(2)])
     apply (simp only: not_True_eq_False if_False flow)
    apply (simp add: returns_ret)
    done
qed

lemma small_onboard_try:
  assumes "0 < at_bootTimeoutSeconds cfg"
  shows "returns (\<lambda>y. \<exists>res. fst y = Inr res \<and> or_outcome res = Verified)
     (onboard_try ex_deps ex_onboarding c ex_steps (ex_provider cfg))"
proof -
  have env: "ad_env ex_deps = ex_env" and req: "oq_jobId ex_onboarding = ''j1''"
    by (simp_all add: ex_deps_def ex_onboarding_def)
  have show_app: "returns (\<lambda>_. True) (show_app ex_deps c (AdbDevice ex_env cmd t))" for cmd t
    unfolding show_app_def env
    by (intro returns_catch returns_then [OF small_device(1)] returns_then [OF small_device(3)]
        returns_bind [OF small_device(2)]) (simp add: returns_ret)
  have desc: "returns (\<lambda>_. True) (describe ex_deps ip)" for ip
    by (auto simp: describe_def ex_deps_def intro!: returns_intros)
  have hand: "returns (\<lambda>_. True) (hand_over ex_onboarding ep)" for ep
    by (auto simp: hand_over_def ex_onboarding_def intro!: returns_intros)
  have human: "returns (\<lambda>h. h = Confirmed 7) (await_human ex_onboarding)"
    by (simp add: returns_def await_human_def ex_onboarding_def)
  have ver: "returns (\<lambda>res. or_outcome res = Verified) (verify ex_deps ex_steps ses j)" for ses j
    unfolding verify_def env
    by (intro returns_catch returns_then [OF small_flow] returns_then [OF small_evidence]
        returns_then [OF returns_basic(1)] returns_ret) simp
  show ?thesis
    unfolding onboard_try_def Let_def env req
    apply (rule returns_tryL [OF small_acquire [OF assms]], erule exE)
    apply (simp only:)
    apply (rule returns_tryL [where Q = "\<lambda>h. h = Confirmed 7"])
     apply (rule returns_then [OF show_app], rule returns_then [OF desc], rule returns_then [OF hand],
       rule returns_then [OF returns_when [OF returns_basic(1) TrueI]], rule human)
    apply (simp only: human_outcome.case)
    apply (rule returns_tryL [OF returns_then [OF returns_basic(1) small_session]])
    apply (rule returns_tryL [OF ver])
    apply (auto intro!: returns_ret)
    done
qed

lemma small_cleanup: "sound_locals E lo \<Longrightarrow> returns (\<lambda>_. True) (cleanup D path lo)"
  unfolding cleanup_def release_def sound_locals_def sound_def
  by (auto split: option.splits bool.splits intro!: returns_intros settles_intros android_device.remove_settles)

lemma small_blocks:
  assumes "0 < at_bootTimeoutSeconds cfg"
  shows "returns (\<lambda>y. (\<exists>res. fst y = Inr res) \<and> sound_locals ex_env (snd y))
      (publish_try ex_deps ex_request c (name, Steps ex_steps) (ex_provider cfg) (Some path))"
    "returns (\<lambda>y. (\<exists>res. fst y = Inr res \<and> or_outcome res = Verified) \<and> sound_locals ex_env (snd y))
      (onboard_try ex_deps ex_onboarding c ex_steps (ex_provider cfg))"
proof -
  have "device_provider ex_env (dp_acquire (ex_provider cfg))"
    by (simp add: ex_provider_def attached_provider_def attached.device_provider_axioms)
  from publish_try_marks [OF this] onboard_try_marks [OF this]
  have "yields (\<lambda>y. sound_locals ex_env (snd y)) (publish_try ex_deps ex_request c (name, Steps ex_steps) (ex_provider cfg) (Some path))"
    "yields (\<lambda>y. sound_locals ex_env (snd y)) (onboard_try ex_deps ex_onboarding c ex_steps (ex_provider cfg))"
    unfolding yields_def locals_marked_def by (fastforce dest: markedD)+
  with small_publish_try [OF assms] small_onboard_try [OF assms] show
    "returns (\<lambda>y. (\<exists>res. fst y = Inr res) \<and> sound_locals ex_env (snd y))
      (publish_try ex_deps ex_request c (name, Steps ex_steps) (ex_provider cfg) (Some path))"
    "returns (\<lambda>y. (\<exists>res. fst y = Inr res \<and> or_outcome res = Verified) \<and> sound_locals ex_env (snd y))
      (onboard_try ex_deps ex_onboarding c ex_steps (ex_provider cfg))"
    by (auto intro: returns_yields)
qed

lemma ex_published: "\<exists>res r1. android_publish ex_deps ex_request run0 = Some (Inr res, r1)"
proof -
  obtain c where c: "parseCredentials ex_deps (pa_credentials (pr_account ex_request)) = Inr c"
    "ac_redroid c = None" "ac_emulator c = None" "0 < ac_bootTimeoutSeconds c" "selectFlow c (pr_flowType ex_request) = Inr (DEFAULT_FLOW_TYPE, Steps ex_steps)"
    using ex_creds_parsed by (auto simp: ex_request_def ex_account_def)
  obtain cfg where b: "0 < at_bootTimeoutSeconds cfg" and p: "createProvider ex_deps c (pa_proxy (pr_account ex_request)) = Inr (ex_provider cfg)"
    by (rule that [of "\<lparr>at_adbCommand = ac_adbCommand c, at_deviceSerial = ac_deviceSerial c, at_adbHost = ac_adbHost c,
          at_adbPort = ac_adbPort c, at_bootTimeoutSeconds = ac_bootTimeoutSeconds c\<rparr>"])
      (use c in \<open>simp_all add: ex_deps_def ex_request_def ex_onboarding_def ex_account_def createProvider_def
        defaultProvider_def ex_provider_def\<close>)
  have m: "returns (\<lambda>_. True) (case pr_video ex_request of Some v \<Rightarrow> assertMediaIsStaged ex_deps v | None \<Rightarrow> ret ())"
    unfolding assertMediaIsStaged_def ex_request_def
    by (simp, rule returns_bind [where Q = "\<lambda>x. x = Some 10"])
      (simp_all add: ex_video_def ex_deps_def returns_intros)
  have v: "pr_video ex_request = Some ex_video" by (simp add: ex_request_def)
  have "returns (\<lambda>_. True) (android_publish ex_deps ex_request)"
    unfolding android_publish_def Let_def c p
    apply (rule returns_bind [OF returns_liftE [OF refl], where Q = "\<lambda>x. x = c"], rule refl)
    apply (simp only: c)
    apply (rule returns_bind [OF returns_liftE [OF refl], where Q = "\<lambda>x. x = (DEFAULT_FLOW_TYPE, Steps ex_steps)"], rule refl)
    apply (rule returns_then [OF m])
    apply (simp only: p)
    apply (rule returns_bind [OF returns_liftE [OF refl], where Q = "\<lambda>x. x = ex_provider cfg"], rule refl)
    apply (rule returns_then [OF returns_basic(1)])
    apply (simp only: v option.case)
    apply (rule returns_bind [OF small_blocks(1) [OF b]])
    apply (auto intro!: returns_finally small_cleanup returns_ret)
    done
  then show ?thesis using returnsD by blast
qed

lemma ex_onboarded:
  "\<exists>res r1. android_onboard ex_deps ex_onboarding run0 = Some (Inr res, r1) \<and> or_outcome res = Verified"
proof -
  obtain c where c: "parseCredentials ex_deps (pa_credentials (oq_account ex_onboarding)) = Inr c"
    "ac_redroid c = None" "ac_emulator c = None" "0 < ac_bootTimeoutSeconds c" "ac_verifyFlow c = Some ex_steps"
    using ex_creds_parsed by (auto simp: ex_onboarding_def ex_account_def)
  obtain cfg where b: "0 < at_bootTimeoutSeconds cfg" and p: "createProvider ex_deps c (pa_proxy (oq_account ex_onboarding)) = Inr (ex_provider cfg)"
    by (rule that [of "\<lparr>at_adbCommand = ac_adbCommand c, at_deviceSerial = ac_deviceSerial c, at_adbHost = ac_adbHost c,
          at_adbPort = ac_adbPort c, at_bootTimeoutSeconds = ac_bootTimeoutSeconds c\<rparr>"])
      (use c in \<open>simp_all add: ex_deps_def ex_request_def ex_onboarding_def ex_account_def createProvider_def
        defaultProvider_def ex_provider_def\<close>)
  have "returns (\<lambda>res. or_outcome res = Verified) (android_onboard ex_deps ex_onboarding)"
    unfolding android_onboard_def c
    apply (rule returns_bind [OF returns_liftE [OF refl], where Q = "\<lambda>x. x = c"], rule refl)
    apply (simp only: c option.case p)
    apply (rule returns_bind [OF returns_liftE [OF refl], where Q = "\<lambda>x. x = ex_provider cfg"], rule refl)
    apply (rule returns_then [OF returns_basic(1)])
    apply (simp only:)
    apply (rule returns_bind [OF small_blocks(2) [OF b]])
    apply (auto intro!: returns_finally small_cleanup returns_ret)
    done
  then show ?thesis using returnsD by blast
qed


theorem android_publish_returns_witness: "\<exists>out r1. android_publish ex_deps ex_request run0 = Some (out, r1)"
  using android_publish_returns [of ex_deps] ex_env_laws ex_providers_ok by (simp add: ex_deps_def)

theorem android_onboard_returns_witness: "\<exists>out r1. android_onboard ex_deps ex_onboarding run0 = Some (out, r1)"
  using android_onboard_returns [of ex_deps ex_onboarding] ex_env_laws ex_providers_ok
  by (simp add: ex_deps_def ex_onboarding_def)

definition ex_nameless :: publish_request where
  "ex_nameless = ex_request\<lparr>pr_account := ex_account\<lparr>pa_credentials := None\<rparr>\<rparr>"

theorem android_errors_classified_witness:
  "\<exists>code retryable after msg e. fst (the (android_publish ex_deps ex_nameless run0)) = Inl e
    \<and> e = PublishError code retryable after msg"
proof -
  have "ad_createProvider ex_deps = None" by (simp add: ex_deps_def)
  moreover obtain e where e: "android_publish ex_deps ex_nameless run0 = Some (Inl e, run0)"
    by (simp add: android_publish_def parseCredentials_def ex_nameless_def bindE_def liftE_def)
  ultimately show ?thesis using android_errors_classified [of ex_deps ex_nameless run0 e run0] by auto
qed


theorem verified_after_the_operator_witness:
  "\<exists>c vf evs. onboarding_done ex_deps ex_onboarding c vf evs"
  using ex_onboarded verified_after_the_operator [OF ex_providers_ok] by blast

definition ex_proxy :: proxy_runtime where
  "ex_proxy = \<lparr>rt_type = SOCKS5, rt_host = ''h'', rt_port = 1080, rt_username = None, rt_password = None,
     rt_timezone = None, rt_locale = None\<rparr>"

definition ex_proxied :: publish_request where
  "ex_proxied = ex_request\<lparr>pr_video := None, pr_account := ex_account\<lparr>pa_proxy := Some ex_proxy\<rparr>\<rparr>"

theorem proxy_needs_own_device_witness:
  "\<exists>m. android_publish ex_deps ex_proxied run0 = Some (Inl (PublishError ''proxy_requires_ephemeral_device'' False None m), run0)"
proof -
  obtain c where c: "parseCredentials ex_deps (Some ex_creds) = Inr c" "ac_redroid c = None" "ac_emulator c = None"
    "selectFlow c None = Inr (DEFAULT_FLOW_TYPE, Steps ex_steps)" using ex_creds_parsed by blast
  have req: "pa_credentials (pr_account ex_proxied) = Some ex_creds" "pa_proxy (pr_account ex_proxied) \<noteq> None"
    "pr_video ex_proxied = None" "pr_flowType ex_proxied = None"
    by (simp_all add: ex_proxied_def ex_account_def ex_request_def)
  have "ad_createProvider ex_deps = None" by (simp add: ex_deps_def)
  from proxy_needs_own_device [OF this _ c(2,3) req(2), where r = run0 and oreq = "ex_onboarding\<lparr>oq_account := pr_account ex_proxied\<rparr>"
      and flow = "(DEFAULT_FLOW_TYPE, Steps ex_steps)"] c req
  show ?thesis by auto
qed

theorem uniqueRemotePath_injective_witness:
  "uniqueRemotePath ''/a/{jobId}.mp4'' ''j1'' = ''/a/j1.mp4'' \<and> ''j1'' = (''j1'' :: string)"
proof -
  have "uniqueRemotePath ''/a/{jobId}.mp4'' ''j1'' = ''/a/j1.mp4''" by code_simp
  then show ?thesis using uniqueRemotePath_injective [of "''/a/{jobId}.mp4''" "''j1''" "''j1''"] by simp
qed

theorem inherited_flow_succeeds_witness:
  "\<exists>n c. run_selected ex_deps ex_session (Inherited n) [] run0 = Some (Inr flow_start, run0)
     \<and> selectFlow c (Some ''toString'') = Inr (''toString'', Inherited n)"
proof -
  obtain c where "parseCredentials ex_deps (Some ex_creds) = Inr c" using ex_creds_parsed by blast
  have "ac_flows (c\<lparr>ac_flows := Some [(''setup'', ex_steps)]\<rparr>) = Some [(''setup'', ex_steps)]"
    and "map_of [(''setup'', ex_steps)] ''toString'' = None" by simp_all
  from inherited_flow_succeeds [OF this] show ?thesis by blast
qed

text \<open>A provider that finds the device leaking this host's address.\<close>

definition ex_leaking :: "int provider" where
  "ex_leaking = \<lparr>dp_kind = ''redroid'', dp_acquire = (\<lambda>cx. throwE (EgressLeakError ''1.1.1.1'' ''1.1.1.1''))\<rparr>"

definition ex_leak_deps :: "int android_deps" where
  "ex_leak_deps = ex_deps\<lparr>ad_createProvider := Some (\<lambda>c px. Inr ex_leaking)\<rparr>"

definition ex_plain :: publish_request where
  "ex_plain = ex_request\<lparr>pr_video := None\<rparr>"


text \<open>A Docker daemon with one container.\<close>

definition ex_container :: container_summary where
  "ex_container = \<lparr>ct_id = ''c0ffee'', ct_name = ''redroid-job-j1'',
     ct_labels = [(JOB_LABEL, ''j1''), (ROLE_LABEL, DEVICE_ROLE)]\<rparr>"

definition ex_daemon :: "int device_env" where
  "ex_daemon = ex_env\<lparr>ae_exec := (\<lambda>c args sig t s. (ExecOk (ps_print ex_container @ lf) [], s))\<rparr>"


end
