(* ===== verification/Reaper.thy ===== *)
theory Reaper
  imports Camera "HOL-Library.Sublist"
begin

text \<open>
  \<open>lib/android/reaper.ts\<close>: removing the containers no live job can be using, and returning the
  camera leases nothing accounts for. Its lines on the console are lines of the log here.
\<close>

definition DEFAULT_GRACE_MS :: ms where
  "DEFAULT_GRACE_MS = 90000"

record reap_result =
  rp_inspected :: nat
  rp_removed :: "string list"
  rp_failed :: "(string \<times> string) list"   \<comment> \<open>container, error\<close>

definition LIVE_STATUSES :: "job_status list" where
  "LIVE_STATUSES = [PROCESSING, AWAITING_HUMAN, VERIFYING]"

definition is_gateway :: "container_summary \<Rightarrow> bool" where
  "is_gateway c \<longleftrightarrow> map_of (ct_labels c) ROLE_LABEL = Some GATEWAY_ROLE"

definition devicesBeforeGateways :: "container_summary list \<Rightarrow> container_summary list" where
  "devicesBeforeGateways cs = filter (\<lambda>c. \<not> is_gateway c) cs @ filter is_gateway cs"

definition jobIsActive :: "'s device_env \<Rightarrow> string \<Rightarrow> ('s, bool) eff" where
  "jobIsActive E jobId =
     invoke (\<lambda>x. EvJobActive jobId (case x of Inr b \<Rightarrow> Some b | Inl e \<Rightarrow> None))
       (\<lambda>s. let (found, s1) = ae_jobStatus E jobId s
         in (map_sum id (\<lambda>st. case st of Some status \<Rightarrow> status \<in> set LIVE_STATUSES | None \<Rightarrow> False) found, s1))"

definition consoleE :: "'s device_env \<Rightarrow> string \<Rightarrow> ('s, unit) eff" where
  "consoleE E msg = logE E INFO msg None"

subsection \<open>The sweep\<close>

definition created_at :: "'s device_env \<Rightarrow> container_summary \<Rightarrow> ms option" where
  "created_at E c =
     Date_parse (ae_parseDate E) (case map_of (ct_labels c) CREATED_AT_LABEL of Some v \<Rightarrow> v | None \<Rightarrow> [])"

text \<open>One round of the loop: a container whose age is not known counts as old.\<close>

definition reap_container ::
  "'s device_env \<Rightarrow> ms \<Rightarrow> container_summary \<Rightarrow> string list \<times> (string \<times> string) list
    \<Rightarrow> ('s, string list \<times> (string \<times> string) list) eff" where
  "reap_container E graceMs c acc =
     (let (removed, failed) = acc; jobId = map_of (ct_labels c) JOB_LABEL
      in bindE (nowE E) (\<lambda>now.
         if (case created_at E c of Some t \<Rightarrow> now - t < graceMs | None \<Rightarrow> False) then ret acc
         else bindE (if opt_truthy jobId then attemptE (jobIsActive E (the jobId)) else ret (Inr False)) (\<lambda>active.
           case active of
             Inl e \<Rightarrow> ret (removed, failed @ [(ct_name c, ''could not check job '' @ the jobId @ '': '' @ exn_message e)])
           | Inr alive \<Rightarrow>
               if alive then ret acc
               else bindE (attemptE (docker_remove E (ct_id c))) (\<lambda>done_it. ret (case done_it of
                      Inr u \<Rightarrow> (removed @ [ct_name c], failed)
                    | Inl e \<Rightarrow> (removed, failed @ [(ct_name c, exn_message e)]))))))"

fun reap_all ::
  "'s device_env \<Rightarrow> ms \<Rightarrow> container_summary list \<Rightarrow> string list \<times> (string \<times> string) list
    \<Rightarrow> ('s, string list \<times> (string \<times> string) list) eff" where
  "reap_all E graceMs [] acc = ret acc"
| "reap_all E graceMs (c # cs) acc = bindE (reap_container E graceMs c acc) (reap_all E graceMs cs)"

fun each :: "('a \<Rightarrow> ('s, unit) eff) \<Rightarrow> 'a list \<Rightarrow> ('s, unit) eff" where
  "each f [] = ret ()"
| "each f (x # xs) = thenE (f x) (each f xs)"

definition reapAndroidContainers :: "'s device_env \<Rightarrow> ms \<Rightarrow> ('s, reap_result) eff" where
  "reapAndroidContainers E graceMs =
     bindE (attemptE (listByLabel E OWNER_LABEL OWNER_VALUE)) (\<lambda>listed. case listed of
         Inl e \<Rightarrow> thenE (consoleE E (''[reaper] could not list containers, skipping sweep: '' @ exn_message e))
                   (ret \<lparr>rp_inspected = 0, rp_removed = [], rp_failed = []\<rparr>)
       | Inr containers \<Rightarrow>
           bindE (reap_all E graceMs (devicesBeforeGateways containers) ([], [])) (\<lambda>(removed, failed).
             thenE (whenE (removed \<noteq> []) (consoleE E (''[reaper] removed '' @ show_nat (length removed)
                      @ '' orphaned Android container(s): '' @ js_join '', '' removed)))
             (thenE (each (\<lambda>(name, err). consoleE E (''[reaper] could not reap '' @ name @ '': '' @ err)) failed)
               (ret \<lparr>rp_inspected = length containers, rp_removed = removed, rp_failed = failed\<rparr>))))"

subsection \<open>Camera leases\<close>

definition held_cameras :: "camera_vars \<Rightarrow> container_summary list \<Rightarrow> nat set" where
  "held_cameras V cs = set (concat (map (\<lambda>c.
     case Option.bind (map_of (ct_labels c) CAMERA_LABEL) (cv_number V) of
       Some i \<Rightarrow> if i \<ge> 0 then [nat i] else [] | None \<Rightarrow> []) cs))"

definition reconcileCameraLeases :: "'s device_env \<Rightarrow> camera_vars \<Rightarrow> ('s, nat list) eff" where
  "reconcileCameraLeases E V =
     bindE (attemptE (listByLabel E OWNER_LABEL OWNER_VALUE)) (\<lambda>listed. case listed of
         Inl e \<Rightarrow> thenE (consoleE E (''[reaper] could not list containers, skipping camera reconciliation: ''
                    @ exn_message e)) (ret [])
       | Inr containers \<Rightarrow>
           catchE (bindE (reconcileCameraSlots E V (held_cameras V containers) (jobIsActive E)) (\<lambda>freed.
               thenE (whenE (freed \<noteq> []) (consoleE E (''[reaper] returned '' @ show_nat (length freed)
                        @ '' camera device(s) to the pool: '' @ js_join '', '' (map show_nat freed))))
                 (ret freed)))
             (\<lambda>e. thenE (consoleE E (''[reaper] camera reconciliation failed: '' @ exn_message e)) (ret [])))"

subsection \<open>What a sweep removes\<close>

text \<open>
  When a container may be removed, given the events before: it is as old as the grace period asks, as
  far as its age is known, and its job, if it names one, was just found not to be live.
\<close>

definition may_reap :: "'s device_env \<Rightarrow> ms \<Rightarrow> ms \<Rightarrow> container_summary list \<Rightarrow> event list \<Rightarrow> event \<Rightarrow> bool" where
  "may_reap E graceMs latest cs before e \<longleftrightarrow>
     (\<forall>n. removal_of e = Some n \<longrightarrow> (\<exists>c \<in> set cs. ct_id c = n
        \<and> (case created_at E c of Some t \<Rightarrow> t + graceMs \<le> latest | None \<Rightarrow> True)
        \<and> (\<forall>j. map_of (ct_labels c) JOB_LABEL = Some j \<longrightarrow> j \<noteq> [] \<longrightarrow>
             (\<exists>a. before = a @ [EvJobActive j (Some False)]))))"

definition justified :: "'s device_env \<Rightarrow> ms \<Rightarrow> ms \<Rightarrow> container_summary list \<Rightarrow> event list \<Rightarrow> bool" where
  "justified E graceMs latest cs evs \<longleftrightarrow> (\<forall>a e b. evs = a @ e # b \<longrightarrow> may_reap E graceMs latest cs a e)"

lemma may_reap_later:
  "may_reap E g t cs a e \<Longrightarrow> t \<le> t' \<Longrightarrow> set cs \<subseteq> set cs' \<Longrightarrow> may_reap E g t' cs' (x @ a) e"
proof (unfold may_reap_def, intro allI impI)
  fix n assume reap: "\<forall>n. removal_of e = Some n \<longrightarrow> (\<exists>c \<in> set cs. ct_id c = n
      \<and> (case created_at E c of Some u \<Rightarrow> u + g \<le> t | None \<Rightarrow> True)
      \<and> (\<forall>j. map_of (ct_labels c) JOB_LABEL = Some j \<longrightarrow> j \<noteq> [] \<longrightarrow> (\<exists>b. a = b @ [EvJobActive j (Some False)])))"
    and more: "t \<le> t'" "set cs \<subseteq> set cs'" and n: "removal_of e = Some n"
  then obtain c where c: "c \<in> set cs" "ct_id c = n" "case created_at E c of Some u \<Rightarrow> u + g \<le> t | None \<Rightarrow> True"
    and job: "\<And>j. map_of (ct_labels c) JOB_LABEL = Some j \<Longrightarrow> j \<noteq> [] \<Longrightarrow> \<exists>b. a = b @ [EvJobActive j (Some False)]"
    by blast
  have "case created_at E c of Some u \<Rightarrow> u + g \<le> t' | None \<Rightarrow> True"
    using c(3) more(1) by (auto split: option.splits)
  moreover have "\<exists>b. x @ a = b @ [EvJobActive j (Some False)]" if "map_of (ct_labels c) JOB_LABEL = Some j" "j \<noteq> []" for j
    using job [OF that] by (metis append.assoc)
  ultimately show "\<exists>c \<in> set cs'. ct_id c = n \<and> (case created_at E c of Some u \<Rightarrow> u + g \<le> t' | None \<Rightarrow> True)
      \<and> (\<forall>j. map_of (ct_labels c) JOB_LABEL = Some j \<longrightarrow> j \<noteq> [] \<longrightarrow> (\<exists>b. x @ a = b @ [EvJobActive j (Some False)]))"
    using c(1,2) more(2) by blast
qed

lemma justified_few:
  "may_reap E g t cs [] e \<Longrightarrow> justified E g t cs [e]"
  "may_reap E g t cs [] d \<Longrightarrow> may_reap E g t cs [d] e \<Longrightarrow> justified E g t cs [d, e]"
  by (auto simp: justified_def Cons_eq_append_conv)

lemma justified_append:
  assumes "justified E g t cs xs" and "justified E g t' cs' ys" and "t \<le> t'" and "set cs \<subseteq> set ds" and "set cs' \<subseteq> set ds"
  shows "justified E g t' ds (xs @ ys)"
  unfolding justified_def
proof (intro allI impI)
  fix a e b assume "xs @ ys = a @ e # b"
  then consider c where "xs = a @ e # c" | c where "a = xs @ c" "ys = c @ e # b"
    by (auto simp: append_eq_append_conv2 append_eq_Cons_conv)
  then show "may_reap E g t' ds a e"
  proof cases
    case 1
    with assms(1) have "may_reap E g t cs a e" unfolding justified_def by blast
    from may_reap_later [OF this assms(3,4), of "[]"] show ?thesis by simp
  next
    case 2
    with assms(2) have "may_reap E g t' cs' c e" unfolding justified_def by blast
    from may_reap_later [OF this _ assms(5), of t' xs] 2 show ?thesis by simp
  qed
qed

lemma justified_plain: "removals evs = [] \<Longrightarrow> justified E g t cs evs"
proof -
  assume "removals evs = []"
  then have "\<forall>e \<in> set evs. removal_of e = None" by (auto simp: removals_def map_filter_def filter_empty_conv)
  then show ?thesis by (auto simp: justified_def may_reap_def)
qed

text \<open>A clock that no call of the reaper turns back.\<close>

definition steady_clock :: "'s device_env \<Rightarrow> bool" where
  "steady_clock E \<longleftrightarrow> clock_laws E \<and> (\<forall>j s. ae_clock E s \<le> ae_clock E (snd (ae_jobStatus E j s)))
     \<and> (\<forall>l m d s. ae_clock E s \<le> ae_clock E (ae_log E l m d s))"

lemma forwards_jobIsActive [forwards_intros]: "steady_clock E \<Longrightarrow> forwards E (jobIsActive E j)"
  by (auto simp: steady_clock_def forwards_def jobIsActive_def invoke_def Let_def split: prod.splits) (metis snd_conv)

lemma forwards_console [forwards_intros]: "steady_clock E \<Longrightarrow> forwards E (consoleE E m)"
  by (auto simp: steady_clock_def forwards_def consoleE_def logE_def perform_def)

lemma docker_remove_run:
  "\<exists>out s x. docker_remove E n r = Some (x, r\<lparr>ru_env := s,
      ru_trace := ru_trace r @ [EvExec ''docker'' [''rm'', ''--force'', ''--volumes'', n] out]\<rparr>)
    \<and> s = snd (ae_exec E ''docker'' [''rm'', ''--force'', ''--volumes'', n] NoSignal 30000 (ru_env r))"
  by (auto simp: docker_remove_def docker_def execE_def perform_def bindE_def ret_def throwE_def Let_def
      split: prod.splits exec_outcome.splits)

lemma jobIsActive_run:
  "\<exists>ans s x. jobIsActive E j r = Some (x, r\<lparr>ru_env := s, ru_trace := ru_trace r @ [EvJobActive j ans]\<rparr>)
    \<and> ans = (case x of Inr b \<Rightarrow> Some b | Inl e \<Rightarrow> None) \<and> s = snd (ae_jobStatus E j (ru_env r))"
  by (auto simp: jobIsActive_def invoke_def Let_def split: prod.splits)

lemma reap_container_run:
  assumes "steady_clock E"
  shows "\<exists>acc' r1 evs. reap_container E g c acc r = Some (Inr acc', r1) \<and> ru_trace r1 = ru_trace r @ evs
    \<and> subseq (removals evs) [ct_id c] \<and> ae_clock E (ru_env r) \<le> ae_clock E (ru_env r1)
    \<and> justified E g (ae_clock E (ru_env r1)) [c] evs"
proof -
  let ?old = "case created_at E c of Some t \<Rightarrow> t + g \<le> ae_clock E (ru_env r) | None \<Rightarrow> True"
  let ?job = "map_of (ct_labels c) JOB_LABEL"
  have young: "(case created_at E c of Some t \<Rightarrow> ae_clock E (ru_env r) - t < g | None \<Rightarrow> False) \<longleftrightarrow> \<not> ?old"
    by (auto split: option.splits)
  have clock: "ae_clock E s \<le> ae_clock E (snd (ae_exec E cmd args sig t s))" "ae_clock E s \<le> ae_clock E (snd (ae_jobStatus E j s))"
    for cmd args sig t j s using assms by (simp_all add: steady_clock_def clock_laws_def)
  have removes: "\<exists>acc' r2 out. (bindE (attemptE (docker_remove E (ct_id c))) (\<lambda>done_it. ret (case done_it of
        Inr u \<Rightarrow> (fst acc @ [ct_name c], snd acc) | Inl e \<Rightarrow> (fst acc, snd acc @ [(ct_name c, exn_message e)])))) r1
      = Some (Inr acc', r2) \<and> ru_trace r2 = ru_trace r1 @ [EvExec ''docker'' [''rm'', ''--force'', ''--volumes'', ct_id c] out]
      \<and> ae_clock E (ru_env r1) \<le> ae_clock E (ru_env r2)" for r1
    using docker_remove_run [of E "ct_id c" r1] clock(1) by (auto simp: bindE_def attemptE_def ret_def)
  show ?thesis
  proof (cases ?old)
    case False
    then show ?thesis
      by (intro exI [of _ acc] exI [of _ r] exI [of _ "[]"])
        (auto simp: reap_container_def Let_def nowE_def bindE_def readE_def ret_def young justified_plain split: prod.splits)
  next
    case old: True
    show ?thesis
    proof (cases "opt_truthy ?job")
      case False
      obtain acc' r2 out where rm: "(bindE (attemptE (docker_remove E (ct_id c))) (\<lambda>done_it. ret (case done_it of
          Inr u \<Rightarrow> (fst acc @ [ct_name c], snd acc) | Inl e \<Rightarrow> (fst acc, snd acc @ [(ct_name c, exn_message e)])))) r
          = Some (Inr acc', r2)"
        "ru_trace r2 = ru_trace r @ [EvExec ''docker'' [''rm'', ''--force'', ''--volumes'', ct_id c] out]"
        "ae_clock E (ru_env r) \<le> ae_clock E (ru_env r2)" using removes by blast
      have "reap_container E g c acc r = Some (Inr acc', r2)"
        using rm(1) False old
        by (simp add: reap_container_def Let_def nowE_def bindE_def readE_def ret_def young split_def)
      then show ?thesis using rm old False
        by (intro exI [of _ acc'] exI [of _ r2] exI)
          (auto simp: may_reap_def opt_truthy_def removal_of_def split: option.splits intro!: justified_few)
    next
      case True
      define j where "j = the ?job"
      obtain ans s x where asked: "jobIsActive E j r = Some (x, r\<lparr>ru_env := s, ru_trace := ru_trace r @ [EvJobActive j ans]\<rparr>)"
        "ans = (case x of Inr b \<Rightarrow> Some b | Inl e \<Rightarrow> None)" "s = snd (ae_jobStatus E j (ru_env r))"
        using jobIsActive_run [of E j r] by (elim exE conjE) (rule that)
      let ?r1 = "r\<lparr>ru_env := s, ru_trace := ru_trace r @ [EvJobActive j ans]\<rparr>"
      have later: "ae_clock E (ru_env r) \<le> ae_clock E s" using clock(2) asked(3) by simp
      show ?thesis
      proof (cases "x = Inr False")
        case alive: False
        have "\<exists>acc'. reap_container E g c acc r = Some (Inr acc', ?r1)"
          using asked True old alive
          by (cases x) (auto simp: reap_container_def Let_def nowE_def bindE_def readE_def ret_def attemptE_def young
              split_def j_def)
        then show ?thesis using later by (auto simp: justified_plain)
      next
        case dead: True
        obtain acc' r2 out where rm: "(bindE (attemptE (docker_remove E (ct_id c))) (\<lambda>done_it. ret (case done_it of
            Inr u \<Rightarrow> (fst acc @ [ct_name c], snd acc) | Inl e \<Rightarrow> (fst acc, snd acc @ [(ct_name c, exn_message e)])))) ?r1
            = Some (Inr acc', r2)"
          "ru_trace r2 = ru_trace r @ [EvJobActive j ans, EvExec ''docker'' [''rm'', ''--force'', ''--volumes'', ct_id c] out]"
          "ae_clock E (ru_env r) \<le> ae_clock E (ru_env r2)"
          using removes [of ?r1] later by fastforce
        have "reap_container E g c acc r = Some (Inr acc', r2)"
          using rm(1) asked(1) True old dead
          by (simp add: reap_container_def Let_def nowE_def bindE_def readE_def ret_def attemptE_def young split_def
              j_def [symmetric] del: show_nat.simps)
        moreover have "?job = Some j" using True by (auto simp: j_def opt_truthy_def)
        moreover have "justified E g (ae_clock E (ru_env r2)) [c]
            [EvJobActive j ans, EvExec ''docker'' [''rm'', ''--force'', ''--volumes'', ct_id c] out]"
          if "?job = Some j"
          by (rule justified_few)
            (use that old dead asked(2) rm(3) in \<open>auto simp: may_reap_def removal_of_def split: option.splits\<close>)
        moreover have "removals [EvJobActive j ans, EvExec ''docker'' [''rm'', ''--force'', ''--volumes'', ct_id c] out] = [ct_id c]"
          by (simp add: removals_def map_filter_def removal_of_def)
        ultimately show ?thesis using rm(2,3)
          by (intro exI [of _ acc'] exI [of _ r2] exI conjI) simp_all
      qed
    qed
  qed
qed

lemma reap_all_run:
  assumes "steady_clock E"
  shows "\<exists>acc' r1 evs. reap_all E g cs acc r = Some (Inr acc', r1) \<and> ru_trace r1 = ru_trace r @ evs
    \<and> subseq (removals evs) (map ct_id cs) \<and> ae_clock E (ru_env r) \<le> ae_clock E (ru_env r1)
    \<and> justified E g (ae_clock E (ru_env r1)) cs evs"
proof (induction cs arbitrary: acc r)
  case (Cons c cs)
  from reap_container_run [OF assms, of g c acc r] obtain acc1 r1 ev1 where one:
    "reap_container E g c acc r = Some (Inr acc1, r1)" "ru_trace r1 = ru_trace r @ ev1" "subseq (removals ev1) [ct_id c]"
    "ae_clock E (ru_env r) \<le> ae_clock E (ru_env r1)" "justified E g (ae_clock E (ru_env r1)) [c] ev1"
    by (elim exE conjE) (rule that)
  from Cons.IH [of acc1 r1] obtain acc2 r2 ev2 where rest:
    "reap_all E g cs acc1 r1 = Some (Inr acc2, r2)" "ru_trace r2 = ru_trace r1 @ ev2" "subseq (removals ev2) (map ct_id cs)"
    "ae_clock E (ru_env r1) \<le> ae_clock E (ru_env r2)" "justified E g (ae_clock E (ru_env r2)) cs ev2"
    by (elim exE conjE) (rule that)
  have "subseq (removals (ev1 @ ev2)) (map ct_id (c # cs))"
    using list_emb_append_mono [OF one(3) rest(3)] by simp
  moreover have "justified E g (ae_clock E (ru_env r2)) (c # cs) (ev1 @ ev2)"
    by (rule justified_append [OF one(5) rest(5) rest(4)]) auto
  ultimately show ?case using one rest
    by (intro exI [of _ acc2] exI [of _ r2] exI [of _ "ev1 @ ev2"]) (simp add: bindE_def)
qed (auto simp: ret_def justified_def)

text \<open>A step of the reaper that always returns and removes nothing.\<close>

definition idle_step :: "'s device_env \<Rightarrow> ('s, 'a) eff \<Rightarrow> bool" where
  "idle_step E m \<longleftrightarrow> (\<forall>r. \<exists>x r1 evs. m r = Some (Inr x, r1) \<and> ru_trace r1 = ru_trace r @ evs \<and> removals evs = []
     \<and> ae_clock E (ru_env r) \<le> ae_clock E (ru_env r1))"

lemma idle_then: "idle_step E m \<Longrightarrow> (\<And>x. idle_step E (f x)) \<Longrightarrow> idle_step E (bindE m f)"
  unfolding idle_step_def
proof
  fix r
  assume first: "\<forall>r. \<exists>x r1 evs. m r = Some (Inr x, r1) \<and> ru_trace r1 = ru_trace r @ evs \<and> removals evs = []
      \<and> ae_clock E (ru_env r) \<le> ae_clock E (ru_env r1)"
    and next_one: "\<And>x. \<forall>r. \<exists>y r1 evs. f x r = Some (Inr y, r1) \<and> ru_trace r1 = ru_trace r @ evs \<and> removals evs = []
      \<and> ae_clock E (ru_env r) \<le> ae_clock E (ru_env r1)"
  from first obtain x r1 a where 1: "m r = Some (Inr x, r1)" "ru_trace r1 = ru_trace r @ a" "removals a = []"
    "ae_clock E (ru_env r) \<le> ae_clock E (ru_env r1)" by blast
  from next_one obtain y r2 b where 2: "f x r1 = Some (Inr y, r2)" "ru_trace r2 = ru_trace r1 @ b" "removals b = []"
    "ae_clock E (ru_env r1) \<le> ae_clock E (ru_env r2)" by blast
  from 1 2 show "\<exists>y r1 evs. bindE m f r = Some (Inr y, r1) \<and> ru_trace r1 = ru_trace r @ evs \<and> removals evs = []
      \<and> ae_clock E (ru_env r) \<le> ae_clock E (ru_env r1)"
    by (intro exI [of _ y] exI [of _ r2] exI [of _ "a @ b"]) (simp add: bindE_def)
qed

lemma idle_steps:
  assumes "steady_clock E"
  shows "idle_step E (ret x)" "idle_step E (consoleE E msg)" "idle_step E (whenE b (consoleE E msg))"
    "idle_step E (each (\<lambda>(name, err). consoleE E (text name err)) xs)"
    "idle_step E (attemptE (listByLabel E l v))"
proof -
  show ret: "idle_step E (ret x)" for x by (auto simp: idle_step_def ret_def)
  show console: "idle_step E (consoleE E msg)" for msg
    using assms by (auto simp: idle_step_def consoleE_def logE_def perform_def steady_clock_def)
  show "idle_step E (whenE b (consoleE E msg))" by (simp add: whenE_def console ret)
  show "idle_step E (each (\<lambda>(name, err). consoleE E (text name err)) xs)"
    by (induction xs) (auto intro: idle_then console ret)
  show "idle_step E (attemptE (listByLabel E l v))"
    unfolding idle_step_def
  proof
    fix r
    obtain x r1 where m: "listByLabel E l v r = Some (x, r1)" using settlesD [OF settles_docker_ops(6)] by blast
    have "emits (\<lambda>e. removal_of e = None) (listByLabel E l v)"
      unfolding listByLabel_def by (auto simp: removal_of_def intro!: emits_intros)
    from emitsD [OF this m] obtain evs where "ru_trace r1 = ru_trace r @ evs" "removals evs = []"
      by (auto simp: removals_def map_filter_def)
    moreover have "forwards E (listByLabel E l v)"
      unfolding listByLabel_def using assms by (auto simp: steady_clock_def intro!: forwards_intros)
    ultimately show "\<exists>x r1 evs. attemptE (listByLabel E l v) r = Some (Inr x, r1) \<and> ru_trace r1 = ru_trace r @ evs
        \<and> removals evs = [] \<and> ae_clock E (ru_env r) \<le> ae_clock E (ru_env r1)"
      using m forwardsD by (fastforce simp: attemptE_def)
  qed
qed


subsection \<open>Which leases go back\<close>

text \<open>What else the reconciliation relies on: a read answers with the key's value, and nothing but the
  release script changes a key.\<close>

definition redis_reads :: "'s device_env \<Rightarrow> ('s \<Rightarrow> string \<Rightarrow> string option) \<Rightarrow> bool" where
  "redis_reads E holder \<longleftrightarrow>
     (\<forall>k s. holder (snd (ae_redisGet E k s)) = holder s \<and> (\<forall>v. fst (ae_redisGet E k s) = Inr v \<longrightarrow> v = holder s k))
     \<and> (\<forall>j s. holder (snd (ae_jobStatus E j s)) = holder s)
     \<and> (\<forall>l m d s. holder (ae_log E l m d s) = holder s)
     \<and> (\<forall>c a sig t s. holder (snd (ae_exec E c a sig t s)) = holder s)"

text \<open>The change of a step to the leases, and the events it left.\<close>

definition freed_by ::
  "nat set \<Rightarrow> (string \<Rightarrow> string option) \<Rightarrow> (string \<Rightarrow> string option) \<Rightarrow> event list \<Rightarrow> bool" where
  "freed_by allowed before after evs \<longleftrightarrow> (\<forall>k. after k \<noteq> before k \<longrightarrow>
     (\<exists>n j. n \<in> allowed \<and> k = leaseKey n \<and> before k = Some j \<and> after k = None \<and> EvJobActive j (Some False) \<in> set evs))"

lemma freed_by_refl: "freed_by A h h evs"
  by (simp add: freed_by_def)

lemma freed_by_trans: "freed_by A h0 h1 a \<Longrightarrow> freed_by A h1 h2 b \<Longrightarrow> freed_by A h0 h2 (a @ b)"
  unfolding freed_by_def
proof (intro allI impI)
  fix k
  assume 1: "\<forall>k. h1 k \<noteq> h0 k \<longrightarrow> (\<exists>n j. n \<in> A \<and> k = leaseKey n \<and> h0 k = Some j \<and> h1 k = None \<and> EvJobActive j (Some False) \<in> set a)"
    and 2: "\<forall>k. h2 k \<noteq> h1 k \<longrightarrow> (\<exists>n j. n \<in> A \<and> k = leaseKey n \<and> h1 k = Some j \<and> h2 k = None \<and> EvJobActive j (Some False) \<in> set b)"
    and diff: "h2 k \<noteq> h0 k"
  show "\<exists>n j. n \<in> A \<and> k = leaseKey n \<and> h0 k = Some j \<and> h2 k = None \<and> EvJobActive j (Some False) \<in> set (a @ b)"
  proof (cases "h1 k = h0 k")
    case True
    with 2 diff show ?thesis by (metis Un_iff set_append)
  next
    case False
    then obtain n j where nj: "n \<in> A" "k = leaseKey n" "h0 k = Some j" "h1 k = None" "EvJobActive j (Some False) \<in> set a"
      using 1 by blast
    moreover have "h2 k = None" using 2 nj(4) by (metis option.distinct(1))
    ultimately show ?thesis by auto
  qed
qed

lemma freed_by_mono: "freed_by A h h' evs \<Longrightarrow> A \<subseteq> B \<Longrightarrow> set evs \<subseteq> set evs' \<Longrightarrow> freed_by B h h' evs'"
  unfolding freed_by_def by blast

lemma releaseIfHeld_frees:
  assumes "del_if_law E holder" and "releaseIfHeld E n j r = Some (x, r1)"
  shows "ru_trace r1 = ru_trace r @ [EvFree n]
    \<and> (holder (ru_env r1) = holder (ru_env r)
       \<or> holder (ru_env r) (leaseKey n) = Some j \<and> holder (ru_env r1) = (holder (ru_env r))(leaseKey n := None))"
proof -
  obtain y s where del: "ae_delIf E (leaseKey n) j (ru_env r) = (y, s)" by fastforce
  from assms(1) [unfolded del_if_law_def, rule_format, of "leaseKey n" j "ru_env r"] del
  have "holder s = holder (ru_env r) \<or> holder (ru_env r) (leaseKey n) = Some j \<and> holder s = (holder (ru_env r))(leaseKey n := None)"
    by (auto simp: Let_def split: sum.splits if_splits)
  with assms(2) del show ?thesis by (auto simp: releaseIfHeld_def invoke_def Let_def)
qed

lemma reconcile_from_frees:
  assumes "del_if_law E holder" and "redis_reads E holder"
    and "reconcile_from E held (jobIsActive E) pool freed r = Some (x, r1)"
  shows "\<exists>evs. ru_trace r1 = ru_trace r @ evs \<and> freed_by (set pool - held) (holder (ru_env r)) (holder (ru_env r1)) evs"
  using assms(3)
proof (induction pool arbitrary: freed r)
  case Nil
  then show ?case by (auto simp: ret_def freed_by_refl)
next
  case (Cons n pool)
  have rest: ?case if run: "reconcile_from E held (jobIsActive E) pool fs r' = Some (x, r1)"
    and trace: "ru_trace r' = ru_trace r @ evs"
    and step: "freed_by (set (n # pool) - held) (holder (ru_env r)) (holder (ru_env r')) evs" for fs r' evs
  proof -
    from Cons.IH [OF run] obtain evs' where ih: "ru_trace r1 = ru_trace r' @ evs'"
      "freed_by (set pool - held) (holder (ru_env r')) (holder (ru_env r1)) evs'" by blast
    from freed_by_mono [OF ih(2), of "set (n # pool) - held" evs'] have
      "freed_by (set (n # pool) - held) (holder (ru_env r')) (holder (ru_env r1)) evs'" by auto
    from freed_by_trans [OF step this] ih(1) trace show ?thesis by auto
  qed
  show ?case
  proof (cases "n \<in> held")
    case True
    with Cons.prems show ?thesis by (intro rest [of freed r "[]"]) (auto simp: freed_by_refl)
  next
    case free: False
    obtain y s where get: "ae_redisGet E (leaseKey n) (ru_env r) = (y, s)" by fastforce
    have kept: "holder s = holder (ru_env r)" "\<And>v. y = Inr v \<Longrightarrow> v = holder (ru_env r) (leaseKey n)"
      using assms(2) get unfolding redis_reads_def by (metis snd_conv, metis fst_conv)
    let ?r0 = "r\<lparr>ru_env := s, ru_trace := ru_trace r @ [EvLookup (leaseKey n)]\<rparr>"
    have got: "invoke (\<lambda>x. EvLookup (leaseKey n)) (ae_redisGet E (leaseKey n)) r = Some (y, ?r0)"
      by (simp add: invoke_def get)
    show ?thesis
    proof (cases y)
      case (Inl e)
      with Cons.prems free got have "r1 = ?r0" by (simp add: bindE_def)
      with kept show ?thesis by (auto simp: freed_by_refl)
    next
      case (Inr v)
      show ?thesis
      proof (cases "opt_truthy v")
        case False
        with Cons.prems free got Inr kept show ?thesis
          by (intro rest [of freed ?r0 "[EvLookup (leaseKey n)]"]) (auto simp: bindE_def freed_by_refl)
      next
        case True
        define j where "j = the v"
        have v: "v = Some j" using True by (auto simp: opt_truthy_def j_def)
        from jobIsActive_run [of E j ?r0] obtain ans s1 z where asked:
          "jobIsActive E j ?r0 = Some (z, ?r0\<lparr>ru_env := s1, ru_trace := ru_trace ?r0 @ [EvJobActive j ans]\<rparr>)"
          "ans = (case z of Inr b \<Rightarrow> Some b | Inl e \<Rightarrow> None)" "s1 = snd (ae_jobStatus E j (ru_env ?r0))"
          by (elim exE conjE) (rule that)
        let ?r1 = "?r0\<lparr>ru_env := s1, ru_trace := ru_trace ?r0 @ [EvJobActive j ans]\<rparr>"
        have kept1: "holder s1 = holder (ru_env r)" using asked(3) assms(2) kept(1) by (simp add: redis_reads_def)
        show ?thesis
        proof (cases "z = Inr False")
          case alive: False
          then have "catchE (jobIsActive E j) (\<lambda>e. ret True) ?r0 = Some (Inr True, ?r1)"
            using asked(1) by (cases z) (auto simp: catchE_def ret_def)
          with Cons.prems free got Inr v True kept1 show ?thesis
            by (intro rest [of freed ?r1 "[EvLookup (leaseKey n), EvJobActive j ans]"])
              (auto simp: bindE_def opt_truthy_def freed_by_refl)
        next
          case dead: True
          then have "catchE (jobIsActive E j) (\<lambda>e. ret True) ?r0 = Some (Inr False, ?r1)"
            using asked(1) by (auto simp: catchE_def ret_def)
          with Cons.prems free got Inr v True have run: "bindE (releaseIfHeld E n j) (\<lambda>released.
              reconcile_from E held (jobIsActive E) pool (if released then freed @ [n] else freed)) ?r1 = Some (x, r1)"
            by (simp add: bindE_def)
          obtain w r2 where rel: "releaseIfHeld E n j ?r1 = Some (w, r2)" using settlesD [OF settles_camera_slot(3)] by blast
          from releaseIfHeld_frees [OF assms(1) rel] kept1 dead asked(2) free have
            trace: "ru_trace r2 = ru_trace r @ [EvLookup (leaseKey n), EvJobActive j ans, EvFree n]" and
            freed: "freed_by (set (n # pool) - held) (holder (ru_env r)) (holder (ru_env r2))
              [EvLookup (leaseKey n), EvJobActive j ans, EvFree n]"
            by (auto simp: freed_by_def)
          show ?thesis
          proof (cases w)
            case (Inl e)
            with run rel have "r1 = r2" by (simp add: bindE_def)
            with trace freed show ?thesis by blast
          next
            case (Inr b)
            with run rel have "reconcile_from E held (jobIsActive E) pool (if b then freed @ [n] else freed) r2 = Some (x, r1)"
              by (simp add: bindE_def)
            from rest [OF this trace freed] show ?thesis .
          qed
        qed
      qed
    qed
  qed
qed

lemma settles_jobIsActive [settles_intros]: "settles (jobIsActive E j)"
  by (simp add: jobIsActive_def settles_intros)

lemma settles_reconcile [settles_intros]: "settles (reconcile_from E held (jobIsActive E) pool freed)"
  by (induction pool arbitrary: freed) (auto intro!: settles_intros)

lemma console_keeps: "consoleE E msg r = Some (x, r1) \<Longrightarrow> redis_reads E holder \<Longrightarrow>
    holder (ru_env r1) = holder (ru_env r) \<and> x = Inr () \<and> ru_trace r1 = ru_trace r @ [EvLog INFO msg]"
  by (auto simp: consoleE_def logE_def perform_def redis_reads_def)

lemma list_keeps:
  "listByLabel E l v r = Some (x, r1) \<Longrightarrow> redis_reads E holder \<Longrightarrow> holder (ru_env r1) = holder (ru_env r)"
  by (auto simp: listByLabel_def docker_def execE_def perform_def bindE_def ret_def throwE_def Let_def redis_reads_def
      split: prod.splits exec_outcome.splits) (metis snd_conv)+

text \<open>
  Returning leases to the pool never fails and takes no camera from anyone who may still use
  it, as long as Redis does what it promises: the only leases that change are dropped ones, of the
  pool, of a camera no listed container carries as its label, and whose holder was just found not to
  be live. When the containers cannot be listed, no lease changes.
\<close>

theorem reconcile_frees_only_stale:
  assumes "del_if_law E holder" and "redis_reads E holder"
  shows "\<exists>freed r1 evs. reconcileCameraLeases E V r = Some (Inr freed, r1) \<and> ru_trace r1 = ru_trace r @ evs
    \<and> (holder (ru_env r1) = holder (ru_env r)
       \<or> (\<exists>cs r0. listByLabel E OWNER_LABEL OWNER_VALUE r = Some (Inr cs, r0)
            \<and> freed_by (set (cameraPool V) - held_cameras V cs) (holder (ru_env r)) (holder (ru_env r1)) evs))"
proof -
  have calm: "settles (reconcileCameraLeases E V)" "throws (\<lambda>e. False) (reconcileCameraLeases E V)"
    unfolding reconcileCameraLeases_def reconcileCameraSlots_def consoleE_def
    by (auto intro!: settles_intros throws_intros split: sum.splits)
  obtain x r1 where run: "reconcileCameraLeases E V r = Some (x, r1)" using settlesD [OF calm(1)] by blast
  with throwsD [OF calm(2)] obtain freed where x: "x = Inr freed" by (cases x) blast+
  obtain y r0 where listed: "listByLabel E OWNER_LABEL OWNER_VALUE r = Some (y, r0)"
    using settlesD [OF settles_docker_ops(6)] by blast
  have "emits (\<lambda>e. True) (listByLabel E OWNER_LABEL OWNER_VALUE)" by (rule emits_mono [OF plain_logs(5)]) simp
  from emitsD [OF this listed] obtain ev0 where ev0: "ru_trace r0 = ru_trace r @ ev0" by blast
  note kept = list_keeps [OF listed assms(2)]
  show ?thesis
  proof (cases y)
    case (Inl e)
    with run listed have "thenE (consoleE E (''[reaper] could not list containers, skipping camera reconciliation: ''
        @ exn_message e)) (ret []) r0 = Some (x, r1)"
      by (simp add: reconcileCameraLeases_def attemptE_def bindE_def)
    then have "holder (ru_env r1) = holder (ru_env r)" "\<exists>evs. ru_trace r1 = ru_trace r0 @ evs"
      using kept console_keeps [OF _ assms(2)] by (auto elim!: bindE_Some)
    with run x ev0 show ?thesis by auto
  next
    case (Inr cs)
    obtain z r2 where loop: "reconcile_from E (held_cameras V cs) (jobIsActive E) (cameraPool V) [] r0 = Some (z, r2)"
      using settlesD [OF settles_reconcile] by blast
    from reconcile_from_frees [OF assms loop] obtain ev1 where ev1: "ru_trace r2 = ru_trace r0 @ ev1"
      "freed_by (set (cameraPool V) - held_cameras V cs) (holder (ru_env r0)) (holder (ru_env r2)) ev1" by blast
    have "holder (ru_env r1) = holder (ru_env r2) \<and> (\<exists>ev2. ru_trace r1 = ru_trace r2 @ ev2)"
    proof (cases z)
      case (Inl e)
      with run listed Inr loop have "thenE (consoleE E (''[reaper] camera reconciliation failed: '' @ exn_message e)) (ret []) r2
          = Some (x, r1)"
        by (simp add: reconcileCameraLeases_def reconcileCameraSlots_def attemptE_def bindE_def catchE_def)
      then show ?thesis using console_keeps [OF _ assms(2)] by (auto elim!: bindE_Some)
    next
      case (Inr fs)
      let ?say = "consoleE E (''[reaper] returned '' @ show_nat (length fs)
                        @ '' camera device(s) to the pool: '' @ js_join '', '' (map show_nat fs))"
      have "settles (whenE (fs \<noteq> []) ?say)" by (simp add: consoleE_def settles_intros)
      from settlesD [OF this] obtain u r3 where said: "whenE (fs \<noteq> []) ?say r2 = Some (u, r3)" by blast
      then have u: "u = Inr ()" "holder (ru_env r3) = holder (ru_env r2) \<and> (\<exists>ev2. ru_trace r3 = ru_trace r2 @ ev2)"
        using console_keeps [OF _ assms(2)] by (auto simp: whenE_def split: if_splits)
      with run listed \<open>y = Inr cs\<close> loop Inr said have "r1 = r3"
        by (simp add: reconcileCameraLeases_def reconcileCameraSlots_def attemptE_def bindE_def catchE_def ret_def)
      with u show ?thesis by simp
    qed
    then obtain ev2 where ev2: "holder (ru_env r1) = holder (ru_env r2)" "ru_trace r1 = ru_trace r2 @ ev2" by blast
    have "freed_by (set (cameraPool V) - held_cameras V cs) (holder (ru_env r)) (holder (ru_env r1)) (ev0 @ ev1 @ ev2)"
      using freed_by_mono [OF ev1(2) order.refl, of "ev0 @ ev1 @ ev2"] kept ev2(1) by auto
    with run x listed Inr ev0 ev1(1) ev2(2) show ?thesis by auto
  qed
qed

end
