(* ===== verification/Container_Safety.thy ===== *)
theory Container_Safety
  imports Redroid Emulator
begin

text \<open>
  What the container providers leave behind: which containers are running, read off the trace, and
  in which order a failed acquisition or a release removes them.
\<close>

subsection \<open>What a run has claimed and not given back\<close>

datatype resource = Container string | Lease nat

definition gain :: "event \<Rightarrow> resource option" where
  "gain e = (case e of
       EvExec cmd args (ExecOk so se) \<Rightarrow>
         if cmd = ''docker'' \<and> take 3 args = [''run'', ''--detach'', ''--name''] \<and> 3 < length args
         then Some (Container (args ! 3)) else None
     | EvLease n True \<Rightarrow> Some (Lease n)
     | _ \<Rightarrow> None)"

definition loss :: "event \<Rightarrow> resource option" where
  "loss e = (case e of EvFree n \<Rightarrow> Some (Lease n) | _ \<Rightarrow> map_option Container (removal_of e))"

definition losses :: "event list \<Rightarrow> resource list" where
  "losses evs = List.map_filter loss evs"

lemma losses_simps [simp]:
  "losses [] = []" "losses (a @ b) = losses a @ losses b"
  "losses (e # es) = (case loss e of None \<Rightarrow> [] | Some n \<Rightarrow> [n]) @ losses es"
  by (simp_all add: losses_def map_filter_def split: option.splits)

definition live_step :: "event \<Rightarrow> resource set \<Rightarrow> resource set" where
  "live_step e S = (case (gain e, loss e) of
       (Some n, _) \<Rightarrow> insert n S | (None, Some n) \<Rightarrow> S - {n} | _ \<Rightarrow> S)"

text \<open>
  A container whose removal was asked for counts as removed, and a lease whose release was asked for
  as released: what such a call leaves when it fails is the reaper's.
\<close>

definition live :: "event list \<Rightarrow> resource set" where
  "live evs = fold live_step evs {}"

lemma live_simps [simp]:
  "live [] = {}" "live (evs @ [e]) = live_step e (live evs)"
  by (simp_all add: live_def)

lemma take3_hd: "take 3 xs = a # l \<Longrightarrow> hd xs = a"
  by (cases xs) auto

lemma live_plain: "plain_event e \<Longrightarrow> live_step e S = S"
  by (auto simp: plain_event_def live_step_def gain_def loss_def removal_of_def split: event.splits exec_outcome.splits
      dest!: take3_hd)

lemma live_idle: "\<forall>e \<in> set evs. plain_event e \<Longrightarrow> live (pre @ evs) = live pre"
  by (induction evs rule: rev_induct) (simp_all add: live_plain flip: append_assoc)

lemma plain_live: "plain m \<Longrightarrow> m r = Some (x, r1) \<Longrightarrow> live (ru_trace r1) = live (ru_trace r)"
  by (drule (1) emitsD) (elim exE conjE, simp add: live_idle)

text \<open>A computation that starts no container but those of \<open>A\<close>, and one that removes those of \<open>A\<close>.\<close>

definition starts :: "resource set \<Rightarrow> ('s, 'a) eff \<Rightarrow> bool" where
  "starts A m \<longleftrightarrow> (\<forall>r x r1. m r = Some (x, r1) \<longrightarrow> live (ru_trace r1) \<subseteq> live (ru_trace r) \<union> A)"

definition clears :: "resource set \<Rightarrow> ('s, 'a) eff \<Rightarrow> bool" where
  "clears A m \<longleftrightarrow> (\<forall>r x r1. m r = Some (x, r1) \<longrightarrow> live (ru_trace r1) \<subseteq> live (ru_trace r) - A)"

named_theorems starts_intros "which containers a computation starts"

lemma startsD: "starts A m \<Longrightarrow> m r = Some (x, r1) \<Longrightarrow> live (ru_trace r1) \<subseteq> live (ru_trace r) \<union> A"
  by (simp add: starts_def)

lemma clearsD: "clears A m \<Longrightarrow> m r = Some (x, r1) \<Longrightarrow> live (ru_trace r1) \<subseteq> live (ru_trace r) - A"
  by (simp add: clears_def)

lemma plain_starts: "plain m \<Longrightarrow> starts A m"
  by (auto simp: starts_def plain_live)

lemma clears_starts: "clears A m \<Longrightarrow> starts B m"
  unfolding clears_def starts_def by blast

lemma starts_bind [starts_intros]:
  assumes "starts A m" and "\<And>x. starts A (f x)"
  shows "starts A (bindE m f)"
  unfolding starts_def
  by (auto elim!: bindE_Some dest!: startsD [OF assms(1)] startsD [OF assms(2)])

lemma starts_ret [starts_intros]: "starts A (ret x)" "starts A (throwE e)" "starts A (liftE z)" "starts A (readE g)"
  by (auto simp: starts_def)

lemma starts_catch [starts_intros]:
  assumes "starts A m" and "\<And>e. starts A (h e)"
  shows "starts A (catchE m h)"
  unfolding starts_def
proof (intro allI impI)
  fix r x r2 assume "catchE m h r = Some (x, r2)"
  then consider y where "m r = Some (Inr y, r2)" | e r1 where "m r = Some (Inl e, r1)" "h e r1 = Some (x, r2)"
    by (auto simp: catchE_def split: option.splits sum.splits prod.splits)
  then show "live (ru_trace r2) \<subseteq> live (ru_trace r) \<union> A"
    by cases (use startsD [OF assms(1)] startsD [OF assms(2)] in blast)+
qed

lemma starts_more [starts_intros]:
  "starts A m \<Longrightarrow> starts A (ignoreE m)" "starts A m \<Longrightarrow> starts A (attemptE m)"
  "(b \<Longrightarrow> starts A m) \<Longrightarrow> (\<not> b \<Longrightarrow> starts A k) \<Longrightarrow> starts A (if b then m else k)"
proof -
  show ignore: "starts A m \<Longrightarrow> starts A (ignoreE m)" by (simp add: ignoreE_def starts_intros)
  show "starts A m \<Longrightarrow> starts A (attemptE m)" by (auto simp: starts_def attemptE_def split: option.splits)
  show "(b \<Longrightarrow> starts A m) \<Longrightarrow> (\<not> b \<Longrightarrow> starts A k) \<Longrightarrow> starts A (if b then m else k)" by simp
qed

lemma starts_tryL [starts_intros]:
  "starts A m \<Longrightarrow> (\<And>x. starts A (k x)) \<Longrightarrow> starts A (tryL m lo k)"
  unfolding tryL_def by (intro starts_intros) (auto split: sum.splits intro: starts_intros)

lemma starts_from:
  assumes "starts A m" and "yields P m" and "\<And>x. P x \<Longrightarrow> starts A (f x)"
  shows "starts A (bindE m f)"
  unfolding starts_def
proof (intro allI impI)
  fix r y r2 assume "bindE m f r = Some (y, r2)"
  then show "live (ru_trace r2) \<subseteq> live (ru_trace r) \<union> A"
  proof (rule bindE_Some)
    fix x r1 assume m: "m r = Some (Inr x, r1)" and f: "f x r1 = Some (y, r2)"
    from startsD [OF assms(1) m] startsD [OF assms(3) [OF yieldsD [OF assms(2) m]] f] show ?thesis by blast
  qed (use startsD [OF assms(1)] in blast)
qed

text \<open>The two calls of Docker that change what is running.\<close>

lemma docker_remove_clears: "clears {Container n} (docker_remove E n)"
  unfolding clears_def docker_remove_def docker_def
  by (auto simp: execE_def perform_def bindE_def ret_def throwE_def Let_def live_step_def gain_def loss_def removal_of_def
      split: prod.splits exec_outcome.splits)

lemma take_run_args: "take 3 (run_args spec) = [''run'', ''--detach'', ''--name'']" "run_args spec ! 3 = rs_name spec"
  "3 < length (run_args spec)"
  by (simp_all add: run_args_def)

lemma docker_run_trace:
  assumes "docker_run E spec sig r = Some (x, r1)"
  shows "\<exists>out. ru_trace r1 = ru_trace r @ [EvExec ''docker'' (run_args spec) out]
    \<and> (\<forall>e. x = Inl e \<longrightarrow> live (ru_trace r1) = live (ru_trace r))
    \<and> (\<forall>y. x = Inr y \<longrightarrow> (\<exists>so se. out = ExecOk so se) \<and> live (ru_trace r1) = insert (Container (rs_name spec)) (live (ru_trace r)))"
proof -
  obtain out s where out: "ae_exec E ''docker'' (run_args spec) sig DOCKER_TIMEOUT_MS (ru_env r) = (out, s)" by fastforce
  have "hd (run_args spec) = ''run''" "\<not> take 3 (run_args spec) = [''rm'', ''--force'', ''--volumes'']"
    by (simp_all add: run_args_def)
  with assms out show ?thesis
    by (intro exI [of _ out], cases out)
      (auto simp: docker_run_def docker_def execE_def perform_def bindE_def ret_def throwE_def Let_def
        live_step_def gain_def loss_def removal_of_def take_run_args)
qed

lemma starts_docker_run [starts_intros]: "Container (rs_name spec) \<in> A \<Longrightarrow> starts A (docker_run E spec sig)"
  unfolding starts_def
proof (intro allI impI)
  fix r x r1 assume A: "Container (rs_name spec) \<in> A" and run: "docker_run E spec sig r = Some (x, r1)"
  from docker_run_trace [OF run] A show "live (ru_trace r1) \<subseteq> live (ru_trace r) \<union> A" by (cases x) auto
qed

lemma starts_docker_remove [starts_intros]: "starts A (docker_remove E n)"
  by (rule clears_starts [OF docker_remove_clears])

lemma plain_log [starts_intros]: "starts A (logE E l m d)"
  by (rule plain_starts) (intro emits_intros, simp)

text \<open>A removal that is logged, and what follows it.\<close>

lemma clears_then:
  assumes "clears A m" and "\<And>x. starts {} (f x)"
  shows "clears A (bindE m f)"
  unfolding clears_def
  by (auto elim!: bindE_Some dest!: clearsD [OF assms(1)] startsD [OF assms(2)])

lemma clears_catch:
  assumes "clears A m" and "\<And>e. starts {} (h e)"
  shows "clears A (catchE m h)"
  unfolding clears_def
proof (intro allI impI)
  fix r x r2 assume "catchE m h r = Some (x, r2)"
  then consider y where "m r = Some (Inr y, r2)" | e r1 where "m r = Some (Inl e, r1)" "h e r1 = Some (x, r2)"
    by (auto simp: catchE_def split: option.splits sum.splits prod.splits)
  then show "live (ru_trace r2) \<subseteq> live (ru_trace r) - A"
    by cases (use clearsD [OF assms(1)] startsD [OF assms(2)] in blast)+
qed

text \<open>A computation that always returns, starts nothing and removes just those containers, in that order.\<close>

definition removes :: "resource list \<Rightarrow> ('s, unit) eff \<Rightarrow> bool" where
  "removes ns m \<longleftrightarrow> (\<forall>r. \<exists>r1 evs. m r = Some (Inr (), r1) \<and> ru_trace r1 = ru_trace r @ evs
     \<and> losses evs = ns \<and> (\<forall>e \<in> set evs. gain e = None))"

lemma removesD: "removes ns m \<Longrightarrow> \<exists>r1 evs. m r = Some (Inr (), r1) \<and> ru_trace r1 = ru_trace r @ evs
     \<and> losses evs = ns \<and> (\<forall>e \<in> set evs. gain e = None)"
  by (simp add: removes_def)

lemma removes_then:
  assumes "removes a m" and "removes b k"
  shows "removes (a @ b) (thenE m k)"
  unfolding removes_def
proof
  fix r
  from removesD [OF assms(1)] obtain r1 e1 where 1: "m r = Some (Inr (), r1)" "ru_trace r1 = ru_trace r @ e1"
    "losses e1 = a" "\<forall>e \<in> set e1. gain e = None" by blast
  from removesD [OF assms(2)] obtain r2 e2 where 2: "k r1 = Some (Inr (), r2)" "ru_trace r2 = ru_trace r1 @ e2"
    "losses e2 = b" "\<forall>e \<in> set e2. gain e = None" by blast
  from 1 2 show "\<exists>r1 evs. thenE m k r = Some (Inr (), r1) \<and> ru_trace r1 = ru_trace r @ evs
     \<and> losses evs = a @ b \<and> (\<forall>e \<in> set evs. gain e = None)"
    by (intro exI [of _ r2] exI [of _ "e1 @ e2"]) (auto simp: bindE_def)
qed

lemma plain_neither: "plain_event e \<Longrightarrow> loss e = None \<and> gain e = None"
  by (auto simp: plain_event_def gain_def loss_def removal_of_def split: event.splits exec_outcome.splits dest!: take3_hd)

lemma removes_nothing:
  assumes "plain m" and "returns (\<lambda>_. True) m"
  shows "removes [] m"
  unfolding removes_def
proof
  fix r
  obtain r1 where m: "m r = Some (Inr (), r1)" using returnsD [OF assms(2)] by auto
  from emitsD [OF assms(1) m] m show "\<exists>r1 evs. m r = Some (Inr (), r1) \<and> ru_trace r1 = ru_trace r @ evs
     \<and> losses evs = [] \<and> (\<forall>e \<in> set evs. gain e = None)"
    by (fastforce simp: losses_def map_filter_def filter_empty_conv dest: plain_neither)
qed

lemma removes_ret: "removes [] (ret ())"
  by (auto simp: removes_def ret_def)

lemma remove_removes:
  "removes [Container n] (remove_and_log E n a b c)" "removes [Container n] (gateway_remove E n)" "removes [Container n] (bridge_remove E n i)"
proof -
  show all: "removes [Container n] (remove_and_log E n a b c)" for n a b c
    unfolding removes_def
  proof
    fix r
    show "\<exists>r1 evs. remove_and_log E n a b c r = Some (Inr (), r1) \<and> ru_trace r1 = ru_trace r @ evs
        \<and> losses evs = [Container n] \<and> (\<forall>e \<in> set evs. gain e = None)"
      by (auto simp: remove_and_log_def docker_remove_def docker_def execE_def perform_def bindE_def ret_def throwE_def
          catchE_def logE_def Let_def gain_def losses_def map_filter_def loss_def removal_of_def
          split: prod.splits exec_outcome.splits option.splits)
  qed
  show "removes [Container n] (gateway_remove E n)" "removes [Container n] (bridge_remove E n i)"
    by (simp_all add: gateway_remove_def bridge_remove_def all)
qed

lemma live_removed: "\<forall>e \<in> set evs. gain e = None \<Longrightarrow> live (pre @ evs) = live pre - set (losses evs)"
proof (induction evs rule: rev_induct)
  case (snoc e evs)
  then have "live (pre @ evs) = live pre - set (losses evs)" "gain e = None" by auto
  then show ?case by (auto simp: live_step_def simp flip: append_assoc split: option.splits)
qed simp

lemma removes_clears: "removes ns m \<Longrightarrow> clears (set ns) m"
  unfolding clears_def by (metis live_removed option.inject order.refl prod.inject removesD)

lemmas remove_clears = remove_removes [THEN removes_clears, simplified]

lemma clears_both:
  assumes "clears A m" and "returns (\<lambda>_. True) m" and "clears B k"
  shows "clears (A \<union> B) (thenE m k)"
  unfolding clears_def
proof (intro allI impI)
  fix r x r2 assume run: "thenE m k r = Some (x, r2)"
  obtain y r1 where m: "m r = Some (Inr y, r1)" using returnsD [OF assms(2)] by blast
  with run have "k r1 = Some (x, r2)" by (simp add: bindE_def)
  from clearsD [OF assms(1) m] clearsD [OF assms(3) this] show "live (ru_trace r2) \<subseteq> live (ru_trace r) - (A \<union> B)" by blast
qed

lemma clears_after:
  assumes "starts {} m" and "returns (\<lambda>_. True) m" and "\<And>y. clears A (k y)"
  shows "clears A (bindE m k)"
  unfolding clears_def
proof (intro allI impI)
  fix r x r2 assume run: "bindE m k r = Some (x, r2)"
  obtain y r1 where m: "m r = Some (Inr y, r1)" using returnsD [OF assms(2)] by blast
  with run have "k y r1 = Some (x, r2)" by (simp add: bindE_def)
  from startsD [OF assms(1) m] clearsD [OF assms(3) this] show "live (ru_trace r2) \<subseteq> live (ru_trace r) - A" by blast
qed

text \<open>
  A start that fails leaves nothing of its own running: the container whose start failed was not
  started, and one that did not come up was removed.
\<close>

lemma catchE_Inl:
  assumes "catchE m h r = Some (Inl e, r1)"
  obtains d r2 where "m r = Some (Inl d, r2)" "h d r2 = Some (Inl e, r1)"
  using assms by (auto simp: catchE_def split: option.splits sum.splits prod.splits)

lemma give_up_clears: "clears {Container n} rm \<Longrightarrow> clears {Container n} (give_up E n rm e)"
  unfolding give_up_def
  by (intro clears_after clears_then plain_starts plain_logs returns_calm settles_intros probes_calm starts_intros)

lemma start_fails_clean:
  fixes watch :: "('s, 'w) eff"
  assumes "\<And>now. rs_name (spec now) = n" and "plain watch" and "clears {Container n} rm"
    and "bindE (nowE E) (\<lambda>now. thenE (docker_run E (spec now) sig) (bindE (catchE watch (give_up E n rm)) (\<lambda>w. ret (f w)))) r
      = Some (Inl e, r1)"
  shows "live (ru_trace r1) \<subseteq> live (ru_trace r)"
proof -
  let ?spec = "spec (ae_clock E (ru_env r))"
  from assms(4) have "thenE (docker_run E ?spec sig) (bindE (catchE watch (give_up E n rm)) (\<lambda>w. ret (f w))) r = Some (Inl e, r1)"
    by (simp add: nowE_def bindE_def readE_def)
  then show ?thesis
  proof (rule bindE_Some)
    fix d assume "docker_run E ?spec sig r = Some (Inl d, r1)"
    from docker_run_trace [OF this] show ?thesis by auto
  next
    fix y r2 assume up: "docker_run E ?spec sig r = Some (Inr y, r2)"
      and "bindE (catchE watch (give_up E n rm)) (\<lambda>w. ret (f w)) r2 = Some (Inl e, r1)"
    from this(2) have "catchE watch (give_up E n rm) r2 = Some (Inl e, r1)" by (auto elim!: bindE_Some)
    then show ?thesis
    proof (rule catchE_Inl)
      fix d r3 assume "watch r2 = Some (Inl d, r3)" "give_up E n rm d r3 = Some (Inl e :: (exn, 'w) result, r1)"
      with plain_live [OF assms(2)] clearsD [OF give_up_clears [OF assms(3)]]
      have "live (ru_trace r1) \<subseteq> live (ru_trace r2) - {Container n}" by metis
      with docker_run_trace [OF up] assms(1) show ?thesis by auto
    qed
  qed
qed

text \<open>A step that cannot throw before one that does.\<close>

lemma after_calm:
  assumes "starts {} m" and "throws (\<lambda>e. False) m" and "bindE m k r = Some (Inl e, r1)"
  obtains y r2 where "k y r2 = Some (Inl e, r1)" "live (ru_trace r2) \<subseteq> live (ru_trace r)"
  using assms(3)
proof (rule bindE_Some)
  fix d assume "m r = Some (Inl d, r1)"
  with throwsD [OF assms(2)] show ?thesis by blast
next
  fix y r2 assume "m r = Some (Inr y, r2)" "k y r2 = Some (Inl e, r1)"
  with that startsD [OF assms(1)] show ?thesis by blast
qed

lemma watched_fails_clean:
  fixes watch :: "('s, 'w) eff"
  assumes "\<And>now. rs_name (spec now) = n" and "plain watch" and "clears {Container n} rm"
    and "thenE (ignoreE (docker_remove E k)) (thenE (logE E l t d) (bindE (nowE E) (\<lambda>now.
      thenE (docker_run E (spec now) sig) (bindE (catchE watch (give_up E n rm)) (\<lambda>w. ret (f w)))))) r
      = Some (Inl e, r1)"
  shows "live (ru_trace r1) \<subseteq> live (ru_trace r)"
proof -
  obtain r2 where 2: "thenE (logE E l t d) (bindE (nowE E) (\<lambda>now.
      thenE (docker_run E (spec now) sig) (bindE (catchE watch (give_up E n rm)) (\<lambda>w. ret (f w))))) r2 = Some (Inl e, r1)"
    "live (ru_trace r2) \<subseteq> live (ru_trace r)"
    using after_calm [OF starts_more(1) [OF starts_docker_remove] throws_ignore assms(4)] by blast
  obtain r3 where 3: "bindE (nowE E) (\<lambda>now.
      thenE (docker_run E (spec now) sig) (bindE (catchE watch (give_up E n rm)) (\<lambda>w. ret (f w)))) r3 = Some (Inl e, r1)"
    "live (ru_trace r3) \<subseteq> live (ru_trace r2)"
    using after_calm [OF plain_log _ 2(1)] by (auto simp: logE_def intro: throws_intros)
  from start_fails_clean [OF assms(1-3) 3(1)] 2 3 show ?thesis by blast
qed

lemma startProxyGateway_fails_clean:
  assumes "startProxyGateway E opts r = Some (Inl e, r1)"
  shows "live (ru_trace r1) \<subseteq> live (ru_trace r)"
  by (rule watched_fails_clean [OF _ _ remove_clears(2) assms [unfolded startProxyGateway_def Let_def]])
    (auto simp: gateway_spec_def assertStillRunning_def intro!: emits_intros)

lemma startCameraBridge_fails_clean:
  assumes "startCameraBridge E opts r = Some (Inl e, r1)"
  shows "live (ru_trace r1) \<subseteq> live (ru_trace r)"
  by (rule watched_fails_clean [OF _ _ remove_clears(3) assms [unfolded startCameraBridge_def Let_def]])
    (auto simp: bridge_spec_def assertStillFeeding_def intro!: emits_intros)

subsection \<open>A try block whose variables name what it holds\<close>

text \<open>
  \<open>covered names C m\<close>: however the block \<open>m\<close> ends, what it claimed is among what the final
  variables name, and so is \<open>C\<close>, which was claimed before.
\<close>

definition covered :: "('l \<Rightarrow> resource set) \<Rightarrow> resource set \<Rightarrow> ('s, 'x \<times> 'l) eff \<Rightarrow> bool" where
  "covered names C m \<longleftrightarrow> (\<forall>r x lo r1. m r = Some (Inr (x, lo), r1) \<longrightarrow>
     live (ru_trace r1) \<subseteq> live (ru_trace r) \<union> names lo \<and> C \<subseteq> names lo)"

lemma coveredD: "covered names C m \<Longrightarrow> m r = Some (Inr (x, lo), r1) \<Longrightarrow>
     live (ru_trace r1) \<subseteq> live (ru_trace r) \<union> names lo \<and> C \<subseteq> names lo"
  by (simp add: covered_def)

lemma covered_ret: "C \<subseteq> names lo \<Longrightarrow> covered names C (ret (x, lo))"
  by (auto simp: covered_def ret_def)

definition claims :: "resource set \<Rightarrow> ('a \<Rightarrow> resource set) \<Rightarrow> ('s, 'a) eff \<Rightarrow> bool" where
  "claims F D m \<longleftrightarrow> (\<forall>r x r1. m r = Some (x, r1) \<longrightarrow> live (ru_trace r1) \<subseteq> live (ru_trace r) \<union>
     (case x of Inl e \<Rightarrow> F | Inr v \<Rightarrow> D v))"

lemma claims_starts: "starts A m \<Longrightarrow> claims A (\<lambda>_. A) m"
  by (auto simp: claims_def starts_def split: sum.splits)

lemma docker_run_claims: "rs_name spec = n \<Longrightarrow> claims {} (\<lambda>_. {Container n}) (docker_run E spec sig)"
  unfolding claims_def by (intro allI impI, drule docker_run_trace) (auto split: sum.splits)

lemma claims_then:
  assumes "starts {} m" and "\<And>u. claims F D (k u)"
  shows "claims F D (bindE m k)"
  unfolding claims_def
proof (intro allI impI)
  fix r x r2 assume "bindE m k r = Some (x, r2)"
  then show "live (ru_trace r2) \<subseteq> live (ru_trace r) \<union> (case x of Inl e \<Rightarrow> F | Inr v \<Rightarrow> D v)"
  proof (rule bindE_Some)
    fix u r1 assume "m r = Some (Inr u, r1)" "k u r1 = Some (x, r2)"
    with startsD [OF assms(1)] assms(2) [of u] show ?thesis unfolding claims_def by blast
  qed (use startsD [OF assms(1)] in blast)
qed

lemma covered_tryL:
  assumes "claims {} D m" and "C \<subseteq> names lo" and "yields Q m"
    and "\<And>v. Q v \<Longrightarrow> covered names (C \<union> D v) (k v)"
  shows "covered names C (tryL m lo k)"
  unfolding covered_def
proof (intro allI impI)
  fix r x lo' r2 assume "tryL m lo k r = Some (Inr (x, lo'), r2)"
  then consider e where "m r = Some (Inl e, r2)" "lo' = lo"
    | v r1 where "m r = Some (Inr v, r1)" "k v r1 = Some (Inr (x, lo'), r2)"
    by (auto simp: tryL_def bindE_def attemptE_def ret_def split: option.splits sum.splits)
  then show "live (ru_trace r2) \<subseteq> live (ru_trace r) \<union> names lo' \<and> C \<subseteq> names lo'"
  proof cases
    case 1
    with assms(1,2) show ?thesis by (fastforce simp: claims_def)
  next
    case 2
    with assms(1) have "live (ru_trace r1) \<subseteq> live (ru_trace r) \<union> D v" by (fastforce simp: claims_def)
    moreover from coveredD [OF assms(4) 2(2)] yieldsD [OF assms(3) 2(1)]
    have "live (ru_trace r2) \<subseteq> live (ru_trace r1) \<union> names lo' \<and> C \<union> D v \<subseteq> names lo'" by blast
    ultimately show ?thesis by blast
  qed
qed


lemma starts_first:
  assumes "\<forall>A B x r1. good A x r1 \<longrightarrow> A \<subseteq> B \<longrightarrow> good B x r1"
    and "\<forall>A e r1. live (ru_trace r1) \<subseteq> A \<longrightarrow> good A (Inl e) r1" and "starts {} m"
    and "\<And>u r x r1. k u r = Some (x, r1) \<Longrightarrow> good (live (ru_trace r)) x r1"
  shows "bindE m k r = Some (x, r1) \<Longrightarrow> good (live (ru_trace r)) x r1"
proof (erule bindE_Some)
  fix e assume "m r = Some (Inl e, r1)" and x: "x = Inl e"
  from startsD [OF assms(3) this(1)] assms(2) show "good (live (ru_trace r)) x r1" unfolding x by simp
next
  fix u r2 assume "m r = Some (Inr u, r2)" and k: "k u r2 = Some (x, r1)"
  from startsD [OF assms(3) this(1)] have "live (ru_trace r2) \<subseteq> live (ru_trace r)" by simp
  with assms(4) [OF k] assms(1) show "good (live (ru_trace r)) x r1" by blast
qed

lemma covered_step:
  "claims {} D m \<Longrightarrow> C \<subseteq> names lo \<Longrightarrow> (\<And>v. covered names (C \<union> D v) (k v)) \<Longrightarrow> covered names C (tryL m lo k)"
  by (rule covered_tryL [where Q = "\<lambda>_. True"]) (simp_all add: yields_def)

subsection \<open>redroidProvider.ts\<close>

definition gateway_resource :: "'s gateway option \<Rightarrow> resource list" where
  "gateway_resource gw = (case gw of Some g \<Rightarrow> [Container (gt_name g)] | None \<Rightarrow> [])"

lemma gateway_resource_simps [simp]:
  "gateway_resource None = []" "gateway_resource (Some g) = [Container (gt_name g)]"
  by (simp_all add: gateway_resource_def)

lemma gateway_removed:
  "own_gateway E j gw \<Longrightarrow> removes (gateway_resource gw) (case gw of Some g \<Rightarrow> gt_remove g | None \<Rightarrow> ret ())"
  by (cases gw) (auto simp: own_gateway_def removes_ret intro: remove_removes)

definition gateway_of :: "'s device_env \<Rightarrow> proxy_runtime option \<Rightarrow> string \<Rightarrow> 's gateway option \<Rightarrow> bool" where
  "gateway_of E px j gw \<longleftrightarrow> own_gateway E j gw
     \<and> gateway_resource gw = (if px = None then [] else [Container (gatewayContainerName j)])"

lemma start_gateway_of: "yields (gateway_of E px (cx_jobId cx)) (start_gateway E px cx cfg n c via)"
proof (cases px)
  case (Some p)
  show ?thesis unfolding start_gateway_def Some option.case
    by (rule yields_bind [OF startProxyGateway_shape]) (auto simp: gateway_of_def own_gateway_def intro!: yields_intros)
qed (auto simp: start_gateway_def gateway_of_def own_gateway_def intro!: yields_intros)

lemmas remove_starts [starts_intros] = remove_clears [THEN clears_starts]

lemma starts_give_up [starts_intros]: "starts A rm \<Longrightarrow> starts A (give_up E n rm e)"
  unfolding give_up_def by (intro starts_intros) (auto intro: plain_starts plain_logs)

lemma startProxyGateway_starts: "starts {Container (gatewayContainerName (go_jobId opts))} (startProxyGateway E opts)"
  unfolding startProxyGateway_def Let_def nowE_def
  by (intro starts_intros plain_log plain_starts [OF plain_attach])
    (auto simp: gateway_spec_def assertStillRunning_def intro: plain_starts [OF plain_watch])

lemma start_gateway_claims:
  "claims {} (\<lambda>gw. set (gateway_resource gw)) (start_gateway E px cx cfg n c via)"
proof (cases px)
  case None
  then show ?thesis by (simp add: start_gateway_def claims_def ret_def)
next
  case (Some p)
  show ?thesis
    unfolding claims_def
  proof (intro allI impI)
    fix r x r1 assume run: "start_gateway E px cx cfg n c via r = Some (x, r1)"
    show "live (ru_trace r1) \<subseteq> live (ru_trace r) \<union> (case x of Inl e \<Rightarrow> {} | Inr gw \<Rightarrow> set (gateway_resource gw))"
    proof (cases x)
      case (Inl e)
      with run Some show ?thesis
        by (auto simp: start_gateway_def elim!: bindE_Some dest!: startProxyGateway_fails_clean)
    next
      case (Inr gw)
      with yieldsD [OF start_gateway_of] run have "gateway_of E px (cx_jobId cx) gw" by blast
      moreover have "live (ru_trace r1) \<subseteq> live (ru_trace r) \<union> {Container (gatewayContainerName (cx_jobId cx))}"
        using run Some unfolding start_gateway_def
        by (auto elim!: bindE_Some dest!: startsD [OF startProxyGateway_starts])
      ultimately show ?thesis using Inr Some by (simp add: gateway_of_def)
    qed
  qed
qed

lemma redroid_release_removes:
  assumes "own_gateway E j gw"
  shows "removes (Container name # gateway_resource gw) (redroid_release E opts name gw s)"
  using removes_then [OF removes_nothing [OF disconnect_calm(2,3)]
      removes_then [OF remove_removes(1) gateway_removed [OF assms]]]
  by (simp add: redroid_release_def)

lemma redroid_prepare_plain: "plain (redroid_prepare E cfg opts cx gw serial)"
  unfolding redroid_prepare_def Let_def
  by (rule emits_from [OF _ waitUntilUsable_device], intro emits_intros)
    (auto intro!: emits_intros adb.pinEgress_plain adb.ensure_plain split: option.splits)

lemma redroid_try_starts: "starts {Container (containerName (cx_jobId cx))} (redroid_try E cfg opts cx gw)"
  unfolding redroid_try_def Let_def nowE_def
  by (auto simp: redroid_spec_def intro!: starts_intros plain_log intro: plain_starts plain_reaching redroid_prepare_plain)

text \<open>The end of a failed acquisition: the logs, the release, and the error.\<close>

lemma enrich_starts: "starts {} (enrich E e names)"
  by (rule plain_starts) (rule plain_enrich)

lemma enrich_calm: "returns (\<lambda>_. True) (enrich E e names)"
  by (intro returns_calm settles_enrich enrich_returns)

text \<open>
  What both providers do around their \<open>try\<close> block: hand over what it acquired, or release what its
  variables name and throw.
\<close>

lemma acquire_or_release:
  fixes block :: "('s, (exn, 'a) result \<times> 'l) eff"
  assumes "covered names C block" and "yields R block"
    and "\<And>e lo. starts {} (enr e lo)" and "\<And>e lo. returns (\<lambda>_. True) (enr e lo)"
    and "\<And>e lo. R (Inl e, lo) \<Longrightarrow> clears (names lo) (rel lo)"
    and "bindE block (\<lambda>(outcome, lo). case outcome of Inr a \<Rightarrow> ret a
      | Inl e \<Rightarrow> bindE (enr e lo) (\<lambda>en. thenE (rel lo) (throwE en))) r = Some (x, r1)"
    and "throws (\<lambda>_. False) block"
  shows "case x of Inl e \<Rightarrow> live (ru_trace r1) \<subseteq> live (ru_trace r) - C
    | Inr a \<Rightarrow> \<exists>lo. R (Inr a, lo) \<and> live (ru_trace r1) \<subseteq> live (ru_trace r) \<union> names lo"
  using assms(6)
proof (rule bindE_Some)
  fix e assume "block r = Some (Inl e, r1)"
  with throwsD [OF assms(7)] show ?thesis by blast
next
  fix y r2 assume block: "block r = Some (Inr y, r2)" and tail: "(\<lambda>(outcome, lo). case outcome of Inr a \<Rightarrow> ret a
      | Inl e \<Rightarrow> bindE (enr e lo) (\<lambda>en. thenE (rel lo) (throwE en))) y r2 = Some (x, r1)"
  obtain outcome lo where y: "y = (outcome, lo)" by (cases y)
  note in_block = coveredD [OF assms(1) block [unfolded y]] yieldsD [OF assms(2) block [unfolded y]]
  show ?thesis
  proof (cases outcome)
    case (Inr a)
    with tail y in_block show ?thesis by (auto simp: ret_def)
  next
    case (Inl e)
    have "clears (names lo) (bindE (enr e lo) (\<lambda>en. thenE (rel lo) (throwE en :: ('s, 'a) eff)))"
      using assms(3-5) in_block Inl by (intro clears_after clears_then starts_intros) auto
    moreover from tail y Inl have "bindE (enr e lo) (\<lambda>en. thenE (rel lo) (throwE en)) r2 = Some (x, r1)" by simp
    moreover from this have "\<exists>e. x = Inl e" by (auto simp: throwE_def elim!: bindE_Some)
    ultimately show ?thesis using in_block by (fastforce dest: clearsD)
  qed
qed

lemma claims_from:
  assumes "claims F D m" and "yields Q m" and "\<And>v. Q v \<Longrightarrow> D v \<subseteq> A"
    and "\<And>v r x r1. Q v \<Longrightarrow> f v r = Some (x, r1) \<Longrightarrow> case x of
      Inl e \<Rightarrow> live (ru_trace r1) \<subseteq> live (ru_trace r) - D v | Inr y \<Rightarrow> live (ru_trace r1) \<subseteq> live (ru_trace r) \<union> A"
  shows "claims F (\<lambda>_. A) (bindE m f)"
  unfolding claims_def
proof (intro allI impI)
  fix r x r2 assume "bindE m f r = Some (x, r2)"
  then show "live (ru_trace r2) \<subseteq> live (ru_trace r) \<union> (case x of Inl e \<Rightarrow> F | Inr v \<Rightarrow> A)"
  proof (rule bindE_Some)
    fix e assume "m r = Some (Inl e, r2)" "x = Inl e"
    with assms(1) show ?thesis by (fastforce simp: claims_def)
  next
    fix v r1 assume 1: "m r = Some (Inr v, r1)" and 2: "f v r1 = Some (x, r2)"
    from yieldsD [OF assms(2) 1] have Q: "Q v" .
    from assms(1) 1 have "live (ru_trace r1) \<subseteq> live (ru_trace r) \<union> D v" by (fastforce simp: claims_def)
    with assms(4) [OF Q 2] assms(3) [OF Q] show ?thesis by (auto split: sum.splits)
  qed
qed

lemma leaves_nothing:
  assumes "claims {} (\<lambda>_. set own) m" and "yields (\<lambda>a. removes own (rel a)) m" and "m r = Some (x, r1)"
  shows "case x of
      Inl e \<Rightarrow> live (ru_trace r1) \<subseteq> live (ru_trace r)
    | Inr a \<Rightarrow> live (ru_trace r1) \<subseteq> live (ru_trace r) \<union> set own
        \<and> (\<forall>r2. \<exists>r3 evs. rel a r2 = Some (Inr (), r3) \<and> ru_trace r3 = ru_trace r2 @ evs
             \<and> losses evs = own \<and> (\<forall>e \<in> set evs. gain e = None))"
proof (cases x)
  case (Inl e)
  with assms(1,3) show ?thesis by (fastforce simp: claims_def)
next
  case (Inr a)
  with assms(3) yieldsD [OF assms(2)] have "removes own (rel a)" by blast
  moreover from assms(1,3) Inr have "live (ru_trace r1) \<subseteq> live (ru_trace r) \<union> set own" by (fastforce simp: claims_def)
  ultimately show ?thesis using Inr unfolding removes_def by simp
qed

definition redroid_own :: "provider_options \<Rightarrow> string \<Rightarrow> resource list" where
  "redroid_own opts jobId = Container (containerName jobId)
     # (if po_proxy opts = None then [] else [Container (gatewayContainerName jobId)])"

lemma redroid_try_release:
  "yields (\<lambda>(x, lo). \<forall>a. x = Inr a \<longrightarrow> (\<exists>s. aq_release a = redroid_release E opts (containerName (cx_jobId cx)) gw s))
     (redroid_try E cfg opts cx gw)"
  unfolding redroid_try_def Let_def by (intro yields_tryL) (auto intro!: yields_intros)

lemma acquire_prelude:
  "starts A (refuseConcurrentRunForAccount E cx)" "starts A (ensureVolume E v ls)" "starts A (ignoreE (docker_remove E n))"
  by (rule plain_starts, rule plain_reaching, rule plain_starts, rule plain_logs, intro starts_intros)

lemma redroid_acquire_claims: "claims {} (\<lambda>_. set (redroid_own opts (cx_jobId cx))) (redroid_acquire E cfg opts cx)"
  unfolding redroid_acquire_def Let_def
proof (rule claims_then [OF acquire_prelude(1)], rule claims_then [OF acquire_prelude(2)],
    rule claims_then [OF acquire_prelude(3)], rule claims_from [OF start_gateway_claims start_gateway_of])
  let ?name = "containerName (cx_jobId cx)"
  fix gw :: "'a gateway option" and r x r1
  assume gw: "gateway_of E (po_proxy opts) (cx_jobId cx) gw"
  then show "set (gateway_resource gw) \<subseteq> set (redroid_own opts (cx_jobId cx))"
    by (auto simp: gateway_of_def redroid_own_def)
  have own: "set (redroid_own opts (cx_jobId cx)) = set (Container ?name # gateway_resource gw)"
    using gw by (simp add: gateway_of_def redroid_own_def)
  have block: "covered (\<lambda>_. set (Container ?name # gateway_resource gw)) (set (gateway_resource gw))
      (redroid_try E cfg opts cx gw)"
    using startsD [OF redroid_try_starts] unfolding covered_def by fastforce
  assume run: "bindE (redroid_try E cfg opts cx gw) (\<lambda>(outcome, serial). case outcome of
       Inr acquired \<Rightarrow> ret acquired
     | Inl error \<Rightarrow> bindE (enrich E error [?name, case gw of Some g \<Rightarrow> gt_name g | None \<Rightarrow> []])
         (\<lambda>enriched. thenE (redroid_release E opts ?name gw serial) (throwE enriched))) r = Some (x, r1)"
  have calm: "throws (\<lambda>_. False) (redroid_try E cfg opts cx gw)"
    unfolding redroid_try_def Let_def by (auto intro!: throws_intros)
  have release: "clears (set (Container ?name # gateway_resource gw)) (redroid_release E opts ?name gw lo)" for lo
    using gw by (intro removes_clears redroid_release_removes [where j = "cx_jobId cx"]) (simp add: gateway_of_def)
  from acquire_or_release [OF block redroid_try_release enrich_starts enrich_calm release run calm]
  show "case x of Inl e \<Rightarrow> live (ru_trace r1) \<subseteq> live (ru_trace r) - set (gateway_resource gw)
    | Inr y \<Rightarrow> live (ru_trace r1) \<subseteq> live (ru_trace r) \<union> set (redroid_own opts (cx_jobId cx))"
    using own by (auto split: sum.splits)
qed

lemma redroid_acquire_release:
  "yields (\<lambda>a. removes (redroid_own opts (cx_jobId cx)) (aq_release a)) (redroid_acquire E cfg opts cx)"
  unfolding redroid_acquire_def Let_def
proof (rule yields_then, rule yields_then, rule yields_then, rule yields_bind [OF start_gateway_of], rule yields_bind [OF redroid_try_release])
  fix gw :: "'a gateway option" and x :: "(exn, 'a acquired) result \<times> string option"
  assume "gateway_of E (po_proxy opts) (cx_jobId cx) gw"
    and "case x of (x, lo) \<Rightarrow> \<forall>a. x = Inr a \<longrightarrow> (\<exists>s. aq_release a = redroid_release E opts (containerName (cx_jobId cx)) gw s)"
  then show "yields (\<lambda>a. removes (redroid_own opts (cx_jobId cx)) (aq_release a)) (case x of (outcome, serial) \<Rightarrow>
      case outcome of Inl error \<Rightarrow> bindE (enrich E error [containerName (cx_jobId cx), case gw of None \<Rightarrow> [] | Some g \<Rightarrow> gt_name g])
          (\<lambda>enriched. thenE (redroid_release E opts (containerName (cx_jobId cx)) gw serial) (throwE enriched))
      | Inr acquired \<Rightarrow> ret acquired)"
    using redroid_release_removes [of E "cx_jobId cx" gw "containerName (cx_jobId cx)" opts]
    by (auto simp: redroid_own_def gateway_of_def intro!: yields_intros split: sum.splits)
qed


subsection \<open>emulatorProvider.ts\<close>

definition emulator_held :: "'s emulator_locals \<Rightarrow> resource list" where
  "emulator_held lo = (case el_bridge lo of Some b \<Rightarrow> [Container (cb_name b)] | None \<Rightarrow> [])
     @ (case el_camera lo of Some c \<Rightarrow> [Lease (cs_index c)] | None \<Rightarrow> []) @ gateway_resource (el_gateway lo)"

lemma lease_removed: "removes [Lease n] (ignoreE (releaseIfHeld E n j))"
  unfolding removes_def
  by (auto simp: ignoreE_def releaseIfHeld_def catchE_def bindE_def invoke_def ret_def Let_def gain_def loss_def
      split: prod.splits sum.splits)

lemma teardown_removes:
  assumes "own_locals E j lo"
  shows "removes (Container name # emulator_held lo) (emulator_teardown E opts name lo)"
proof -
  have bridge: "removes (case el_bridge lo of Some b \<Rightarrow> [Container (cb_name b)] | None \<Rightarrow> [])
      (case el_bridge lo of Some b \<Rightarrow> cb_remove b | None \<Rightarrow> ret ())"
    using assms remove_removes(3) by (auto simp: own_locals_def removes_ret split: option.splits)
  have lease: "removes (case el_camera lo of Some c \<Rightarrow> [Lease (cs_index c)] | None \<Rightarrow> [])
      (case el_camera lo of Some c \<Rightarrow> cs_release c | None \<Rightarrow> ret ())"
    using assms lease_removed by (auto simp: own_locals_def removes_ret split: option.splits)
  have gateway: "removes (gateway_resource (el_gateway lo)) (case el_gateway lo of Some g \<Rightarrow> gt_remove g | None \<Rightarrow> ret ())"
    using assms by (intro gateway_removed [where E = E and j = j]) (simp add: own_locals_def)
  from removes_then [OF removes_nothing [OF disconnect_calm(2,3)]
      removes_then [OF remove_removes(1) removes_then [OF bridge removes_then [OF lease gateway]]]]
  show ?thesis by (simp add: emulator_teardown_def emulator_held_def)
qed

lemma acquireCameraSlot_claims: "claims {} (\<lambda>c. {Lease (cs_index c)}) (acquireCameraSlot E V j)"
proof -
  have "live (ru_trace r1) \<subseteq> live (ru_trace r) \<union> (case x of Inl e \<Rightarrow> {} | Inr c \<Rightarrow> {Lease (cs_index c)})"
    if "acquire_from E V j pool rest r = Some (x, r1)" for pool rest r x r1
    using that
  proof (induction rest arbitrary: r)
    case (Cons n rest)
    obtain y s where set: "ae_setNx E (leaseKey n) j (leaseTtlSeconds V) (ru_env r) = (y, s)" by fastforce
    show ?case
    proof (cases "y = Inr True")
      case True
      with Cons.prems set show ?thesis
        by (auto simp: bindE_def invoke_def ret_def live_step_def gain_def)
    next
      case False
      have idle: "live_step (EvLease n False) S = S" for S by (simp add: live_step_def gain_def loss_def removal_of_def)
      show ?thesis
      proof (cases y)
        case (Inl e)
        with Cons.prems set idle show ?thesis by (auto simp: bindE_def invoke_def)
      next
        case (Inr won)
        with Cons.prems set False have "acquire_from E V j pool rest
            (r\<lparr>ru_env := s, ru_trace := ru_trace r @ [EvLease n False]\<rparr>) = Some (x, r1)"
          by (simp add: bindE_def invoke_def)
        from Cons.IH [OF this] show ?thesis by (simp add: idle)
      qed
    qed
  qed (simp add: throwE_def)
  then show ?thesis by (simp add: claims_def acquireCameraSlot_def)
qed

lemma startCameraBridge_claims: "claims {} (\<lambda>b. {Container (cb_name b)}) (startCameraBridge E opts)"
proof -
  have starts: "starts {Container (bridgeContainerName (bo_jobId opts))} (startCameraBridge E opts)"
    unfolding startCameraBridge_def Let_def nowE_def
    by (intro starts_intros plain_log)
      (auto simp: bridge_spec_def assertStillFeeding_def intro: plain_starts [OF plain_watch])
  show ?thesis
    unfolding claims_def
  proof (intro allI impI)
    fix r x r1 assume run: "startCameraBridge E opts r = Some (x, r1)"
    show "live (ru_trace r1) \<subseteq> live (ru_trace r) \<union> (case x of Inl e \<Rightarrow> {} | Inr b \<Rightarrow> {Container (cb_name b)})"
      using startCameraBridge_fails_clean [of E opts r] startsD [OF starts run] yieldsD [OF startCameraBridge_own] run
      by (cases x) fastforce+
  qed
qed

text \<open>However its \<open>try\<close> block ends, what the emulator's acquisition claimed is named by its variables.\<close>

definition emulator_names :: "string \<Rightarrow> 's emulator_locals \<Rightarrow> resource set" where
  "emulator_names name lo = set (Container name # emulator_held lo)"

lemma emulator_camera_covered:
  fixes lo :: "'s emulator_locals"
  assumes "el_camera lo = None" and "el_bridge lo = None" and "el_gateway lo = None"
    and "\<And>lo. el_gateway lo = None \<Longrightarrow> covered (emulator_names name) (set (emulator_held lo)) (k lo)"
  shows "covered (emulator_names name) {} (emulator_camera E V cfg cx lo k)"
proof (cases "em_camera cfg")
  case None
  then show ?thesis using assms(3) assms(4) [of lo] by (simp add: emulator_camera_def covered_def)
next
  case (Some cam)
  have bridged: "covered (emulator_names name) ({Lease (cs_index c)} \<union> {Container (cb_name b)})
      (k (lo\<lparr>el_camera := Some c, el_bridge := Some b\<rparr>))" for c b
    using assms(4) [of "lo\<lparr>el_camera := Some c, el_bridge := Some b\<rparr>"] assms(1-3)
    by (simp add: emulator_held_def insert_commute)
  have named: "{Lease (cs_index c)} \<subseteq> emulator_names name (lo\<lparr>el_camera := Some c\<rparr>)" for c
    by (simp add: emulator_names_def emulator_held_def)
  show ?thesis
    unfolding emulator_camera_def Some option.case Let_def
  proof (rule covered_tryL [where D = "\<lambda>_. {}" and Q = "\<lambda>_. True"])
    show "claims {} (\<lambda>_. {}) (thenE (logE E INFO ''Waiting for the operator to grant their camera'' None)
        (waitForCameraPublisher E V (cx_jobId cx)))"
      by (intro claims_starts starts_intros plain_log plain_starts [OF plain_poll])
    show "covered (emulator_names name) ({} \<union> {})
       (tryL (acquireCameraSlot E V (cx_jobId cx)) lo
         (\<lambda>camera. tryL (thenE (logE E INFO ''Leased a camera device''
             (Some (JsObj [(''cameraIndex'', JsNum (int (cs_index camera))), (''hostDevice'', JsStr (cs_hostDevice camera))])))
             (startCameraBridge E \<lparr>bo_jobId = cx_jobId cx, bo_accountId = cx_accountId cx,
                 bo_cameraIndex = cs_index camera, bo_deviceMapping = cs_mapping camera,
                 bo_config = cam_bridge cam, bo_network = em_cameraNetwork cfg\<rparr>))
             (lo\<lparr>el_camera := Some camera\<rparr>)
             (\<lambda>bridge. k (lo\<lparr>el_camera := Some camera, el_bridge := Some bridge\<rparr>))))"
      by (rule covered_step [OF acquireCameraSlot_claims], simp,
          rule covered_step [OF claims_then [OF plain_log startCameraBridge_claims]])
        (use bridged named in \<open>auto\<close>)
  qed (simp_all add: yields_def)
qed

text \<open>The rest of the block adds the gateway, and then the device, which is always named.\<close>

lemma emulator_try_covered: "covered (emulator_names (emulator_containerName (cx_jobId cx))) {} (emulator_try E V cfg opts cx)"
  unfolding emulator_try_def Let_def
proof (rule emulator_camera_covered)
  let ?name = "emulator_containerName (cx_jobId cx)"
  let ?names = "emulator_names ?name"
  fix lo :: "'a emulator_locals"
  assume lo: "el_gateway lo = None"
  note plain_claims = claims_starts [OF plain_starts, where A = "{}"]
  have up: "claims {} (\<lambda>_. {Container ?name}) (thenE (logE E l t d)
      (bindE (nowE E) (\<lambda>now. docker_run E (emulator_spec cfg opts cx lo' now) JobSignal)))" for lo' :: "'a emulator_locals" and l t d
    unfolding nowE_def by (intro claims_then plain_log starts_intros docker_run_claims) (simp add: emulator_spec_def)
  have names: "?names (lo\<lparr>el_gateway := gw\<rparr>) = insert (Container ?name) (set (emulator_held lo) \<union> set (gateway_resource gw))"
    "?names (lo'\<lparr>el_serial := s\<rparr>) = ?names lo'" for gw s lo'
    using lo by (auto simp: emulator_names_def emulator_held_def)
  show "covered ?names (set (emulator_held lo))
      (tryL (start_gateway E (po_proxy opts) cx (em_proxyGateway cfg) (em_network cfg) (em_controlNetwork cfg) (em_connectVia cfg)) lo
        (\<lambda>gateway. tryL (thenE (logE E INFO ''Starting ephemeral emulator container''
              (Some (JsObj ([(''container'', JsStr ?name), (''image'', JsStr (em_image cfg)), (''avd'', JsStr (em_avdName cfg)),
                    (''sessionVolume'', JsStr (emulator_sessionVolumeName cfg (cx_accountId cx)))]
                  @ opt_field ''egressGateway'' (map_option (JsStr \<circ> gt_name) gateway)
                  @ opt_field ''cameraIndex'' (map_option (JsNum \<circ> int \<circ> cs_index) (el_camera lo))))))
            (bindE (nowE E) (\<lambda>now. docker_run E (emulator_spec cfg opts cx (lo\<lparr>el_gateway := gateway\<rparr>) now) JobSignal)))
          (lo\<lparr>el_gateway := gateway\<rparr>)
          (\<lambda>_. tryL (emulator_resolveSerial E cfg (case gateway of Some g \<Rightarrow> gt_name g | None \<Rightarrow> ?name)) (lo\<lparr>el_gateway := gateway\<rparr>)
            (\<lambda>serial. tryL (emulator_prepare E cfg opts cx (lo\<lparr>el_gateway := gateway, el_serial := Some serial\<rparr>) serial)
              (lo\<lparr>el_gateway := gateway, el_serial := Some serial\<rparr>)
              (\<lambda>(dev, egressIp). ret (Inr \<lparr>aq_device = dev, aq_serial = Some serial, aq_egressIp = egressIp,
                  aq_release = emulator_teardown E opts ?name (lo\<lparr>el_gateway := gateway, el_serial := Some serial\<rparr>)\<rparr>,
                lo\<lparr>el_gateway := gateway, el_serial := Some serial\<rparr>))))))"
    by (rule covered_step [OF start_gateway_claims], force simp: emulator_names_def,
        rule covered_step [OF up], force simp: names,
        rule covered_step [OF plain_claims], simp add: emulator_resolveSerial_def plain_reaching, force simp: names,
        rule covered_step [OF plain_claims], rule emulator_prepare_facts, force simp: names)
      (auto simp: names intro!: covered_ret)
qed simp_all

lemma emulator_try_release:
  "yields (\<lambda>(x, lo). own_locals E (cx_jobId cx) lo \<and> (\<forall>a. x = Inr a \<longrightarrow>
       aq_release a = emulator_teardown E opts (emulator_containerName (cx_jobId cx)) lo
       \<and> camera_ready cfg lo \<and> gateway_of E (po_proxy opts) (cx_jobId cx) (el_gateway lo)))
     (emulator_try E V cfg opts cx)"
proof -
  have gateway: "own_locals E (cx_jobId cx) (lo\<lparr>el_gateway := gw\<rparr>)"
    if "own_locals E (cx_jobId cx) lo" "gateway_of E (po_proxy opts) (cx_jobId cx) gw" for lo gw
    using that by (simp add: own_locals_def gateway_of_def)
  show ?thesis
    unfolding emulator_try_def Let_def
    by (rule emulator_camera_own, simp, simp, simp, rule yields_tryL_from [OF start_gateway_of])
      (auto simp: camera_ready_def intro!: yields_tryL yields_ret gateway)
qed

lemma held_kinds:
  assumes "own_locals E j lo" and "camera_ready cfg lo" and "gateway_of E px j (el_gateway lo)"
  shows "\<exists>n. emulator_held lo = (if em_camera cfg = None then [] else [Container (bridgeContainerName j), Lease n])
      @ (if px = None then [] else [Container (gatewayContainerName j)])"
  using assms unfolding own_locals_def camera_ready_def gateway_of_def emulator_held_def
  by (cases "em_camera cfg") auto

text \<open>
  An emulator leaves nothing of its own behind either. When an acquisition fails, every container it
  started has been removed and the camera it leased given back; when it succeeds, the release never
  throws and gives back all it claimed: the device first, then the bridge that writes to the
  camera, the camera only after its bridge, and the gateway last.
\<close>

theorem emulator_leaves_nothing:
  assumes "emulator_acquire E V cfg opts cx r = Some (x, r1)"
  shows "case x of
      Inl e \<Rightarrow> live (ru_trace r1) \<subseteq> live (ru_trace r)
    | Inr a \<Rightarrow> \<exists>n. let own = Container (emulator_containerName (cx_jobId cx))
          # (if em_camera cfg = None then [] else [Container (bridgeContainerName (cx_jobId cx)), Lease n])
          @ (if po_proxy opts = None then [] else [Container (gatewayContainerName (cx_jobId cx))])
        in live (ru_trace r1) \<subseteq> live (ru_trace r) \<union> set own
          \<and> (\<forall>r2. \<exists>r3 evs. aq_release a r2 = Some (Inr (), r3) \<and> ru_trace r3 = ru_trace r2 @ evs
               \<and> losses evs = own \<and> (\<forall>e \<in> set evs. gain e = None))"
proof -
  let ?name = "emulator_containerName (cx_jobId cx)"
  let ?rest = "\<lambda>(outcome, lo). case outcome of
       Inr acquired \<Rightarrow> ret acquired
     | Inl error \<Rightarrow> bindE (enrich E error [?name, (case el_gateway lo of Some g \<Rightarrow> gt_name g | None \<Rightarrow> []),
           (case el_bridge lo of Some b \<Rightarrow> cb_name b | None \<Rightarrow> [])])
         (\<lambda>enriched. thenE (emulator_teardown E opts ?name lo) (throwE enriched))"
  have calm: "throws (\<lambda>_. False) (emulator_try E V cfg opts cx)"
    unfolding emulator_try_def emulator_camera_def Let_def by (auto intro!: throws_intros split: option.splits)
  have clean: "clears (emulator_names ?name lo) (emulator_teardown E opts ?name lo)" if "own_locals E (cx_jobId cx) lo" for lo
    unfolding emulator_names_def by (rule removes_clears [OF teardown_removes [OF that]])
  define good where "good A x r1 = (case x of Inl e \<Rightarrow> live (ru_trace r1) \<subseteq> A
    | Inr a \<Rightarrow> \<exists>lo. own_locals E (cx_jobId cx) lo \<and> aq_release a = emulator_teardown E opts ?name lo
        \<and> camera_ready cfg lo \<and> gateway_of E (po_proxy opts) (cx_jobId cx) (el_gateway lo)
        \<and> live (ru_trace r1) \<subseteq> A \<union> emulator_names ?name lo)"
    for A and x :: "(exn, 'a acquired) result" and r1 :: "'a run"
  have tail: "good (live (ru_trace r)) x r1" if "bindE (emulator_try E V cfg opts cx) ?rest r = Some (x, r1)" for r x r1
    using acquire_or_release [OF emulator_try_covered emulator_try_release enrich_starts enrich_calm clean that calm]
    by (auto simp: good_def split: sum.splits)
  have mono: "\<forall>A B x r1. good A x r1 \<longrightarrow> A \<subseteq> B \<longrightarrow> good B x r1"
    unfolding good_def by (auto split: sum.splits)
  have failed: "\<forall>A e r1. live (ru_trace r1) \<subseteq> A \<longrightarrow> good A (Inl e) r1" by (simp add: good_def)
  note first = starts_first [where good = good, OF mono failed]
  have "good (live (ru_trace r)) x r1"
    by (rule first [OF acquire_prelude(1) _ assms [unfolded emulator_acquire_def Let_def]],
        rule first [OF acquire_prelude(2)], rule first [OF acquire_prelude(3)], rule tail)
  then show ?thesis
  proof (cases x)
    case (Inr a)
    with \<open>good (live (ru_trace r)) x r1\<close> obtain lo where lo: "own_locals E (cx_jobId cx) lo"
      "aq_release a = emulator_teardown E opts ?name lo" "camera_ready cfg lo"
      "gateway_of E (po_proxy opts) (cx_jobId cx) (el_gateway lo)"
      "live (ru_trace r1) \<subseteq> live (ru_trace r) \<union> emulator_names ?name lo"
      by (auto simp: good_def)
    from held_kinds [OF lo(1,3,4)] obtain n where held: "emulator_held lo =
        (if em_camera cfg = None then [] else [Container (bridgeContainerName (cx_jobId cx)), Lease n])
        @ (if po_proxy opts = None then [] else [Container (gatewayContainerName (cx_jobId cx))])" by blast
    note release = teardown_removes [OF lo(1), of ?name opts, folded lo(2), unfolded removes_def held, rule_format]
    show ?thesis
      unfolding Inr sum.case Let_def
      by (rule exI [of _ n], rule conjI, rule lo(5) [unfolded emulator_names_def held], rule allI, rule release)
  qed (simp add: good_def)
qed

end
