(* ===== verification/Container_Egress.thy ===== *)
theory Container_Egress
  imports Container_Safety
begin

text \<open>
  What a device handed over for an account with a proxy went through: the gateway, the device in its
  network namespace, and the check of its egress, read off the trace.
\<close>

subsection \<open>What a successful run leaves in the trace\<close>

definition leaves :: "('a \<Rightarrow> event list \<Rightarrow> bool) \<Rightarrow> ('s, 'a) eff \<Rightarrow> bool" where
  "leaves P m \<longleftrightarrow> (\<forall>r x r1. m r = Some (Inr x, r1) \<longrightarrow> (\<exists>evs. ru_trace r1 = ru_trace r @ evs \<and> P x evs))"

lemma leavesD: "leaves P m \<Longrightarrow> m r = Some (Inr x, r1) \<Longrightarrow> \<exists>evs. ru_trace r1 = ru_trace r @ evs \<and> P x evs"
  by (simp add: leaves_def)

lemma leaves_ret: "P x [] \<Longrightarrow> leaves P (ret x)" "leaves P (throwE e)"
  by (auto simp: leaves_def)

lemma leaves_any: "quiet m \<Longrightarrow> leaves (\<lambda>_ _. True) m"
  unfolding leaves_def by (auto dest: emitsD)

lemma leaves_yields: "leaves P m \<Longrightarrow> yields Q m \<Longrightarrow> leaves (\<lambda>x evs. P x evs \<and> Q x) m"
  unfolding leaves_def yields_def by blast

lemma leaves_mono: "leaves P m \<Longrightarrow> (\<And>x evs. P x evs \<Longrightarrow> Q x evs) \<Longrightarrow> leaves Q m"
  unfolding leaves_def by blast

lemma leaves_bind:
  assumes "leaves P m" and "\<And>x a. P x a \<Longrightarrow> leaves (\<lambda>y b. Q y (a @ b)) (k x)"
  shows "leaves Q (bindE m k)"
  unfolding leaves_def
proof (intro allI impI)
  fix r y r2 assume "bindE m k r = Some (Inr y, r2)"
  then obtain x r1 where m: "m r = Some (Inr x, r1)" and k: "k x r1 = Some (Inr y, r2)" by (rule bindE_Inr)
  from leavesD [OF assms(1) m] obtain a where a: "ru_trace r1 = ru_trace r @ a" "P x a" by blast
  from leavesD [OF assms(2) [OF a(2)] k] a(1) show "\<exists>evs. ru_trace r2 = ru_trace r @ evs \<and> Q y evs" by auto
qed

lemma leaves_after:
  "quiet m \<Longrightarrow> (\<And>x a. leaves (\<lambda>y b. Q y (a @ b)) (k x)) \<Longrightarrow> leaves Q (bindE m k)"
  by (rule leaves_bind [OF leaves_any])

lemma leaves_tryL:
  fixes m :: "('s, 'a) eff"
  assumes "quiet m" and "leaves P m" and "\<And>e evs. Q (Inl e, lo) evs"
    and "\<And>v a. P v a \<Longrightarrow> leaves (\<lambda>y b. Q y (a @ b)) (k v)"
  shows "leaves Q (tryL m lo k)"
proof -
  have "leaves (\<lambda>x evs. case x of Inl e \<Rightarrow> True | Inr v \<Rightarrow> P v evs) (attemptE m)"
    unfolding leaves_def
  proof (intro allI impI)
    fix r x r1 assume "attemptE m r = Some (Inr x, r1)"
    then have m: "m r = Some (x, r1)" by (auto simp: attemptE_def split: option.splits)
    show "\<exists>evs. ru_trace r1 = ru_trace r @ evs \<and> (case x of Inl e \<Rightarrow> True | Inr v \<Rightarrow> P v evs)"
      using emitsD [OF assms(1) m] leavesD [OF assms(2)] m by (cases x) fastforce+
  qed
  then show ?thesis
    unfolding tryL_def by (rule leaves_bind) (use assms(3,4) in \<open>auto intro: leaves_ret split: sum.splits\<close>)
qed

text \<open>The command that starts a container succeeded, between other events.\<close>

definition started :: "run_spec \<Rightarrow> event list \<Rightarrow> bool" where
  "started spec evs \<longleftrightarrow> (\<exists>a b so se. evs = a @ [EvExec ''docker'' (run_args spec) (ExecOk so se)] @ b)"

lemma started_more: "started spec evs \<Longrightarrow> started spec (a @ evs)" "started spec evs \<Longrightarrow> started spec (evs @ b)"
  unfolding started_def by (metis append.assoc)+

lemma docker_run_leaves: "leaves (\<lambda>_. started spec) (docker_run E spec sig)"
proof -
  have "started spec [EvExec ''docker'' (run_args spec) (ExecOk so se)]" for so se
    unfolding started_def by (intro exI [of _ "[]"] exI) simp
  then show ?thesis unfolding leaves_def by (fastforce dest: docker_run_trace)
qed

lemma run_now_leaves:
  "leaves (\<lambda>_ evs. \<exists>now. started (spec now) evs) (bindE (nowE E) (\<lambda>now. docker_run E (spec now) sig))"
  by (rule leaves_after, intro emits_intros, rule leaves_mono [OF docker_run_leaves]) (blast intro: started_more)

lemma startProxyGateway_leaves: "leaves (\<lambda>g evs. \<exists>now. started (gateway_spec opts now) evs) (startProxyGateway E opts)"
proof -
  have up: "quiet (catchE (thenE (assertStillRunning E n t) (attach_control E n c)) (give_up E n (gateway_remove E n)))" for n t c
    unfolding assertStillRunning_def
    by (intro emits_intros plain_quiet [OF plain_watch] plain_quiet [OF plain_attach])
  have log: "quiet (logE E l t d)" for l t d by (intro emits_intros) simp
  show ?thesis
    unfolding startProxyGateway_def Let_def
    by (rule leaves_after [OF emits_ignore], intro emits_intros, rule leaves_after [OF log], rule leaves_after, intro emits_intros,
        rule leaves_bind [OF docker_run_leaves], rule leaves_after [OF up])
      (auto intro!: leaves_ret exI intro: started_more)
qed

text \<open>What pinning the egress of a device verified.\<close>

definition egress_known :: "gateway_config \<Rightarrow> string \<Rightarrow> adb_target \<Rightarrow> string option \<Rightarrow> event list \<Rightarrow> bool" where
  "egress_known cfg adb target ip evs \<longleftrightarrow> (ec_enabled (gw_egressCheck cfg) \<longrightarrow> (\<exists>address direct.
     ip = Some address \<and> verified adb target (ec_url (gw_egressCheck cfg)) address direct evs \<and> direct \<noteq> Some address))"

lemma verified_more:
  "verified adb target url address direct evs \<Longrightarrow> verified adb target url address direct (a @ evs)"
  "verified adb target url address direct evs \<Longrightarrow> verified adb target url address direct (evs @ b)"
  unfolding verified_def by (metis append.assoc)+

lemma egress_known_more:
  "egress_known cfg adb target ip evs \<Longrightarrow> egress_known cfg adb target ip (a @ evs)"
  "egress_known cfg adb target ip evs \<Longrightarrow> egress_known cfg adb target ip (evs @ b)"
  unfolding egress_known_def by (blast intro: verified_more)+

lemma egress_known_verified:
  "verified adb target (ec_url (gw_egressCheck cfg)) address direct evs \<Longrightarrow> direct \<noteq> Some address
    \<Longrightarrow> egress_known cfg adb target (Some address) evs"
  by (auto simp: egress_known_def)

lemma check_leaves:
  "leaves (\<lambda>address evs. \<exists>direct. verified adb target url address direct evs \<and> direct \<noteq> Some address)
     (assertProxiedEgress E (AdbDevice E adb target) gw url ts resolved probe)"
  unfolding leaves_def by (fastforce dest: check_decides)

lemma pinEgress_leaves: "leaves (egress_known cfg adb target) (pinEgress E cfg gw px (AdbDevice E adb target))"
proof -
  note plain_first = leaves_after [OF plain_quiet]
  have harden: "plain (if b then bindE (resolveProxyEndpoints E h p) (\<lambda>endpoints.
      thenE (whenE (endpoints = []) (logE E l t d)) (applyEgressPolicy E n (pol endpoints))) else ret ())" for b h p l t d n pol
    by (intro emits_intros) simp
  have probe: "plain (if b then ensureProbeBinary E (AdbDevice E adb target) f else ret ())" for b f
    by (intro emits_intros adb.check_plain)
  have look: "plain (if b then resolveProxyEndpoints E h p else ret [])" for b h p
    by (intro emits_intros)
  show ?thesis
    unfolding pinEgress_def
    apply (rule plain_first [OF harden], rule plain_first [OF adb.check_plain(4)])
    apply (cases "ec_enabled (gw_egressCheck cfg)")
     apply (simp only: Let_def not_True_eq_False if_False)
     apply (rule plain_first [OF probe], rule plain_first [OF look], rule leaves_bind [OF check_leaves])
     apply (elim exE conjE, drule (1) egress_known_verified)
     apply (rule leaves_ret, simp only: append_Nil2, intro egress_known_more(1), assumption)
    apply (simp only: not_False_eq_True if_True)
    apply (rule plain_first, intro emits_intros, simp)
    apply (rule leaves_ret, simp add: egress_known_def)
    done
qed

subsection \<open>The two providers\<close>

text \<open>
  A device that is only reached through its account's gateway: the gateway was started with the
  account's proxy, then the device inside its namespace and with no port of its own, then the check.
\<close>

definition behind_gateway ::
  "gateway_config \<Rightarrow> provider_options \<Rightarrow> acquire_context \<Rightarrow> proxy_runtime \<Rightarrow> 's acquired \<Rightarrow> event list \<Rightarrow> bool" where
  "behind_gateway cfg opts cx px a evs \<longleftrightarrow>
     (\<exists>gopts now spec e1 e2 e3 serial. evs = e1 @ e2 @ e3
        \<and> go_proxy gopts = px \<and> go_jobId gopts = cx_jobId cx \<and> go_config gopts = cfg \<and> started (gateway_spec gopts now) e1
        \<and> rs_network spec = Some (''container:'' @ gatewayContainerName (cx_jobId cx))
        \<and> rs_publishContainerPort spec = None \<and> started spec e2
        \<and> aq_serial a = Some serial
        \<and> egress_known cfg (po_adbCommand opts) (serial_target (po_adbServer opts) serial) (aq_egressIp a) e3)"

definition gateway_started :: "gateway_config \<Rightarrow> acquire_context \<Rightarrow> proxy_runtime \<Rightarrow> event list \<Rightarrow> bool" where
  "gateway_started cfg cx px evs \<longleftrightarrow> (\<exists>gopts now. go_proxy gopts = px \<and> go_jobId gopts = cx_jobId cx
     \<and> go_config gopts = cfg \<and> started (gateway_spec gopts now) evs)"

lemma gateway_startedI:
  "started (gateway_spec gopts now) evs \<Longrightarrow> go_proxy gopts = px \<Longrightarrow> go_jobId gopts = cx_jobId cx \<Longrightarrow> go_config gopts = cfg
    \<Longrightarrow> gateway_started cfg cx px (evs @ [])"
  unfolding gateway_started_def by auto

lemma gateway_started_more: "gateway_started cfg cx px evs \<Longrightarrow> gateway_started cfg cx px (a @ evs)"
  unfolding gateway_started_def using started_more(1) by blast

lemma start_gateway_leaves:
  "leaves (\<lambda>gw evs. gateway_started cfg cx px evs \<and> gateway_of E (Some px) (cx_jobId cx) gw)
     (start_gateway E (Some px) cx cfg n c via)"
proof (rule leaves_yields [OF _ start_gateway_of])
  show "leaves (\<lambda>gw. gateway_started cfg cx px) (start_gateway E (Some px) cx cfg n c via)"
    unfolding start_gateway_def option.case
    by (rule leaves_bind [OF startProxyGateway_leaves], rule leaves_ret, elim exE, rule gateway_startedI, assumption) (simp_all only: gateway_options.simps)
qed

text \<open>What the block that starts and checks the device leaves, given the gateway.\<close>

definition device_behind ::
  "gateway_config \<Rightarrow> provider_options \<Rightarrow> acquire_context \<Rightarrow> (exn, 's acquired) result \<Rightarrow> event list \<Rightarrow> bool" where
  "device_behind cfg opts cx x evs \<longleftrightarrow> (\<forall>a. x = Inr a \<longrightarrow> (\<exists>spec e2 e3 serial. evs = e2 @ e3
     \<and> rs_network spec = Some (''container:'' @ gatewayContainerName (cx_jobId cx))
     \<and> rs_publishContainerPort spec = None \<and> started spec e2 \<and> aq_serial a = Some serial
     \<and> egress_known cfg (po_adbCommand opts) (serial_target (po_adbServer opts) serial) (aq_egressIp a) e3))"

lemma behind_gateway_parts:
  assumes "gateway_started cfg cx px e1" and "device_behind cfg opts cx (Inr a) evs"
  shows "behind_gateway cfg opts cx px a (e1 @ evs)"
proof -
  from assms(1) obtain gopts now where g: "go_proxy gopts = px" "go_jobId gopts = cx_jobId cx" "go_config gopts = cfg"
    "started (gateway_spec gopts now) e1" unfolding gateway_started_def by (elim exE conjE)
  from assms(2) obtain spec e2 e3 serial where d: "evs = e2 @ e3"
    "rs_network spec = Some (''container:'' @ gatewayContainerName (cx_jobId cx))"
    "rs_publishContainerPort spec = None" "started spec e2" "aq_serial a = Some serial"
    "egress_known cfg (po_adbCommand opts) (serial_target (po_adbServer opts) serial) (aq_egressIp a) e3"
    unfolding device_behind_def by (drule_tac x = a in spec) (simp, elim exE conjE)
  show ?thesis
    unfolding behind_gateway_def
    by (intro exI [of _ gopts] exI [of _ now] exI [of _ spec] exI [of _ e1] exI [of _ e2] exI [of _ e3] exI [of _ serial])
      (simp add: g d)
qed

lemma device_behind_parts:
  assumes "\<exists>now. started (spec now) e" and "\<And>now. rs_network (spec now) = Some (''container:'' @ gatewayContainerName (cx_jobId cx))"
    and "\<And>now. rs_publishContainerPort (spec now) = None" and "aq_serial a = Some serial"
    and "egress_known cfg (po_adbCommand opts) (serial_target (po_adbServer opts) serial) (aq_egressIp a) e3"
  shows "device_behind cfg opts cx (Inr a) (e @ e2 @ e3)"
proof -
  obtain now where "started (spec now) e" using assms(1) ..
  from started_more(2) [OF this] have "started (spec now) (e @ e2)" .
  with assms(2-5) have "rs_network (spec now) = Some (''container:'' @ gatewayContainerName (cx_jobId cx))
      \<and> rs_publishContainerPort (spec now) = None \<and> started (spec now) (e @ e2) \<and> aq_serial a = Some serial
      \<and> egress_known cfg (po_adbCommand opts) (serial_target (po_adbServer opts) serial) (aq_egressIp a) e3" by simp
  then have "\<exists>spec f2 f3 serial. e @ e2 @ e3 = f2 @ f3
      \<and> rs_network spec = Some (''container:'' @ gatewayContainerName (cx_jobId cx))
      \<and> rs_publishContainerPort spec = None \<and> started spec f2 \<and> aq_serial a = Some serial
      \<and> egress_known cfg (po_adbCommand opts) (serial_target (po_adbServer opts) serial) (aq_egressIp a) f3"
    by (intro exI [of _ "spec now"] exI [of _ "e @ e2"] exI [of _ e3] exI [of _ serial]) simp
  then show ?thesis unfolding device_behind_def by simp
qed

lemma redroid_prepare_leaves:
  assumes "po_proxy opts = Some px"
  shows "leaves (\<lambda>(dev, ip) evs. egress_known (rd_proxyGateway cfg) (po_adbCommand opts) (serial_target (po_adbServer opts) serial) ip evs)
     (redroid_prepare E cfg opts cx (Some g) serial)"
  unfolding redroid_prepare_def Let_def assms prod.case option.case
  apply (rule leaves_bind [OF leaves_yields [OF leaves_any waitUntilUsable_device]], rule plain_quiet, intro emits_intros)
  apply (elim conjE, simp only:)
  apply (rule leaves_bind [OF pinEgress_leaves])
  apply (rule leaves_after, rule plain_quiet, rule adb.ensure_plain)
  apply (rule leaves_after, intro emits_intros, simp)
  apply (rule leaves_ret)
  apply (auto intro: egress_known_more)
  done

lemma redroid_try_leaves:
  assumes "po_proxy opts = Some px" and "gateway_of E (Some px) (cx_jobId cx) gw"
  shows "leaves (\<lambda>(x, lo). device_behind (rd_proxyGateway cfg) opts cx x) (redroid_try E cfg opts cx gw)"
proof -
  obtain g where g: "gw = Some g" "gt_networkMode g = ''container:'' @ gatewayContainerName (cx_jobId cx)"
    using assms(2) by (cases gw) (auto simp: gateway_of_def own_gateway_def)
  have net: "rs_network (redroid_spec cfg cx (Some g) now) = Some (''container:'' @ gatewayContainerName (cx_jobId cx))"
    "rs_publishContainerPort (redroid_spec cfg cx (Some g) now) = None" for now
    by (simp_all add: redroid_spec_def g)
  have run: "leaves (\<lambda>_ evs. \<exists>now. started (spec now) evs) (thenE (logE E l t d) (bindE (nowE E) (\<lambda>now. docker_run E (spec now) sig)))"
    for l t d spec sig
    by (rule leaves_after, intro emits_intros, simp, rule leaves_mono [OF run_now_leaves]) (blast intro: started_more)
  show ?thesis
    unfolding redroid_try_def Let_def g(1)
    apply (rule leaves_tryL [OF _ run])
      apply (intro emits_intros, simp)
     apply (simp add: device_behind_def)
    apply (rule leaves_tryL [OF _ leaves_any])
       apply (rule plain_quiet, intro emits_intros)
      apply (rule plain_quiet, intro emits_intros)
     apply (simp add: device_behind_def)
    apply (rule leaves_tryL [OF _ redroid_prepare_leaves [OF assms(1)]])
      apply (rule plain_quiet, rule redroid_prepare_plain)
     apply (simp add: device_behind_def)
    apply (clarify, rule leaves_ret, simp only: prod.case append_Nil2)
    apply (rule device_behind_parts [OF exI net], assumption, simp_all)
    done
qed

lemma gateway_of_Some:
  assumes "gateway_of E (Some px) j gw"
  obtains g where "gw = Some g"
  using assms by (cases gw) (simp_all add: gateway_of_def)

lemma leaves_never: "yields (\<lambda>_. False) m \<Longrightarrow> leaves P m"
  unfolding leaves_def yields_def by blast

text \<open>The common end of both acquisitions.\<close>

lemma acquire_leaves:
  fixes block :: "('s, (exn, 's acquired) result \<times> 'l) eff" and enr :: "exn \<Rightarrow> 'l \<Rightarrow> ('s, exn) eff"
    and rel :: "'l \<Rightarrow> ('s, unit) eff"
  assumes "leaves (\<lambda>(x, lo). device_behind cfg opts cx x) block" and "gateway_started cfg cx px e1"
  shows "leaves (\<lambda>a evs. behind_gateway cfg opts cx px a (e1 @ evs)) (bindE block (\<lambda>(outcome, lo). case outcome of
      Inr a \<Rightarrow> ret a | Inl e \<Rightarrow> bindE (enr e lo) (\<lambda>en. thenE (rel lo) (throwE en))))"
proof (rule leaves_bind [OF assms(1)])
  fix p :: "(exn, 's acquired) result \<times> 'l" and evs
  assume device: "(case p of (x, lo) \<Rightarrow> device_behind cfg opts cx x) evs"
  obtain x lo where p: "p = (x, lo)" by (cases p)
  show "leaves (\<lambda>a b. behind_gateway cfg opts cx px a (e1 @ evs @ b)) (case p of (outcome, lo) \<Rightarrow> (case outcome of
      Inr a \<Rightarrow> ret a | Inl e \<Rightarrow> bindE (enr e lo) (\<lambda>en. thenE (rel lo) (throwE en))))"
  proof (cases x)
    case (Inl e)
    then show ?thesis by (auto simp: p intro!: leaves_never yields_intros)
  next
    case (Inr a)
    with device behind_gateway_parts [OF assms(2)] show ?thesis by (auto simp: p intro!: leaves_ret)
  qed
qed

text \<open>
  C3. A device a ReDroid acquisition hands over for an account with a proxy is behind its gateway: before
  the run got it, the gateway was started with just that proxy, the device was started inside the
  gateway's network namespace and with no port of its own, and, unless the operator switched the
  check off, the device itself answered with an address that is the one reported and not the
  worker's.
\<close>

theorem redroid_behind_gateway:
  assumes "po_proxy opts = Some px" and "redroid_acquire E cfg opts cx r = Some (Inr a, r1)"
  shows "\<exists>before evs. ru_trace r1 = ru_trace r @ before @ evs \<and> behind_gateway (rd_proxyGateway cfg) opts cx px a evs"
proof -
  have quiet: "quiet (refuseConcurrentRunForAccount E cx)" "quiet (ensureVolume E v ls)" "quiet (ignoreE (docker_remove E n))" for v ls n
    by (rule plain_quiet, rule plain_reaching, rule plain_quiet, rule plain_logs, intro emits_intros)
  have "leaves (\<lambda>a evs. \<exists>before rest. evs = before @ rest \<and> behind_gateway (rd_proxyGateway cfg) opts cx px a rest)
      (redroid_acquire E cfg opts cx)"
    unfolding redroid_acquire_def Let_def assms(1)
    apply (rule leaves_after [OF quiet(1)], rule leaves_after [OF quiet(2)], rule leaves_after [OF quiet(3)])
    apply (rule leaves_bind [OF start_gateway_leaves], elim conjE)
    apply (rule leaves_mono [OF acquire_leaves [OF redroid_try_leaves [OF assms(1)]]], assumption, assumption)
    apply (metis append.assoc)
    done
  from leavesD [OF this assms(2)] show ?thesis by auto
qed

subsection \<open>The emulator\<close>

lemma emulator_prepare_leaves:
  assumes "po_proxy opts = Some px" and "el_gateway lo = Some g"
  shows "leaves (\<lambda>(dev, ip) evs. egress_known (em_proxyGateway cfg) (po_adbCommand opts) (serial_target (po_adbServer opts) serial) ip evs)
     (emulator_prepare E cfg opts cx lo serial)"
  unfolding emulator_prepare_def emulator_pinEgress_def Let_def assms prod.case option.case
  apply (rule leaves_bind [OF leaves_yields [OF leaves_any emulator_waitUntilUsable_facts(3)]], rule plain_quiet,
      rule emulator_waitUntilUsable_facts)
  apply (elim conjE, simp only:)
  apply (rule leaves_bind [OF pinEgress_leaves])
  apply (rule leaves_after, rule plain_quiet, rule adb.ensure_plain)
  apply (rule leaves_after, intro emits_intros, simp)
  apply (rule leaves_ret)
  apply (auto intro: egress_known_more)
  done

text \<open>The camera step comes before, and whatever it leaves is before.\<close>

definition device_later :: "gateway_config \<Rightarrow> provider_options \<Rightarrow> acquire_context \<Rightarrow> proxy_runtime
    \<Rightarrow> (exn, 's acquired) result \<Rightarrow> event list \<Rightarrow> bool" where
  "device_later cfg opts cx px x evs \<longleftrightarrow> (\<forall>a. x = Inr a \<longrightarrow>
     (\<exists>before rest. evs = before @ rest \<and> behind_gateway cfg opts cx px a rest))"

lemma device_later_before: "device_later cfg opts cx px x evs \<Longrightarrow> device_later cfg opts cx px x (a @ evs)"
  unfolding device_later_def by (metis append.assoc)

lemma device_later_parts: "gateway_started cfg cx px e1 \<Longrightarrow> device_behind cfg opts cx x evs \<Longrightarrow> device_later cfg opts cx px x (e1 @ evs)"
  unfolding device_later_def using behind_gateway_parts by (metis append_Nil)

lemma emulator_camera_leaves:
  assumes "\<And>lo. leaves (\<lambda>(x, lo). device_later c opts cx px x) (k lo)"
  shows "leaves (\<lambda>(x, lo). device_later c opts cx px x) (emulator_camera E V cfg cx lo k)"
proof -
  have later: "leaves (\<lambda>(x, lo) b. device_later c opts cx px x (a @ b)) (k lo)" for lo a
    by (rule leaves_mono [OF assms]) (auto intro: device_later_before)
  have failed: "\<And>e evs. device_later c opts cx px (Inl e) evs" by (simp add: device_later_def)
  have q: "quiet (thenE (logE E l t d) (waitForCameraPublisher E V j))" "quiet (acquireCameraSlot E V j)"
    "quiet (thenE (logE E l t d) (startCameraBridge E bo))" for l t d j bo
    by (intro emits_intros plain_quiet [OF plain_poll], simp, rule quiet_camera_steps, intro emits_intros quiet_camera_steps, simp)
  show ?thesis
    unfolding emulator_camera_def Let_def
    apply (cases "em_camera cfg")
     apply (simp only: option.case assms)
    apply (simp only: option.case)
    apply (rule leaves_tryL [OF q(1) leaves_any [OF q(1)]], simp add: failed)
    apply (rule leaves_tryL [OF q(2) leaves_any [OF q(2)]], simp add: failed)
    apply (rule leaves_tryL [OF q(3) leaves_any [OF q(3)]], simp add: failed)
    apply (rule leaves_mono [OF later])
    apply (auto intro: device_later_before)
    done
qed

lemma emulator_try_leaves:
  assumes "po_proxy opts = Some px"
  shows "leaves (\<lambda>(x, lo). device_later (em_proxyGateway cfg) opts cx px x) (emulator_try E V cfg opts cx)"
  unfolding emulator_try_def Let_def assms
proof (rule emulator_camera_leaves)
  let ?name = "emulator_containerName (cx_jobId cx)"
  fix lo :: "'a emulator_locals"
  have failed: "\<And>e evs. device_later (em_proxyGateway cfg) opts cx px (Inl e) evs" by (simp add: device_later_def)
  have start: "quiet (start_gateway E (Some px) cx c n cn via)" for c n cn via by (rule quiet_start_gateway)
  have run: "quiet (thenE (logE E l t d) (bindE (nowE E) (\<lambda>now. docker_run E (spec now) sig)))"
    "leaves (\<lambda>_ evs. \<exists>now. started (spec now) evs) (thenE (logE E l t d) (bindE (nowE E) (\<lambda>now. docker_run E (spec now) sig)))"
    for l t d spec sig
    by (intro emits_intros, simp, rule leaves_after, intro emits_intros, simp,
        rule leaves_mono [OF run_now_leaves], blast intro: started_more)
  have later: "device_later (em_proxyGateway cfg) opts cx px (Inr a) (e1 @ e2 @ e3 @ e4)"
    if "gateway_started (em_proxyGateway cfg) cx px e1" "gateway_of E (Some px) (cx_jobId cx) (Some g)"
      "\<exists>now. started (emulator_spec cfg opts cx (lo\<lparr>el_gateway := Some g\<rparr>) now) e2" "aq_serial a = Some serial"
      "egress_known (em_proxyGateway cfg) (po_adbCommand opts) (serial_target (po_adbServer opts) serial) (aq_egressIp a) e4"
    for a e1 e2 e3 e4 g serial
    using that
    by (intro device_later_parts device_behind_parts [where spec = "emulator_spec cfg opts cx (lo\<lparr>el_gateway := Some g\<rparr>)"])
      (auto simp: gateway_of_def own_gateway_def emulator_spec_def)
  show "leaves (\<lambda>(x, lo). device_later (em_proxyGateway cfg) opts cx px x)
      (tryL (start_gateway E (Some px) cx (em_proxyGateway cfg) (em_network cfg) (em_controlNetwork cfg) (em_connectVia cfg)) lo
        (\<lambda>gateway. tryL (thenE (logE E INFO ''Starting ephemeral emulator container''
              (Some (JsObj ([(''container'', JsStr ?name), (''image'', JsStr (em_image cfg)), (''avd'', JsStr (em_avdName cfg)),
                    (''sessionVolume'', JsStr (emulator_sessionVolumeName cfg (cx_accountId cx)))]
                  @ opt_field ''egressGateway'' (map_option (JsStr \<circ> gt_name) gateway)
                  @ opt_field ''cameraIndex'' (map_option (JsNum \<circ> int \<circ> cs_index) (el_camera lo))))))
            (bindE (nowE E) (\<lambda>now. docker_run E (emulator_spec cfg opts cx (lo\<lparr>el_gateway := gateway\<rparr>) now) JobSignal)))
          (lo\<lparr>el_gateway := gateway\<rparr>)
          (\<lambda>_. tryL (emulator_resolveSerial E cfg (case gateway of Some g \<Rightarrow> gt_name g | None \<Rightarrow> ?name)) (lo\<lparr>el_gateway := gateway\<rparr>)
            (\<lambda>serial. tryL (emulator_prepare E cfg opts cx (lo\<lparr>el_gateway := gateway, el_serial := Some serial\<rparr>) serial)
              (lo\<lparr>el_gateway := gateway, el_serial := Some serial\<rparr>)
              (\<lambda>(dev, egressIp). ret (Inr \<lparr>aq_device = dev, aq_serial = Some serial, aq_egressIp = egressIp,
                  aq_release = emulator_teardown E opts ?name (lo\<lparr>el_gateway := gateway, el_serial := Some serial\<rparr>)\<rparr>,
                lo\<lparr>el_gateway := gateway, el_serial := Some serial\<rparr>))))))"
    apply (rule leaves_tryL [OF start start_gateway_leaves], simp add: failed)
    subgoal for gw e1
      apply (elim conjE)
      apply (rule gateway_of_Some, assumption)
      apply (simp only:)
      apply (rule leaves_tryL [OF run], simp add: failed)
      apply (rule leaves_tryL [OF _ leaves_any])
         apply (simp only: emulator_resolveSerial_def, rule plain_quiet, rule plain_reaching)
        apply (simp only: emulator_resolveSerial_def, rule plain_quiet, rule plain_reaching)
       apply (simp add: failed)
      apply (rule leaves_tryL [OF _ emulator_prepare_leaves [OF assms]])
         apply (rule plain_quiet, rule emulator_prepare_facts)
        apply simp
       apply (simp add: failed)
      apply (clarify, rule leaves_ret, simp only: prod.case append_Nil2)
      apply (rule later, assumption, assumption, blast, simp, simp)
      done
    done
qed

text \<open>
  The same of an emulator: an account with a proxy is handed one only behind its gateway, with the
  same proxy, namespace and check, whether it lends a camera or not.
\<close>

theorem emulator_behind_gateway:
  assumes "po_proxy opts = Some px" and "emulator_acquire E V cfg opts cx r = Some (Inr a, r1)"
  shows "\<exists>before evs. ru_trace r1 = ru_trace r @ before @ evs \<and> behind_gateway (em_proxyGateway cfg) opts cx px a evs"
proof -
  have quiet: "quiet (refuseConcurrentRunForAccount E cx)" "quiet (ensureVolume E v ls)" "quiet (ignoreE (docker_remove E n))" for v ls n
    by (rule plain_quiet, rule plain_reaching, rule plain_quiet, rule plain_logs, intro emits_intros)
  have "leaves (\<lambda>a. device_later (em_proxyGateway cfg) opts cx px (Inr a)) (emulator_acquire E V cfg opts cx)"
    unfolding emulator_acquire_def Let_def
    apply (rule leaves_after [OF quiet(1)], rule leaves_after [OF quiet(2)], rule leaves_after [OF quiet(3)])
    apply (rule leaves_bind [OF emulator_try_leaves [OF assms(1)]])
    apply (clarsimp split: sum.splits, intro conjI allI impI)
     apply (auto intro!: leaves_never yields_intros)[1]
    apply (auto intro!: leaves_ret)
    apply (assumption | rule device_later_before)+
    done
  from leavesD [OF this assms(2)] show ?thesis by (auto simp: device_later_def)
qed

end
