(* ===== verification/Container_World.thy ===== *)
theory Container_World
  imports Android_World Reaper Container_Egress
begin

text \<open>
  Small worlds for the properties of the containers, the cameras and the reaper: a Docker daemon and
  a device on which every command works, and a Redis with a few leases.
\<close>

subsection \<open>An account with a proxy, in a container\<close>

definition ex_check :: egress_check_config where
  "ex_check = \<lparr>ec_enabled = True, ec_url = ''http://e/'', ec_timeoutSeconds = 5, ec_probeBinary = None\<rparr>"

definition ex_gateway :: gateway_config where
  "ex_gateway = \<lparr>gw_image = ''t2s'', gw_logLevel = ''info'', gw_env = [(''TUN'', ''tun0''), (''PROXY'', ''http://x'')], gw_settleMs = 2,
     gw_harden = True, gw_disableIpv6 = True, gw_egressCheck = ex_check\<rparr>"

definition ex_redroid :: redroid_config where
  "ex_redroid = \<lparr>rd_image = ''redroid'', rd_sessionVolume = None, rd_connectVia = ContainerName, rd_connectHost = ''h'',
     rd_network = None, rd_controlNetwork = None, rd_proxyGateway = ex_gateway, rd_memoryLimit = ''2g'',
     rd_width = 720, rd_height = 1280, rd_dpi = 320, rd_gpuMode = ''guest'', rd_binderfsPath = None,
     rd_useMemfd = True, rd_extraArgs = [], rd_startTimeoutSeconds = 5\<rparr>"

definition ex_options :: provider_options where
  "ex_options = \<lparr>po_proxy = Some ex_proxy, po_adbCommand = ''adb'', po_adbServer = None, po_bootTimeoutSeconds = 60\<rparr>"

definition ex_context :: acquire_context where
  "ex_context = \<lparr>cx_jobId = ''j1'', cx_accountId = ''a1'', cx_packageName = ''app'', cx_apkPath = None,
     cx_requirePackage = True\<rparr>"

definition ex_gateway_options :: gateway_options where
  "ex_gateway_options = \<lparr>go_proxy = ex_proxy, go_jobId = ''j1'', go_accountId = ''a1'', go_config = ex_gateway,
     go_network = None, go_controlNetwork = None, go_publishContainerPort = None\<rparr>"

theorem gateway_proxy_fixed_witness:
  "gateway_env ex_gateway ex_proxy = [(''TUN'', ''tun0''), (''PROXY'', proxyUrl ex_proxy), (''LOGLEVEL'', ''info'')]
   \<and> filter (\<lambda>kv. fst kv = ''PROXY'') (gateway_env ex_gateway ex_proxy) = [(''PROXY'', proxyUrl ex_proxy)]"
proof
  show "gateway_env ex_gateway ex_proxy = [(''TUN'', ''tun0''), (''PROXY'', proxyUrl ex_proxy), (''LOGLEVEL'', ''info'')]"
    by (simp add: gateway_env_def ex_gateway_def put_def)
  have "distinct (map fst (gw_env (go_config ex_gateway_options)))" by (simp add: ex_gateway_options_def ex_gateway_def)
  from gateway_proxy_fixed [OF this] show
    "filter (\<lambda>kv. fst kv = ''PROXY'') (gateway_env ex_gateway ex_proxy) = [(''PROXY'', proxyUrl ex_proxy)]"
    by (simp add: ex_gateway_options_def)
qed

text \<open>Every call of Docker in that world returns what the command printed.\<close>

lemma small_docker: "returns (\<lambda>out. ExecOk out [] = ex_exec args) (docker ex_env args sig t)"
proof -
  obtain out where out: "ex_exec args = ExecOk out []" "out \<in> set ex_outputs" using ex_exec_outputs by blast
  then show ?thesis
    unfolding docker_def
    by (intro returns_bind [where Q = "\<lambda>x. x = ExecOk out []"])
      (auto simp: execE_def ex_env_def ex_output(1) intro!: returns_intros)
qed

lemma small_docked [returns_intros]: "returns (\<lambda>_. True) (docker ex_env args sig t)"
  by (rule returns_mono [OF small_docker]) simp

lemma ex_exec_words: "\<not> js_includes ''--format'' ''HostPort''" "\<not> js_includes ''{{.State.Running}}'' ''HostPort''"
  "\<not> js_includes ''e:80:10.0.0.9'' ''HostPort''" "js_trim ''true'' = ''true''"
  "firstAddress ''5.6.7.8'' = Some ''5.6.7.8''" "firstAddress ''1.1.1.1'' = Some ''1.1.1.1''" "\<not> ip_pattern ''e''"
  by code_simp+

lemma small_running: "returns (\<lambda>b. b) (isRunning ex_env name sig)"
  unfolding isRunning_def
  by (rule returns_catch, rule returns_bind [OF small_docker])
    (auto simp: ex_exec_def Let_def ex_exec_words simp del: js_includes.simps intro!: returns_ret)

lemma small_docker_ops [returns_intros]:
  "returns (\<lambda>_. True) (docker_run ex_env spec sig)" "returns (\<lambda>_. True) (docker_exec ex_env name cmd sig)"
  "returns (\<lambda>_. True) (ensureVolume ex_env name ls)"
  unfolding docker_ops by (auto intro!: returns_intros)

lemma small_list: "returns (\<lambda>cs. cs = []) (listByLabel ex_env l v)"
  unfolding listByLabel_def
  by (rule returns_bind [OF small_docker]) (auto simp: ex_exec_def Let_def ex_exec_words simp del: js_includes.simps intro!: returns_ret)

lemma throws_returned: "returns Q m \<Longrightarrow> (\<And>x. Q x \<Longrightarrow> throws T (f x)) \<Longrightarrow> throws T (bindE m f)"
proof -
  assume m: "returns Q m" and f: "\<And>x. Q x \<Longrightarrow> throws T (f x)"
  have "T e" if run: "bindE m f r = Some (Inl e, r1)" for r e r1
  proof -
    obtain x r2 where "m r = Some (Inr x, r2)" and Q: "Q x" using returnsD [OF m] by blast
    with run have "f x r2 = Some (Inl e, r1)" by (simp add: bindE_def)
    with throwsD [OF f [OF Q]] show ?thesis by blast
  qed
  then show ?thesis by (auto simp: throws_def)
qed

lemma small_watch [returns_intros]: "returns (\<lambda>_. True) (watch_container ex_env name t c x)"
proof (rule returns_calm [OF watch_settles [OF ex_env_laws]])
  show "throws (\<lambda>_. False) (watch_container ex_env name t c x)"
    unfolding watch_container_def watch_pause_def
    by (intro throws_bind throws_loop throws_returned [OF small_calm(2)] throws_if throws_returned [OF small_running])
      (auto simp: nowE_def sleepE_def intro: throws_intros)
qed

lemma small_start_gateway:
  "returns (\<lambda>_. True) (start_gateway ex_env (Some px) cx cfg net None via)"
  unfolding start_gateway_def startProxyGateway_def attach_control_def assertStillRunning_def option.case Let_def opt_truthy_def
  by (auto intro!: returns_intros settles_intros)

lemma small_connect [returns_intros]: "returns (\<lambda>_. True) (adbConnect ex_env cmd target address sig)"
  unfolding adbConnect_def
  by (rule returns_bind [OF small_adb]) (auto simp: ex_output(5) intro!: returns_ret)

lemma small_usable:
  assumes "0 < po_bootTimeoutSeconds opts"
  shows "returns (\<lambda>dev. dev = AdbDevice ex_env (po_adbCommand opts) (serial_target (po_adbServer opts) serial))
     (waitUntilUsable ex_env opts t c st serial name gw)"
proof -
  have "returns (\<lambda>_. True) (waitUntilReady (AdbDevice ex_env cmd target) (po_bootTimeoutSeconds opts * 1000))" for cmd target
    unfolding waitUntilReady_def AdbDevice_def using assms by (simp add: returns_note small_boot)
  moreover have up: "returns (\<lambda>b. b) (case gw of Some g \<Rightarrow> isRunning ex_env (gt_name g) JobSignal | None \<Rightarrow> ret True)"
    by (auto intro!: returns_ret small_running split: option.splits)
  have "returns (\<lambda>_. True) (await_adb ex_env opts t c st serial name gw)"
    unfolding await_adb_def
    apply (rule returns_then [OF returns_basic(3)], rule returns_loop_once)
    apply (rule returns_bind [OF small_calm(2)], simp only: if_False not_False_eq_True)
    apply (rule returns_bind [OF small_running], simp only: not_True_eq_False if_False)
    apply (rule returns_bind [OF up], simp only: not_True_eq_False if_False)
    apply (rule returns_bind [OF returns_attempt [OF small_connect]])
    apply (auto intro!: returns_ret)
    done
  ultimately show ?thesis
    unfolding waitUntilUsable_def Let_def by (intro returns_then returns_ret refl)
qed

text \<open>The device's answer in that world is not the worker's own address.\<close>

lemma small_check:
  "returns (\<lambda>ip. ip = ''5.6.7.8'')
     (assertProxiedEgress ex_env (AdbDevice ex_env cmd target) gw ''http://e/'' ts (Some ''10.0.0.9'') probe)"
proof -
  have spec: "resolveSpec ex_env ''http://e/'' ''10.0.0.9'' = Inr ''e:80:10.0.0.9''"
    by (simp add: resolveSpec_def ex_env_def)
  have "returns (\<lambda>res. ar_stdout res = ''5.6.7.8'' \<and> ar_code res = 0)
      (dv_probe (AdbDevice ex_env cmd target) (hd (egress_attempts ''http://e/'' ts (Some ''e:80:10.0.0.9''))) sig)" for sig
    unfolding AdbDevice_def device.simps
    by (rule returns_mono [OF small_probe])
      (auto simp: egress_attempts_def ex_exec_def ex_exec_words Let_def simp del: js_includes.simps dest: arg_cong [where f = ar_code])
  then have "returns (\<lambda>y. y = Inr ''5.6.7.8'')
      (ask_tools ex_env (AdbDevice ex_env cmd target) ts (egress_attempts ''http://e/'' ts (Some ''e:80:10.0.0.9'')) [])"
    unfolding egress_attempts_def Let_def ask_tools.simps list.sel
    by (intro returns_bind [OF returns_attempt]) (auto simp: ex_exec_words simp del: js_includes.simps intro!: returns_ret)
  then have "returns (\<lambda>ip. ip = ''5.6.7.8'')
      (deviceEgressIp ex_env (AdbDevice ex_env cmd target) ''http://e/'' ts (Some ''10.0.0.9'') probe)"
    unfolding deviceEgressIp_def
    by (intro returns_bind [where Q = "\<lambda>y. y = Some ''e:80:10.0.0.9''"] returns_bind [where Q = "\<lambda>y. y = Inr ''5.6.7.8''"])
      (auto simp: opt_truthy_def spec intro!: returns_intros)
  moreover have "returns (\<lambda>v. v = Some ''1.1.1.1'') (directEgressIp ex_env ''http://e/'' t)" for t
    unfolding directEgressIp_def
    by (rule returns_note, rule returns_bind [where Q = "\<lambda>v. v = None"])
      (auto simp: ex_env_def Let_def ex_exec_words intro!: returns_intros)
  ultimately show ?thesis
    unfolding assertProxiedEgress_def
    by (intro returns_bind [where Q = "\<lambda>v. v = ''5.6.7.8''"] returns_catch returns_bind [where Q = "\<lambda>v. v = Some ''1.1.1.1''"])
      (auto intro!: returns_intros)
qed

lemma small_harden: "returns (\<lambda>_. True) (applyEgressPolicy ex_env gw pol)"
  unfolding applyEgressPolicy_def Let_def
  by (auto intro!: returns_intros)

lemma small_resolve: "returns (\<lambda>xs. xs = [(''10.0.0.9'', port)]) (resolveProxyEndpoints ex_env host port)"
  unfolding resolveProxyEndpoints_def
  by (rule returns_bind [where Q = "\<lambda>x. x = Some [''10.0.0.9'']"]) (auto simp: ex_env_def intro!: returns_intros)

lemma small_pin:
  "returns (\<lambda>ip. ip = Some ''5.6.7.8'') (pinEgress ex_env ex_gateway gw ex_proxy (AdbDevice ex_env cmd target))"
proof -
  have host: "egressCheckHost ex_env ''http://e/'' = Some ''e''"
    by (simp add: egressCheckHost_def ex_env_def ex_exec_words(7))
  have persona: "returns (\<lambda>_. True) (alignDeviceToEgress ex_env dev ex_proxy)" for dev
    by (simp add: alignDeviceToEgress_def ex_proxy_def opt_truthy_def returns_intros)
  have hardened: "returns (\<lambda>_. True) (bindE (resolveProxyEndpoints ex_env h p) (\<lambda>endpoints.
      thenE (whenE (endpoints = []) (logE ex_env WARN m d)) (applyEgressPolicy ex_env (gt_name gw) (pol endpoints))))" for h p m d pol
    by (rule returns_bind [OF small_resolve], rule returns_then) (auto intro!: returns_intros small_harden)
  show ?thesis
    unfolding pinEgress_def
    apply (rule returns_then)
     apply (rule returns_if [OF hardened returns_ret], rule TrueI)
    apply (rule returns_then [OF persona])
    apply (simp only: ex_gateway_def ex_check_def gateway_config.simps egress_check_config.simps not_True_eq_False if_False Let_def
        host opt_truthy_def option.case)
    apply (simp only: option.sel simp_thms if_True if_False list.distinct option.inject option.distinct)
    apply (rule returns_then, rule returns_ret, rule TrueI)
    apply (rule returns_bind [OF small_resolve])
    apply (simp only: list.case prod.case)
    apply (rule returns_bind [OF small_check])
    apply (simp add: returns_ret)
    done
qed

lemma small_prepare:
  "returns (\<lambda>(dev, ip). ip = Some ''5.6.7.8'') (redroid_prepare ex_env ex_redroid ex_options ex_context (Some g) serial)"
proof -
  have po: "po_proxy ex_options = Some ex_proxy" "0 < po_bootTimeoutSeconds ex_options" "rd_proxyGateway ex_redroid = ex_gateway"
    by (simp_all add: ex_options_def ex_redroid_def)
  have ensure: "returns (\<lambda>_. True) (ensurePackageInstalled ex_env (AdbDevice ex_env cmd target) ex_context)" for cmd target
    unfolding ensurePackageInstalled_def Let_def
    by (rule returns_bind [OF small_installed]) (simp add: returns_ret)
  show ?thesis
    unfolding redroid_prepare_def Let_def po option.case prod.case
    apply (rule returns_bind [OF small_usable [OF po(2)]])
    apply (simp only:)
    apply (rule returns_bind [OF small_pin])
    apply (rule returns_then [OF ensure], rule returns_then [OF returns_basic(1)])
    apply (simp add: returns_ret)
    done
qed

lemma small_redroid:
  "returns (\<lambda>a. aq_egressIp a = Some ''5.6.7.8'') (redroid_acquire ex_env ex_redroid ex_options ex_context)"
proof -
  have refuse: "returns (\<lambda>_. True) (refuseConcurrentRunForAccount ex_env cx)" for cx
    unfolding refuseConcurrentRunForAccount_def Let_def
    by (rule returns_bind [OF small_list]) (simp add: returns_ret)
  have gateway: "returns (\<lambda>gw. gateway_of ex_env (Some ex_proxy) (cx_jobId ex_context) gw)
      (start_gateway ex_env (Some ex_proxy) ex_context ex_gateway None None ContainerName)"
    by (rule returns_mono [OF returns_yields [OF small_start_gateway start_gateway_of]]) blast
  have tried: "returns (\<lambda>y. \<exists>a. fst y = Inr a \<and> aq_egressIp a = Some ''5.6.7.8'')
      (redroid_try ex_env ex_redroid ex_options ex_context (Some g))" for g
    unfolding redroid_try_def Let_def
    apply (rule returns_tryL [where Q = "\<lambda>_. True"])
     apply (intro returns_then returns_basic small_docker_ops)
    apply (rule returns_tryL [where Q = "\<lambda>_. True"])
     apply (simp add: resolveSerial_def ex_redroid_def returns_ret)
    apply (rule returns_tryL [OF small_prepare])
    apply (auto intro!: returns_ret)
    done
  have cfg: "po_proxy ex_options = Some ex_proxy" "rd_network ex_redroid = None" "rd_controlNetwork ex_redroid = None"
    "rd_connectVia ex_redroid = ContainerName" "rd_proxyGateway ex_redroid = ex_gateway"
    by (simp_all add: ex_options_def ex_redroid_def)
  show ?thesis
    unfolding redroid_acquire_def Let_def cfg
    apply (rule returns_then [OF refuse], rule returns_then [OF small_docker_ops(3)],
        rule returns_then [OF returns_ignore [OF settles_docker_ops(5)]])
    apply (rule returns_bind [OF gateway])
    apply (erule gateway_of_Some)
    apply (simp only:)
    apply (rule returns_bind [OF tried])
    apply (auto intro!: returns_ret split: prod.splits)
    done
qed


theorem redroid_behind_gateway_witness:
  "\<exists>a r1 evs. redroid_acquire ex_env ex_redroid ex_options ex_context run0 = Some (Inr a, r1)
     \<and> behind_gateway ex_gateway ex_options ex_context ex_proxy a evs \<and> aq_egressIp a = Some ''5.6.7.8''"
proof -
  obtain a r1 where run: "redroid_acquire ex_env ex_redroid ex_options ex_context run0 = Some (Inr a, r1)"
    and ip: "aq_egressIp a = Some ''5.6.7.8''"
    using returnsD [OF small_redroid] by blast
  have po: "po_proxy ex_options = Some ex_proxy" and cfg: "rd_proxyGateway ex_redroid = ex_gateway"
    by (simp_all add: ex_options_def ex_redroid_def)
  from redroid_behind_gateway [OF po run] obtain evs where "behind_gateway ex_gateway ex_options ex_context ex_proxy a evs"
    unfolding cfg by (elim exE conjE) (rule that)
  with run ip show ?thesis by (intro exI conjI)
qed


subsection \<open>A Redis with two cameras\<close>

definition ex_redis :: "(string \<Rightarrow> string option) device_env" where
  "ex_redis =
     \<lparr>ae_clock = (\<lambda>s. 0), ae_aborted = (\<lambda>s. False), ae_timedOut = (\<lambda>s. False), ae_sleep = (\<lambda>t s. s),
      ae_timer = (\<lambda>t s. (True, s)), ae_fetch = (\<lambda>m u b s. (FetchFailed [], s)), ae_log = (\<lambda>l m d s. s),
      ae_storage = (\<lambda>s. None), ae_put = (\<lambda>k b s. (Inr (), s)), ae_exec = (\<lambda>c args sig t s. (ExecOk [] [], s)),
      ae_parseUrl = (\<lambda>u. None), ae_lookup = (\<lambda>h s. (None, s)), ae_getText = (\<lambda>u t s. (None, s)),
      ae_directIp = (\<lambda>s. None), ae_cacheIp = (\<lambda>u v s. s), ae_parseDate = (\<lambda>d. None),
      ae_setNx = (\<lambda>k v t s. if s k = None then (Inr True, s(k \<mapsto> v)) else (Inr False, s)),
      ae_redisGet = (\<lambda>k s. (Inr (s k), s)), ae_jobStatus = (\<lambda>j s. (Inr None, s)),
      ae_delIf = (\<lambda>k v s. if s k = Some v then (Inr True, s(k := None)) else (Inr False, s))\<rparr>"

definition ex_two_cameras :: camera_vars where
  "ex_two_cameras = ex_camera\<lparr>cv_devicePool := ''10,11'', cv_number := (\<lambda>s. Some (if s = ''10'' then 10 else 11))\<rparr>"

lemma ex_redis_laws: "set_nx_law ex_redis (\<lambda>s. s)" "del_if_law ex_redis (\<lambda>s. s)" "redis_reads ex_redis (\<lambda>s. s)"
  by (auto simp: set_nx_law_def del_if_law_def redis_reads_def ex_redis_def)

lemma ex_pool: "cameraPool ex_two_cameras = [10, 11]"
  by code_simp

text \<open>The first camera is lent to another job, so this one gets the second.\<close>

definition ex_leased :: "(string \<Rightarrow> string option) run" where
  "ex_leased = \<lparr>ru_env = [leaseKey 10 \<mapsto> ''j0''], ru_trace = []\<rparr>"

theorem camera_lent_once_witness:
  "\<exists>slot r1. acquireCameraSlot ex_redis ex_two_cameras ''j1'' ex_leased = Some (Inr slot, r1) \<and> cs_index slot = 11
     \<and> ru_env r1 = [leaseKey 10 \<mapsto> ''j0'', leaseKey 11 \<mapsto> ''j1'']"
proof -
  have "leaseKey 11 \<noteq> leaseKey 10" by (simp add: leaseKey_inj)
  then obtain slot r1 where run: "acquireCameraSlot ex_redis ex_two_cameras ''j1'' ex_leased = Some (Inr slot, r1)"
    and index: "cs_index slot = 11"
    by (auto simp: acquireCameraSlot_def ex_pool ex_leased_def bindE_def invoke_def ret_def ex_redis_def)
  from camera_lent_once [OF ex_redis_laws(1,2) run] index run show ?thesis
    by (auto simp: Let_def ex_leased_def)
qed

theorem reconcile_frees_only_stale_witness:
  "\<exists>freed r1 evs. reconcileCameraLeases ex_redis ex_two_cameras ex_leased = Some (Inr freed, r1)
     \<and> ru_trace r1 = ru_trace ex_leased @ evs \<and> (ru_env r1 = ru_env ex_leased
       \<or> freed_by ({10, 11} - held_cameras ex_two_cameras []) (ru_env ex_leased) (ru_env r1) evs)"
proof -
  have "listByLabel ex_redis OWNER_LABEL OWNER_VALUE ex_leased = Some (Inr cs, r0) \<Longrightarrow> cs = []" for cs r0
    by (auto simp: listByLabel_def docker_def execE_def perform_def bindE_def ret_def ex_redis_def Let_def ex_numbers(3))
  moreover have "set (cameraPool ex_two_cameras) = {10, 11}" by (simp add: ex_pool)
  ultimately show ?thesis
    using reconcile_frees_only_stale [OF ex_redis_laws(2,3), of ex_two_cameras ex_leased] by metis
qed

subsection \<open>A sweep\<close>

lemma ex_env_steady: "steady_clock ex_env"
  using ex_env_laws by (simp add: steady_clock_def ex_env_def)


theorem Date_parse_toISOString_witness:
  "Date_parse (\<lambda>s. None) (toISOString 5345678) = Some 5345678"
proof -
  have "year_of 1970 (nat 5345678 div 86400000) = (1970, 0)"
    by (subst year_of.simps) (simp add: year_length_def leap_year_def)
  then show ?thesis by (intro Date_parse_toISOString) simp_all
qed

end
