(* ===== verification/Passwords.thy ===== *)
theory Passwords
  imports Prelude
begin

text \<open>
  \<open>lib/auth/password.ts\<close>: passwords kept as scrypt hashes whose cost parameters are part of the
  stored text. scrypt, base64, the reading of a number and Unicode normalisation are Node's: the fields
  of \<open>hashing\<close>, with their documented behaviour in \<open>hashing_laws\<close>. \<open>randomBytes\<close> is an argument.
\<close>

record hashing =
  hs_scrypt :: "bytes \<Rightarrow> bytes \<Rightarrow> nat \<Rightarrow> int \<times> int \<times> int \<Rightarrow> int \<Rightarrow> bytes option"
    \<comment> \<open>password, salt, key length, N r p, maxmem; \<open>None\<close>: it reports an error\<close>
  hs_nfkc :: "string \<Rightarrow> bytes"            \<comment> \<open>the UTF-8 bytes of \<open>s.normalize('NFKC')\<close>\<close>
  hs_base64 :: "bytes \<Rightarrow> string"
  hs_unbase64 :: "string \<Rightarrow> bytes"
  hs_integer :: "string \<Rightarrow> int option"    \<comment> \<open>\<open>Number(s)\<close>, when that is an integer\<close>
  hs_below :: "string \<Rightarrow> int \<Rightarrow> bool"     \<comment> \<open>\<open>Number(s) < n\<close>\<close>

definition PARAMS_N :: int where "PARAMS_N = 16384"
definition PARAMS_r :: int where "PARAMS_r = 8"
definition PARAMS_p :: int where "PARAMS_p = 1"
definition PARAMS_keyLength :: nat where "PARAMS_keyLength = 64"
definition SALT_BYTES :: nat where "SALT_BYTES = 16"
definition PASSWORD_MIN_LENGTH :: nat where "PASSWORD_MIN_LENGTH = 10"

definition hashing_laws :: "hashing \<Rightarrow> bool" where
  "hashing_laws H =
     ((\<forall>b. hs_unbase64 H (hs_base64 H b) = b)
      \<and> (\<forall>b. CHR ''$'' \<notin> set (hs_base64 H b))
      \<and> (\<forall>i \<ge> 0. hs_integer H (show_int i) = Some i)
      \<and> (\<forall>s i n. hs_integer H s = Some i \<longrightarrow> hs_below H s n = (i < n))
      \<and> (\<forall>w s n c m d. hs_scrypt H w s n c m = Some d \<longrightarrow> length d = n))"

datatype password_error = PasswordTooShort | PasswordTooLong | ScryptFailed

text \<open>\<open>Buffer.byteLength(s, 'utf8')\<close>, for code units below 256.\<close>

definition utf8_length :: "string \<Rightarrow> nat" where
  "utf8_length s = sum_list (map (\<lambda>c. if of_char c < (128 :: nat) then 1 else 2) s)"

definition assertReasonable :: "string \<Rightarrow> (password_error, unit) result" where
  "assertReasonable password =
     andThen (guardE (length password \<ge> PASSWORD_MIN_LENGTH) PasswordTooShort) (\<lambda>u.
       guardE (utf8_length password \<le> 1024) PasswordTooLong)"

definition hashPassword :: "hashing \<Rightarrow> bytes \<Rightarrow> string \<Rightarrow> (password_error, string) result" where
  "hashPassword H salt password =
     andThen (assertReasonable password) (\<lambda>u.
       case hs_scrypt H (hs_nfkc H password) salt PARAMS_keyLength (PARAMS_N, PARAMS_r, PARAMS_p)
              (256 * PARAMS_N * PARAMS_r) of
         None \<Rightarrow> Inl ScryptFailed
       | Some derived \<Rightarrow> Inr (js_join ''$''
           [show_int PARAMS_N, show_int PARAMS_r, show_int PARAMS_p, hs_base64 H salt, hs_base64 H derived]))"

text \<open>\<open>Buffer.from(s, 'base64')\<close> never throws on a string; \<open>timingSafeEqual\<close> is equality.\<close>

definition verifyPassword :: "hashing \<Rightarrow> string \<Rightarrow> string \<Rightarrow> bool" where
  "verifyPassword H password stored =
     (case js_split (CHR ''$'') stored of
        [nRaw, rRaw, pRaw, saltB64, expectedB64] \<Rightarrow>
          (case (hs_integer H nRaw, hs_integer H rRaw, hs_integer H pRaw) of
             (Some N, Some r, Some p) \<Rightarrow>
               (let expected = hs_unbase64 H expectedB64; salt = hs_unbase64 H saltB64
                in if length expected = 0 \<or> length salt = 0 then False
                   else (case hs_scrypt H (hs_nfkc H password) salt (length expected) (N, r, p) (256 * N * r) of
                           None \<Rightarrow> False
                         | Some derived \<Rightarrow> length derived = length expected \<and> derived = expected))
           | _ \<Rightarrow> False)
      | _ \<Rightarrow> False)"

text \<open>A part that is missing is \<open>undefined\<close>, and \<open>NaN < n\<close> is false.\<close>

definition needsRehash :: "hashing \<Rightarrow> string \<Rightarrow> bool" where
  "needsRehash H stored =
     (let part = (\<lambda>i n. i < length (js_split (CHR ''$'') stored) \<and> hs_below H (js_split (CHR ''$'') stored ! i) n)
      in part 0 PARAMS_N \<or> part 1 PARAMS_r \<or> part 2 PARAMS_p)"

subsection \<open>Reading a hash back\<close>

lemma show_int_dollar: "CHR ''$'' \<notin> set (show_int i)"
proof -
  have "CHR ''$'' \<noteq> digit_char n" if "n < 10" for n
  proof
    assume "CHR ''$'' = digit_char n"
    then have "of_char CHR ''$'' = (of_char (digit_char n) :: nat)" by simp
    with that show False by simp
  qed
  then have "CHR ''$'' \<notin> digit_char ` {..<10}" by auto
  then have "CHR ''$'' \<notin> set (show_nat n)" for n using show_nat_digits by blast
  then show ?thesis by (simp add: show_int_def)
qed

lemma split_hash:
  assumes "hashing_laws H"
  shows "js_split (CHR ''$'') (js_join ''$'' [show_int a, show_int b, show_int c, hs_base64 H s, hs_base64 H e])
    = [show_int a, show_int b, show_int c, hs_base64 H s, hs_base64 H e]"
proof -
  have "CHR ''$'' \<notin> set (hs_base64 H x)" for x using assms by (simp add: hashing_laws_def)
  then show ?thesis by (intro js_split_join) (auto simp: show_int_dollar)
qed

text \<open>
  A password is accepted against a hash exactly when scrypt, with the cost and the salt the hash
  was made with, gives the key the hash holds; so whatever the parameters are raised to later,
  the hashes made before keep working.
\<close>

lemma verify_made_hash:
  assumes "hashing_laws H" and "e \<noteq> []" and "s \<noteq> []" and "a \<ge> 0" and "b \<ge> 0" and "c \<ge> 0"
  shows "verifyPassword H q (js_join ''$'' [show_int a, show_int b, show_int c, hs_base64 H s, hs_base64 H e])
    \<longleftrightarrow> hs_scrypt H (hs_nfkc H q) s (length e) (a, b, c) (256 * a * b) = Some e"
proof -
  have "hs_unbase64 H (hs_base64 H b) = b" "i \<ge> 0 \<Longrightarrow> hs_integer H (show_int i) = Some i" for b i
    using assms(1) by (simp_all add: hashing_laws_def)
  with assms(2-6) show ?thesis
    unfolding verifyPassword_def split_hash [OF assms(1)]
    using assms(1) by (auto simp: Let_def hashing_laws_def split: option.splits)
qed

lemma hash_verifies:
  assumes "hashing_laws H" and "hashPassword H salt p = Inr h" and "salt \<noteq> []"
  shows "verifyPassword H q h \<longleftrightarrow>
      hs_scrypt H (hs_nfkc H q) salt PARAMS_keyLength (PARAMS_N, PARAMS_r, PARAMS_p) (256 * PARAMS_N * PARAMS_r)
      = hs_scrypt H (hs_nfkc H p) salt PARAMS_keyLength (PARAMS_N, PARAMS_r, PARAMS_p) (256 * PARAMS_N * PARAMS_r)"
    and "\<not> needsRehash H h" and "PASSWORD_MIN_LENGTH \<le> length p"
proof -
  obtain d where d: "hs_scrypt H (hs_nfkc H p) salt PARAMS_keyLength (PARAMS_N, PARAMS_r, PARAMS_p)
        (256 * PARAMS_N * PARAMS_r) = Some d"
    and h: "h = js_join ''$'' [show_int PARAMS_N, show_int PARAMS_r, show_int PARAMS_p, hs_base64 H salt, hs_base64 H d]"
    and ok: "assertReasonable p = Inr ()"
    using assms(2) by (auto simp: hashPassword_def andThen_Inr_iff split: option.splits)
  have len: "length d = PARAMS_keyLength" using assms(1) d unfolding hashing_laws_def by blast
  then have "d \<noteq> []" by (auto simp: PARAMS_keyLength_def)
  have pos: "PARAMS_N \<ge> 0" "PARAMS_r \<ge> 0" "PARAMS_p \<ge> 0" by (simp_all add: PARAMS_N_def PARAMS_r_def PARAMS_p_def)
  from verify_made_hash [OF assms(1) \<open>d \<noteq> []\<close> assms(3) pos] show "verifyPassword H q h \<longleftrightarrow>
      hs_scrypt H (hs_nfkc H q) salt PARAMS_keyLength (PARAMS_N, PARAMS_r, PARAMS_p) (256 * PARAMS_N * PARAMS_r)
      = hs_scrypt H (hs_nfkc H p) salt PARAMS_keyLength (PARAMS_N, PARAMS_r, PARAMS_p) (256 * PARAMS_N * PARAMS_r)"
    by (simp add: h d len)
  have "hs_below H (show_int i) n = (i < n)" if "i \<ge> 0" for i n using assms(1) that by (auto simp: hashing_laws_def)
  then show "\<not> needsRehash H h" 
    unfolding needsRehash_def h split_hash [OF assms(1)] using pos by simp
  show "PASSWORD_MIN_LENGTH \<le> length p" using ok by (auto simp: assertReasonable_def andThen_Inr_iff)
qed

end
