(* ===== verification/Sessions.thy ===== *)
theory Sessions
  imports Passwords
begin

text \<open>
  \<open>lib/auth/session.ts\<close>, \<open>apiToken.ts\<close>, \<open>currentUser.ts\<close> and \<open>users.ts\<close>: who a request comes from. The tables of
  users, sessions and tokens are the record \<open>auth\<close>; SHA-256 is the argument \<open>sha\<close>, and the readings of the
  clock and the random token are arguments too. A row a session or a token names exists as
  long as it does (the foreign key deletes with the user), so the lookup that joins it is the
  lookup of the row.
\<close>

record user =
  us_id :: string
  us_email :: string
  us_name :: "string option"
  us_passwordHash :: "string option"

record session =
  se_tokenHash :: string
  se_userId :: string
  se_expiresAt :: ms
  se_userAgent :: "string option"

record api_token =
  at_id :: string
  at_userId :: string
  at_name :: string
  at_tokenHash :: string
  at_expiresAt :: "ms option"
  at_lastUsedAt :: "ms option"

record auth =
  au_users :: "user list"
  au_sessions :: "session list"
  au_tokens :: "api_token list"

record session_user =
  su_id :: string
  su_email :: string
  su_name :: "string option"

datatype auth_error =
    UserValidationError string
  | EmailTakenError string
  | PasswordError password_error     \<comment> \<open>a plain \<open>Error\<close> of \<open>hashPassword\<close>\<close>
  | UserNotFound                     \<comment> \<open>of \<open>findUniqueOrThrow\<close>\<close>
  | UnauthorizedError
  | UniqueViolation

definition SESSION_TTL_MS :: ms where "SESSION_TTL_MS = 30 * 24 * 60 * 60 * 1000"
definition RENEW_WHEN_REMAINING_MS :: ms where "RENEW_WHEN_REMAINING_MS = 7 * 24 * 60 * 60 * 1000"

definition toSessionUser :: "user \<Rightarrow> session_user" where
  "toSessionUser u = \<lparr>su_id = us_id u, su_email = us_email u, su_name = us_name u\<rparr>"

definition find_user :: "string \<Rightarrow> auth \<Rightarrow> user option" where
  "find_user i a = tfind us_id i (au_users a)"

definition find_session :: "string \<Rightarrow> auth \<Rightarrow> session option" where
  "find_session h a = tfind se_tokenHash h (au_sessions a)"

subsection \<open>Sessions\<close>

text \<open>\<open>token\<close> is \<open>randomBytes(32).toString('base64url')\<close>; the hash is the key of its table.\<close>

definition createSession ::
  "(string \<Rightarrow> string) \<Rightarrow> string \<Rightarrow> ms \<Rightarrow> string \<Rightarrow> string option \<Rightarrow> auth \<Rightarrow> (auth_error, string) result \<times> auth" where
  "createSession sha token now userId userAgent a =
     (if find_session (sha token) a \<noteq> None then (Inl UniqueViolation, a)
      else (Inr token, a\<lparr>au_sessions := au_sessions a
              @ [\<lparr>se_tokenHash = sha token, se_userId = userId, se_expiresAt = now + SESSION_TTL_MS,
                  se_userAgent = map_option (take 500) userAgent\<rparr>]\<rparr>))"

text \<open>\<open>t1\<close>, \<open>t2\<close> and \<open>t3\<close> are the readings of the clock, in order.\<close>

definition resolveSessionToken ::
  "(string \<Rightarrow> string) \<Rightarrow> ms \<Rightarrow> ms \<Rightarrow> ms \<Rightarrow> string \<Rightarrow> auth \<Rightarrow> session_user option \<times> auth" where
  "resolveSessionToken sha t1 t2 t3 token a =
     (if token = [] then (None, a)
      else (case find_session (sha token) a of
          None \<Rightarrow> (None, a)
        | Some s \<Rightarrow>
            if se_expiresAt s \<le> t1
            then (None, a\<lparr>au_sessions := [x \<leftarrow> au_sessions a. se_tokenHash x \<noteq> se_tokenHash s]\<rparr>)
            else (map_option toSessionUser (find_user (se_userId s) a),
                  if se_expiresAt s - t2 < RENEW_WHEN_REMAINING_MS
                  then a\<lparr>au_sessions := tupd se_tokenHash (se_tokenHash s)
                           (\<lambda>x. x\<lparr>se_expiresAt := t3 + SESSION_TTL_MS\<rparr>) (au_sessions a)\<rparr>
                  else a)))"

definition destroySession :: "(string \<Rightarrow> string) \<Rightarrow> string option \<Rightarrow> auth \<Rightarrow> auth" where
  "destroySession sha cookie a =
     (case cookie of
        None \<Rightarrow> a
      | Some token \<Rightarrow>
          if token = [] then a
          else a\<lparr>au_sessions := [x \<leftarrow> au_sessions a. se_tokenHash x \<noteq> sha token]\<rparr>)"

definition destroyAllSessions :: "string \<Rightarrow> auth \<Rightarrow> auth" where
  "destroyAllSessions userId a = a\<lparr>au_sessions := [x \<leftarrow> au_sessions a. se_userId x \<noteq> userId]\<rparr>"

subsection \<open>Tokens of other servers\<close>

definition PREFIX :: string where "PREFIX = ''rdo_''"

text \<open>\<open>random\<close> is \<open>randomBytes(32).toString('base64url')\<close>, \<open>newId\<close> the id the database gives.\<close>

definition createApiToken ::
  "(string \<Rightarrow> string) \<Rightarrow> string \<Rightarrow> string \<Rightarrow> string \<Rightarrow> string \<Rightarrow> ms option \<Rightarrow> auth
    \<Rightarrow> (auth_error, string \<times> string) result \<times> auth" where
  "createApiToken sha random newId userId name expiresAt a =
     (let token = PREFIX @ random
      in if tfind at_tokenHash (sha token) (au_tokens a) \<noteq> None then (Inl UniqueViolation, a)
         else (Inr (newId, token), a\<lparr>au_tokens := au_tokens a
              @ [\<lparr>at_id = newId, at_userId = userId, at_name = (if js_trim name = [] then ''unnamed'' else js_trim name),
                  at_tokenHash = sha token, at_expiresAt = expiresAt, at_lastUsedAt = None\<rparr>]\<rparr>))"

definition resolveApiToken ::
  "(string \<Rightarrow> string) \<Rightarrow> ms \<Rightarrow> ms \<Rightarrow> string \<Rightarrow> auth \<Rightarrow> session_user option \<times> auth" where
  "resolveApiToken sha t1 t2 raw a =
     (if \<not> js_starts_with raw PREFIX then (None, a)
      else (case tfind at_tokenHash (sha raw) (au_tokens a) of
          None \<Rightarrow> (None, a)
        | Some token \<Rightarrow>
            if (case at_expiresAt token of Some e \<Rightarrow> e \<le> t1 | None \<Rightarrow> False)
            then (None, a\<lparr>au_tokens := [x \<leftarrow> au_tokens a. at_id x \<noteq> at_id token]\<rparr>)
            else (map_option toSessionUser (find_user (at_userId token) a),
                  a\<lparr>au_tokens := tupd at_id (at_id token) (\<lambda>x. x\<lparr>at_lastUsedAt := Some t2\<rparr>) (au_tokens a)\<rparr>)))"

text \<open>
  The expression \<open>/^Bearer\s+(.+)$/i\<close> on the trimmed header: the trimmed text does not end in white
  space, so what follows the white space is matched whole, unless it has a line break.
\<close>

definition bearerFromHeader :: "string option \<Rightarrow> string option" where
  "bearerFromHeader header =
     (case header of
        None \<Rightarrow> None
      | Some h \<Rightarrow>
          (let t = js_trim h; rest = dropWhile js_ws (drop 6 t)
           in if js_lower (take 6 t) = ''bearer'' \<and> drop 6 t \<noteq> [] \<and> js_ws (hd (drop 6 t))
                 \<and> CHR 0x0A \<notin> set rest \<and> CHR 0x0D \<notin> set rest
              then Some (js_trim rest) else None))"

definition tokensEqual :: "string \<Rightarrow> string \<Rightarrow> bool" where
  "tokensEqual a b = (utf8_length a = utf8_length b \<and> a = b)"

subsection \<open>The caller\<close>

record request_auth =
  rq_authorization :: "string option"   \<comment> \<open>the header\<close>
  rq_cookie :: "string option"          \<comment> \<open>the value of \<open>redroid_session\<close>\<close>
  rq_development :: bool                \<comment> \<open>\<open>NODE_ENV === 'development'\<close>\<close>

definition getSessionUser ::
  "(string \<Rightarrow> string) \<Rightarrow> ms \<Rightarrow> ms \<Rightarrow> ms \<Rightarrow> request_auth \<Rightarrow> auth \<Rightarrow> session_user option \<times> auth" where
  "getSessionUser sha t1 t2 t3 q a =
     (case bearerFromHeader (rq_authorization q) of
        Some bearer \<Rightarrow> resolveApiToken sha t1 t2 bearer a
      | None \<Rightarrow>
          if (case rq_cookie q of Some token \<Rightarrow> token \<noteq> [] | None \<Rightarrow> False)
          then resolveSessionToken sha t1 t2 t3 (the (rq_cookie q)) a
          else if rq_development q
          then (case tfind us_email ''dev@localhost'' (au_users a) of
                  Some seeded \<Rightarrow> (Some (toSessionUser seeded), a)
                | None \<Rightarrow> (case au_users a of u # us \<Rightarrow> Some (toSessionUser u) | [] \<Rightarrow> None, a))
          else (None, a))"

definition requireUser ::
  "(string \<Rightarrow> string) \<Rightarrow> ms \<Rightarrow> ms \<Rightarrow> ms \<Rightarrow> request_auth \<Rightarrow> auth \<Rightarrow> (auth_error, session_user) result \<times> auth" where
  "requireUser sha t1 t2 t3 q a =
     (case getSessionUser sha t1 t2 t3 q a of
        (Some u, a1) \<Rightarrow> (Inr u, a1)
      | (None, a1) \<Rightarrow> (Inl UnauthorizedError, a1))"

text \<open>\<open>guarded\<close>: a caller who is not known gets the status 401, any other error passes through.\<close>

definition guarded :: "(auth_error, 'r) result \<times> 'w \<Rightarrow> (auth_error, int + 'r) result \<times> 'w" where
  "guarded outcome =
     (case outcome of
        (Inr response, w) \<Rightarrow> (Inr (Inr response), w)
      | (Inl e, w) \<Rightarrow> if e = UnauthorizedError then (Inr (Inl 401), w) else (Inl e, w))"

subsection \<open>Users\<close>

definition normaliseEmail :: "string \<Rightarrow> string" where
  "normaliseEmail email = js_lower (js_trim email)"

text \<open>\<open>/^[^\s@]+@[^\s@]+$/\<close>: two parts without white space around the only at sign.\<close>

definition email_pattern :: "string \<Rightarrow> bool" where
  "email_pattern s =
     (case js_split (CHR ''@'') s of
        [local_part, domain] \<Rightarrow> local_part \<noteq> [] \<and> domain \<noteq> [] \<and> (\<forall>c \<in> set s. \<not> js_ws c)
      | _ \<Rightarrow> False)"

definition assertValidEmail :: "string \<Rightarrow> (auth_error, unit) result" where
  "assertValidEmail email =
     guardE (\<not> (length email < 3 \<or> length email > 320 \<or> \<not> email_pattern email))
       (UserValidationError (quoted email @ '' is not a valid email address''))"

text \<open>
  The last test, \<open>/^(.)\1+$/\<close>, can no longer fail: such a password has one character only, and the
  test before it asks for four.
\<close>

definition assertPasswordStrength :: "string \<Rightarrow> string option \<Rightarrow> (auth_error, unit) result" where
  "assertPasswordStrength password email =
     andThen (guardE (length password \<ge> PASSWORD_MIN_LENGTH)
         (UserValidationError (''Password must be at least '' @ show_nat PASSWORD_MIN_LENGTH @ '' characters''))) (\<lambda>u.
     andThen (guardE (length (remdups password) \<ge> 4)
         (UserValidationError ''Password must use more than a handful of distinct characters'')) (\<lambda>u.
     andThen (guardE (\<not> (case email of
            None \<Rightarrow> False
          | Some e \<Rightarrow>
              e \<noteq> [] \<and> (let local_part = js_lower (hd (js_split (CHR ''@'') e))
                in length local_part \<ge> 4 \<and> js_includes (js_lower password) local_part)))
         (UserValidationError ''Password must not contain your email address'')) (\<lambda>u.
       guardE (\<not> (length password \<ge> 2 \<and> hd password \<notin> {CHR 0x0A, CHR 0x0D} \<and> (\<forall>c \<in> set password. c = hd password)))
         (UserValidationError ''Password must not be a single repeated character''))))"

text \<open>The insert checks the unique e-mail address; between the check and the row another request may commit (\<open>env\<close>).\<close>

definition createUserWithPassword ::
  "hashing \<Rightarrow> bytes \<Rightarrow> string \<Rightarrow> (auth \<Rightarrow> auth) \<Rightarrow> string \<Rightarrow> string \<Rightarrow> string option \<Rightarrow> auth
    \<Rightarrow> (auth_error, user) result \<times> auth" where
  "createUserWithPassword H salt newId env rawEmail password name a =
     (let email = normaliseEmail rawEmail
      in case andThen (assertValidEmail email) (\<lambda>u. assertPasswordStrength password (Some email)) of
           Inl e \<Rightarrow> (Inl e, a)
         | Inr u \<Rightarrow>
             (case hashPassword H salt password of
                Inl e \<Rightarrow> (Inl (PasswordError e), a)
              | Inr hash \<Rightarrow>
                  (let a1 = env a;
                       row = \<lparr>us_id = newId, us_email = email,
                              us_name = (case name of Some n \<Rightarrow> if js_trim n = [] then None else Some (js_trim n) | None \<Rightarrow> None),
                              us_passwordHash = Some hash\<rparr>
                   in if tfind us_email email (au_users a1) \<noteq> None then (Inl (EmailTakenError email), a1)
                      else (Inr row, a1\<lparr>au_users := au_users a1 @ [row]\<rparr>))))"

definition set_hash :: "string \<Rightarrow> string \<Rightarrow> auth \<Rightarrow> auth" where
  "set_hash userId hash a = a\<lparr>au_users := tupd us_id userId (\<lambda>u. u\<lparr>us_passwordHash := Some hash\<rparr>) (au_users a)\<rparr>"

definition changePassword ::
  "hashing \<Rightarrow> bytes \<Rightarrow> string \<Rightarrow> string \<Rightarrow> string \<Rightarrow> auth \<Rightarrow> (auth_error, unit) result \<times> auth" where
  "changePassword H salt userId currentPassword newPassword a =
     (case find_user userId a of
        None \<Rightarrow> (Inl (UserValidationError ''This account has no password set''), a)
      | Some user \<Rightarrow>
          (case us_passwordHash user of
             None \<Rightarrow> (Inl (UserValidationError ''This account has no password set''), a)
           | Some stored \<Rightarrow>
               if stored = [] then (Inl (UserValidationError ''This account has no password set''), a)
               else if \<not> verifyPassword H currentPassword stored
               then (Inl (UserValidationError ''Current password is incorrect''), a)
               else if verifyPassword H newPassword stored
               then (Inl (UserValidationError ''New password must differ from the current one''), a)
               else (case assertPasswordStrength newPassword (Some (us_email user)) of
                       Inl e \<Rightarrow> (Inl e, a)
                     | Inr u \<Rightarrow>
                         (case hashPassword H salt newPassword of
                            Inl e \<Rightarrow> (Inl (PasswordError e), a)
                          | Inr hash \<Rightarrow> (Inr (), destroyAllSessions (us_id user) (set_hash (us_id user) hash a))))))"

definition setPassword :: "hashing \<Rightarrow> bytes \<Rightarrow> string \<Rightarrow> string \<Rightarrow> auth \<Rightarrow> (auth_error, unit) result \<times> auth" where
  "setPassword H salt userId password a =
     (case find_user userId a of
        None \<Rightarrow> (Inl UserNotFound, a)
      | Some user \<Rightarrow>
          (case assertPasswordStrength password (Some (us_email user)) of
             Inl e \<Rightarrow> (Inl e, a)
           | Inr u \<Rightarrow>
               (case hashPassword H salt password of
                  Inl e \<Rightarrow> (Inl (PasswordError e), a)
                | Inr hash \<Rightarrow> (Inr (), destroyAllSessions userId (set_hash userId hash a)))))"

subsection \<open>Who is signed in\<close>

interpretation user_rows: row_store us_id find_user
    "\<lambda>i f a. a\<lparr>au_users := tupd us_id i f (au_users a)\<rparr>"
  by unfold_locales (auto simp: find_user_def tfind_tupd dest: tfind_Some)

interpretation session_rows: row_store se_tokenHash find_session
    "\<lambda>h f a. a\<lparr>au_sessions := tupd se_tokenHash h f (au_sessions a)\<rparr>"
  by unfold_locales (auto simp: find_session_def tfind_tupd dest: tfind_Some)

lemma tfind_filter_key: "tfind key k [x \<leftarrow> t. key x \<noteq> j] = (if k = j then None else tfind key k t)"
  by (induction t) (auto simp: tfind_Cons)

lemma find_session_removed:
  "find_session h (a\<lparr>au_sessions := [x \<leftarrow> au_sessions a. se_tokenHash x \<noteq> j]\<rparr>) = (if h = j then None else find_session h a)"
  by (simp add: find_session_def tfind_filter_key)

text \<open>A session that is live, and what a caller may show instead of one.\<close>

definition live_session :: "(string \<Rightarrow> string) \<Rightarrow> ms \<Rightarrow> string \<Rightarrow> user \<Rightarrow> auth \<Rightarrow> bool" where
  "live_session sha t token u a \<longleftrightarrow> token \<noteq> [] \<and> (\<exists>s. find_session (sha token) a = Some s \<and> t < se_expiresAt s
     \<and> find_user (se_userId s) a = Some u)"

definition live_token :: "(string \<Rightarrow> string) \<Rightarrow> ms \<Rightarrow> string \<Rightarrow> user \<Rightarrow> auth \<Rightarrow> bool" where
  "live_token sha t raw u a \<longleftrightarrow> (\<exists>row. tfind at_tokenHash (sha raw) (au_tokens a) = Some row
     \<and> (\<forall>e. at_expiresAt row = Some e \<longrightarrow> t < e) \<and> find_user (at_userId row) a = Some u)"

text \<open>
  C21. A session answers with its user as long as it has not expired, and using it keeps it alive: after
  an answer it has at least seven days left and at most thirty from then. Once expired it is
  removed; no other session and no user is touched either way.
\<close>

theorem session_lifetime:
  assumes "find_session (sha token) a = Some s" and "find_user (se_userId s) a = Some u" and "token \<noteq> []"
    and "t1 \<le> t2" and "t2 \<le> t3" and "se_expiresAt s \<le> t1 + SESSION_TTL_MS"
    and "resolveSessionToken sha t1 t2 t3 token a = (x, a1)"
  shows "x = (if t1 < se_expiresAt s then Some (toSessionUser u) else None)
    \<and> (case find_session (sha token) a1 of
          None \<Rightarrow> se_expiresAt s \<le> t1
        | Some s1 \<Rightarrow> t1 < se_expiresAt s \<and> se_userId s1 = se_userId s
            \<and> se_expiresAt s1 \<ge> t2 + RENEW_WHEN_REMAINING_MS \<and> se_expiresAt s1 \<le> t3 + SESSION_TTL_MS)
    \<and> (\<forall>h. h \<noteq> sha token \<longrightarrow> find_session h a1 = find_session h a) \<and> au_users a1 = au_users a"
proof -
  have key: "se_tokenHash s = sha token" using assms(1) by (rule session_rows.look_key)
  show ?thesis
    using assms
    by (auto simp: resolveSessionToken_def key find_session_removed session_rows.look_upd RENEW_WHEN_REMAINING_MS_def
        SESSION_TTL_MS_def split: if_splits)
qed

lemma session_answers:
  "resolveSessionToken sha t1 t2 t3 token a = (Some v, a1) \<Longrightarrow> \<exists>u. v = toSessionUser u \<and> live_session sha t1 token u a"
  by (auto simp: resolveSessionToken_def live_session_def split: if_splits option.splits)

lemma token_answers:
  "resolveApiToken sha t1 t2 raw a = (Some v, a1) \<Longrightarrow> \<exists>u. v = toSessionUser u \<and> live_token sha t1 raw u a"
  by (auto simp: resolveApiToken_def live_token_def split: if_splits option.splits)

text \<open>
  C20. Outside development, nobody is taken for a user without showing what only that user was given: a
  bearer token or a session cookie whose hash is stored for the user and which has not
  expired. A request that shows a token is never answered by its cookie, and asking who the
  caller is changes no user.
\<close>

theorem caller_has_credential:
  assumes "requireUser sha t1 t2 t3 q a = (x, a1)" and "\<not> rq_development q"
  shows "(case x of
      Inl e \<Rightarrow> e = UnauthorizedError
    | Inr v \<Rightarrow> \<exists>u. v = toSessionUser u \<and>
        (case bearerFromHeader (rq_authorization q) of
           Some raw \<Rightarrow> live_token sha t1 raw u a
         | None \<Rightarrow> (\<exists>token. rq_cookie q = Some token \<and> live_session sha t1 token u a)))
    \<and> au_users a1 = au_users a"
proof -
  have users: "au_users (snd (getSessionUser sha t1 t2 t3 q a)) = au_users a"
    by (auto simp: getSessionUser_def resolveApiToken_def resolveSessionToken_def split: option.splits list.splits)
  obtain v a2 where run: "getSessionUser sha t1 t2 t3 q a = (v, a2)" by (cases "getSessionUser sha t1 t2 t3 q a")
  then have "a1 = a2" "x = (case v of Some u \<Rightarrow> Inr u | None \<Rightarrow> Inl UnauthorizedError)"
    using assms(1) by (auto simp: requireUser_def split: option.splits)
  moreover have "\<exists>u. w = toSessionUser u \<and> (case bearerFromHeader (rq_authorization q) of
           Some raw \<Rightarrow> live_token sha t1 raw u a
         | None \<Rightarrow> (\<exists>token. rq_cookie q = Some token \<and> live_session sha t1 token u a))" if "v = Some w" for w
    using run that assms(2)
    by (auto simp: getSessionUser_def split: option.splits if_splits dest: session_answers token_answers)
  ultimately show ?thesis using users run by (auto split: option.splits)
qed

text \<open>
  C19. A password change that succeeds was made by someone who knew the old password; from then on the stored hash
  takes the new password, and no session of the user is left, on any device. Sessions and
  hashes of other users stay. One that fails changes nothing.
\<close>

theorem changePassword_signs_out:
  assumes "hashing_laws H" and "salt \<noteq> []" and "changePassword H salt i old new a = (x, a1)"
  shows "case x of
      Inl e \<Rightarrow> a1 = a
    | Inr u \<Rightarrow> (\<exists>stored hash. map_option us_passwordHash (find_user i a) = Some (Some stored) \<and> verifyPassword H old stored
          \<and> map_option us_passwordHash (find_user i a1) = Some (Some hash) \<and> verifyPassword H new hash
          \<and> \<not> verifyPassword H new stored \<and> PASSWORD_MIN_LENGTH \<le> length new)
        \<and> (\<forall>s \<in> set (au_sessions a1). se_userId s \<noteq> i)
        \<and> (\<forall>s \<in> set (au_sessions a). se_userId s \<noteq> i \<longrightarrow> s \<in> set (au_sessions a1))
        \<and> (\<forall>j. j \<noteq> i \<longrightarrow> find_user j a1 = find_user j a)"
proof -
  have other: "find_user j (destroyAllSessions k (set_hash l h a)) = (if j = l then map_option (\<lambda>u. u\<lparr>us_passwordHash := Some h\<rparr>) (find_user j a)
      else find_user j a)" for j k l h
    by (simp add: destroyAllSessions_def set_hash_def find_user_def tfind_tupd)
  have kept: "au_sessions (destroyAllSessions k (set_hash j h a)) = [x \<leftarrow> au_sessions a. se_userId x \<noteq> k]" for j k h
    by (simp add: destroyAllSessions_def set_hash_def)
  have id: "find_user i a = Some v \<Longrightarrow> us_id v = i" for v by (rule user_rows.look_key)
  show ?thesis
    using assms(3) id
    by (auto simp: changePassword_def other kept hash_verifies [OF assms(1) _ assms(2)]
        split: option.splits if_splits sum.splits)
qed

end
