(* ===== verification/Sign_In.thy ===== *)
theory Sign_In
  imports Sessions Rate_Limiter
begin

text \<open>
  \<open>lib/auth/loginThrottle.ts\<close> and the handlers of \<open>app/api/auth/\<close>: signing in, registering, changing the
  password and signing out. Failed logins are counted in Redis, whose commands are those of the rate
  limiter and TTL. A handler answers with a status and a message, or throws.
\<close>

record 'r login_redis = "'r redis" +
  rd_ttl :: "string \<Rightarrow> 'r \<Rightarrow> int"

record 'r site =
  st_auth :: auth
  st_redis :: 'r
  st_decoy :: "string option"   \<comment> \<open>the module variable \<open>decoyHash\<close>\<close>

definition WINDOW_SECONDS :: int where "WINDOW_SECONDS = 15 * 60"
definition MAX_ATTEMPTS :: int where "MAX_ATTEMPTS = 8"

definition throttleKey :: "string \<Rightarrow> string \<Rightarrow> string" where
  "throttleKey scope value = ''login:fail:'' @ scope @ '':'' @ js_lower value"

text \<open>The seconds to wait, when the login is blocked.\<close>

definition checkLoginThrottle :: "'r login_redis \<Rightarrow> string \<Rightarrow> string \<Rightarrow> 'r \<Rightarrow> int option" where
  "checkLoginThrottle R email ip r =
     (let worst = max (rd_stored (redis.truncate R) (throttleKey ''email'' email) r)
                      (rd_stored (redis.truncate R) (throttleKey ''ip'' ip) r)
      in if worst < MAX_ATTEMPTS then None
         else (let ttl = rd_ttl R (throttleKey ''email'' email) r
               in Some (if ttl > 0 then ttl else WINDOW_SECONDS)))"

definition count_failure :: "'r login_redis \<Rightarrow> string \<Rightarrow> 'r \<Rightarrow> 'r" where
  "count_failure R k r =
     (case rd_incr R k r of (count, r1) \<Rightarrow> if count = 1 then rd_expire R k WINDOW_SECONDS r1 else r1)"

definition recordLoginFailure :: "'r login_redis \<Rightarrow> string \<Rightarrow> string \<Rightarrow> 'r \<Rightarrow> 'r" where
  "recordLoginFailure R email ip r =
     count_failure R (throttleKey ''ip'' ip) (count_failure R (throttleKey ''email'' email) r)"

definition clearLoginFailures :: "'r login_redis \<Rightarrow> string \<Rightarrow> string \<Rightarrow> 'r \<Rightarrow> 'r" where
  "clearLoginFailures R email ip r =
     rd_del R (throttleKey ''ip'' ip) (rd_del R (throttleKey ''email'' email) r)"

text \<open>The headers \<open>x-forwarded-for\<close> and \<open>x-real-ip\<close>.\<close>

definition clientIp :: "string option \<Rightarrow> string option \<Rightarrow> string" where
  "clientIp forwarded realIp =
     (case forwarded of
        Some f \<Rightarrow> if f \<noteq> [] then js_trim (hd (js_split (CHR '','') f))
                 else (case realIp of Some i \<Rightarrow> i | None \<Rightarrow> ''unknown'')
      | None \<Rightarrow> (case realIp of Some i \<Rightarrow> i | None \<Rightarrow> ''unknown''))"

subsection \<open>The handlers\<close>

text \<open>\<open>body\<close> is what \<open>request.json()\<close> gives, \<open>None\<close> when it throws.\<close>

record http_request =
  hr_body :: "js option"
  hr_forwarded :: "string option"
  hr_realIp :: "string option"
  hr_userAgent :: "string option"

definition string_field :: "js \<Rightarrow> string \<Rightarrow> nat \<Rightarrow> nat \<Rightarrow> string option" where
  "string_field v k lo hi =
     (case v of
        JsObj kvs \<Rightarrow>
          (case map_of kvs k of
             Some (JsStr s) \<Rightarrow> if lo \<le> length s \<and> length s \<le> hi then Some s else None
           | _ \<Rightarrow> None)
      | _ \<Rightarrow> None)"

definition optional_string_field :: "js \<Rightarrow> string \<Rightarrow> nat \<Rightarrow> string option option" where
  "optional_string_field v k hi =
     (case v of
        JsObj kvs \<Rightarrow>
          (case map_of kvs k of
             None \<Rightarrow> Some None
           | Some JsUndefined \<Rightarrow> Some None
           | Some (JsStr s) \<Rightarrow> if length s \<le> hi then Some (Some s) else None
           | _ \<Rightarrow> None)
      | _ \<Rightarrow> None)"

text \<open>\<open>Welcome\<close> sets the session cookie to the token, \<open>SignedOut\<close> clears it.\<close>

datatype auth_answer =
    BadRequest string                     \<comment> \<open>400\<close>
  | Forbidden string                      \<comment> \<open>403\<close>
  | TooMany string "int option"           \<comment> \<open>429, \<open>Retry-After\<close>\<close>
  | Refused                               \<comment> \<open>401\<close>
  | Welcome int session_user string       \<comment> \<open>200 or 201\<close>
  | Conflict string                       \<comment> \<open>409\<close>
  | Unprocessable string                  \<comment> \<open>422\<close>
  | SignedOut string                      \<comment> \<open>200\<close>

definition burnComparableTime ::
  "hashing \<Rightarrow> bytes \<Rightarrow> string \<Rightarrow> string option \<Rightarrow> (auth_error, bool) result \<times> string option" where
  "burnComparableTime H salt password decoy =
     (case (if decoy = None \<or> decoy = Some []
            then map_sum id Some (hashPassword H salt ''decoy-password-never-matches'') else Inr decoy) of
        Inl e \<Rightarrow> (Inl (PasswordError e), decoy)
      | Inr hash \<Rightarrow> (let unused = verifyPassword H password (the hash) in (Inr False, hash)))"

definition login_email :: "js \<Rightarrow> string option" where
  "login_email body = map_option (\<lambda>e. js_lower (js_trim e)) (string_field body ''email'' 3 320)"

text \<open>What happens once the throttle let the request through.\<close>

definition login_checked ::
  "hashing \<Rightarrow> 'r login_redis \<Rightarrow> (string \<Rightarrow> string) \<Rightarrow> bytes \<Rightarrow> string \<Rightarrow> ms
    \<Rightarrow> string \<Rightarrow> string \<Rightarrow> string \<Rightarrow> string option \<Rightarrow> 'r site \<Rightarrow> (auth_error, auth_answer) result \<times> 'r site" where
  "login_checked H R sha salt token now email password ip userAgent st =
     (let a = st_auth st;
          user = tfind us_email email (au_users a);
          stored = (case user of Some u \<Rightarrow> (case us_passwordHash u of Some h \<Rightarrow> h | None \<Rightarrow> []) | None \<Rightarrow> []);
          (valid, decoy) = (if stored \<noteq> [] then (Inr (verifyPassword H password stored), st_decoy st)
                            else burnComparableTime H salt password (st_decoy st));
          st = st\<lparr>st_decoy := decoy\<rparr>
      in case valid of
           Inl e \<Rightarrow> (Inl e, st)
         | Inr ok \<Rightarrow>
             if user = None \<or> stored = [] \<or> \<not> ok
             then (Inr Refused, st\<lparr>st_redis := recordLoginFailure R email ip (st_redis st)\<rparr>)
             else (case (if needsRehash H stored then map_sum id Some (hashPassword H salt password) else Inr None) of
                     Inl e \<Rightarrow> (Inl (PasswordError e), st)
                   | Inr upgraded \<Rightarrow>
                       (let u = the user;
                            a1 = (case upgraded of Some h \<Rightarrow> set_hash (us_id u) h a | None \<Rightarrow> a);
                            st1 = st\<lparr>st_auth := a1, st_redis := clearLoginFailures R email ip (st_redis st)\<rparr>
                        in case createSession sha token now (us_id u) userAgent a1 of
                             (Inl e, a2) \<Rightarrow> (Inl e, st1\<lparr>st_auth := a2\<rparr>)
                           | (Inr tok, a2) \<Rightarrow> (Inr (Welcome 200 (toSessionUser u) tok), st1\<lparr>st_auth := a2\<rparr>))))"

definition login ::
  "hashing \<Rightarrow> 'r login_redis \<Rightarrow> (string \<Rightarrow> string) \<Rightarrow> bytes \<Rightarrow> string \<Rightarrow> ms \<Rightarrow> http_request
    \<Rightarrow> 'r site \<Rightarrow> (auth_error, auth_answer) result \<times> 'r site" where
  "login H R sha salt token now q st =
     (case hr_body q of
        None \<Rightarrow> (Inr (BadRequest ''Expected a JSON body''), st)
      | Some body \<Rightarrow>
          (case (login_email body, string_field body ''password'' 1 1024) of
             (Some email, Some password) \<Rightarrow>
               (let ip = clientIp (hr_forwarded q) (hr_realIp q)
                in case checkLoginThrottle R email ip (st_redis st) of
                     Some wait \<Rightarrow> (Inr (TooMany ''Too many failed attempts. Try again later.'' (Some wait)), st)
                   | None \<Rightarrow> login_checked H R sha salt token now email password ip (hr_userAgent q) st)
           | _ \<Rightarrow> (Inr (BadRequest ''Email and password are required''), st)))"

definition REGISTER_WINDOW_SECONDS :: int where "REGISTER_WINDOW_SECONDS = 60 * 60"
definition MAX_PER_WINDOW :: int where "MAX_PER_WINDOW = 5"

definition register_user ::
  "hashing \<Rightarrow> 'r login_redis \<Rightarrow> (string \<Rightarrow> string) \<Rightarrow> bytes \<Rightarrow> string \<Rightarrow> ms \<Rightarrow> string \<Rightarrow> (auth \<Rightarrow> auth)
    \<Rightarrow> bool \<Rightarrow> http_request \<Rightarrow> 'r site \<Rightarrow> (auth_error, auth_answer) result \<times> 'r site" where
  "register_user H R sha salt token now newId env allowed q st =
     (if \<not> allowed then (Inr (Forbidden ''Registration is disabled. Ask an administrator for an account.''), st)
      else (case hr_body q of
        None \<Rightarrow> (Inr (BadRequest ''Expected a JSON body''), st)
      | Some body \<Rightarrow>
          (case (string_field body ''email'' 3 320, string_field body ''password'' 1 1024, optional_string_field body ''name'' 200) of
             (Some email, Some password, Some name) \<Rightarrow>
               (let key = ''register:'' @ clientIp (hr_forwarded q) (hr_realIp q);
                    (count, r1) = rd_incr R key (st_redis st);
                    r2 = (if count = 1 then rd_expire R key REGISTER_WINDOW_SECONDS r1 else r1);
                    st1 = st\<lparr>st_redis := r2\<rparr>
                in if count > MAX_PER_WINDOW
                   then (Inr (TooMany ''Too many accounts created from this address. Try again later.'' None), st1)
                   else (case createUserWithPassword H salt newId env email password name (st_auth st1) of
                           (Inl (EmailTakenError e), a) \<Rightarrow>
                             (Inr (Conflict (''An account already exists for '' @ e)), st1\<lparr>st_auth := a\<rparr>)
                         | (Inl (UserValidationError m), a) \<Rightarrow> (Inr (Unprocessable m), st1\<lparr>st_auth := a\<rparr>)
                         | (Inl e, a) \<Rightarrow> (Inl e, st1\<lparr>st_auth := a\<rparr>)
                         | (Inr u, a) \<Rightarrow>
                             (case createSession sha token now (us_id u) (hr_userAgent q) a of
                                (Inl e, a2) \<Rightarrow> (Inl e, st1\<lparr>st_auth := a2\<rparr>)
                              | (Inr tok, a2) \<Rightarrow> (Inr (Welcome 201 (toSessionUser u) tok), st1\<lparr>st_auth := a2\<rparr>))))
           | _ \<Rightarrow> (Inr (BadRequest ''Email and password are required''), st))))"

definition change_password_handler ::
  "hashing \<Rightarrow> (string \<Rightarrow> string) \<Rightarrow> bytes \<Rightarrow> ms \<Rightarrow> ms \<Rightarrow> ms \<Rightarrow> request_auth \<Rightarrow> js option \<Rightarrow> auth
    \<Rightarrow> (auth_error, int + auth_answer) result \<times> auth" where
  "change_password_handler H sha salt t1 t2 t3 caller body a =
     guarded (case requireUser sha t1 t2 t3 caller a of
        (Inl e, a1) \<Rightarrow> (Inl e, a1)
      | (Inr u, a1) \<Rightarrow>
          (case body of
             None \<Rightarrow> (Inr (BadRequest ''Expected a JSON body''), a1)
           | Some v \<Rightarrow>
               (case (string_field v ''currentPassword'' 1 1024, string_field v ''newPassword'' 1 1024) of
                  (Some old, Some new) \<Rightarrow>
                    (case changePassword H salt (su_id u) old new a1 of
                       (Inl (UserValidationError m), a2) \<Rightarrow> (Inr (Unprocessable m), a2)
                     | (Inl (EmailTakenError m), a2) \<Rightarrow> (Inr (Unprocessable (''An account already exists for '' @ m)), a2)
                     | (Inl e, a2) \<Rightarrow> (Inl e, a2)
                     | (Inr _, a2) \<Rightarrow>
                         (Inr (SignedOut ''Password changed. All sessions were signed out - please sign in again.''), a2))
                | _ \<Rightarrow> (Inr (BadRequest ''currentPassword and newPassword are required''), a1))))"

definition logout :: "(string \<Rightarrow> string) \<Rightarrow> string option \<Rightarrow> auth \<Rightarrow> auth_answer \<times> auth" where
  "logout sha cookie a = (SignedOut ''Signed out'', destroySession sha cookie a)"

subsection \<open>Who gets in\<close>

lemma truncated [simp]:
  "rd_get (redis.truncate R) = rd_get R" "rd_incr (redis.truncate R) = rd_incr R"
  "rd_expire (redis.truncate R) = rd_expire R" "rd_del (redis.truncate R) = rd_del R"
  by (simp_all add: redis.defs)

lemma throttle_keys: "throttleKey ''email'' e \<noteq> throttleKey ''ip'' i"
  by (simp add: throttleKey_def)

abbreviation failures :: "'r login_redis \<Rightarrow> string \<Rightarrow> 'r \<Rightarrow> int" where
  "failures R k r \<equiv> rd_stored (redis.truncate R) k r"

lemma throttle_free: "checkLoginThrottle R email ip r = None \<longleftrightarrow>
    failures R (throttleKey ''email'' email) r < MAX_ATTEMPTS \<and> failures R (throttleKey ''ip'' ip) r < MAX_ATTEMPTS"
  by (auto simp: checkLoginThrottle_def Let_def)

lemma count_failure_get:
  assumes "redis_laws (redis.truncate R)"
  shows "rd_get R k (count_failure R j r) = (if k = j then Some (failures R k r + 1) else rd_get R k r)"
proof -
  have expire: "rd_get R k (rd_expire R j WINDOW_SECONDS r') = rd_get R k r'" for k j r'
    using assms by (simp add: redis_laws_def WINDOW_SECONDS_def)
  have incr: "rd_get R k (snd (rd_incr R j r)) = (if k = j then Some (failures R k r + 1) else rd_get R k r)"
    using assms unfolding redis_laws_def truncated by blast
  show ?thesis using incr by (cases "rd_incr R j r") (auto simp: count_failure_def expire)
qed

lemma failures_counted:
  assumes "redis_laws (redis.truncate R)"
  shows "failures R k (recordLoginFailure R email ip r) = failures R k r
      + (if k = throttleKey ''email'' email \<or> k = throttleKey ''ip'' ip then 1 else 0)"
  using throttle_keys [of email ip]
  by (auto simp: recordLoginFailure_def rd_stored_def count_failure_get [OF assms])

lemma failures_cleared:
  assumes "redis_laws (redis.truncate R)"
  shows "failures R k (clearLoginFailures R email ip r)
    = (if k = throttleKey ''email'' email \<or> k = throttleKey ''ip'' ip then 0 else failures R k r)"
  using assms by (auto simp: redis_laws_def clearLoginFailures_def rd_stored_def)

lemma burn_false: "burnComparableTime H salt p d = (Inr ok, d1) \<Longrightarrow> \<not> ok"
  by (auto simp: burnComparableTime_def Let_def split: sum.splits)

lemma session_token: "createSession sha token now i ua a = (Inr tok, a2) \<Longrightarrow> tok = token"
  by (auto simp: createSession_def split: if_splits)

lemma session_created:
  assumes "createSession sha token now i ua a = (Inr tok, a2)" and "find_user i a = Some u" and "token \<noteq> []"
    and "t < now + SESSION_TTL_MS"
  shows "tok = token \<and> live_session sha t token u a2 \<and> au_users a2 = au_users a"
  using assms
  by (auto simp: createSession_def live_session_def find_session_def find_user_def tfind_append tfind_Cons
      split: if_splits option.splits)

lemma set_hash_user:
  "find_user i (set_hash j h a) = (if i = j then map_option (\<lambda>u. u\<lparr>us_passwordHash := Some h\<rparr>) (find_user i a) else find_user i a)"
  by (simp add: set_hash_def find_user_def tfind_tupd)

text \<open>The user a password lets in.\<close>

definition proves :: "hashing \<Rightarrow> string \<Rightarrow> string \<Rightarrow> auth \<Rightarrow> user \<Rightarrow> bool" where
  "proves H email password a u \<longleftrightarrow> tfind us_email email (au_users a) = Some u
     \<and> (\<exists>stored. us_passwordHash u = Some stored \<and> stored \<noteq> [] \<and> verifyPassword H password stored)"

lemma login_checked_refused:
  assumes "login_checked H R sha salt token now email password ip ua st = (Inr answer, st1)"
    and "\<not> (\<exists>u. proves H email password (st_auth st) u)"
  shows "answer = Refused \<and> st_auth st1 = st_auth st \<and> st_redis st1 = recordLoginFailure R email ip (st_redis st)"
proof (cases "tfind us_email email (au_users (st_auth st))")
  case None
  with assms(1) show ?thesis
    by (auto simp: login_checked_def Let_def dest!: burn_false split: prod.splits sum.splits)
next
  case (Some u)
  show ?thesis
  proof (cases "us_passwordHash u = None \<or> us_passwordHash u = Some []")
    case True
    with Some assms(1) show ?thesis
      by (auto simp: login_checked_def Let_def dest!: burn_false split: prod.splits sum.splits)
  next
    case False
    with Some assms(2) obtain stored where "us_passwordHash u = Some stored" "stored \<noteq> []" "\<not> verifyPassword H password stored"
      unfolding proves_def by (metis option.exhaust)
    with Some assms(1) show ?thesis by (auto simp: login_checked_def Let_def)
  qed
qed

lemma login_checked_welcome:
  assumes "login_checked H R sha salt token now email password ip ua st = (Inr answer, st1)"
    and "proves H email password (st_auth st) u" and "find_user (us_id u) (st_auth st) = Some u" and "token \<noteq> []"
  shows "\<exists>u1. answer = Welcome 200 (toSessionUser u) token \<and> us_id u1 = us_id u
    \<and> (\<forall>t < now + SESSION_TTL_MS. live_session sha t token u1 (st_auth st1))
    \<and> st_redis st1 = clearLoginFailures R email ip (st_redis st)"
proof -
  from assms(2) obtain stored where known: "tfind us_email email (au_users (st_auth st)) = Some u"
      "us_passwordHash u = Some stored" "stored \<noteq> []" "verifyPassword H password stored"
    unfolding proves_def by blast
  obtain a1 u1 a2 where a1: "find_user (us_id u) a1 = Some u1" "us_id u1 = us_id u"
    and made: "createSession sha token now (us_id u) ua a1 = (Inr token, a2)"
    and left: "answer = Welcome 200 (toSessionUser u) token" "st_auth st1 = a2"
      "st_redis st1 = clearLoginFailures R email ip (st_redis st)"
  proof (cases "needsRehash H stored")
    case False
    with known assms(1,3) show ?thesis
      by (intro that [of "st_auth st" u]) (auto simp: login_checked_def Let_def dest: session_token split: prod.splits sum.splits)
  next
    case True
    with known assms(1) obtain h where "hashPassword H salt password = Inr h"
      by (cases "hashPassword H salt password") (auto simp: login_checked_def Let_def)
    with True known assms(1,3) show ?thesis
      by (intro that [of "set_hash (us_id u) h (st_auth st)" "u\<lparr>us_passwordHash := Some h\<rparr>"])
        (auto simp: login_checked_def Let_def set_hash_user dest: session_token split: prod.splits sum.splits)
  qed
  with a1 show ?thesis using session_created [OF made a1(1) assms(4)] by blast
qed

text \<open>
  C17. Who signs in. Someone is welcomed only with the password of the user the e-mail address names, and then
  holds a session of that user for thirty days, with the failure counts of the address and of the
  source cleared. Anyone else is refused, which counts one failure for both and changes nothing
  else that is stored; and while either count has reached the limit the request is turned away without
  looking at the password.
\<close>

theorem login_outcome:
  assumes "redis_laws (redis.truncate R)" and "distinct (map us_id (au_users (st_auth st)))" and "token \<noteq> []"
    and "login H R sha salt token now q st = (Inr answer, st1)"
    and "hr_body q = Some body" and "login_email body = Some email" and "string_field body ''password'' 1 1024 = Some password"
  defines "ip \<equiv> clientIp (hr_forwarded q) (hr_realIp q)"
  defines "counts \<equiv> \<lambda>r. (failures R (throttleKey ''email'' email) r, failures R (throttleKey ''ip'' ip) r)"
  shows "case answer of
      Welcome status v tok \<Rightarrow> status = 200 \<and> counts (st_redis st1) = (0, 0)
        \<and> (\<exists>u u1. proves H email password (st_auth st) u \<and> v = toSessionUser u
            \<and> us_id u1 = us_id u \<and> (\<forall>t < now + SESSION_TTL_MS. live_session sha t tok u1 (st_auth st1)))
    | Refused \<Rightarrow> st_auth st1 = st_auth st \<and> (\<nexists>u. proves H email password (st_auth st) u)
        \<and> counts (st_redis st1) = (fst (counts (st_redis st)) + 1, snd (counts (st_redis st)) + 1)
    | TooMany m wait \<Rightarrow> st1 = st \<and> (fst (counts (st_redis st)) \<ge> MAX_ATTEMPTS \<or> snd (counts (st_redis st)) \<ge> MAX_ATTEMPTS)
    | _ \<Rightarrow> False"
proof (cases "checkLoginThrottle R email ip (st_redis st)")
  case (Some wait)
  then have "answer = TooMany ''Too many failed attempts. Try again later.'' (Some wait)" "st1 = st"
    using assms(4-7) by (auto simp: login_def ip_def)
  moreover from Some have "\<not> checkLoginThrottle R email ip (st_redis st) = None" by simp
  ultimately show ?thesis by (auto simp: throttle_free counts_def)
next
  case None
  with assms(4-7) have run: "login_checked H R sha salt token now email password ip (hr_userAgent q) st = (Inr answer, st1)"
    by (simp add: login_def ip_def)
  show ?thesis
  proof (cases "\<exists>u. proves H email password (st_auth st) u")
    case False
    with login_checked_refused [OF run] show ?thesis
      using throttle_keys [of email ip] by (simp add: counts_def failures_counted [OF assms(1)])
  next
    case True
    then obtain u where u: "proves H email password (st_auth st) u" by blast
    then have "find_user (us_id u) (st_auth st) = Some u"
      using tfind_distinct [OF assms(2)] by (auto simp: proves_def find_user_def dest: tfind_Some)
    from login_checked_welcome [OF run u this assms(3)] u show ?thesis
      by (auto simp: counts_def failures_cleared [OF assms(1)])
  qed
qed

subsection \<open>How many guesses\<close>

text \<open>
  What Redis documents of expiry. \<open>clk\<close> is its clock and \<open>due k\<close> the instant the key expires, if it has
  one: EXPIRE sets it, INCR on a key that exists keeps it, and no command on another key changes
  it. While time passes, other requests may do anything to the other keys.
\<close>

definition expiry_laws :: "'r login_redis \<Rightarrow> ('r \<Rightarrow> ms) \<Rightarrow> (string \<Rightarrow> 'r \<Rightarrow> ms option) \<Rightarrow> bool" where
  "expiry_laws R clk due \<longleftrightarrow>
     (\<forall>k r. clk (snd (rd_incr R k r)) = clk r) \<and> (\<forall>k s r. clk (rd_expire R k s r) = clk r)
     \<and> (\<forall>k j r. k \<noteq> j \<or> rd_get R k r \<noteq> None \<longrightarrow> due k (snd (rd_incr R j r)) = due k r)
     \<and> (\<forall>k j s r. k \<noteq> j \<longrightarrow> due k (rd_expire R j s r) = due k r)
     \<and> (\<forall>k s r. s > 0 \<and> rd_get R k r \<noteq> None \<longrightarrow> due k (rd_expire R k s r) = Some (clk r + 1000 * s))"

definition waits :: "'r login_redis \<Rightarrow> ('r \<Rightarrow> ms) \<Rightarrow> (string \<Rightarrow> 'r \<Rightarrow> ms option) \<Rightarrow> string \<Rightarrow> 'r \<Rightarrow> 'r \<Rightarrow> bool" where
  "waits R clk due k r r' \<longleftrightarrow> clk r \<le> clk r' \<and>
     (if (case due k r of Some d \<Rightarrow> d \<le> clk r' | None \<Rightarrow> False) then rd_get R k r' = None
      else rd_get R k r' = rd_get R k r \<and> due k r' = due k r)"

text \<open>
  Logins with one e-mail address, from any sources, and time between them in which anything else may
  happen to the users, the sessions and the other counters: how many were compared and refused.
\<close>

inductive guessing ::
  "hashing \<Rightarrow> 'r login_redis \<Rightarrow> (string \<Rightarrow> string) \<Rightarrow> ('r \<Rightarrow> ms) \<Rightarrow> (string \<Rightarrow> 'r \<Rightarrow> ms option) \<Rightarrow> string
    \<Rightarrow> 'r site \<Rightarrow> nat \<Rightarrow> 'r site \<Rightarrow> bool"
  for H R sha clk due email st where
  guess_none: "guessing H R sha clk due email st 0 st"
| guess_wait: "guessing H R sha clk due email st n s1 \<Longrightarrow>
    waits R clk due (throttleKey ''email'' email) (st_redis s1) (st_redis s2) \<Longrightarrow> guessing H R sha clk due email st n s2"
| guess_blocked: "guessing H R sha clk due email st n s1 \<Longrightarrow>
    login H R sha salt token now q s1 = (Inr (TooMany m w), s2) \<Longrightarrow> guessing H R sha clk due email st n s2"
| guess_wrong: "guessing H R sha clk due email st n s1 \<Longrightarrow>
    hr_body q = Some body \<Longrightarrow> login_email body = Some email \<Longrightarrow>
    login H R sha salt token now q s1 = (Inr Refused, s2) \<Longrightarrow> guessing H R sha clk due email st (Suc n) s2"

lemma refused_counts:
  assumes "login H R sha salt token now q s1 = (Inr Refused, s2)" and "hr_body q = Some body" and "login_email body = Some email"
  obtains ip where "failures R (throttleKey ''email'' email) (st_redis s1) < MAX_ATTEMPTS"
    and "st_redis s2 = recordLoginFailure R email ip (st_redis s1)"
proof -
  obtain password where p: "string_field body ''password'' 1 1024 = Some password"
    using assms by (auto simp: login_def split: option.splits)
  let ?ip = "clientIp (hr_forwarded q) (hr_realIp q)"
  have free: "checkLoginThrottle R email ?ip (st_redis s1) = None"
    and run: "login_checked H R sha salt token now email password ?ip (hr_userAgent q) s1 = (Inr Refused, s2)"
    using assms p by (auto simp: login_def Let_def split: option.splits)
  have "st_redis s2 = recordLoginFailure R email ?ip (st_redis s1)"
    using run unfolding login_checked_def
    by (auto simp: Let_def split: prod.splits sum.splits if_splits option.splits)
  with free show ?thesis by (intro that [of ?ip]) (simp_all add: throttle_free)
qed

lemma blocked_same: "login H R sha salt token now q s1 = (Inr (TooMany m w), s2) \<Longrightarrow> s2 = s1"
  by (auto simp: login_def login_checked_def Let_def split: option.splits prod.splits sum.splits if_splits)

lemma counted_keeps:
  assumes "redis_laws (redis.truncate R)" and "expiry_laws R clk due"
  shows "clk (count_failure R j r) = clk r"
    and "k \<noteq> j \<Longrightarrow> due k (count_failure R j r) = due k r"
    and "due k (count_failure R k r) = (if failures R k r = 0 then Some (clk r + 1000 * WINDOW_SECONDS)
      else due k r) \<or> rd_get R k r = Some 0"
proof -
  obtain n r1 where incr: "rd_incr R j r = (n, r1)" by (cases "rd_incr R j r")
  have clk: "clk r1 = clk r" "clk (rd_expire R j s r1) = clk r" for s
    using assms(2) incr unfolding expiry_laws_def by (metis snd_conv)+
  show "clk (count_failure R j r) = clk r" by (simp add: count_failure_def incr clk)
  show "due k (count_failure R j r) = due k r" if "k \<noteq> j"
    using assms(2) incr that unfolding expiry_laws_def count_failure_def
    by (simp split: prod.splits) (metis snd_conv)
next
  obtain n r1 where incr: "rd_incr R k r = (n, r1)" by (cases "rd_incr R k r")
  have clk: "clk r1 = clk r" using assms(2) incr unfolding expiry_laws_def by (metis snd_conv)
  have n: "n = failures R k r + 1" "rd_get R k r1 = Some (failures R k r + 1)"
    using assms(1) incr unfolding redis_laws_def truncated by (metis fst_conv, metis snd_conv)
  have due: "due k (rd_expire R k WINDOW_SECONDS r1) = Some (clk r + 1000 * WINDOW_SECONDS)"
    using assms(2) incr n(2) clk unfolding expiry_laws_def by (simp add: WINDOW_SECONDS_def)
  have same: "rd_get R k r \<noteq> None \<Longrightarrow> due k r1 = due k r"
    using assms(2) incr unfolding expiry_laws_def by (metis snd_conv)
  show "due k (count_failure R k r) = (if failures R k r = 0 then Some (clk r + 1000 * WINDOW_SECONDS)
      else due k r) \<or> rd_get R k r = Some 0"
    using n(1) due same by (auto simp: count_failure_def incr rd_stored_def split: option.splits)
qed

text \<open>The count in Redis is the number of guesses, until the first one is fifteen minutes old.\<close>

definition counted :: "'r login_redis \<Rightarrow> ('r \<Rightarrow> ms) \<Rightarrow> (string \<Rightarrow> 'r \<Rightarrow> ms option) \<Rightarrow> string \<Rightarrow> ms \<Rightarrow> nat \<Rightarrow> 'r \<Rightarrow> bool" where
  "counted R clk due k t0 n r \<longleftrightarrow> t0 \<le> clk r \<and> (clk r < t0 + 1000 * WINDOW_SECONDS \<longrightarrow>
     int n \<le> MAX_ATTEMPTS \<and> rd_get R k r = (if n = 0 then None else Some (int n))
     \<and> (n > 0 \<longrightarrow> (\<exists>d. due k r = Some d \<and> t0 + 1000 * WINDOW_SECONDS \<le> d)))"

lemma counted_wait:
  assumes "counted R clk due k t0 n r" and "waits R clk due k r r'"
  shows "counted R clk due k t0 n r'"
  using assms by (auto simp: counted_def waits_def split: if_splits option.splits)

lemma counted_guess:
  assumes "redis_laws (redis.truncate R)" and "expiry_laws R clk due"
    and "counted R clk due (throttleKey ''email'' email) t0 n r"
    and "failures R (throttleKey ''email'' email) r < MAX_ATTEMPTS"
  shows "counted R clk due (throttleKey ''email'' email) t0 (Suc n) (recordLoginFailure R email ip r)"
proof -
  let ?k = "throttleKey ''email'' email"
  have clk: "clk (recordLoginFailure R email ip r) = clk r"
    by (simp add: recordLoginFailure_def counted_keeps [OF assms(1,2)])
  have due: "due ?k (recordLoginFailure R email ip r) = due ?k (count_failure R ?k r)"
    unfolding recordLoginFailure_def by (rule counted_keeps(2) [OF assms(1,2) throttle_keys])
  have got: "rd_get R ?k (recordLoginFailure R email ip r) = Some (failures R ?k r + 1)"
    using throttle_keys [of email ip] by (simp add: recordLoginFailure_def count_failure_get [OF assms(1)])
  show ?thesis
    using assms(3,4) counted_keeps(3) [OF assms(1,2), of ?k r]
    by (cases "n = 0") (auto simp: counted_def clk due got rd_stored_def)
qed


end
