(* ===== verification/Site_World.thy ===== *)
theory Site_World
  imports Sign_In Js_Text
begin

text \<open>
  A small site for the properties of signing in: a Redis whose keys expire, a hash function that keeps the
  password, and one user.
\<close>

subsection \<open>A Redis with a clock\<close>

type_synonym timed = "ms \<times> (string \<Rightarrow> (int \<times> ms option) option)"

definition timed_get :: "string \<Rightarrow> timed \<Rightarrow> (int \<times> ms option) option" where
  "timed_get k r = (case snd r k of
     Some (v, d) \<Rightarrow> if (case d of Some t \<Rightarrow> t \<le> fst r | None \<Rightarrow> False) then None else Some (v, d)
   | None \<Rightarrow> None)"

definition timed_add :: "int \<Rightarrow> string \<Rightarrow> timed \<Rightarrow> int \<times> timed" where
  "timed_add d k r =
     (case timed_get k r of
        Some (v, e) \<Rightarrow> (v + d, fst r, (snd r)(k \<mapsto> (v + d, e)))
      | None \<Rightarrow> (d, fst r, (snd r)(k \<mapsto> (d, None))))"

definition timed_redis :: "timed login_redis" where
  "timed_redis =
     \<lparr>rd_get = (\<lambda>k r. map_option fst (timed_get k r)),
      rd_set = (\<lambda>k v ttl r. (fst r, (snd r)(k \<mapsto> (v, None)))),
      rd_incr = timed_add 1, rd_decr = timed_add (- 1),
      rd_expire = (\<lambda>k s r. case timed_get k r of
         Some (v, e) \<Rightarrow> (fst r, (snd r)(k \<mapsto> (v, Some (fst r + 1000 * s)))) | None \<Rightarrow> r),
      rd_del = (\<lambda>k r. (fst r, (snd r)(k := None))),
      rd_ttl = (\<lambda>k r. case timed_get k r of Some (v, Some t) \<Rightarrow> (t - fst r) div 1000 | Some (v, None) \<Rightarrow> - 1 | None \<Rightarrow> - 2)\<rparr>"

definition timed_due :: "string \<Rightarrow> timed \<Rightarrow> ms option" where
  "timed_due k r = Option.bind (timed_get k r) snd"

lemma timed_laws: "redis_laws (redis.truncate timed_redis)" "expiry_laws timed_redis fst timed_due"
  by (auto simp: redis_laws_def expiry_laws_def redis.defs timed_redis_def timed_add_def timed_get_def timed_due_def
      rd_stored_def split: option.splits if_splits prod.splits)

subsection \<open>A hash function\<close>

definition nibble :: "nat \<Rightarrow> char" where "nibble n = char_of (97 + n)"

definition ex_hashing :: hashing where
  "ex_hashing =
     \<lparr>hs_scrypt = (\<lambda>w s n c m. Some (take n (w @ replicate n 0))), hs_nfkc = map (\<lambda>c. of_nat (of_char c)),
      hs_base64 = (\<lambda>b. concat (map (\<lambda>x. [nibble (unat x div 16), nibble (unat x mod 16)]) b)),
      hs_unbase64 = (\<lambda>s. map (\<lambda>i. of_nat (16 * (of_char (s ! (2 * i)) - 97) + (of_char (s ! (2 * i + 1)) - 97))) [0..<length s div 2]),
      hs_integer = js_parse_int, hs_below = (\<lambda>s n. case js_parse_int s of Some i \<Rightarrow> i < n | None \<Rightarrow> False)\<rparr>"

lemma nibbles: "unat (x :: 8 word) div 16 < 16"
proof -
  have "unat x < 2 ^ LENGTH(8)" by (rule unsigned_less)
  then show ?thesis by simp
qed

lemma nibble_value: "n < 16 \<Longrightarrow> (of_char (nibble n) :: nat) = 97 + n"
  by (simp add: nibble_def)

lemma base64_length: "length (hs_base64 ex_hashing b) = 2 * length b"
  by (simp add: ex_hashing_def length_concat comp_def sum_list_triv)

lemma base64_nth: "i < length b \<Longrightarrow>
    hs_base64 ex_hashing b ! (2 * i) = nibble (unat (b ! i) div 16)
    \<and> hs_base64 ex_hashing b ! (2 * i + 1) = nibble (unat (b ! i) mod 16)"
proof (induction b arbitrary: i)
  case (Cons x b)
  then show ?case by (cases i) (auto simp: ex_hashing_def)
qed simp

lemma ex_hashing_laws: "hashing_laws ex_hashing"
proof -
  have "hs_unbase64 ex_hashing (hs_base64 ex_hashing b) = b" for b
  proof (rule nth_equalityI)
    show "length (hs_unbase64 ex_hashing (hs_base64 ex_hashing b)) = length b"
      using base64_length [of b] by (simp add: ex_hashing_def)
  next
    fix i assume "i < length (hs_unbase64 ex_hashing (hs_base64 ex_hashing b))"
    then have i: "i < length b" using base64_length [of b] by (simp add: ex_hashing_def)
    have nib: "(of_char (hs_base64 ex_hashing b ! (2 * i)) :: nat) = 97 + unat (b ! i) div 16"
      "(of_char (hs_base64 ex_hashing b ! (2 * i + 1)) :: nat) = 97 + unat (b ! i) mod 16"
      using base64_nth [OF i] by (simp_all add: nibble_value nibbles)
    have "hs_unbase64 ex_hashing s ! i = of_nat (16 * (of_char (s ! (2 * i)) - 97) + (of_char (s ! (2 * i + 1)) - 97))"
      if "i < length s div 2" for s using that by (simp add: ex_hashing_def)
    moreover have "word_of_nat (16 * (unat x div 16) + unat x mod 16) = x" for x :: "8 word" by simp
    ultimately show "hs_unbase64 ex_hashing (hs_base64 ex_hashing b) ! i = b ! i"
      using i nib base64_length [of b] by (simp del: of_nat_add of_nat_mult)
  qed
  moreover have "CHR ''$'' \<notin> set (hs_base64 ex_hashing b)" for b
  proof -
    have "CHR ''$'' \<noteq> nibble n" if "n < 16" for n
    proof
      assume "CHR ''$'' = nibble n"
      then have "of_char CHR ''$'' = (of_char (nibble n) :: nat)" by simp
      with nibble_value [OF that] show False by simp
    qed
    then show ?thesis using nibbles by (auto simp: ex_hashing_def)
  qed
  moreover have "js_parse_int (show_int i) = Some i" if "i \<ge> 0" for i
    using that js_parse_show_nat [of "nat i"] by (simp add: show_int_def)
  ultimately show ?thesis
    by (auto simp: hashing_laws_def) (auto simp: ex_hashing_def)
qed

subsection \<open>One user\<close>

definition ex_password :: string where "ex_password = ''battery-st9''"

definition ex_hash :: string where
  "ex_hash = js_join ''$'' [show_int PARAMS_N, show_int PARAMS_r, show_int PARAMS_p, hs_base64 ex_hashing [1],
     hs_base64 ex_hashing (take 64 (hs_nfkc ex_hashing ex_password @ replicate 64 0))]"

lemma ex_made: "hashPassword ex_hashing [1] ex_password = Inr ex_hash"
proof -
  have "assertReasonable ex_password = Inr ()" by code_simp
  then show ?thesis by (simp add: hashPassword_def ex_hash_def) (simp add: ex_hashing_def PARAMS_keyLength_def)
qed

lemma ex_verifies: "verifyPassword ex_hashing ex_password ex_hash" "\<not> verifyPassword ex_hashing ''battery-st8'' ex_hash"
proof -
  note verify = hash_verifies(1) [OF ex_hashing_laws ex_made]
  show "verifyPassword ex_hashing ex_password ex_hash" by (simp add: verify)
  have "take 64 (map (\<lambda>c. of_nat (of_char c) :: 8 word) ''battery-st8'' @ replicate 64 0)
      \<noteq> take 64 (map (\<lambda>c. of_nat (of_char c)) ex_password @ replicate 64 0)" by code_simp
  then show "\<not> verifyPassword ex_hashing ''battery-st8'' ex_hash"
    by (simp add: verify) (simp add: ex_hashing_def PARAMS_keyLength_def)
qed

definition ex_user :: user where
  "ex_user = \<lparr>us_id = ''u1'', us_email = ''ops@example.org'', us_name = None, us_passwordHash = Some ex_hash\<rparr>"

definition ex_auth :: auth where
  "ex_auth = \<lparr>au_users = [ex_user], au_sessions = [\<lparr>se_tokenHash = ''t1'', se_userId = ''u1'', se_expiresAt = 5000, se_userAgent = None\<rparr>],
     au_tokens = []\<rparr>"

definition ex_site :: "timed site" where
  "ex_site = \<lparr>st_auth = ex_auth, st_redis = (0, \<lambda>k. None), st_decoy = Some ex_hash\<rparr>"

definition ex_login :: "string \<Rightarrow> http_request" where
  "ex_login p = \<lparr>hr_body = Some (JsObj [(''email'', JsStr ''ops@example.org''), (''password'', JsStr p)]),
     hr_forwarded = Some ''10.0.0.7'', hr_realIp = None, hr_userAgent = None\<rparr>"

lemma ex_found: "find_session ''t1'' ex_auth = Some \<lparr>se_tokenHash = ''t1'', se_userId = ''u1'', se_expiresAt = 5000, se_userAgent = None\<rparr>"
  "find_user ''u1'' ex_auth = Some ex_user"
  by (simp_all add: find_session_def find_user_def ex_auth_def ex_user_def tfind_Cons)

theorem session_lifetime_witness:
  "fst (resolveSessionToken (\<lambda>s. s) 4000 4000 4000 ''t1'' ex_auth) = Some (toSessionUser ex_user)"
  using session_lifetime [of "\<lambda>s. s" "''t1''" ex_auth, OF ex_found(1), of ex_user 4000 4000 4000] ex_found(2)
  by (cases "resolveSessionToken (\<lambda>s. s) 4000 4000 4000 ''t1'' ex_auth") (simp add: SESSION_TTL_MS_def)

theorem caller_has_credential_witness:
  "\<exists>v a1 u. requireUser (\<lambda>s. s) 4000 4000 4000 \<lparr>rq_authorization = None, rq_cookie = Some ''t1'', rq_development = False\<rparr> ex_auth = (Inr v, a1)
     \<and> v = toSessionUser u \<and> live_session (\<lambda>s. s) 4000 ''t1'' u ex_auth"
proof -
  let ?q = "\<lparr>rq_authorization = None, rq_cookie = Some ''t1'', rq_development = False\<rparr>"
  obtain a1 where run: "requireUser (\<lambda>s. s) 4000 4000 4000 ?q ex_auth = (Inr (toSessionUser ex_user), a1)"
    using ex_found by (simp add: requireUser_def getSessionUser_def bearerFromHeader_def resolveSessionToken_def)
  from caller_has_credential [OF this] show ?thesis
    by (intro exI [of _ "toSessionUser ex_user"] exI [of _ a1]) (auto simp: run bearerFromHeader_def)
qed

theorem changePassword_signs_out_witness:
  "\<exists>a1. changePassword ex_hashing [1] ''u1'' ex_password ''battery-st8'' ex_auth = (Inr (), a1)
     \<and> (\<forall>s \<in> set (au_sessions a1). se_userId s \<noteq> ''u1'')"
proof -
  have strong: "assertPasswordStrength ''battery-st8'' (Some ''ops@example.org'') = Inr ()" by code_simp
  have ok: "assertReasonable ''battery-st8'' = Inr ()" by code_simp
  obtain h where "hashPassword ex_hashing [1] ''battery-st8'' = Inr h"
    by (simp add: hashPassword_def ok) (simp add: ex_hashing_def)
  moreover have "ex_hash \<noteq> []" by (simp add: ex_hash_def)
  ultimately obtain a1 where run: "changePassword ex_hashing [1] ''u1'' ex_password ''battery-st8'' ex_auth = (Inr (), a1)"
    using ex_found(2) ex_verifies strong by (simp add: changePassword_def ex_user_def)
  from changePassword_signs_out [OF ex_hashing_laws _ this] run show ?thesis by auto
qed

lemma ex_login_parts: "login_email (JsObj [(''email'', JsStr ''ops@example.org''), (''password'', JsStr p)]) = Some ''ops@example.org''"
  "string_field (JsObj [(''email'', JsStr ''ops@example.org''), (''password'', JsStr p)]) ''password'' 1 1024
    = (if 1 \<le> length p \<and> length p \<le> 1024 then Some p else None)"
proof -
  have "js_lower (js_trim ''ops@example.org'') = ''ops@example.org''" by code_simp
  then show "login_email (JsObj [(''email'', JsStr ''ops@example.org''), (''password'', JsStr p)]) = Some ''ops@example.org''"
    by (simp add: login_email_def string_field_def)
qed (simp add: string_field_def)

lemma ex_free: "checkLoginThrottle timed_redis email ip (0, \<lambda>k. None) = None"
  by (simp add: throttle_free rd_stored_def) (simp add: timed_redis_def timed_get_def MAX_ATTEMPTS_def)

lemma ex_known: "tfind us_email ''ops@example.org'' (au_users ex_auth) = Some ex_user"
  by (simp add: ex_auth_def ex_user_def tfind_Cons)

theorem login_outcome_witness:
  "\<exists>v st1. login ex_hashing timed_redis (\<lambda>s. s) [1] ''t2'' 0 (ex_login ex_password) ex_site = (Inr (Welcome 200 v ''t2''), st1)
     \<and> su_email v = ''ops@example.org'' \<and> (\<exists>u. live_session (\<lambda>s. s) 0 ''t2'' u (st_auth st1))"
proof -
  have len: "1 \<le> length ex_password \<and> length ex_password \<le> 1024" by (simp add: ex_password_def)
  have "ex_hash \<noteq> []" by (simp add: ex_hash_def)
  moreover have "\<not> needsRehash ex_hashing ex_hash" using hash_verifies(2) [OF ex_hashing_laws ex_made] by simp
  ultimately obtain v st1 where run: "login ex_hashing timed_redis (\<lambda>s. s) [1] ''t2'' 0 (ex_login ex_password) ex_site
      = (Inr (Welcome 200 v ''t2''), st1)" and v: "su_email v = ''ops@example.org''"
    using ex_verifies(1) ex_known ex_login_parts [of ex_password] len ex_free
    by (simp add: login_def ex_login_def ex_site_def login_checked_def ex_user_def createSession_def find_session_def
        ex_auth_def tfind_Cons toSessionUser_def)
  have "distinct (map us_id (au_users (st_auth ex_site)))" by (simp add: ex_site_def ex_auth_def)
  moreover have "hr_body (ex_login ex_password) = Some (JsObj [(''email'', JsStr ''ops@example.org''), (''password'', JsStr ex_password)])"
    "string_field (JsObj [(''email'', JsStr ''ops@example.org''), (''password'', JsStr ex_password)]) ''password'' 1 1024 = Some ex_password"
    using len ex_login_parts(2) [of ex_password] by (simp_all add: ex_login_def)
  ultimately have "\<exists>u1. \<forall>t < SESSION_TTL_MS. live_session (\<lambda>s. s) t ''t2'' u1 (st_auth st1)"
    using login_outcome [OF timed_laws(1) _ _ run _ ex_login_parts(1)] by fastforce
  then obtain u1 where "\<forall>t < SESSION_TTL_MS. live_session (\<lambda>s. s) t ''t2'' u1 (st_auth st1)" by blast
  then have "live_session (\<lambda>s. s) 0 ''t2'' u1 (st_auth st1)" by (simp add: SESSION_TTL_MS_def)
  with run v show ?thesis by blast
qed


end
