(* ===== verification/Media_Rules.thy ===== *)
theory Media_Rules
  imports Schema
begin

text \<open>
  \<open>lib/media/storage.ts\<close>, \<open>probe.ts\<close> and \<open>validate.ts\<close>: where an object may be stored, what
  \<open>ffprobe\<close> says of a file, and the rules a video must meet. Node's \<open>path\<close> functions (POSIX) are written out.
  Durations and ratios are rationals, where the code has doubles; how JavaScript prints a number
  is an argument.
\<close>

subsection \<open>Paths\<close>

definition sep :: char where "sep = CHR ''/''"

text \<open>The segments of an absolute path, with empty ones and dots gone and double dots resolved.\<close>

fun walk :: "string list \<Rightarrow> string list \<Rightarrow> string list" where
  "walk done_segs [] = done_segs"
| "walk done_segs (s # ss) =
     walk (if s = [] \<or> s = ''.'' then done_segs else if s = ''..'' then butlast done_segs else done_segs @ [s]) ss"

definition path_text :: "string list \<Rightarrow> string" where
  "path_text segs = sep # js_join [sep] segs"

definition is_absolute :: "string \<Rightarrow> bool" where
  "is_absolute p = js_starts_with p [sep]"

text \<open>\<open>path.resolve(base, key)\<close>, for an absolute base.\<close>

definition path_resolve :: "string \<Rightarrow> string \<Rightarrow> string" where
  "path_resolve base key =
     path_text (walk (if is_absolute key then [] else walk [] (js_split sep base)) (js_split sep key))"

text \<open>The last segment, trailing separators aside.\<close>

definition path_basename :: "string \<Rightarrow> string" where
  "path_basename p = rev (takeWhile (\<lambda>c. c \<noteq> sep) (dropWhile (\<lambda>c. c = sep) (rev p)))"

definition path_extname :: "string \<Rightarrow> string" where
  "path_extname p =
     (let b = path_basename p; after = takeWhile (\<lambda>c. c \<noteq> CHR ''.'') (rev b); before = length b - length after - 1
      in if CHR ''.'' \<notin> set b \<or> before = 0 \<or> b = ''..'' then [] else drop before b)"

subsection \<open>Storage keys\<close>

datatype storage_error = UnsafeKey string | EscapesRoot string

definition assertSafeKey :: "string \<Rightarrow> (storage_error, unit) result" where
  "assertSafeKey key =
     guardE (\<not> (js_includes key ''..'' \<or> is_absolute key \<or> js_includes key [CHR 0x00])) (UnsafeKey key)"

definition storage_resolve :: "string \<Rightarrow> string \<Rightarrow> (storage_error, string) result" where
  "storage_resolve base key =
     andThen (assertSafeKey key) (\<lambda>u.
       let target = path_resolve base key; top_dir = path_resolve base []
       in if target \<noteq> top_dir \<and> \<not> js_starts_with target (top_dir @ [sep]) then Inl (EscapesRoot key) else Inr target)"

subsection \<open>What ffprobe says\<close>

record media_metadata =
  md_durationSeconds :: "rat option"
  md_width :: "int option"
  md_height :: "int option"
  md_videoCodec :: "string option"
  md_audioCodec :: "string option"
  md_bitrate :: "rat option"

definition js_field :: "js \<Rightarrow> string \<Rightarrow> js option" where
  "js_field v k = (case v of JsObj kvs \<Rightarrow> (case map_of kvs k of Some JsUndefined \<Rightarrow> None | x \<Rightarrow> x) | _ \<Rightarrow> None)"

definition js_string_field :: "js \<Rightarrow> string \<Rightarrow> string option" where
  "js_string_field v k = (case js_field v k of Some (JsStr s) \<Rightarrow> Some s | _ \<Rightarrow> None)"

definition js_int_field :: "js \<Rightarrow> string \<Rightarrow> int option" where
  "js_int_field v k = (case js_field v k of Some (JsNum n) \<Rightarrow> Some n | _ \<Rightarrow> None)"

text \<open>
  The metadata read off the parsed output. \<open>number\<close> is \<open>Number(s)\<close> when that is finite. The fields have the
  types \<open>ffprobe\<close> documents.
\<close>

definition probe_metadata :: "(string \<Rightarrow> rat option) \<Rightarrow> js \<Rightarrow> media_metadata" where
  "probe_metadata number parsed =
     (let streams = (case js_field parsed ''streams'' of Some (JsArr ss) \<Rightarrow> ss | _ \<Rightarrow> []);
          video = List.find (\<lambda>s. js_string_field s ''codec_type'' = Some ''video'') streams;
          audio = List.find (\<lambda>s. js_string_field s ''codec_type'' = Some ''audio'') streams;
          format = js_field parsed ''format'';
          duration = (case Option.bind format (\<lambda>f. js_string_field f ''duration'') of
              Some d \<Rightarrow> Some d | None \<Rightarrow> Option.bind video (\<lambda>v. js_string_field v ''duration''))
      in \<lparr>md_durationSeconds = Option.bind duration number,
          md_width = Option.bind video (\<lambda>v. js_int_field v ''width''),
          md_height = Option.bind video (\<lambda>v. js_int_field v ''height''),
          md_videoCodec = Option.bind video (\<lambda>v. js_string_field v ''codec_name''),
          md_audioCodec = Option.bind audio (\<lambda>v. js_string_field v ''codec_name''),
          md_bitrate = Option.bind (Option.bind format (\<lambda>f. js_string_field f ''bit_rate'')) number\<rparr>)"

subsection \<open>The rules\<close>

record media_spec =
  sp_maxSizeBytes :: int
  sp_minDurationSeconds :: rat
  sp_maxDurationSeconds :: rat
  sp_minWidth :: int
  sp_minHeight :: int
  sp_minAspectRatio :: rat
  sp_maxAspectRatio :: rat
  sp_allowedMimeTypes :: "string list"
  sp_allowedVideoCodecs :: "string list"

definition DEFAULT_SPEC :: media_spec where
  "DEFAULT_SPEC =
     \<lparr>sp_maxSizeBytes = 500 * 1024 * 1024, sp_minDurationSeconds = 1, sp_maxDurationSeconds = 600,
      sp_minWidth = 360, sp_minHeight = 360, sp_minAspectRatio = 1 / 2, sp_maxAspectRatio = 9 / 5,
      sp_allowedMimeTypes = [''video/mp4'', ''video/quicktime'', ''video/webm''],
      sp_allowedVideoCodecs = [''h264'', ''hevc'', ''vp9'', ''av1'']\<rparr>"

text \<open>\<open>x.toFixed(f)\<close> for \<open>x \<ge> 0\<close>: the nearest multiple, the larger of two.\<close>

definition to_fixed :: "nat \<Rightarrow> rat \<Rightarrow> string" where
  "to_fixed f x =
     (let n = nat \<lfloor>x * 10 ^ f + 1 / 2\<rfloor>; digits = show_nat n; padded = replicate (f + 1 - length digits) (CHR ''0'') @ digits
      in if f = 0 then digits else take (length padded - f) padded @ ''.'' @ drop (length padded - f) padded)"

definition formatBytes :: "int \<Rightarrow> string" where
  "formatBytes bytes =
     (let mb = rat_of_int bytes / (1024 * 1024)
      in if mb \<ge> 1024 then to_fixed 1 (mb / 1024) @ '' GB'' else to_fixed 1 mb @ '' MB'')"

definition size_issues :: "string \<Rightarrow> int \<Rightarrow> media_spec \<Rightarrow> (string \<times> string) list" where
  "size_issues mimeType sizeBytes spec =
     (if mimeType \<notin> set (sp_allowedMimeTypes spec)
      then [(''mimeType'', mimeType @ '' is not supported. Allowed: '' @ js_join '', '' (sp_allowedMimeTypes spec))] else [])
     @ (if sizeBytes > sp_maxSizeBytes spec
        then [(''sizeBytes'', ''File is '' @ formatBytes sizeBytes @ '', limit is '' @ formatBytes (sp_maxSizeBytes spec))] else [])"

text \<open>A height of zero makes the ratio infinite, or not a number when the width is zero too.\<close>

definition dimension_issues :: "(rat \<Rightarrow> string) \<Rightarrow> media_metadata \<Rightarrow> media_spec \<Rightarrow> (string \<times> string) list" where
  "dimension_issues show_num md spec =
     (case (md_width md, md_height md) of
        (Some w, Some h) \<Rightarrow>
          (if w < sp_minWidth spec \<or> h < sp_minHeight spec
           then [(''dimensions'', ''Resolution is '' @ show_int w @ ''x'' @ show_int h @ '', minimum is ''
                   @ show_int (sp_minWidth spec) @ ''x'' @ show_int (sp_minHeight spec))] else [])
          @ (let aspect = rat_of_int w / rat_of_int h;
                 outside = (if h = 0 then w \<noteq> 0 else aspect < sp_minAspectRatio spec \<or> aspect > sp_maxAspectRatio spec);
                 shown = (if h = 0 then (if w < 0 then ''-Infinity'' else ''Infinity'')
                          else if aspect < 0 then ''-'' @ to_fixed 3 (- aspect) else to_fixed 3 aspect)
             in if outside
                then [(''aspectRatio'', ''Aspect ratio '' @ shown @ '' is outside the accepted range ''
                        @ show_num (sp_minAspectRatio spec) @ ''-'' @ show_num (sp_maxAspectRatio spec))] else [])
      | _ \<Rightarrow> [(''dimensions'', ''No video stream found in the file'')])"

definition duration_issues :: "(rat \<Rightarrow> string) \<Rightarrow> media_metadata \<Rightarrow> media_spec \<Rightarrow> (string \<times> string) list" where
  "duration_issues show_num md spec =
     (case md_durationSeconds md of
        None \<Rightarrow> [(''duration'', ''Could not determine duration'')]
      | Some d \<Rightarrow>
          if d < sp_minDurationSeconds spec
          then [(''duration'', ''Video is '' @ (if d < 0 then ''-'' @ to_fixed 2 (- d) else to_fixed 2 d)
                  @ ''s, minimum is '' @ show_num (sp_minDurationSeconds spec) @ ''s'')]
          else if d > sp_maxDurationSeconds spec
          then [(''duration'', ''Video is '' @ to_fixed 0 d @ ''s, maximum is '' @ show_num (sp_maxDurationSeconds spec) @ ''s'')]
          else [])"

definition codec_issues :: "media_metadata \<Rightarrow> media_spec \<Rightarrow> (string \<times> string) list" where
  "codec_issues md spec =
     (case md_videoCodec md of
        Some c \<Rightarrow>
          if c \<noteq> [] \<and> c \<notin> set (sp_allowedVideoCodecs spec)
          then [(''videoCodec'', ''Codec '' @ c @ '' is not supported. Allowed: '' @ js_join '', '' (sp_allowedVideoCodecs spec))]
          else []
      | None \<Rightarrow> [])"

definition validateMedia ::
  "(rat \<Rightarrow> string) \<Rightarrow> string \<Rightarrow> int \<Rightarrow> media_metadata \<Rightarrow> media_spec \<Rightarrow> (string \<times> string) list" where
  "validateMedia show_num mimeType sizeBytes md spec =
     size_issues mimeType sizeBytes spec @ dimension_issues show_num md spec
     @ duration_issues show_num md spec @ codec_issues md spec"

subsection \<open>What passes\<close>

text \<open>The rules as a requirement on the file, stated without the order and the texts of the issues.\<close>

definition meets :: "media_spec \<Rightarrow> string \<Rightarrow> int \<Rightarrow> media_metadata \<Rightarrow> bool" where
  "meets spec mimeType sizeBytes md \<longleftrightarrow>
     mimeType \<in> set (sp_allowedMimeTypes spec) \<and> sizeBytes \<le> sp_maxSizeBytes spec
     \<and> (\<exists>w h d. md_width md = Some w \<and> md_height md = Some h \<and> md_durationSeconds md = Some d
          \<and> sp_minWidth spec \<le> w \<and> sp_minHeight spec \<le> h
          \<and> sp_minAspectRatio spec * rat_of_int h \<le> rat_of_int w \<and> rat_of_int w \<le> sp_maxAspectRatio spec * rat_of_int h
          \<and> sp_minDurationSeconds spec \<le> d \<and> d \<le> sp_maxDurationSeconds spec)
     \<and> (\<forall>c. md_videoCodec md = Some c \<longrightarrow> c = [] \<or> c \<in> set (sp_allowedVideoCodecs spec))"

lemma dimensions_pass:
  assumes "sp_minHeight spec > 0"
  shows "dimension_issues show_num md spec = [] \<longleftrightarrow> (\<exists>w h. md_width md = Some w \<and> md_height md = Some h
     \<and> sp_minWidth spec \<le> w \<and> sp_minHeight spec \<le> h
     \<and> sp_minAspectRatio spec * rat_of_int h \<le> rat_of_int w \<and> rat_of_int w \<le> sp_maxAspectRatio spec * rat_of_int h)"
proof -
  have "lo \<le> rat_of_int w / rat_of_int h \<longleftrightarrow> lo * rat_of_int h \<le> rat_of_int w"
    "rat_of_int w / rat_of_int h \<le> hi \<longleftrightarrow> rat_of_int w \<le> hi * rat_of_int h"
    "rat_of_int w / rat_of_int h < lo \<longleftrightarrow> rat_of_int w < lo * rat_of_int h"
    "hi < rat_of_int w / rat_of_int h \<longleftrightarrow> hi * rat_of_int h < rat_of_int w" if "h \<ge> sp_minHeight spec" for w h lo hi
    using assms that by (simp_all add: pos_le_divide_eq pos_divide_le_eq pos_divide_less_eq pos_less_divide_eq)
  then show ?thesis
    using assms by (auto simp: dimension_issues_def Let_def not_less split: option.splits)
qed

lemma validateMedia_meets:
  assumes "sp_minHeight spec > 0"
  shows "validateMedia show_num mimeType sizeBytes md spec = [] \<longleftrightarrow> meets spec mimeType sizeBytes md"
  unfolding validateMedia_def append_is_Nil_conv dimensions_pass [OF assms] meets_def
  by (auto simp: size_issues_def duration_issues_def codec_issues_def split: option.splits if_splits)

subsection \<open>Where keys lead\<close>

lemma js_split_nonempty: "js_split d s \<noteq> []"
  by (induction s) (auto split: list.splits)

lemma js_split_clean: "w \<in> set (js_split d s) \<Longrightarrow> d \<notin> set w"
  by (induction s arbitrary: w) (auto split: list.splits if_splits)

lemma js_split_inside: "w \<in> set (js_split d s) \<Longrightarrow> js_includes s w"
proof (induction s arbitrary: w)
  case (Cons c s)
  obtain v vs where split: "js_split d s = v # vs" using js_split_nonempty [of d s] by (cases "js_split d s") auto
  then have v: "js_starts_with s v"
  proof (induction s arbitrary: v vs)
    case (Cons x s)
    then show ?case
      by (cases "js_split d s") (auto simp: js_starts_with_def js_split_nonempty split: if_splits)
  qed (simp add: js_starts_with_def)
  have step: "js_includes s w \<Longrightarrow> js_includes (c # s) w" by simp
  have none: "js_includes t []" for t by (cases t) (simp_all add: js_starts_with_def)
  show ?case
    using Cons split v step none by (cases "c = d") (auto simp: js_starts_with_def)
qed simp

definition plain_segment :: "string \<Rightarrow> bool" where
  "plain_segment w \<longleftrightarrow> w \<noteq> [] \<and> w \<noteq> ''.'' \<and> w \<noteq> ''..'' \<and> sep \<notin> set w"

lemma walk_down: "''..'' \<notin> set ss \<Longrightarrow> walk B ss = B @ [w \<leftarrow> ss. w \<noteq> [] \<and> w \<noteq> ''.'']"
  by (induction ss arbitrary: B) auto

lemma walk_plain: "\<forall>w \<in> set B. plain_segment w \<Longrightarrow> \<forall>w \<in> set ss. sep \<notin> set w \<Longrightarrow> \<forall>w \<in> set (walk B ss). plain_segment w"
proof (induction ss arbitrary: B)
  case (Cons s ss)
  let ?B = "if s = [] \<or> s = ''.'' then B else if s = ''..'' then butlast B else B @ [s]"
  have "\<forall>w \<in> set ?B. plain_segment w"
    using Cons.prems in_set_butlastD [of _ B] by (auto simp: plain_segment_def)
  moreover have "\<forall>w \<in> set ss. sep \<notin> set w" using Cons.prems(2) by simp
  ultimately have "\<forall>w \<in> set (walk ?B ss). plain_segment w" by (rule Cons.IH)
  then show ?case by simp
qed simp

lemma js_join_append: "xs \<noteq> [] \<Longrightarrow> ys \<noteq> [] \<Longrightarrow> js_join d (xs @ ys) = js_join d xs @ d @ js_join d ys"
proof (induction d xs rule: js_join.induct)
  case (2 d w)
  then show ?case by (cases ys) auto
qed auto

definition segments :: "string \<Rightarrow> string list" where
  "segments base = walk [] (js_split sep base)"

lemma resolve_safe:
  assumes "assertSafeKey key = Inr ()"
  obtains rest where "path_resolve base key = path_text (segments base @ rest)" and "\<forall>w \<in> set rest. plain_segment w"
proof -
  have safe: "\<not> js_includes key ''..''" "\<not> is_absolute key" using assms by (auto simp: assertSafeKey_def)
  then have "''..'' \<notin> set (js_split sep key)" using js_split_inside by blast
  then have "walk B (js_split sep key) = B @ [w \<leftarrow> js_split sep key. w \<noteq> [] \<and> w \<noteq> ''.'']" for B by (rule walk_down)
  moreover have "\<forall>w \<in> set [w \<leftarrow> js_split sep key. w \<noteq> [] \<and> w \<noteq> ''.'']. plain_segment w"
    using \<open>''..'' \<notin> set (js_split sep key)\<close> js_split_clean by (fastforce simp: plain_segment_def)
  ultimately show ?thesis using safe(2) by (intro that) (auto simp: path_resolve_def segments_def)
qed

lemma segments_plain: "\<forall>w \<in> set (segments base). plain_segment w"
  unfolding segments_def by (rule walk_plain) (auto dest: js_split_clean)

text \<open>
  C34. Whatever key a row holds, storage is touched only below its base directory: a key that resolves at all
  leads to the base or to a path of plain segments below it - and the keys that resolve are
  exactly those the first test lets through, so the second test, against escaping the base, is
  never needed.
\<close>

theorem storage_stays_inside:
  assumes "segments base \<noteq> []"
  shows "(case storage_resolve base key of
      Inr target \<Rightarrow> \<exists>rest. target = path_text (segments base @ rest) \<and> (\<forall>w \<in> set rest. plain_segment w)
    | Inl e \<Rightarrow> e = UnsafeKey key)
    \<and> (storage_resolve base key = Inl (UnsafeKey key) \<longleftrightarrow> js_includes key ''..'' \<or> is_absolute key \<or> js_includes key [CHR 0x00])"
proof (cases "assertSafeKey key = Inr ()")
  case True
  then obtain rest where rest: "path_resolve base key = path_text (segments base @ rest)" "\<forall>w \<in> set rest. plain_segment w"
    by (rule resolve_safe)
  have top_dir: "path_resolve base [] = path_text (segments base)"
    by (simp add: path_resolve_def segments_def is_absolute_def js_starts_with_def)
  have "js_starts_with (path_text (segments base @ rest)) (path_text (segments base) @ [sep])" if "rest \<noteq> []"
    using js_join_append [OF assms that, of "[sep]"] by (simp add: path_text_def js_starts_with_prefix)
  then have "storage_resolve base key = Inr (path_text (segments base @ rest))"
    using True rest(1) by (cases "rest = []") (auto simp: storage_resolve_def top_dir Let_def)
  with True rest(2) show ?thesis by (auto simp: assertSafeKey_def)
next
  case False
  then have "assertSafeKey key = Inl (UnsafeKey key)" by (auto simp: assertSafeKey_def guardE_def split: if_splits)
  then show ?thesis 
    using False by (auto simp: storage_resolve_def assertSafeKey_def guardE_def split: if_splits)
qed

theorem storage_stays_inside_witness:
  "segments ''/srv/storage'' = [''srv'', ''storage''] \<and> (\<exists>rest. storage_resolve ''/srv/storage'' ''videos/u1/a.mp4''
      = Inr (path_text ([''srv'', ''storage''] @ rest)))"
proof -
  have segs: "segments ''/srv/storage'' = [''srv'', ''storage'']" by code_simp
  have safe: "\<not> (js_includes ''videos/u1/a.mp4'' ''..'' \<or> is_absolute ''videos/u1/a.mp4'' \<or> js_includes ''videos/u1/a.mp4'' [CHR 0x00])"
    by code_simp
  have "segments ''/srv/storage'' \<noteq> []" by (simp add: segs)
  from storage_stays_inside [OF this, of "''videos/u1/a.mp4''"] safe segs show ?thesis
    by (auto split: sum.splits)
qed

end
