(* ===== verification/Ingest.thy ===== *)
theory Ingest
  imports Media_Rules
begin

text \<open>
  \<open>lib/media/ingest.ts\<close>: taking an upload in. The storage, the temporary directory, \<open>ffprobe\<close> and \<open>ffmpeg\<close>
  are the fields of \<open>media_env\<close>, over the state of the outside; each may fail with a message. Another
  request may commit between the lookup of the checksum and the insert (\<open>others\<close>), and the insert
  checks the unique index on the user and the checksum.
\<close>

record 'q media_env =
  me_storageName :: string
  me_put :: "string \<Rightarrow> bytes \<Rightarrow> 'q \<Rightarrow> (string, unit) result \<times> 'q"
  me_tempDir :: "'q \<Rightarrow> (string, unit) result \<times> 'q"         \<comment> \<open>\<open>mkdtemp\<close>\<close>
  me_write :: "bytes \<Rightarrow> 'q \<Rightarrow> (string, unit) result \<times> 'q"  \<comment> \<open>the file \<open>ffprobe\<close> reads\<close>
  me_available :: "'q \<Rightarrow> bool \<times> 'q"                        \<comment> \<open>\<open>isFfmpegAvailable\<close>\<close>
  me_ffprobe :: "bytes \<Rightarrow> 'q \<Rightarrow> (string, js) result \<times> 'q"  \<comment> \<open>the parsed output\<close>
  me_thumbnail :: "bytes \<Rightarrow> 'q \<Rightarrow> (string, bytes) result \<times> 'q"
  me_number :: "string \<Rightarrow> rat option"
  me_showNumber :: "rat \<Rightarrow> string"

record ingest_input =
  in_userId :: string
  in_fileName :: string
  in_mimeType :: string
  in_bytes :: bytes
  in_checksum :: string    \<comment> \<open>the SHA-256 of the bytes\<close>

record ingest_result =
  ig_video :: video
  ig_issues :: "(string \<times> string) list"
  ig_deduplicated :: bool

definition find_video :: "string \<Rightarrow> 'q world \<Rightarrow> video option" where
  "find_video i w = tfind vid_id i (w_videos w)"

definition upd_video :: "string \<Rightarrow> (video \<Rightarrow> video) \<Rightarrow> 'q world \<Rightarrow> 'q world" where
  "upd_video i f w = w\<lparr>w_videos := tupd vid_id i f (w_videos w)\<rparr>"

definition find_checksum :: "string \<Rightarrow> string \<Rightarrow> 'q world \<Rightarrow> video option" where
  "find_checksum userId checksum w =
     List.find (\<lambda>v. vid_userId v = userId \<and> vid_checksum v = Some checksum) (w_videos w)"

text \<open>A call on the outside, in the world.\<close>

definition outside :: "('q \<Rightarrow> 'a \<times> 'q) \<Rightarrow> 'q world \<Rightarrow> 'a \<times> 'q world" where
  "outside f w = (case f (w_queue w) of (x, q) \<Rightarrow> (x, w\<lparr>w_queue := q\<rparr>))"

definition createVideoRecord :: "string \<Rightarrow> video \<Rightarrow> 'q world \<Rightarrow> video \<times> 'q world" where
  "createVideoRecord newId row w =
     (case find_checksum (vid_userId row) (the (vid_checksum row)) w of
        Some winner \<Rightarrow> (winner, w)
      | None \<Rightarrow> (row\<lparr>vid_id := newId\<rparr>, w\<lparr>w_videos := w_videos w @ [row\<lparr>vid_id := newId\<rparr>]\<rparr>))"

text \<open>\<open>storageKey.replace(/\.[^.]+$/, '')\<close>.\<close>

definition strip_extension :: "string \<Rightarrow> string" where
  "strip_extension s =
     (let after = takeWhile (\<lambda>c. c \<noteq> CHR ''.'') (rev s)
      in if after \<noteq> [] \<and> length after < length s then take (length s - length after - 1) s else s)"

definition buildThumbnail :: "'q media_env \<Rightarrow> bytes \<Rightarrow> string \<Rightarrow> 'q world \<Rightarrow> string option \<times> 'q world" where
  "buildThumbnail E bytes storageKey w =
     (case outside (me_thumbnail E bytes) w of
        (Inl e, w1) \<Rightarrow> (None, w1)
      | (Inr picture, w1) \<Rightarrow>
          (let key = strip_extension storageKey @ ''-thumb.jpg''
           in case outside (me_put E key picture) w1 of
                (Inl e, w2) \<Rightarrow> (None, w2)
              | (Inr u, w2) \<Rightarrow> (Some key, w2)))"

text \<open>The row after an update, as \<open>prisma.video.update\<close> returns it. Rows of videos are not deleted.\<close>

definition update_video :: "string \<Rightarrow> (video \<Rightarrow> video) \<Rightarrow> 'q world \<Rightarrow> video option \<times> 'q world" where
  "update_video i f w = (find_video i (upd_video i f w), upd_video i f w)"

text \<open>The three updates of the row that end an ingest.\<close>

definition mark_unchecked :: "video \<Rightarrow> video" where
  "mark_unchecked v = v\<lparr>vid_status := READY,
     vid_validationErrors := Some [(''ffprobe'', ''ffprobe unavailable, media was not validated'')]\<rparr>"

definition unreadable_issues :: "(string \<times> string) list" where
  "unreadable_issues = [(''file'', ''File could not be read as video'')]"

definition mark_unreadable :: "string \<Rightarrow> video \<Rightarrow> video" where
  "mark_unreadable message v = v\<lparr>vid_status := INVALID,
     vid_validationErrors := Some (unreadable_issues @ [(''probe'', take 500 message)])\<rparr>"

definition mark_checked :: "media_metadata \<Rightarrow> string option \<Rightarrow> (string \<times> string) list \<Rightarrow> video \<Rightarrow> video" where
  "mark_checked md thumbnailKey issues v = v\<lparr>vid_status := (if issues = [] then READY else INVALID),
     vid_durationSeconds := md_durationSeconds md, vid_width := md_width md, vid_height := md_height md,
     vid_thumbnailKey := thumbnailKey, vid_validationErrors := (if issues \<noteq> [] then Some issues else None)\<rparr>"

definition answer_updated ::
  "string \<Rightarrow> (video \<Rightarrow> video) \<Rightarrow> (string \<times> string) list \<Rightarrow> 'q world \<Rightarrow> (string, ingest_result) result \<times> 'q world" where
  "answer_updated i f issues w =
     (case update_video i f w of
        (row, w1) \<Rightarrow> (Inr \<lparr>ig_video = the row, ig_issues = issues, ig_deduplicated = False\<rparr>, w1))"

text \<open>The body of the \<open>try\<close>: \<open>Inl\<close> is what reaches its \<open>catch\<close>.\<close>

definition ingest_body ::
  "'q media_env \<Rightarrow> ingest_input \<Rightarrow> string \<Rightarrow> string \<Rightarrow> 'q world \<Rightarrow> (string, ingest_result) result \<times> 'q world" where
  "ingest_body E inp videoId storageKey w =
     (case outside (me_write E (in_bytes inp)) w of
        (Inl e, w1) \<Rightarrow> (Inl e, w1)
      | (Inr u, w1) \<Rightarrow>
      (case outside (me_available E) w1 of (available, w2) \<Rightarrow>
        if \<not> available then answer_updated videoId mark_unchecked [] w2
        else (case outside (me_ffprobe E (in_bytes inp)) w2 of
          (Inl message, w3) \<Rightarrow> answer_updated videoId (mark_unreadable message) unreadable_issues w3
        | (Inr parsed, w3) \<Rightarrow>
            (let md = probe_metadata (me_number E) parsed;
                 issues = validateMedia (me_showNumber E) (in_mimeType inp) (int (length (in_bytes inp))) md DEFAULT_SPEC;
                 (thumbnailKey, w4) = (if issues = [] then buildThumbnail E (in_bytes inp) storageKey w3 else (None, w3))
             in answer_updated videoId (mark_checked md thumbnailKey issues) issues w4))))"

definition ingest_row ::
  "'q media_env \<Rightarrow> ingest_input \<Rightarrow> string \<Rightarrow> string \<Rightarrow> 'q world \<Rightarrow> (string, ingest_result) result \<times> 'q world" where
  "ingest_row E inp storageKey videoId w =
     (case outside (me_tempDir E) w of
        (Inl e, w1) \<Rightarrow> (Inl e, w1)
      | (Inr u, w1) \<Rightarrow>
          (case ingest_body E inp videoId storageKey w1 of
             (Inr r, w2) \<Rightarrow> (Inr r, w2)
           | (Inl e, w2) \<Rightarrow>
               (Inl e, upd_video videoId (\<lambda>v. v\<lparr>vid_status := INVALID,
                  vid_validationErrors := Some [(''ingest'', take 500 (''Ingest failed: '' @ e))]\<rparr>) w2)))"

text \<open>\<open>uuid\<close> is what \<open>randomUUID()\<close> returns, \<open>newId\<close> the id the database gives a new row.\<close>

definition upload_key :: "string \<Rightarrow> ingest_input \<Rightarrow> string" where
  "upload_key uuid inp =
     (let ext = js_lower (path_extname (in_fileName inp))
      in ''videos/'' @ in_userId inp @ ''/'' @ uuid @ (if ext = [] then ''.mp4'' else ext))"

definition upload_row :: "'q media_env \<Rightarrow> string \<Rightarrow> ingest_input \<Rightarrow> video" where
  "upload_row E storageKey inp =
     \<lparr>vid_id = [], vid_userId = in_userId inp, vid_fileName = path_basename (in_fileName inp),
      vid_storageKey = storageKey, vid_storageDriver = me_storageName E, vid_mimeType = in_mimeType inp,
      vid_sizeBytes = int (length (in_bytes inp)), vid_durationSeconds = None, vid_width = None, vid_height = None,
      vid_checksum = Some (in_checksum inp), vid_thumbnailKey = None, vid_status = VALIDATING,
      vid_validationErrors = None\<rparr>"

definition ingestVideo ::
  "'q media_env \<Rightarrow> string \<Rightarrow> string \<Rightarrow> ('q world \<Rightarrow> 'q world) \<Rightarrow> ingest_input \<Rightarrow> 'q world
    \<Rightarrow> (string, ingest_result) result \<times> 'q world" where
  "ingestVideo E uuid newId others inp w =
     (case find_checksum (in_userId inp) (in_checksum inp) w of
        Some existing \<Rightarrow> (Inr \<lparr>ig_video = existing, ig_issues = [], ig_deduplicated = True\<rparr>, w)
      | None \<Rightarrow>
          (let storageKey = upload_key uuid inp
           in case outside (me_put E storageKey (in_bytes inp)) w of
                (Inl e, w1) \<Rightarrow> (Inl e, w1)
              | (Inr u, w1) \<Rightarrow>
                  (case createVideoRecord newId (upload_row E storageKey inp) (others w1) of
                     (video, w2) \<Rightarrow> ingest_row E inp storageKey (vid_id video) w2)))"

subsection \<open>What an upload becomes\<close>

interpretation video_rows: row_store vid_id find_video upd_video
  by unfold_locales (auto simp: find_video_def upd_video_def tfind_tupd dest: tfind_Some)

lemma outside_rows: "outside f w = (x, w1) \<Longrightarrow> w_videos w1 = w_videos w"
  by (auto simp: outside_def split: prod.splits)

lemma thumbnail_rows: "buildThumbnail E b k w = (x, w1) \<Longrightarrow> w_videos w1 = w_videos w"
  by (auto simp: buildThumbnail_def Let_def dest!: outside_rows split: prod.splits sum.splits)

lemma marks_keep:
  "vid_id (mark_unchecked v) = vid_id v" "vid_id (mark_unreadable m v) = vid_id v" "vid_id (mark_checked md t is v) = vid_id v"
  "vid_checksum (mark_unchecked v) = vid_checksum v" "vid_checksum (mark_unreadable m v) = vid_checksum v"
  "vid_checksum (mark_checked md t is v) = vid_checksum v"
  by (simp_all add: mark_unchecked_def mark_unreadable_def mark_checked_def)

text \<open>How a row ends: usable, and then either checked against every rule or marked as not checked, or refused with a reason.\<close>

definition settled :: "'q media_env \<Rightarrow> ingest_input \<Rightarrow> video \<Rightarrow> (string \<times> string) list \<Rightarrow> bool" where
  "settled E inp v issues \<longleftrightarrow>
     vid_status v = READY \<and> issues = []
       \<and> (vid_validationErrors v = Some [(''ffprobe'', ''ffprobe unavailable, media was not validated'')]
          \<or> vid_validationErrors v = None \<and> (\<exists>parsed.
              meets DEFAULT_SPEC (in_mimeType inp) (int (length (in_bytes inp))) (probe_metadata (me_number E) parsed)))
     \<or> vid_status v = INVALID \<and> issues \<noteq> [] \<and> vid_validationErrors v \<noteq> None"

lemma settled_marks:
  "settled E inp (mark_unchecked v) []" "settled E inp (mark_unreadable m v) unreadable_issues"
  "issues = validateMedia (me_showNumber E) (in_mimeType inp) (int (length (in_bytes inp))) (probe_metadata (me_number E) parsed) DEFAULT_SPEC
    \<Longrightarrow> settled E inp (mark_checked (probe_metadata (me_number E) parsed) t issues v) issues"
proof -
  have "sp_minHeight DEFAULT_SPEC > 0" by (simp add: DEFAULT_SPEC_def)
  note rules = validateMedia_meets [OF this]
  show "issues = validateMedia (me_showNumber E) (in_mimeType inp) (int (length (in_bytes inp))) (probe_metadata (me_number E) parsed) DEFAULT_SPEC
    \<Longrightarrow> settled E inp (mark_checked (probe_metadata (me_number E) parsed) t issues v) issues"
    using rules by (cases "issues = []") (auto simp: settled_def mark_checked_def, metis)
qed (simp_all add: settled_def mark_unchecked_def mark_unreadable_def unreadable_issues_def)

text \<open>What the body of the \<open>try\<close> does with the row it was given, when it returns: one update that settles it.\<close>

lemma body_updates:
  assumes "ingest_body E inp i key w = (Inr r, w1)"
  obtains f issues w2 where "answer_updated i f issues w2 = (Inr r, w1)" and "w_videos w2 = w_videos w"
    and "\<And>v. vid_id (f v) = vid_id v \<and> vid_checksum (f v) = vid_checksum v \<and> settled E inp (f v) issues"
proof -
  from assms obtain wa available wb where written: "outside (me_write E (in_bytes inp)) w = (Inr (), wa)"
    and asked: "outside (me_available E) wa = (available, wb)"
    by (auto simp: ingest_body_def split: prod.splits sum.splits)
  then have rows: "w_videos wb = w_videos w" by (auto dest!: outside_rows)
  show ?thesis
  proof (cases available)
    case False
    with assms written asked rows show ?thesis
      by (intro that [of mark_unchecked "[]" wb]) (auto simp: ingest_body_def marks_keep settled_marks)
  next
    case True
    obtain x wc where probed: "outside (me_ffprobe E (in_bytes inp)) wb = (x, wc)" by fastforce
    with rows have rows: "w_videos wc = w_videos w" by (auto dest!: outside_rows)
    show ?thesis
    proof (cases x)
      case (Inl m)
      with True assms written asked probed rows show ?thesis
        by (intro that [of "mark_unreadable m" unreadable_issues wc]) (auto simp: ingest_body_def marks_keep settled_marks)
    next
      case (Inr parsed)
      define issues where "issues = validateMedia (me_showNumber E) (in_mimeType inp) (int (length (in_bytes inp)))
        (probe_metadata (me_number E) parsed) DEFAULT_SPEC"
      obtain t wd where thumb: "(if issues = [] then buildThumbnail E (in_bytes inp) key wc else (None, wc)) = (t, wd)" by fastforce
      with rows have "w_videos wd = w_videos w" by (auto dest!: thumbnail_rows split: if_splits)
      moreover have "answer_updated i (mark_checked (probe_metadata (me_number E) parsed) t issues) issues wd = (Inr r, w1)"
        using True Inr assms written asked probed thumb by (simp add: ingest_body_def Let_def flip: issues_def)
      ultimately show ?thesis
        by (intro that [of "mark_checked (probe_metadata (me_number E) parsed) t issues" issues wd])
          (auto simp: marks_keep settled_marks(3) [OF issues_def])
    qed
  qed
qed

lemma body_throws: "ingest_body E inp i key w = (Inl e, w1) \<Longrightarrow> w_videos w1 = w_videos w"
  by (auto simp: ingest_body_def answer_updated_def Let_def dest!: outside_rows split: prod.splits sum.splits if_splits)

lemma answered:
  assumes "answer_updated i f issues w = (Inr r, w1)" and "find_video i w = Some v" and "\<And>v. vid_id (f v) = vid_id v"
  shows "ig_video r = f v \<and> ig_issues r = issues \<and> \<not> ig_deduplicated r \<and> find_video i w1 = Some (f v)
    \<and> (\<forall>j. j \<noteq> i \<longrightarrow> find_video j w1 = find_video j w)"
  using assms by (auto simp: answer_updated_def update_video_def video_rows.look_upd)

text \<open>The row an ingest works on: a new one, or the one another request made of the same bytes meanwhile.\<close>

lemma record_made:
  assumes "createVideoRecord newId row w = (v, w1)" and "find_video newId w = None" and "vid_checksum row = Some c"
    and "distinct (map vid_id (w_videos w))"
  shows "find_video (vid_id v) w1 = Some v \<and> vid_checksum v = Some c \<and> vid_userId v = vid_userId row
    \<and> (find_video (vid_id v) w = Some v \<or> vid_id v = newId \<and> vid_status v = vid_status row)
    \<and> (\<forall>j. j \<noteq> vid_id v \<longrightarrow> find_video j w1 = find_video j w)"
proof (cases "find_checksum (vid_userId row) c w")
  case None
  with assms show ?thesis
    by (auto simp: createVideoRecord_def find_video_def tfind_append tfind_Cons split: option.splits)
next
  case (Some u)
  then have "u \<in> set (w_videos w)" "vid_userId u = vid_userId row" "vid_checksum u = Some c"
    by (auto simp: find_checksum_def dest: find_SomeD)
  moreover from this(1) have "find_video (vid_id u) w = Some u"
    unfolding find_video_def by (rule tfind_distinct [OF assms(4)])
  moreover have "v = u" "w1 = w" using assms(1,3) Some by (auto simp: createVideoRecord_def)
  ultimately show ?thesis by simp
qed

text \<open>What the row ends as, once there is one.\<close>

definition row_outcome :: "'q media_env \<Rightarrow> ingest_input \<Rightarrow> video \<Rightarrow> (string, ingest_result) result \<Rightarrow> 'q world \<Rightarrow> bool" where
  "row_outcome E inp v x w1 \<longleftrightarrow> (case x of
       Inr r \<Rightarrow> \<not> ig_deduplicated r \<and> find_video (vid_id v) w1 = Some (ig_video r)
         \<and> vid_checksum (ig_video r) = vid_checksum v \<and> settled E inp (ig_video r) (ig_issues r)
     | Inl e \<Rightarrow> (\<exists>u. find_video (vid_id v) w1 = Some u \<and> vid_status u = INVALID)
         \<or> find_video (vid_id v) w1 = Some v \<and> (\<exists>q. fst (me_tempDir E q) = Inl e))"

lemma ingest_row_outcome:
  assumes "ingest_row E inp key (vid_id v) w = (x, w1)" and "find_video (vid_id v) w = Some v"
  shows "row_outcome E inp v x w1 \<and> (\<forall>j. j \<noteq> vid_id v \<longrightarrow> find_video j w1 = find_video j w)"
proof -
  obtain dir wa where dir: "outside (me_tempDir E) w = (dir, wa)" by fastforce
  then have rows: "find_video j wa = find_video j w" for j by (simp add: find_video_def outside_rows)
  show ?thesis
  proof (cases dir)
    case (Inl e)
    then have "fst (me_tempDir E (w_queue w)) = Inl e" using dir by (auto simp: outside_def split: prod.splits)
    with assms dir Inl rows show ?thesis by (auto simp: ingest_row_def row_outcome_def)
  next
    case (Inr u)
    obtain y wb where body: "ingest_body E inp (vid_id v) key wa = (y, wb)" by fastforce
    show ?thesis
    proof (cases y)
      case (Inl e)
      then have "find_video j wb = find_video j w" for j using body_throws [of E inp "vid_id v" key wa e wb] body rows
        by (simp add: find_video_def)
      with assms dir Inr body Inl show ?thesis
        by (auto simp: ingest_row_def row_outcome_def video_rows.look_upd)
    next
      case r: (Inr r)
      from body [unfolded r] obtain f issues wc where ans: "answer_updated (vid_id v) f issues wc = (Inr r, wb)"
        and rows': "w_videos wc = w_videos wa"
        and f: "\<And>v. vid_id (f v) = vid_id v \<and> vid_checksum (f v) = vid_checksum v \<and> settled E inp (f v) issues"
        by (rule body_updates) blast
      have look: "find_video j wc = find_video j w" for j using rows rows' by (simp add: find_video_def)
      with answered [OF ans, of v] f assms dir Inr body r show ?thesis
        by (auto simp: ingest_row_def row_outcome_def)
    qed
  qed
qed


subsection \<open>An upload\<close>

definition ex_media :: "unit media_env" where
  "ex_media =
     \<lparr>me_storageName = ''local'', me_put = (\<lambda>k b q. (Inr (), q)), me_tempDir = (\<lambda>q. (Inr (), q)),
      me_write = (\<lambda>b q. (Inr (), q)), me_available = (\<lambda>q. (True, q)),
      me_ffprobe = (\<lambda>b q. (Inr (JsObj [(''streams'', JsArr [JsObj [(''codec_type'', JsStr ''video''), (''codec_name'', JsStr ''h264''),
         (''width'', JsNum 720), (''height'', JsNum 1280)]]), (''format'', JsObj [(''duration'', JsStr ''12'')])]), q)),
      me_thumbnail = (\<lambda>b q. (Inr b, q)), me_number = (\<lambda>s. Some 12), me_showNumber = (\<lambda>x. [])\<rparr>"

definition ex_upload :: ingest_input where
  "ex_upload = \<lparr>in_userId = ''u1'', in_fileName = ''clip.MP4'', in_mimeType = ''video/mp4'', in_bytes = [1, 2], in_checksum = ''c''\<rparr>"

definition ex_empty :: "unit world" where
  "ex_empty = \<lparr>w_jobs = [], w_accounts = [], w_videos = [], w_proxies = [], w_logs = [], w_queue = ()\<rparr>"

text \<open>The file is usable: the row is READY, with its thumbnail.\<close>

lemma ex_ingested:
  "case ingestVideo ex_media ''id'' ''v1'' (\<lambda>w. ex_empty) ex_upload ex_empty of
     (Inr r, w1) \<Rightarrow> vid_status (ig_video r) = READY \<and> vid_thumbnailKey (ig_video r) = Some ''videos/u1/id-thumb.jpg''
   | (Inl e, w1) \<Rightarrow> False"
  by code_simp


end
