(* ===== verification/Json_Config.thy ===== *)
theory Json_Config
  imports Device_Config
begin

text \<open>
  The configuration of an Android account as the JSON value zod returns for it and the repository stores: the
  properties of the schema in its order, one that is \<open>undefined\<close> left out, as \<open>JSON.stringify\<close> does. What a
  schema returned, the schema takes again, and unchanged.
\<close>

definition js_object :: "(string \<times> js) list \<Rightarrow> js" where
  "js_object kvs = JsObj [kv \<leftarrow> kvs. snd kv \<noteq> JsUndefined]"

definition js_opt :: "('a \<Rightarrow> js) \<Rightarrow> 'a option \<Rightarrow> js" where
  "js_opt e x = (case x of None \<Rightarrow> JsUndefined | Some y \<Rightarrow> e y)"

definition js_null :: "('a \<Rightarrow> js) \<Rightarrow> 'a option \<Rightarrow> js" where
  "js_null e x = (case x of None \<Rightarrow> JsNull | Some y \<Rightarrow> e y)"

definition js_strings :: "string list \<Rightarrow> js" where
  "js_strings xs = JsArr (map JsStr xs)"

definition js_entries :: "('a \<Rightarrow> js) \<Rightarrow> (string \<times> 'a) list \<Rightarrow> js" where
  "js_entries e kvs = JsObj (map (\<lambda>(k, v). (k, e v)) kvs)"

lemma js_opt_simps [simp]: "js_opt e None = JsUndefined" "js_opt e (Some y) = e y"
  by (simp_all add: js_opt_def)

lemma js_get_outside [simp]: "k \<notin> fst ` set kvs \<Longrightarrow> js_get (js_object kvs) k = JsUndefined"
  by (induction kvs) (auto simp: js_object_def js_get_def)

lemma js_get_object [simp]:
  "k \<notin> fst ` set kvs \<Longrightarrow> js_get (js_object ((k, v) # kvs)) k = v"
  "k \<noteq> k' \<Longrightarrow> js_get (js_object ((k', v) # kvs)) k = js_get (js_object kvs) k"
  using js_get_outside [of k kvs] by (auto simp: js_object_def js_get_def)

lemma js_object_defined [simp]: "js_object kvs \<noteq> JsUndefined" "js_object kvs \<noteq> JsNull"
  by (simp_all add: js_object_def)

lemma field_object_object [simp]: "field_object p (js_object kvs) = p (js_object kvs)"
  by (simp add: field_object_def js_object_def)

subsection \<open>Steps and flows\<close>

fun step_json :: "ui_step \<Rightarrow> js" where
  "step_json (Tap name using value tm opt) = js_object
     [(''action'', JsStr ''tap''), (''name'', JsStr name), (''using'', JsStr using), (''value'', JsStr value),
      (''timeoutMs'', JsNum tm), (''optional'', JsBool opt)]"
| "step_json (Type name using value tm t c opt) = js_object
     [(''action'', JsStr ''type''), (''name'', JsStr name), (''using'', JsStr using), (''value'', JsStr value),
      (''timeoutMs'', JsNum tm), (''text'', JsStr t), (''clearFirst'', JsBool c), (''optional'', JsBool opt)]"
| "step_json (AssertVisible name using value tm c) = js_object
     [(''action'', JsStr ''assertVisible''), (''name'', JsStr name), (''using'', JsStr using), (''value'', JsStr value),
      (''timeoutMs'', JsNum tm), (''captureText'', JsBool c)]"
| "step_json (AssertGone name using value tm) = js_object
     [(''action'', JsStr ''assertGone''), (''name'', JsStr name), (''using'', JsStr using), (''value'', JsStr value),
      (''timeoutMs'', JsNum tm)]"
| "step_json (Wait name t) = js_object [(''action'', JsStr ''wait''), (''name'', JsStr name), (''ms'', JsNum t)]"

definition flow_json :: "ui_step list \<Rightarrow> js" where
  "flow_json steps = JsArr (map step_json steps)"

subsection \<open>The parts of a configuration\<close>

definition egressCheck_json :: "egress_check_config \<Rightarrow> js" where
  "egressCheck_json c = js_object
     [(''enabled'', JsBool (ec_enabled c)), (''url'', JsStr (ec_url c)), (''timeoutSeconds'', JsNum (ec_timeoutSeconds c)),
      (''probeBinary'', js_opt JsStr (ec_probeBinary c))]"

definition gateway_json :: "gateway_config \<Rightarrow> js" where
  "gateway_json c = js_object
     [(''image'', JsStr (gw_image c)), (''logLevel'', JsStr (gw_logLevel c)), (''env'', js_entries JsStr (gw_env c)),
      (''settleMs'', JsNum (gw_settleMs c)), (''harden'', JsBool (gw_harden c)), (''disableIpv6'', JsBool (gw_disableIpv6 c)),
      (''egressCheck'', egressCheck_json (gw_egressCheck c))]"

definition bridge_json :: "bridge_config \<Rightarrow> js" where
  "bridge_json c = js_object
     [(''image'', JsStr (br_image c)), (''sourceUrlTemplate'', JsStr (br_sourceUrlTemplate c)),
      (''pixelFormat'', JsStr (br_pixelFormat c)), (''width'', JsNum (br_width c)), (''height'', JsNum (br_height c)),
      (''frameRate'', JsNum (br_frameRate c)), (''settleMs'', JsNum (br_settleMs c)), (''extraArgs'', js_strings (br_extraArgs c))]"

definition connectVia_json :: "connect_via \<Rightarrow> js" where
  "connectVia_json c = JsStr (case c of PublishedPort \<Rightarrow> ''published-port'' | ContainerName \<Rightarrow> ''container-name'')"

definition redroid_json :: "redroid_config \<Rightarrow> js" where
  "redroid_json c = js_object
     [(''image'', JsStr (rd_image c)), (''sessionVolume'', js_opt JsStr (rd_sessionVolume c)),
      (''connectVia'', connectVia_json (rd_connectVia c)), (''connectHost'', JsStr (rd_connectHost c)),
      (''network'', js_opt JsStr (rd_network c)), (''controlNetwork'', js_opt JsStr (rd_controlNetwork c)),
      (''proxyGateway'', gateway_json (rd_proxyGateway c)), (''memoryLimit'', JsStr (rd_memoryLimit c)),
      (''width'', JsNum (rd_width c)), (''height'', JsNum (rd_height c)), (''dpi'', JsNum (rd_dpi c)),
      (''gpuMode'', JsStr (rd_gpuMode c)), (''binderfsPath'', js_null JsStr (rd_binderfsPath c)),
      (''useMemfd'', JsBool (rd_useMemfd c)), (''extraArgs'', js_strings (rd_extraArgs c)),
      (''startTimeoutSeconds'', JsNum (rd_startTimeoutSeconds c))]"

definition camera_json :: "camera_config \<Rightarrow> js" where
  "camera_json c = js_object [(''bridge'', bridge_json (cam_bridge c)), (''front'', JsStr (cam_front c)), (''back'', JsStr (cam_back c))]"

definition emulator_json :: "emulator_config \<Rightarrow> js" where
  "emulator_json c = js_object
     [(''image'', JsStr (em_image c)), (''avdName'', JsStr (em_avdName c)), (''sessionVolume'', js_opt JsStr (em_sessionVolume c)),
      (''connectVia'', connectVia_json (em_connectVia c)), (''connectHost'', JsStr (em_connectHost c)),
      (''network'', js_opt JsStr (em_network c)), (''controlNetwork'', js_opt JsStr (em_controlNetwork c)),
      (''cameraNetwork'', js_opt JsStr (em_cameraNetwork c)), (''proxyGateway'', gateway_json (em_proxyGateway c)),
      (''kvmDevice'', JsStr (em_kvmDevice c)), (''adbPublicKeyPath'', js_opt JsStr (em_adbPublicKeyPath c)),
      (''camera'', js_opt camera_json (em_camera c)), (''memoryLimit'', JsStr (em_memoryLimit c)),
      (''width'', JsNum (em_width c)), (''height'', JsNum (em_height c)), (''dpi'', JsNum (em_dpi c)),
      (''extraArgs'', js_strings (em_extraArgs c)), (''startTimeoutSeconds'', JsNum (em_startTimeoutSeconds c))]"

definition credentials_json :: "android_credentials \<Rightarrow> js" where
  "credentials_json c = js_object
     [(''appiumUrl'', JsStr (ac_appiumUrl c)), (''adbCommand'', JsStr (ac_adbCommand c)),
      (''adbHost'', js_opt JsStr (ac_adbHost c)), (''adbPort'', js_opt JsNum (ac_adbPort c)),
      (''deviceSerial'', js_opt JsStr (ac_deviceSerial c)), (''redroid'', js_opt redroid_json (ac_redroid c)),
      (''emulator'', js_opt emulator_json (ac_emulator c)), (''remoteVideoPath'', JsStr (ac_remoteVideoPath c)),
      (''packageName'', JsStr (ac_packageName c)), (''activityName'', js_opt JsStr (ac_activityName c)),
      (''apkPath'', js_opt JsStr (ac_apkPath c)), (''bootTimeoutSeconds'', JsNum (ac_bootTimeoutSeconds c)),
      (''appiumTimeoutSeconds'', JsNum (ac_appiumTimeoutSeconds c)), (''launchSettleMs'', JsNum (ac_launchSettleMs c)),
      (''flow'', flow_json (ac_flow c)), (''flows'', js_opt (js_entries flow_json) (ac_flows c)),
      (''verifyFlow'', js_opt flow_json (ac_verifyFlow c))]"

subsection \<open>A schema takes what it returned\<close>

text \<open>\<open>p\<close> reads back what \<open>e\<close> writes of a value it returned.\<close>

definition stable :: "(js \<Rightarrow> 'a option) \<Rightarrow> ('a \<Rightarrow> js) \<Rightarrow> bool" where
  "stable p e \<longleftrightarrow> (\<forall>v x. p v = Some x \<longrightarrow> p (e x) = Some x)"

lemma stableD: "stable p e \<Longrightarrow> p v = Some x \<Longrightarrow> p (e x) = Some x"
  by (simp add: stable_def)

named_theorems stable_intros "schemas that take what they returned"

lemma stable_basic [stable_intros]:
  "stable field_string JsStr" "stable field_nonempty JsStr" "stable field_bool JsBool" "stable (field_int lo hi) JsNum"
  "stable field_positive JsNum" "stable (field_enum xs) JsStr" "stable (field_url u) JsStr" "stable field_path JsStr"
  "stable field_connectVia connectVia_json"
  by (auto simp: stable_def field_string_def js_string_def field_nonempty_def field_bool_def field_int_def field_positive_def
      field_enum_def field_url_def field_path_def field_connectVia_def connectVia_json_def split: js.splits if_splits)

lemma stable_default [stable_intros]:
  assumes "stable p e" and "p (e d) = Some d" and "\<And>x. e x \<noteq> JsUndefined"
  shows "stable (field_default d p) e"
  using assms by (auto simp: stable_def field_default_def)

lemma stable_optional [stable_intros]:
  assumes "stable p e" and "\<And>x. e x \<noteq> JsUndefined"
  shows "stable (field_optional p) (js_opt e)"
  using assms by (auto simp: stable_def field_optional_def js_opt_def split: option.splits)

lemma stable_nullable [stable_intros]:
  assumes "stable p e" and "\<And>x. e x \<noteq> JsNull"
  shows "stable (field_nullable p) (js_null e)"
  using assms by (auto simp: stable_def field_nullable_def js_null_def split: option.splits)

lemma stable_prefault [stable_intros]:
  assumes "stable p e" and "\<And>x. e x \<noteq> JsUndefined"
  shows "stable (field_prefault p) e"
  using assms by (auto simp: stable_def field_prefault_def)

lemma those_map_stable: "stable p e \<Longrightarrow> those (map p vs) = Some xs \<Longrightarrow> those (map p (map e xs)) = Some xs"
  by (induction vs arbitrary: xs) (auto dest: stableD split: option.splits)

lemma stable_strings [stable_intros]: "stable (field_array field_string) js_strings"
  using those_map_stable [OF stable_basic(1)]
  by (auto simp: stable_def field_array_def js_strings_def split: js.splits)

lemma stable_record [stable_intros]:
  assumes "stable p e"
  shows "stable (field_record key p) (js_entries e)"
proof -
  let ?p = "\<lambda>kv. if key (fst kv) then map_option (Pair (fst kv)) (p (snd kv)) else None"
  let ?e = "\<lambda>(k, v). (k, e v)"
  have entry: "?p kv = Some x \<Longrightarrow> ?p (?e x) = Some x" for kv x
    using stableD [OF assms] by (auto split: if_splits)
  have "those (map ?p kvs) = Some xs \<Longrightarrow> those (map ?p (map ?e xs)) = Some xs" for kvs xs
  proof (induction kvs arbitrary: xs)
    case (Cons kv kvs)
    then obtain x ys where "xs = x # ys" "?p kv = Some x" "those (map ?p kvs) = Some ys"
      by (auto split: option.splits)
    with Cons.IH [OF this(3)] entry [OF this(2)] show ?case by simp
  qed simp
  then show ?thesis by (auto simp: stable_def field_record_def js_entries_def split: js.splits)
qed

lemma stable_step: "stable uiStepSchema step_json"
  unfolding stable_def
proof (intro allI impI)
  fix v s assume "uiStepSchema v = Some s"
  then have "step_ok s" by (rule uiStepSchema_ok)
  then show "uiStepSchema (step_json s) = Some s"
    by (cases s) (auto simp: uiStepSchema_def parse_base_def step_ok_def field_nonempty_def field_enum_def field_default_def
        field_int_def field_bool_def field_string_def js_string_def)
qed

lemma stable_flow [stable_intros]: "stable uiFlowSchema flow_json"
  unfolding stable_def
proof (intro allI impI)
  fix v steps assume parsed: "uiFlowSchema v = Some steps"
  then obtain vs where "those (map uiStepSchema vs) = Some steps"
    by (auto simp: uiFlowSchema_def split: js.splits Option.bind_splits if_splits)
  from those_map_stable [OF stable_step this]
  have "those (map uiStepSchema (map step_json steps)) = Some steps" .
  with uiFlowSchema_Some [OF parsed] show "uiFlowSchema (flow_json steps) = Some steps"
    by (simp add: uiFlowSchema_def flow_json_def)
qed

lemma json_defined [simp]:
  "flow_json f \<noteq> JsUndefined" "egressCheck_json a \<noteq> JsUndefined" "gateway_json b \<noteq> JsUndefined" "bridge_json c \<noteq> JsUndefined"
  "connectVia_json d \<noteq> JsUndefined" "redroid_json r \<noteq> JsUndefined" "camera_json m \<noteq> JsUndefined" "emulator_json n \<noteq> JsUndefined"
  "js_strings xs \<noteq> JsUndefined" "js_entries e kvs \<noteq> JsUndefined" "credentials_json k \<noteq> JsUndefined" "credentials_json k \<noteq> JsNull"
  by (simp_all add: flow_json_def egressCheck_json_def gateway_json_def bridge_json_def connectVia_json_def redroid_json_def
      camera_json_def emulator_json_def js_strings_def js_entries_def credentials_json_def)

lemma js_null_defined [simp]: "(\<And>x. e x \<noteq> JsUndefined) \<Longrightarrow> js_null e x \<noteq> JsUndefined"
  by (simp add: js_null_def split: option.splits)

lemmas schema_binds = Option.bind_eq_Some_conv

text \<open>What a field's rule says of the value it returned.\<close>

lemma field_says:
  "field_nonempty v = Some s \<Longrightarrow> s \<noteq> []"
  "field_default d field_nonempty v = Some s \<Longrightarrow> d = [] \<or> s \<noteq> []"
  "field_optional field_nonempty v = Some x \<Longrightarrow> x \<noteq> Some []"
  "field_default b (field_nullable field_nonempty) v = Some x \<Longrightarrow> b = Some [] \<or> x \<noteq> Some []"
  "field_default m (field_int lo hi) v = Some n \<Longrightarrow> \<not> (lo \<le> m \<and> m \<le> hi) \<or> lo \<le> n \<and> n \<le> hi"
  "field_default m field_positive v = Some n \<Longrightarrow> \<not> (1 \<le> m \<and> m \<le> MAX_SAFE_INTEGER) \<or> 1 \<le> n \<and> n \<le> MAX_SAFE_INTEGER"
  "field_optional field_positive v = Some y \<Longrightarrow> \<forall>n. y = Some n \<longrightarrow> 1 \<le> n \<and> n \<le> MAX_SAFE_INTEGER"
  "field_default d (field_enum xs) v = Some s \<Longrightarrow> d \<notin> set xs \<or> s \<in> set xs"
  "field_default d (field_url u) v = Some s \<Longrightarrow> \<not> u d \<or> u s"
  "field_url u v = Some s \<Longrightarrow> u s"
  "field_default d field_path v = Some s \<Longrightarrow> \<not> js_starts_with d ''/'' \<or> js_starts_with s ''/''"
  by (auto simp: field_default_def field_nonempty_def field_optional_def field_nullable_def field_int_def field_positive_def
      field_enum_def field_url_def field_path_def split: js.splits if_splits)

lemma field_kept:
  "field_default d (field_array field_string) v = Some xs \<Longrightarrow> field_array field_string (js_strings xs) = Some xs \<or> xs = d"
  "field_default d' (field_record key q) v = Some kvs \<Longrightarrow> stable q e' \<Longrightarrow> field_record key q (js_entries e' kvs) = Some kvs \<or> kvs = d'"
  "field_prefault p v = Some x \<Longrightarrow> stable p e \<Longrightarrow> p (e x) = Some x"
  "field_optional p v = Some y \<Longrightarrow> stable p e \<Longrightarrow> \<forall>x. y = Some x \<longrightarrow> p (e x) = Some x"
  using stableD [OF stable_strings] stableD [OF stable_record]
  by (auto simp: field_default_def field_prefault_def field_optional_def stable_def split: if_splits)

lemma field_reads:
  "v \<noteq> JsUndefined \<Longrightarrow> field_default d p v = p v" "v \<noteq> JsUndefined \<Longrightarrow> field_prefault p v = p v"
  "field_optional p JsUndefined = Some None"
  "field_optional p (js_opt e x) = (case x of None \<Rightarrow> Some None | Some y \<Rightarrow> field_optional p (e y))"
  "v \<noteq> JsUndefined \<Longrightarrow> field_optional p v = map_option Some (p v)"
  "field_nullable p (js_null e x) = (case x of None \<Rightarrow> Some None | Some y \<Rightarrow> field_nullable p (e y))"
  "v \<noteq> JsNull \<Longrightarrow> field_nullable p v = map_option Some (p v)"
  "field_string (JsStr s) = Some s" "field_bool (JsBool b) = Some b" "field_nonempty (JsStr s) = (if s = [] then None else Some s)"
  "field_int lo hi (JsNum n) = (if lo \<le> n \<and> n \<le> hi then Some n else None)"
  "field_positive (JsNum n) = (if 1 \<le> n \<and> n \<le> MAX_SAFE_INTEGER then Some n else None)"
  "field_enum xs (JsStr s) = (if s \<in> set xs then Some s else None)" "field_url u (JsStr s) = (if u s then Some s else None)"
  "field_path (JsStr s) = (if js_starts_with s ''/'' then Some s else None)" "field_connectVia (connectVia_json c) = Some c"
  "field_array field_string (js_strings []) = Some []" "field_record key p (js_entries e []) = Some []"
  by (auto simp: field_default_def field_prefault_def field_optional_def js_opt_def field_nullable_def js_null_def field_string_def
      js_string_def field_bool_def field_nonempty_def field_int_def field_positive_def field_enum_def field_url_def field_path_def
      field_connectVia_def connectVia_json_def field_array_def js_strings_def field_record_def js_entries_def split: option.splits connect_via.splits)

lemma field_object_Some: "field_object p v = Some x \<Longrightarrow> p v = Some x"
  by (simp add: field_object_def split: js.splits)

text \<open>Zod takes the default it fills in.\<close>

definition url_laws :: "(string \<Rightarrow> bool) \<Rightarrow> bool" where
  "url_laws is_url \<longleftrightarrow> is_url ''http://api.ipify.org''"

lemma stable_egressCheck:
  assumes "url_laws u"
  shows "stable (egressCheckSchema u) egressCheck_json"
  using assms unfolding stable_def egressCheckSchema_def egressCheck_json_def url_laws_def
  by (auto simp: schema_binds field_reads split: option.splits dest!: field_object_Some field_says)

lemma strings_kept:
  "field_default [] (field_array field_string) v = Some xs \<Longrightarrow> field_array field_string (js_strings xs) = Some xs"
  "field_default [] (field_record key field_string) v = Some kvs \<Longrightarrow> field_record key field_string (js_entries JsStr kvs) = Some kvs"
  using field_kept(1) [of "[]" v xs] field_kept(2) [of "[]" key field_string v kvs JsStr] stable_basic(1)
  by (auto simp: field_reads)

lemma stable_gateway:
  assumes "url_laws u"
  shows "stable (proxyGatewayConfigSchema u) gateway_json"
  unfolding stable_def proxyGatewayConfigSchema_def gateway_json_def
  using field_kept(3) [OF _ stable_egressCheck [OF assms]]
  by (auto simp: schema_binds field_reads split: option.splits dest!: field_object_Some field_says strings_kept)

text \<open>The same of a single field, from what it returned.\<close>

lemmas kept_basic = stable_basic [THEN stableD]

lemma kept_default:
  "field_default s field_nonempty v = Some x \<Longrightarrow> s \<noteq> [] \<Longrightarrow> field_default s field_nonempty (JsStr x) = Some x"
  "field_default b field_bool v = Some y \<Longrightarrow> field_default b field_bool (JsBool y) = Some y"
  "field_default m field_positive v = Some n \<Longrightarrow> 1 \<le> m \<and> m \<le> MAX_SAFE_INTEGER \<Longrightarrow> field_default m field_positive (JsNum n) = Some n"
  "field_default m (field_int lo hi) v = Some n \<Longrightarrow> lo \<le> m \<and> m \<le> hi \<Longrightarrow> field_default m (field_int lo hi) (JsNum n) = Some n"
  "field_default s (field_enum xs) v = Some x \<Longrightarrow> s \<in> set xs \<Longrightarrow> field_default s (field_enum xs) (JsStr x) = Some x"
  "field_default [] (field_array field_string) v = Some ss \<Longrightarrow> field_default [] (field_array field_string) (js_strings ss) = Some ss"
  "field_default via field_connectVia v = Some w \<Longrightarrow> field_default via field_connectVia (connectVia_json w) = Some w"
  "field_default o1 (field_nullable field_nonempty) v = Some o2 \<Longrightarrow> o1 \<noteq> Some [] \<Longrightarrow>
     field_default o1 (field_nullable field_nonempty) (js_null JsStr o2) = Some o2"
  "field_default s field_path v = Some x \<Longrightarrow> js_starts_with s ''/'' \<Longrightarrow> field_default s field_path (JsStr x) = Some x"
  by (auto simp: field_reads strings_kept split: option.splits dest!: field_says)

lemma kept_optional:
  "field_optional field_nonempty v = Some x \<Longrightarrow> field_optional field_nonempty (js_opt JsStr x) = Some x"
  "field_optional field_positive v = Some y \<Longrightarrow> field_optional field_positive (js_opt JsNum y) = Some y"
  by (auto simp: field_reads split: option.splits dest!: field_says)

lemma stable_bridge:
  shows "stable cameraBridgeConfigSchema bridge_json"
  unfolding stable_def
proof (intro allI impI)
  fix v c assume "cameraBridgeConfigSchema v = Some c"
  then obtain image source pixelFormat width height frameRate settleMs extraArgs where f:
    "field_default ''jrottenberg/ffmpeg:7.1-alpine'' field_nonempty (js_get v ''image'') = Some image"
    "field_default ''rtsp://mediamtx:8554/{stream}'' field_nonempty (js_get v ''sourceUrlTemplate'') = Some source"
    "field_default ''yuyv422'' field_nonempty (js_get v ''pixelFormat'') = Some pixelFormat"
    "field_default 1280 field_positive (js_get v ''width'') = Some width"
    "field_default 720 field_positive (js_get v ''height'') = Some height"
    "field_default 30 (field_int 1 60) (js_get v ''frameRate'') = Some frameRate"
    "field_default 2000 (field_int 0 60000) (js_get v ''settleMs'') = Some settleMs"
    "field_default [] (field_array field_string) (js_get v ''extraArgs'') = Some extraArgs"
    and c: "c = \<lparr>br_image = image, br_sourceUrlTemplate = source, br_pixelFormat = pixelFormat, br_width = width, br_height = height, br_frameRate = frameRate, br_settleMs = settleMs, br_extraArgs = extraArgs\<rparr>"
    by (auto simp: cameraBridgeConfigSchema_def schema_binds dest!: field_object_Some)
  note kept =
    f(1) [THEN kept_default(1)] f(2) [THEN kept_default(1)] f(3) [THEN kept_default(1)] f(4) [THEN kept_default(3)]
    f(5) [THEN kept_default(3)] f(6) [THEN kept_default(4)] f(7) [THEN kept_default(4)] f(8) [THEN kept_default(6)]
  show "cameraBridgeConfigSchema (bridge_json c) = Some c"
    unfolding c bridge_json_def by (simp add: cameraBridgeConfigSchema_def kept MAX_SAFE_INTEGER_def)
qed

lemma stable_camera:
  shows "stable emulatorCameraSchema camera_json"
  unfolding stable_def
proof (intro allI impI)
  fix v c assume "emulatorCameraSchema v = Some c"
  then obtain bridge front rear where f:
    "field_prefault cameraBridgeConfigSchema (js_get v ''bridge'') = Some bridge"
    "field_default ''webcam0'' field_nonempty (js_get v ''front'') = Some front"
    "field_default ''none'' field_nonempty (js_get v ''back'') = Some rear"
    and c: "c = \<lparr>cam_bridge = bridge, cam_front = front, cam_back = rear\<rparr>"
    by (auto simp: emulatorCameraSchema_def schema_binds dest!: field_object_Some)
  note kept =
    f(1) [THEN stableD [OF stable_prefault [OF stable_bridge json_defined(4)]]] f(2) [THEN kept_default(1)]
    f(3) [THEN kept_default(1)]
  show "emulatorCameraSchema (camera_json c) = Some c"
    unfolding c camera_json_def by (simp add: emulatorCameraSchema_def kept MAX_SAFE_INTEGER_def)
qed

lemma stable_redroid:
  assumes "url_laws u"
  shows "stable (redroidConfigSchema u) redroid_json"
  unfolding stable_def
proof (intro allI impI)
  fix v c assume "redroidConfigSchema u v = Some c"
  then obtain image sessionVolume connectVia connectHost network controlNetwork proxyGateway memoryLimit width height dpi gpuMode binderfsPath useMemfd extraArgs startTimeoutSeconds where f:
    "field_nonempty (js_get v ''image'') = Some image"
    "field_optional field_nonempty (js_get v ''sessionVolume'') = Some sessionVolume"
    "field_default PublishedPort field_connectVia (js_get v ''connectVia'') = Some connectVia"
    "field_default ''127.0.0.1'' field_nonempty (js_get v ''connectHost'') = Some connectHost"
    "field_optional field_nonempty (js_get v ''network'') = Some network"
    "field_optional field_nonempty (js_get v ''controlNetwork'') = Some controlNetwork"
    "field_prefault (proxyGatewayConfigSchema u) (js_get v ''proxyGateway'') = Some proxyGateway"
    "field_default ''4g'' field_nonempty (js_get v ''memoryLimit'') = Some memoryLimit"
    "field_default 1080 field_positive (js_get v ''width'') = Some width"
    "field_default 1920 field_positive (js_get v ''height'') = Some height"
    "field_default 480 field_positive (js_get v ''dpi'') = Some dpi"
    "field_default ''guest'' (field_enum [''guest'', ''host'', ''auto'']) (js_get v ''gpuMode'') = Some gpuMode"
    "field_default (Some ''/dev/binderfs'') (field_nullable field_nonempty)  (js_get v ''binderfsPath'') = Some binderfsPath"
    "field_default True field_bool (js_get v ''useMemfd'') = Some useMemfd"
    "field_default [] (field_array field_string) (js_get v ''extraArgs'') = Some extraArgs"
    "field_default 120 (field_int 1 900) (js_get v ''startTimeoutSeconds'') = Some startTimeoutSeconds"
    and c: "c = \<lparr>rd_image = image, rd_sessionVolume = sessionVolume, rd_connectVia = connectVia, rd_connectHost = connectHost, rd_network = network, rd_controlNetwork = controlNetwork, rd_proxyGateway = proxyGateway, rd_memoryLimit = memoryLimit, rd_width = width, rd_height = height, rd_dpi = dpi, rd_gpuMode = gpuMode, rd_binderfsPath = binderfsPath, rd_useMemfd = useMemfd, rd_extraArgs = extraArgs, rd_startTimeoutSeconds = startTimeoutSeconds\<rparr>"
    by (auto simp: redroidConfigSchema_def schema_binds dest!: field_object_Some)
  note kept =
    f(1) [THEN kept_basic(2)] f(2) [THEN kept_optional(1)] f(3) [THEN kept_default(7)] f(4) [THEN kept_default(1)]
    f(5) [THEN kept_optional(1)] f(6) [THEN kept_optional(1)]
    f(7) [THEN stableD [OF stable_prefault [OF stable_gateway [OF assms] json_defined(3)]]]
    f(8) [THEN kept_default(1)] f(9) [THEN kept_default(3)] f(10) [THEN kept_default(3)] f(11) [THEN kept_default(3)]
    f(12) [THEN kept_default(5)] f(13) [THEN kept_default(8)] f(14) [THEN kept_default(2)]
    f(15) [THEN kept_default(6)] f(16) [THEN kept_default(4)]
  show "redroidConfigSchema u (redroid_json c) = Some c"
    unfolding c redroid_json_def by (simp add: redroidConfigSchema_def kept MAX_SAFE_INTEGER_def)
qed

lemma stable_emulator:
  assumes "url_laws u"
  shows "stable (emulatorConfigSchema u) emulator_json"
  unfolding stable_def
proof (intro allI impI)
  fix v c assume "emulatorConfigSchema u v = Some c"
  then obtain image avdName sessionVolume connectVia connectHost network controlNetwork cameraNetwork proxyGateway kvmDevice adbPublicKeyPath camera memoryLimit width height dpi extraArgs startTimeoutSeconds where f:
    "field_nonempty (js_get v ''image'') = Some image"
    "field_default ''onboarding'' field_nonempty (js_get v ''avdName'') = Some avdName"
    "field_optional field_nonempty (js_get v ''sessionVolume'') = Some sessionVolume"
    "field_default PublishedPort field_connectVia (js_get v ''connectVia'') = Some connectVia"
    "field_default ''127.0.0.1'' field_nonempty (js_get v ''connectHost'') = Some connectHost"
    "field_optional field_nonempty (js_get v ''network'') = Some network"
    "field_optional field_nonempty (js_get v ''controlNetwork'') = Some controlNetwork"
    "field_optional field_nonempty (js_get v ''cameraNetwork'') = Some cameraNetwork"
    "field_prefault (proxyGatewayConfigSchema u) (js_get v ''proxyGateway'') = Some proxyGateway"
    "field_default ''/dev/kvm'' field_nonempty (js_get v ''kvmDevice'') = Some kvmDevice"
    "field_optional field_nonempty (js_get v ''adbPublicKeyPath'') = Some adbPublicKeyPath"
    "field_optional emulatorCameraSchema (js_get v ''camera'') = Some camera"
    "field_default ''6g'' field_nonempty (js_get v ''memoryLimit'') = Some memoryLimit"
    "field_default 1080 field_positive (js_get v ''width'') = Some width"
    "field_default 1920 field_positive (js_get v ''height'') = Some height"
    "field_default 420 field_positive (js_get v ''dpi'') = Some dpi"
    "field_default [] (field_array field_string) (js_get v ''extraArgs'') = Some extraArgs"
    "field_default 300 (field_int 1 1800) (js_get v ''startTimeoutSeconds'') = Some startTimeoutSeconds"
    and c: "c = \<lparr>em_image = image, em_avdName = avdName, em_sessionVolume = sessionVolume, em_connectVia = connectVia, em_connectHost = connectHost, em_network = network, em_controlNetwork = controlNetwork, em_cameraNetwork = cameraNetwork, em_proxyGateway = proxyGateway, em_kvmDevice = kvmDevice, em_adbPublicKeyPath = adbPublicKeyPath, em_camera = camera, em_memoryLimit = memoryLimit, em_width = width, em_height = height, em_dpi = dpi, em_extraArgs = extraArgs, em_startTimeoutSeconds = startTimeoutSeconds\<rparr>"
    by (auto simp: emulatorConfigSchema_def schema_binds dest!: field_object_Some)
  note kept =
    f(1) [THEN kept_basic(2)] f(2) [THEN kept_default(1)] f(3) [THEN kept_optional(1)] f(4) [THEN kept_default(7)]
    f(5) [THEN kept_default(1)] f(6) [THEN kept_optional(1)] f(7) [THEN kept_optional(1)] f(8) [THEN kept_optional(1)]
    f(9) [THEN stableD [OF stable_prefault [OF stable_gateway [OF assms] json_defined(3)]]]
    f(10) [THEN kept_default(1)] f(11) [THEN kept_optional(1)]
    f(12) [THEN stableD [OF stable_optional [OF stable_camera json_defined(7)]]] f(13) [THEN kept_default(1)]
    f(14) [THEN kept_default(3)] f(15) [THEN kept_default(3)] f(16) [THEN kept_default(3)]
    f(17) [THEN kept_default(6)] f(18) [THEN kept_default(4)]
  show "emulatorConfigSchema u (emulator_json c) = Some c"
    unfolding c emulator_json_def by (simp add: emulatorConfigSchema_def kept MAX_SAFE_INTEGER_def)
qed

lemma stable_credentials:
  assumes "url_laws u"
  shows "stable (androidCredentialsSchema u) credentials_json"
  unfolding stable_def
proof (intro allI impI)
  fix v c assume "androidCredentialsSchema u v = Some c"
  then obtain appiumUrl adbCommand adbHost adbPort deviceSerial redroid emulator remoteVideoPath packageName activityName apkPath bootTimeoutSeconds appiumTimeoutSeconds launchSettleMs flow flows verifyFlow where f:
    "field_url u (js_get v ''appiumUrl'') = Some appiumUrl"
    "field_default ''adb'' field_nonempty (js_get v ''adbCommand'') = Some adbCommand"
    "field_optional field_nonempty (js_get v ''adbHost'') = Some adbHost"
    "field_optional field_positive (js_get v ''adbPort'') = Some adbPort"
    "field_optional field_nonempty (js_get v ''deviceSerial'') = Some deviceSerial"
    "field_optional (redroidConfigSchema u) (js_get v ''redroid'') = Some redroid"
    "field_optional (emulatorConfigSchema u) (js_get v ''emulator'') = Some emulator"
    "field_default ''/sdcard/DCIM/upload.mp4'' field_path (js_get v ''remoteVideoPath'') = Some remoteVideoPath"
    "field_nonempty (js_get v ''packageName'') = Some packageName"
    "field_optional field_nonempty (js_get v ''activityName'') = Some activityName"
    "field_optional field_nonempty (js_get v ''apkPath'') = Some apkPath"
    "field_default 180 (field_int 1 900) (js_get v ''bootTimeoutSeconds'') = Some bootTimeoutSeconds"
    "field_default 120 (field_int 1 900) (js_get v ''appiumTimeoutSeconds'') = Some appiumTimeoutSeconds"
    "field_default 3000 (field_int 0 60000) (js_get v ''launchSettleMs'') = Some launchSettleMs"
    "uiFlowSchema (js_get v ''flow'') = Some flow"
    "field_optional (field_record (\<lambda>k. k \<noteq> []) uiFlowSchema) (js_get v ''flows'') = Some flows"
    "field_optional uiFlowSchema (js_get v ''verifyFlow'') = Some verifyFlow"
    and c: "c = \<lparr>ac_appiumUrl = appiumUrl, ac_adbCommand = adbCommand, ac_adbHost = adbHost, ac_adbPort = adbPort, ac_deviceSerial = deviceSerial, ac_redroid = redroid, ac_emulator = emulator, ac_remoteVideoPath = remoteVideoPath, ac_packageName = packageName, ac_activityName = activityName, ac_apkPath = apkPath, ac_bootTimeoutSeconds = bootTimeoutSeconds, ac_appiumTimeoutSeconds = appiumTimeoutSeconds, ac_launchSettleMs = launchSettleMs, ac_flow = flow, ac_flows = flows, ac_verifyFlow = verifyFlow\<rparr>"
    and one: "\<not> (redroid \<noteq> None \<and> emulator \<noteq> None)"
    by (auto simp: androidCredentialsSchema_def schema_binds dest!: field_object_Some split: if_splits)
  note kept =
    f(1) [THEN kept_basic(7)] f(2) [THEN kept_default(1)] f(3) [THEN kept_optional(1)] f(4) [THEN kept_optional(2)]
    f(5) [THEN kept_optional(1)]
    f(6) [THEN stableD [OF stable_optional [OF stable_redroid [OF assms] json_defined(6)]]]
    f(7) [THEN stableD [OF stable_optional [OF stable_emulator [OF assms] json_defined(8)]]]
    f(8) [THEN kept_default(9)] f(9) [THEN kept_basic(2)] f(10) [THEN kept_optional(1)] f(11) [THEN kept_optional(1)]
    f(12) [THEN kept_default(4)] f(13) [THEN kept_default(4)] f(14) [THEN kept_default(4)]
    f(15) [THEN stableD [OF stable_flow]]
    f(16) [THEN stableD [OF stable_optional [OF stable_record [OF stable_flow] json_defined(10)]]]
    f(17) [THEN stableD [OF stable_optional [OF stable_flow json_defined(1)]]]
  show "androidCredentialsSchema u (credentials_json c) = Some c"
    using one unfolding c credentials_json_def by (simp add: androidCredentialsSchema_def kept MAX_SAFE_INTEGER_def js_starts_with_def)
qed

text \<open>The same, field by field: what a configuration must satisfy for its JSON to be read back.\<close>

lemma credentials_json_fields:
  "androidCredentialsSchema u (credentials_json c) = Some c \<longleftrightarrow>
     field_url u (JsStr (ac_appiumUrl c)) = Some (ac_appiumUrl c)
   \<and> field_default ''adb'' field_nonempty (JsStr (ac_adbCommand c)) = Some (ac_adbCommand c)
   \<and> field_optional field_nonempty (js_opt JsStr (ac_adbHost c)) = Some (ac_adbHost c)
   \<and> field_optional field_positive (js_opt JsNum (ac_adbPort c)) = Some (ac_adbPort c)
   \<and> field_optional field_nonempty (js_opt JsStr (ac_deviceSerial c)) = Some (ac_deviceSerial c)
   \<and> field_optional (redroidConfigSchema u) (js_opt redroid_json (ac_redroid c)) = Some (ac_redroid c)
   \<and> field_optional (emulatorConfigSchema u) (js_opt emulator_json (ac_emulator c)) = Some (ac_emulator c)
   \<and> field_default ''/sdcard/DCIM/upload.mp4'' field_path (JsStr (ac_remoteVideoPath c)) = Some (ac_remoteVideoPath c)
   \<and> field_nonempty (JsStr (ac_packageName c)) = Some (ac_packageName c)
   \<and> field_optional field_nonempty (js_opt JsStr (ac_activityName c)) = Some (ac_activityName c)
   \<and> field_optional field_nonempty (js_opt JsStr (ac_apkPath c)) = Some (ac_apkPath c)
   \<and> field_default 180 (field_int 1 900) (JsNum (ac_bootTimeoutSeconds c)) = Some (ac_bootTimeoutSeconds c)
   \<and> field_default 120 (field_int 1 900) (JsNum (ac_appiumTimeoutSeconds c)) = Some (ac_appiumTimeoutSeconds c)
   \<and> field_default 3000 (field_int 0 60000) (JsNum (ac_launchSettleMs c)) = Some (ac_launchSettleMs c)
   \<and> uiFlowSchema (flow_json (ac_flow c)) = Some (ac_flow c)
   \<and> field_optional (field_record (\<lambda>k. k \<noteq> []) uiFlowSchema) (js_opt (js_entries flow_json) (ac_flows c)) = Some (ac_flows c)
   \<and> field_optional uiFlowSchema (js_opt flow_json (ac_verifyFlow c)) = Some (ac_verifyFlow c)
   \<and> (ac_redroid c = None \<or> ac_emulator c = None)"
proof (cases c)
  case (fields a1 a2 a3 a4 a5 a6 a7 a8 a9 a10 a11 a12 a13 a14 a15 a16 a17)
  show ?thesis
    unfolding fields credentials_json_def androidCredentialsSchema_def
    by (simp add: schema_binds) (auto split: if_splits)
qed

end
