(* ===== verification/Accounts.thy ===== *)
theory Accounts
  imports Json_Config Android_Publisher Secret_Box
begin

text \<open>
  \<open>lib/accounts/service.ts\<close>, \<open>flows.ts\<close> and \<open>flowsSchema.ts\<close>: saving the configuration of an Android account,
  sealed, handing it back without its secrets, and reading and replacing its flows. The texts zod gives its
  issues are arguments, the database is the \<open>world\<close>.
\<close>

record account_env =
  ae_crypto :: crypto
  ae_is_url :: "string \<Rightarrow> bool"
  ae_issues :: "js \<Rightarrow> (string list \<times> string) list"       \<comment> \<open>path and message, of \<open>androidCredentialsSchema\<close>\<close>
  ae_flow_issues :: "js \<Rightarrow> (string list \<times> string) list"  \<comment> \<open>of \<open>accountFlowsSchema\<close>\<close>

datatype account_error =
    AccountValidationError string
  | FlowValidationError string
  | SecretFailed secret_error   \<comment> \<open>what \<open>seal\<close> or \<open>open\<close> throws\<close>

definition issue_text :: "string list \<times> string \<Rightarrow> string" where
  "issue_text issue =
     (let p = js_join ''.'' (fst issue) in (if p = [] then ''(root)'' else p) @ '': '' @ snd issue)"

subsection \<open>Secrets\<close>

definition SENSITIVE :: "string \<Rightarrow> bool" where
  "SENSITIVE key = list_ex (js_includes (js_lower key)) [''token'', ''password'', ''secret'', ''key'']"

text \<open>A date has no properties of its own.\<close>

fun stripSensitive :: "js \<Rightarrow> js" where
  "stripSensitive (JsArr xs) = JsArr (map stripSensitive xs)"
| "stripSensitive (JsObj kvs) =
     JsObj (map (\<lambda>(key, item). (key, if SENSITIVE key then JsUndefined else stripSensitive item)) kvs)"
| "stripSensitive (JsDate t) = JsObj []"
| "stripSensitive v = v"

subsection \<open>Saving a configuration\<close>

definition androidSchema :: "account_env \<Rightarrow> js \<Rightarrow> android_credentials option" where
  "androidSchema A = androidCredentialsSchema (ae_is_url A)"

definition validateAndroidConfig :: "account_env \<Rightarrow> js \<Rightarrow> (account_error, android_credentials) result" where
  "validateAndroidConfig A raw =
     (case androidSchema A raw of
        None \<Rightarrow> Inl (AccountValidationError (js_join [CHR 0x0A] (map issue_text (ae_issues A raw))))
      | Some data \<Rightarrow> Inr data)"

definition seal_config :: "account_env \<Rightarrow> bytes \<Rightarrow> android_credentials \<Rightarrow> (account_error, bytes) result" where
  "seal_config A iv data =
     (case primaryKey (ae_crypto A) of
        Inl e \<Rightarrow> Inl (SecretFailed e)
      | Inr k \<Rightarrow> Inr (seal (ae_crypto A) iv k (credentials_json data)))"

definition new_account :: "string \<Rightarrow> ms \<Rightarrow> string \<Rightarrow> string \<Rightarrow> bytes \<Rightarrow> account" where
  "new_account newId now userId name credentials =
     \<lparr>acc_id = newId, acc_userId = userId, acc_name = name, acc_platform = SPORT_REELS, acc_status = ACTIVE,
      acc_externalId = None, acc_credentials = Some credentials, acc_tokenExpiresAt = None, acc_sessionState = NONE,
      acc_sessionVerifiedAt = None, acc_maxConcurrent = 1, acc_minIntervalSeconds = 60, acc_proxyId = None,
      acc_createdAt = now\<rparr>"

text \<open>\<open>newId\<close> and \<open>now\<close> are what the database fills in, \<open>iv\<close> the random bytes of the envelope.\<close>

definition createAndroidAccount ::
  "account_env \<Rightarrow> bytes \<Rightarrow> string \<Rightarrow> ms \<Rightarrow> string \<Rightarrow> string \<Rightarrow> js \<Rightarrow> 'q world
    \<Rightarrow> (account_error, account) result \<times> 'q world" where
  "createAndroidAccount A iv newId now userId rawName config w =
     (let name = js_trim rawName
      in if name = [] then (Inl (AccountValidationError ''name: must not be empty''), w)
         else case andThen (validateAndroidConfig A config) (seal_config A iv) of
                Inl e \<Rightarrow> (Inl e, w)
              | Inr credentials \<Rightarrow>
                  (let row = new_account newId now userId name credentials
                   in (Inr row, w\<lparr>w_accounts := w_accounts w @ [row]\<rparr>)))"

text \<open>\<open>findFirst\<close> with the id and the owner.\<close>

definition own_account :: "string \<Rightarrow> string \<Rightarrow> 'q world \<Rightarrow> account option" where
  "own_account userId accountId w =
     (case find_account accountId w of Some a \<Rightarrow> if acc_userId a = userId then Some a else None | None \<Rightarrow> None)"

definition open_config :: "account_env \<Rightarrow> bytes \<Rightarrow> (account_error, js) result" where
  "open_config A envelope =
     (case openSecret (ae_crypto A) envelope of Inl e \<Rightarrow> Inl (SecretFailed e) | Inr v \<Rightarrow> Inr v)"

definition accountConfigForCloning ::
  "account_env \<Rightarrow> string \<Rightarrow> string \<Rightarrow> 'q world \<Rightarrow> (account_error, js option) result" where
  "accountConfigForCloning A userId accountId w =
     (case Option.bind (own_account userId accountId w) acc_credentials of
        None \<Rightarrow> Inr None
      | Some envelope \<Rightarrow>
          andThen (open_config A envelope) (\<lambda>config.
            if androidSchema A config = None then Inr None else Inr (Some (stripSensitive config))))"

definition accountLendsCamera ::
  "account_env \<Rightarrow> string \<Rightarrow> string \<Rightarrow> 'q world \<Rightarrow> (account_error, bool) result" where
  "accountLendsCamera A userId accountId w =
     (case Option.bind (own_account userId accountId w) acc_credentials of
        None \<Rightarrow> Inr False
      | Some envelope \<Rightarrow>
          andThen (open_config A envelope) (\<lambda>config.
            Inr (case androidSchema A config of
                   None \<Rightarrow> False
                 | Some data \<Rightarrow> Option.bind (ac_emulator data) em_camera \<noteq> None)))"

subsection \<open>The flows of an account\<close>

record account_flows =
  af_flow :: "ui_step list"
  af_flows :: "(string \<times> ui_step list) list option"
  af_verifyFlow :: "ui_step list option"

definition accountFlowsSchema :: "js \<Rightarrow> account_flows option" where
  "accountFlowsSchema = field_object (\<lambda>v. do {
     flow \<leftarrow> uiFlowSchema (js_get v ''flow'');
     flows \<leftarrow> field_optional (field_record (\<lambda>k. k \<noteq> []) uiFlowSchema) (js_get v ''flows'');
     verifyFlow \<leftarrow> field_optional uiFlowSchema (js_get v ''verifyFlow'');
     Some \<lparr>af_flow = flow, af_flows = flows, af_verifyFlow = verifyFlow\<rparr>
   })"

definition issues :: "(string list \<times> string) list \<Rightarrow> string" where
  "issues is = js_join ''; '' (map issue_text is)"

definition androidCredentials :: "account_env \<Rightarrow> account \<Rightarrow> (account_error, android_credentials) result" where
  "androidCredentials A account =
     (case acc_credentials account of
        None \<Rightarrow> Inl (FlowValidationError
          (acc_name account @ '' has no credentials yet, so there is nothing to attach flows to.''))
      | Some envelope \<Rightarrow>
          andThen (open_config A envelope) (\<lambda>config.
            case androidSchema A config of
              None \<Rightarrow> Inl (FlowValidationError
                (acc_name account @ '' is not an Android account, or its configuration is invalid - ''
                  @ issues (ae_issues A config)))
            | Some data \<Rightarrow> Inr data))"

definition ownedAccount :: "string \<Rightarrow> string \<Rightarrow> 'q world \<Rightarrow> (account_error, account) result" where
  "ownedAccount userId accountId w =
     (case own_account userId accountId w of
        None \<Rightarrow> Inl (FlowValidationError (''Account '' @ accountId @ '' not found''))
      | Some a \<Rightarrow> Inr a)"

definition flows_of :: "android_credentials \<Rightarrow> account_flows" where
  "flows_of c = \<lparr>af_flow = ac_flow c, af_flows = ac_flows c, af_verifyFlow = ac_verifyFlow c\<rparr>"

definition with_flows :: "account_flows \<Rightarrow> android_credentials \<Rightarrow> android_credentials" where
  "with_flows f c = c\<lparr>ac_flow := af_flow f, ac_flows := af_flows f, ac_verifyFlow := af_verifyFlow f\<rparr>"

definition readFlows :: "account_env \<Rightarrow> string \<Rightarrow> string \<Rightarrow> 'q world \<Rightarrow> (account_error, account_flows) result" where
  "readFlows A userId accountId w =
     andThen (ownedAccount userId accountId w) (\<lambda>a. andThen (androidCredentials A a) (\<lambda>c. Inr (flows_of c)))"

text \<open>The merged configuration is the value with the three properties replaced.\<close>

definition writeFlows ::
  "account_env \<Rightarrow> bytes \<Rightarrow> string \<Rightarrow> string \<Rightarrow> js \<Rightarrow> 'q world \<Rightarrow> (account_error, account_flows) result \<times> 'q world" where
  "writeFlows A iv userId accountId raw w =
     (case andThen (ownedAccount userId accountId w) (\<lambda>a. andThen (androidCredentials A a) (\<lambda>c. Inr (a, c))) of
        Inl e \<Rightarrow> (Inl e, w)
      | Inr (account, current) \<Rightarrow>
          (case accountFlowsSchema raw of
             None \<Rightarrow> (Inl (FlowValidationError (issues (ae_flow_issues A raw))), w)
           | Some parsed \<Rightarrow>
               (let merged = credentials_json (with_flows parsed current)
                in case androidSchema A merged of
                     None \<Rightarrow> (Inl (FlowValidationError
                       (''The account would no longer be valid with these flows - '' @ issues (ae_issues A merged))), w)
                   | Some whole \<Rightarrow>
                       (case seal_config A iv whole of
                          Inl e \<Rightarrow> (Inl e, w)
                        | Inr credentials \<Rightarrow>
                            (Inr (flows_of whole),
                             upd_account (acc_id account) (\<lambda>a. a\<lparr>acc_credentials := Some credentials\<rparr>) w)))))"

subsection \<open>What is stored is what the worker parses\<close>

text \<open>What the model assumes of \<open>JSON\<close>: a configuration survives it.\<close>

definition account_laws :: "account_env \<Rightarrow> bytes \<Rightarrow> bool" where
  "account_laws A iv \<longleftrightarrow> crypto_laws (ae_crypto A) \<and> length iv = IV_LENGTH \<and> url_laws (ae_is_url A)
     \<and> (\<forall>c. json_value (ae_crypto A) (credentials_json c))"

lemma sealed_opens:
  assumes "account_laws A iv" and "seal_config A iv c = Inr envelope"
  shows "open_config A envelope = Inr (credentials_json c)"
proof -
  from assms(2) obtain k where k: "primaryKey (ae_crypto A) = Inr k" "envelope = seal (ae_crypto A) iv k (credentials_json c)"
    by (auto simp: seal_config_def split: sum.splits)
  moreover from k(1) have "length k = KEY_LENGTH" by (auto simp: primaryKey_def dest: decodeKey_length)
  moreover from assms(1) have "crypto_laws (ae_crypto A)" "length iv = IV_LENGTH" "json_value (ae_crypto A) (credentials_json c)"
    by (auto simp: account_laws_def)
  ultimately show ?thesis
    using openDetailed_sealed_primary by (simp add: open_config_def openSecret_def)
qed

lemma schema_stable:
  assumes "account_laws A iv" and "androidSchema A v = Some c"
  shows "androidSchema A (credentials_json c) = Some c"
proof -
  have "url_laws (ae_is_url A)" using assms(1) by (simp add: account_laws_def)
  from stableD [OF stable_credentials [OF this]] assms(2) show ?thesis by (simp add: androidSchema_def)
qed

lemma flows_stable:
  assumes "accountFlowsSchema raw = Some f"
  shows "uiFlowSchema (flow_json (af_flow f)) = Some (af_flow f)"
    and "field_optional (field_record (\<lambda>k. k \<noteq> []) uiFlowSchema) (js_opt (js_entries flow_json) (af_flows f)) = Some (af_flows f)"
    and "field_optional uiFlowSchema (js_opt flow_json (af_verifyFlow f)) = Some (af_verifyFlow f)"
proof -
  from assms obtain flow flows verifyFlow where parsed: "uiFlowSchema (js_get raw ''flow'') = Some flow"
      "field_optional (field_record (\<lambda>k. k \<noteq> []) uiFlowSchema) (js_get raw ''flows'') = Some flows"
      "field_optional uiFlowSchema (js_get raw ''verifyFlow'') = Some verifyFlow"
    and f: "f = \<lparr>af_flow = flow, af_flows = flows, af_verifyFlow = verifyFlow\<rparr>"
    by (auto simp: accountFlowsSchema_def schema_binds dest!: field_object_Some)
  note kept = parsed(1) [THEN stableD [OF stable_flow]]
    parsed(2) [THEN stableD [OF stable_optional [OF stable_record [OF stable_flow] json_defined(10)]]]
    parsed(3) [THEN stableD [OF stable_optional [OF stable_flow json_defined(1)]]]
  show "uiFlowSchema (flow_json (af_flow f)) = Some (af_flow f)"
    and "field_optional (field_record (\<lambda>k. k \<noteq> []) uiFlowSchema) (js_opt (js_entries flow_json) (af_flows f)) = Some (af_flows f)"
    and "field_optional uiFlowSchema (js_opt flow_json (af_verifyFlow f)) = Some (af_verifyFlow f)"
    using kept f by simp_all
qed

lemma merged_valid:
  assumes "androidSchema A (credentials_json c) = Some c" and "accountFlowsSchema raw = Some f"
  shows "androidSchema A (credentials_json (with_flows f c)) = Some (with_flows f c)"
  using assms(1) flows_stable [OF assms(2)] unfolding androidSchema_def credentials_json_fields
  by (simp add: with_flows_def)

subsection \<open>Properties of a value\<close>

text \<open>A place in a value: a key of an object or an index of an array at each level.\<close>

fun js_at :: "js \<Rightarrow> (string + nat) list \<Rightarrow> js option" where
  "js_at v [] = Some v"
| "js_at (JsObj kvs) (Inl key # p) = Option.bind (map_of kvs key) (\<lambda>v. js_at v p)"
| "js_at (JsArr xs) (Inr i # p) = (if i < length xs then js_at (xs ! i) p else None)"
| "js_at v (x # p) = None"

definition passes_secret :: "(string + nat) list \<Rightarrow> bool" where
  "passes_secret p = list_ex (\<lambda>x. case x of Inl key \<Rightarrow> SENSITIVE key | Inr i \<Rightarrow> False) p"

lemma passes_secret_simps [simp]:
  "\<not> passes_secret []" "passes_secret (Inl key # p) \<longleftrightarrow> SENSITIVE key \<or> passes_secret p"
  "passes_secret (Inr i # p) \<longleftrightarrow> passes_secret p"
  by (simp_all add: passes_secret_def)

lemma map_of_entries: "map_of (map (\<lambda>(k, v). (k, f k v)) kvs) key = map_option (f key) (map_of kvs key)"
  by (induction kvs) auto

lemma js_at_strip:
  "if passes_secret p then js_at (stripSensitive v) p \<in> {None, Some JsUndefined}
   else js_at (stripSensitive v) p = map_option stripSensitive (js_at v p)"
proof (induction v p rule: js_at.induct)
  case (2 kvs key p)
  have at: "js_at (stripSensitive (JsObj kvs)) (Inl key # p) = Option.bind (map_of kvs key)
      (\<lambda>v. js_at (if SENSITIVE key then JsUndefined else stripSensitive v) p)"
    by (simp add: map_of_entries Option.bind_map_option comp_def)
  have gone: "js_at JsUndefined p \<in> {None, Some JsUndefined}" by (cases p) auto
  show ?case
    unfolding at using 2 gone by (cases "map_of kvs key") auto
next
  case (3 xs i p)
  then show ?case by auto
qed (auto simp: passes_secret_def split: sum.splits)

subsection \<open>Correctness\<close>

text \<open>
  C25. The configuration an account can be started from is shown to its owner only, and only if it is an Android
  configuration. At every place whose path has a key with a word for a secret in it nothing is shown; at
  every other place what is shown is what is stored, secrets stripped.
\<close>

theorem clone_strips_secrets:
  assumes "accountConfigForCloning A userId accountId w = Inr (Some shown)"
  shows "\<exists>a envelope config. find_account accountId w = Some a \<and> acc_userId a = userId \<and> acc_credentials a = Some envelope
    \<and> openSecret (ae_crypto A) envelope = Inr config \<and> androidSchema A config \<noteq> None
    \<and> (\<forall>p. if passes_secret p then js_at shown p \<in> {None, Some JsUndefined}
           else js_at shown p = map_option stripSensitive (js_at config p))"
proof -
  from assms obtain a envelope config where "find_account accountId w = Some a" "acc_userId a = userId"
      "acc_credentials a = Some envelope" "openSecret (ae_crypto A) envelope = Inr config" "androidSchema A config \<noteq> None"
    and shown: "shown = stripSensitive config"
    by (auto simp: accountConfigForCloning_def own_account_def open_config_def andThen_Inr_iff
        split: option.splits Option.bind_splits if_splits sum.splits)
  moreover have "if passes_secret p then js_at shown p \<in> {None, Some JsUndefined}
      else js_at shown p = map_option stripSensitive (js_at config p)" for p
    unfolding shown by (rule js_at_strip)
  ultimately show ?thesis by blast
qed

text \<open>What the worker makes of an envelope: it opens it and parses what is inside.\<close>

definition worker_reads :: "account_env \<Rightarrow> 's android_deps \<Rightarrow> bytes \<Rightarrow> android_credentials \<Rightarrow> bool" where
  "worker_reads A D envelope c \<longleftrightarrow> (\<exists>v. openSecret (ae_crypto A) envelope = Inr v \<and> parseCredentials D (Some v) = Inr c)"

lemma open_config_Inr: "open_config A envelope = Inr v \<Longrightarrow> openSecret (ae_crypto A) envelope = Inr v"
  by (simp add: open_config_def split: sum.splits)

lemma credentials_reads:
  assumes "acc_credentials a = Some envelope" and "open_config A envelope = Inr (credentials_json c)"
    and "androidSchema A (credentials_json c) = Some c"
  shows "androidCredentials A a = Inr c" and "ad_is_url D = ae_is_url A \<Longrightarrow> worker_reads A D envelope c"
proof -
  show "androidCredentials A a = Inr c" by (simp add: androidCredentials_def assms)
  assume "ad_is_url D = ae_is_url A"
  then have "parseCredentials D (Some (credentials_json c)) = Inr c"
    using assms(3) by (simp add: parseCredentials_def androidSchema_def js_nullish_def)
  with open_config_Inr [OF assms(2)] show "worker_reads A D envelope c" unfolding worker_reads_def by blast
qed

lemma created:
  assumes "createAndroidAccount A iv newId now u name config w = (Inr row, w1)" and "account_laws A iv"
  obtains c envelope where "androidSchema A config = Some c" and "androidSchema A (credentials_json c) = Some c"
    and "open_config A envelope = Inr (credentials_json c)" and "js_trim name \<noteq> []"
    and "row = new_account newId now u (js_trim name) envelope" and "w1 = w\<lparr>w_accounts := w_accounts w @ [row]\<rparr>"
proof -
  from assms(1) obtain c envelope where made: "androidSchema A config = Some c" "seal_config A iv c = Inr envelope"
      "js_trim name \<noteq> []" "row = new_account newId now u (js_trim name) envelope" "w1 = w\<lparr>w_accounts := w_accounts w @ [row]\<rparr>"
    by (auto simp: createAndroidAccount_def validateAndroidConfig_def Let_def andThen_Inr_iff split: if_splits sum.splits option.splits)
  from that [OF made(1) schema_stable [OF assms(2) made(1)] sealed_opens [OF assms(2) made(2)] made(3-5)] show ?thesis .
qed

lemma create_refused: "createAndroidAccount A iv newId now u name config w = (Inl e, w1) \<Longrightarrow> w1 = w"
  by (auto simp: createAndroidAccount_def Let_def split: if_splits sum.splits)

lemma written:
  assumes "writeFlows A iv u i raw w = (Inr f, w1)" and "account_laws A iv"
  obtains a c envelope where "own_account u i w = Some a" and "androidCredentials A a = Inr c"
    and "accountFlowsSchema raw = Some f" and "androidSchema A (credentials_json (with_flows f c)) = Some (with_flows f c)"
    and "open_config A envelope = Inr (credentials_json (with_flows f c))"
    and "w1 = upd_account (acc_id a) (\<lambda>a. a\<lparr>acc_credentials := Some envelope\<rparr>) w"
proof -
  from assms(1) obtain a c where a: "own_account u i w = Some a" "androidCredentials A a = Inr c"
    by (auto simp: writeFlows_def ownedAccount_def andThen_Inr_iff split: sum.splits option.splits)
  then obtain v where "androidSchema A v = Some c"
    by (auto simp: androidCredentials_def andThen_Inr_iff split: option.splits)
  then have current: "androidSchema A (credentials_json c) = Some c" by (rule schema_stable [OF assms(2)])
  have start: "andThen (ownedAccount u i w) (\<lambda>a. andThen (androidCredentials A a) (\<lambda>c. Inr (a, c))) = Inr (a, c)"
    using a by (simp add: ownedAccount_def)
  then obtain g where g: "accountFlowsSchema raw = Some g"
    using assms(1) by (auto simp: writeFlows_def split: option.splits)
  note merged = merged_valid [OF current g]
  obtain envelope where sealed: "seal_config A iv (with_flows g c) = Inr envelope"
    using assms(1) start g merged by (auto simp: writeFlows_def Let_def split: sum.splits)
  then have "f = flows_of (with_flows g c)" "w1 = upd_account (acc_id a) (\<lambda>a. a\<lparr>acc_credentials := Some envelope\<rparr>) w"
    using assms(1) start g merged by (simp_all add: writeFlows_def Let_def)
  moreover have "flows_of (with_flows g c) = g" by (simp add: flows_of_def with_flows_def)
  ultimately show ?thesis using a g merged sealed_opens [OF assms(2) sealed] by (intro that) auto
qed

text \<open>
  C23. The saved flows are the ones asked for and nothing else changes: the account's configuration reads
  back with the flows replaced and every other setting as before, no other column and no other account
  differs. A save that fails changes nothing, and the second validation never is what fails: only
  the account, what it holds, the flows themselves or the key can be wrong.
\<close>

theorem writeFlows_only_flows:
  assumes "writeFlows A iv userId accountId raw w = (x, w1)" and "account_laws A iv"
  shows "case x of
      Inr f \<Rightarrow> accountFlowsSchema raw = Some f \<and> readFlows A userId accountId w1 = Inr f
        \<and> (\<exists>a c a1. own_account userId accountId w = Some a \<and> androidCredentials A a = Inr c
             \<and> find_account accountId w1 = Some a1 \<and> androidCredentials A a1 = Inr (with_flows f c)
             \<and> a1\<lparr>acc_credentials := acc_credentials a\<rparr> = a)
        \<and> (\<forall>j. j \<noteq> accountId \<longrightarrow> find_account j w1 = find_account j w)
    | Inl e \<Rightarrow> w1 = w \<and> (own_account userId accountId w = None
        \<or> (\<exists>a. own_account userId accountId w = Some a \<and> androidCredentials A a = Inl e)
        \<or> accountFlowsSchema raw = None \<or> (\<exists>k. primaryKey (ae_crypto A) = Inl k \<and> e = SecretFailed k))"
proof (cases x)
  case (Inr f)
  with assms obtain a c envelope where saved: "own_account userId accountId w = Some a" "androidCredentials A a = Inr c"
      "accountFlowsSchema raw = Some f" "androidSchema A (credentials_json (with_flows f c)) = Some (with_flows f c)"
      "open_config A envelope = Inr (credentials_json (with_flows f c))"
      "w1 = upd_account (acc_id a) (\<lambda>a. a\<lparr>acc_credentials := Some envelope\<rparr>) w"
    using written by metis
  let ?a1 = "a\<lparr>acc_credentials := Some envelope\<rparr>"
  have a: "find_account accountId w = Some a" "acc_userId a = userId"
    using saved(1) by (auto simp: own_account_def split: option.splits if_splits)
  have "acc_id a = accountId" using a(1) by (rule account_rows.look_key)
  then have found: "find_account accountId w1 = Some ?a1" "\<forall>j. j \<noteq> accountId \<longrightarrow> find_account j w1 = find_account j w"
    using a(1) saved(6) by (auto simp: account_rows.look_upd)
  have reads: "androidCredentials A ?a1 = Inr (with_flows f c)"
    using credentials_reads(1) [of ?a1, OF _ saved(5,4)] by simp
  have "readFlows A userId accountId w1 = Inr f"
    using found(1) a(2) reads by (simp add: readFlows_def ownedAccount_def own_account_def flows_of_def with_flows_def)
  with Inr saved(1-3) found reads show ?thesis by auto
next
  case (Inl e)
  with assms(1) have "w1 = w" by (auto simp: writeFlows_def Let_def split: sum.splits option.splits prod.splits)
  show ?thesis
  proof (cases "own_account userId accountId w")
    case None
    with Inl \<open>w1 = w\<close> show ?thesis by simp
  next
    case (Some a)
    show ?thesis
    proof (cases "androidCredentials A a")
      case l: (Inl e')
      with assms(1) Inl Some have "e = e'" by (simp add: writeFlows_def ownedAccount_def)
      with Inl l Some \<open>w1 = w\<close> show ?thesis by simp
    next
      case (Inr c)
      then obtain v where "androidSchema A v = Some c"
        by (auto simp: androidCredentials_def andThen_Inr_iff split: option.splits)
      then have current: "androidSchema A (credentials_json c) = Some c" by (rule schema_stable [OF assms(2)])
      have "\<exists>k. primaryKey (ae_crypto A) = Inl k \<and> e = SecretFailed k" if "accountFlowsSchema raw = Some g" for g
        using assms(1) Inl Some Inr that merged_valid [OF current that]
        by (auto simp: writeFlows_def ownedAccount_def Let_def seal_config_def split: sum.splits)
      with Inl Some \<open>w1 = w\<close> show ?thesis by (cases "accountFlowsSchema raw") auto
    qed
  qed
qed

subsection \<open>Any sequence of saves\<close>

datatype account_call =
    CreateAccount bytes string ms string string js
  | SaveFlows bytes string string js

fun call_iv :: "account_call \<Rightarrow> bytes" where
  "call_iv (CreateAccount iv newId now userId name config) = iv"
| "call_iv (SaveFlows iv userId accountId raw) = iv"

fun do_account_call :: "account_env \<Rightarrow> account_call \<Rightarrow> 'q world \<Rightarrow> 'q world" where
  "do_account_call A (CreateAccount iv newId now userId name config) w = snd (createAndroidAccount A iv newId now userId name config w)"
| "do_account_call A (SaveFlows iv userId accountId raw) w = snd (writeFlows A iv userId accountId raw w)"

definition readable_or_old :: "account_env \<Rightarrow> 's android_deps \<Rightarrow> 'q world \<Rightarrow> account \<Rightarrow> bool" where
  "readable_or_old A D w a \<longleftrightarrow>
     (\<exists>old \<in> set (w_accounts w). acc_id old = acc_id a \<and> acc_credentials old = acc_credentials a)
     \<or> (\<exists>envelope c. acc_credentials a = Some envelope \<and> worker_reads A D envelope c)"

lemma readable_or_old_refl: "a \<in> set (w_accounts w) \<Longrightarrow> readable_or_old A D w a"
  by (auto simp: readable_or_old_def)

lemma do_account_call_step:
  assumes "account_laws A (call_iv call)" and "ad_is_url D = ae_is_url A" and "a \<in> set (w_accounts (do_account_call A call w))"
  shows "readable_or_old A D w a"
proof (cases call)
  case (CreateAccount iv newId now userId name config)
  show ?thesis
  proof (cases "createAndroidAccount A iv newId now userId name config w")
    case (Pair x w1)
    show ?thesis
    proof (cases x)
      case (Inl e)
      have "w1 = w" using create_refused [OF Pair [unfolded Inl]] .
      with Pair CreateAccount assms(3) show ?thesis by (auto intro: readable_or_old_refl)
    next
      case (Inr row)
      have "account_laws A iv" using assms(1) CreateAccount by simp
      from created [OF Pair [unfolded Inr] this] obtain c envelope where made: "androidSchema A (credentials_json c) = Some c"
          "open_config A envelope = Inr (credentials_json c)" "row = new_account newId now userId (js_trim name) envelope"
          "w1 = w\<lparr>w_accounts := w_accounts w @ [row]\<rparr>" .
      have "acc_credentials row = Some envelope" using made(3) by (simp add: new_account_def)
      with credentials_reads(2) [OF this made(2,1) assms(2)] have "readable_or_old A D w row" by (auto simp: readable_or_old_def)
      with made(4) Pair CreateAccount assms(3) show ?thesis by (auto intro: readable_or_old_refl)
    qed
  qed
next
  case (SaveFlows iv userId accountId raw)
  show ?thesis
  proof (cases "writeFlows A iv userId accountId raw w")
    case (Pair x w1)
    show ?thesis
    proof (cases x)
      case (Inl e)
      with Pair have "w1 = w" by (auto simp: writeFlows_def Let_def split: sum.splits option.splits prod.splits)
      with Pair SaveFlows assms(3) show ?thesis by (auto intro: readable_or_old_refl)
    next
      case (Inr f)
      have "account_laws A iv" using assms(1) SaveFlows by simp
      from written [OF Pair [unfolded Inr] this] obtain o0 c envelope where
          saved: "own_account userId accountId w = Some o0" "androidCredentials A o0 = Inr c" "accountFlowsSchema raw = Some f"
          "androidSchema A (credentials_json (with_flows f c)) = Some (with_flows f c)"
          "open_config A envelope = Inr (credentials_json (with_flows f c))"
          "w1 = upd_account (acc_id o0) (\<lambda>a. a\<lparr>acc_credentials := Some envelope\<rparr>) w" .
      have reads: "worker_reads A D envelope (with_flows f c)"
        using credentials_reads(2) [of "o0\<lparr>acc_credentials := Some envelope\<rparr>", OF _ saved(5,4) assms(2)] by simp
      have "a \<in> set (w_accounts w) \<or> acc_credentials a = Some envelope"
        using saved(6) Pair SaveFlows assms(3) by (auto simp: world_simps tupd_def split: if_splits)
      with reads show ?thesis by (auto simp: readable_or_old_def)
    qed
  qed
qed

text \<open>
  C24. Configurations stay well-typed: after any sequence of new accounts and saved flows, of any users and with whatever
  they send, each account holds the credentials it held before or an envelope the worker opens and
  parses.
\<close>

theorem account_calls_keep_configs:
  assumes "\<And>call. call \<in> set calls \<Longrightarrow> account_laws A (call_iv call)" and "ad_is_url D = ae_is_url A"
    and "a \<in> set (w_accounts (fold (do_account_call A) calls w))"
  shows "(\<exists>old \<in> set (w_accounts w). acc_id old = acc_id a \<and> acc_credentials old = acc_credentials a)
    \<or> (\<exists>envelope c. acc_credentials a = Some envelope \<and> worker_reads A D envelope c)"
proof -
  have "readable_or_old A D w a"
    using assms(1,3)
  proof (induction calls arbitrary: w)
    case (Cons call calls)
    let ?w = "do_account_call A call w"
    have "readable_or_old A D ?w a" using Cons by simp
    moreover have "readable_or_old A D w b" if "b \<in> set (w_accounts ?w)" for b
      using do_account_call_step [OF _ assms(2) that] Cons.prems(1) by simp
    ultimately show ?case unfolding readable_or_old_def by metis
  qed (simp add: readable_or_old_refl)
  then show ?thesis by (simp add: readable_or_old_def)
qed

end
