(* ===== verification/Account_World.thy ===== *)
theory Account_World
  imports Accounts Android_World "HOL-Library.Countable"
begin

text \<open>
  An account made, its flows saved and its configuration handed back: the witnesses of the properties of
  Accounts. Text and bytes are exchanged through an enumeration of the values.
\<close>

instance js :: countable
  by countable_datatype

definition counted_crypto :: crypto where
  "counted_crypto = (toy_crypto (replicate 32 CHR ''n'') None)
     \<lparr>cr_stringify := (\<lambda>v. replicate (to_nat v) 0), cr_parse := (\<lambda>b. Some (from_nat (length b)))\<rparr>"

definition ex_accounts :: account_env where
  "ex_accounts = \<lparr>ae_crypto = counted_crypto, ae_is_url = (\<lambda>s. True), ae_issues = (\<lambda>v. []), ae_flow_issues = (\<lambda>v. [])\<rparr>"

lemma ex_account_laws: "account_laws ex_accounts (replicate 12 0)"
  by (auto simp: account_laws_def crypto_laws_def json_value_def ex_accounts_def counted_crypto_def toy_crypto_def
      TAG_LENGTH_def IV_LENGTH_def url_laws_def)

lemma ex_primary: "primaryKey counted_crypto = Inr (map char_byte (replicate 32 CHR ''n''))"
  by (simp add: primaryKey_def decodeKey_def counted_crypto_def toy_crypto_def KEY_LENGTH_def js_trim_def js_ws_def numeral_eq_Suc)

definition ex_no_accounts :: "unit world" where
  "ex_no_accounts = \<lparr>w_jobs = [], w_accounts = [], w_videos = [], w_proxies = [], w_logs = [], w_queue = ()\<rparr>"

lemma ex_created:
  obtains row w1 where
    "createAndroidAccount ex_accounts (replicate 12 0) ''a1'' 0 ''u1'' '' phone '' ex_creds ex_no_accounts = (Inr row, w1)"
    and "w_accounts w1 = [row]" and "acc_id row = ''a1''" and "acc_userId row = ''u1''"
proof -
  obtain c where "parseCredentials ex_deps (Some ex_creds) = Inr c" using ex_creds_parsed by blast
  then have c: "androidSchema ex_accounts ex_creds = Some c"
    by (simp add: androidSchema_def ex_accounts_def parseCredentials_def ex_deps_def split: if_splits option.splits)
  have name: "js_trim '' phone '' = ''phone''" by code_simp
  show ?thesis
    using c name ex_primary by (intro that) (auto simp: createAndroidAccount_def validateAndroidConfig_def seal_config_def
        ex_accounts_def new_account_def ex_no_accounts_def Let_def)
qed

lemma ex_flows: "accountFlowsSchema (JsObj [(''flow'', ex_flow_json)]) = Some \<lparr>af_flow = ex_steps, af_flows = None, af_verifyFlow = None\<rparr>"
  by code_simp

theorem account_calls_keep_configs_witness:
  "\<exists>row envelope c. w_accounts (fold (do_account_call ex_accounts)
       [CreateAccount (replicate 12 0) ''a1'' 0 ''u1'' '' phone '' ex_creds] ex_no_accounts) = [row]
     \<and> acc_credentials row = Some envelope \<and> worker_reads ex_accounts ex_deps envelope c"
proof -
  obtain row w1 where made: "createAndroidAccount ex_accounts (replicate 12 0) ''a1'' 0 ''u1'' '' phone '' ex_creds ex_no_accounts = (Inr row, w1)"
    "w_accounts w1 = [row]" by (rule ex_created)
  let ?calls = "[CreateAccount (replicate 12 0) ''a1'' 0 ''u1'' '' phone '' ex_creds]"
  have accounts: "w_accounts (fold (do_account_call ex_accounts) ?calls ex_no_accounts) = [row]" using made by simp
  have "call \<in> set ?calls \<Longrightarrow> account_laws ex_accounts (call_iv call)" for call using ex_account_laws by auto
  from account_calls_keep_configs [OF this, of ?calls ex_deps row ex_no_accounts]
  have "\<exists>envelope c. acc_credentials row = Some envelope \<and> worker_reads ex_accounts ex_deps envelope c"
    using accounts by (simp add: ex_no_accounts_def ex_deps_def ex_accounts_def)
  with accounts show ?thesis by blast
qed

theorem writeFlows_only_flows_witness:
  "\<exists>row w1 w2. createAndroidAccount ex_accounts (replicate 12 0) ''a1'' 0 ''u1'' '' phone '' ex_creds ex_no_accounts = (Inr row, w1)
     \<and> writeFlows ex_accounts (replicate 12 0) ''u1'' ''a1'' (JsObj [(''flow'', ex_flow_json)]) w1
         = (Inr \<lparr>af_flow = ex_steps, af_flows = None, af_verifyFlow = None\<rparr>, w2)
     \<and> readFlows ex_accounts ''u1'' ''a1'' w2 = Inr \<lparr>af_flow = ex_steps, af_flows = None, af_verifyFlow = None\<rparr>"
proof -
  obtain row w1 where made: "createAndroidAccount ex_accounts (replicate 12 0) ''a1'' 0 ''u1'' '' phone '' ex_creds ex_no_accounts = (Inr row, w1)"
    "w_accounts w1 = [row]" "acc_id row = ''a1''" "acc_userId row = ''u1''" by (rule ex_created)
  then have own: "own_account ''u1'' ''a1'' w1 = Some row" by (simp add: own_account_def find_account_def tfind_Cons)
  from created [OF made(1) ex_account_laws] obtain c envelope where c: "androidSchema ex_accounts (credentials_json c) = Some c"
    "open_config ex_accounts envelope = Inr (credentials_json c)" "row = new_account ''a1'' 0 ''u1'' (js_trim '' phone '') envelope" .
  from c(3) have "acc_credentials row = Some envelope" by (simp add: new_account_def)
  with c(1,2) have reads: "androidCredentials ex_accounts row = Inr c" by (intro credentials_reads(1))
  obtain x w2 where run: "writeFlows ex_accounts (replicate 12 0) ''u1'' ''a1'' (JsObj [(''flow'', ex_flow_json)]) w1 = (x, w2)" by fastforce
  note result = writeFlows_only_flows [OF run ex_account_laws]
  have "\<exists>f. x = Inr f" using result own reads ex_flows ex_primary by (cases x) (auto simp: ex_accounts_def)
  with result ex_flows run made(1) show ?thesis by auto
qed

theorem clone_strips_secrets_witness:
  "\<exists>row w1 shown. createAndroidAccount ex_accounts (replicate 12 0) ''a1'' 0 ''u1'' '' phone '' ex_creds ex_no_accounts = (Inr row, w1)
     \<and> accountConfigForCloning ex_accounts ''u1'' ''a1'' w1 = Inr (Some shown)
     \<and> js_at shown [Inl ''flow'', Inr 0, Inl ''apiKey''] \<in> {None, Some JsUndefined}"
proof -
  obtain row w1 where made: "createAndroidAccount ex_accounts (replicate 12 0) ''a1'' 0 ''u1'' '' phone '' ex_creds ex_no_accounts = (Inr row, w1)"
    "w_accounts w1 = [row]" "acc_id row = ''a1''" "acc_userId row = ''u1''" by (rule ex_created)
  then have own: "own_account ''u1'' ''a1'' w1 = Some row" by (simp add: own_account_def find_account_def tfind_Cons)
  from created [OF made(1) ex_account_laws] obtain c envelope where c: "androidSchema ex_accounts (credentials_json c) = Some c"
    "open_config ex_accounts envelope = Inr (credentials_json c)" "row = new_account ''a1'' 0 ''u1'' (js_trim '' phone '') envelope" .
  from c(3) have "acc_credentials row = Some envelope" by (simp add: new_account_def)
  with own c(1,2) have shown: "accountConfigForCloning ex_accounts ''u1'' ''a1'' w1 = Inr (Some (stripSensitive (credentials_json c)))"
    by (simp add: accountConfigForCloning_def)
  have "passes_secret [Inl ''flow'', Inr 0, Inl ''apiKey'']" by code_simp
  with clone_strips_secrets [OF shown] have "js_at (stripSensitive (credentials_json c)) [Inl ''flow'', Inr 0, Inl ''apiKey''] \<in> {None, Some JsUndefined}"
    by metis
  with made(1) shown show ?thesis by blast
qed

end
