(* ===== verification/Spec2Isabelle.thy ===== *)
theory Spec2Isabelle
  imports Worker Container_World Site_World Ingest Account_World
begin

text \<open>
  A verification library for the publishing pipeline: a queue of jobs that post videos and link
  accounts by driving real Android devices, each behind the proxy of its account. The code is
  TypeScript; paths below are under \<open>src/\<close>.

  The program. A request creates a job (\<open>lib/jobs/service.ts\<close>), a row of the database and an entry
  of the queue. A worker takes deliveries off the queue (\<open>lib/worker/createWorker.ts\<close>,
  \<open>processJob.ts\<close>), reserves one of the account's slots in Redis (\<open>rateLimiter.ts\<close>), opens its
  credentials and its proxy (\<open>lib/crypto/secretBox.ts\<close>, \<open>lib/proxy/\<close>), and calls a driver
  (\<open>lib/publisher/\<close>). The Android driver (\<open>android.ts\<close>) acquires a device from a provider
  (\<open>lib/android/redroidProvider.ts\<close>, \<open>emulatorProvider.ts\<close>), runs the flow of UI steps stored with the
  account (\<open>uiFlow.ts\<close>) through Appium (\<open>appium.ts\<close>), keeps evidence, and releases the device. For
  an onboarding it hands the device to the operator and waits (\<open>lib/onboarding/signal.ts\<close>). A
  provider starts containers (\<open>docker.ts\<close>): a gateway that tunnels to the proxy (\<open>proxyGateway.ts\<close>),
  whose network namespace it pins (\<open>egressPolicy.ts\<close>) and whose effect it checks from inside the
  device (\<open>egressCheck.ts\<close>), the device, and for an emulator a camera (\<open>cameraSlots.ts\<close>,
  \<open>cameraBridge.ts\<close>). A sweep removes what dead workers left (\<open>reaper.ts\<close>).

  Theories, and what each models.
  \<^item> \<open>Prelude\<close>: JavaScript strings, tables of rows, transition systems, lemma collections.
    \<open>Js_Text\<close>, \<open>Iso_Date\<close>: splitting, trimming, number and date texts.
  \<^item> \<open>Job_Logger\<close> (\<open>lib/logging/jobLogger.ts\<close>), \<open>Publish_Errors\<close> (\<open>lib/publisher/errors.ts\<close>,
    \<open>types.ts\<close>; the locale \<open>publisher_contract\<close>), \<open>Schema\<close> (\<open>prisma/schema.prisma\<close>; the record
    \<open>world\<close> is the tables, the queue and the state of the outside).
  \<^item> \<open>Job_Service\<close>: \<open>createFlowJob\<close>, \<open>createPublishJob\<close>, \<open>createOnboardingJob\<close>,
    \<open>confirmOnboarding\<close>, \<open>cancelJob\<close>, \<open>retryJob\<close>, with the race between lookup and insert.
  \<^item> \<open>Rate_Limiter\<close>, \<open>Human_Signal\<close>, \<open>Secret_Box\<close>, \<open>Proxy_Config\<close>, \<open>Proxy_Service\<close>: one module each.
  \<^item> \<open>Process_Job\<close>, \<open>Worker\<close>: one delivery of a job; the start-up of a worker and what the queue sees.
  \<^item> \<open>Drivers\<close> (\<open>stub.ts\<close>, \<open>noop.ts\<close>, \<open>tiktok.ts\<close>, \<open>registry.ts\<close>).
  \<^item> \<open>Effects\<close>: asynchronous code that throws, may not end and leaves a trace of its calls;
    \<open>Device_Interface\<close>: the interface of a device as the locale \<open>android_device\<close>.
  \<^item> \<open>Appium\<close>, \<open>Ui_Flow\<close>, \<open>Adb\<close> (\<open>adb.ts\<close>, \<open>device.ts\<close>), \<open>Docker\<close>, \<open>Gateway\<close>
    (\<open>proxyGateway.ts\<close>), \<open>Egress_Policy\<close>, \<open>Egress_Check\<close> (also \<open>devicePersona.ts\<close>), \<open>Camera\<close>
    (\<open>cameraSlots.ts\<close>, \<open>cameraBridge.ts\<close>, \<open>cameraIngest.ts\<close>), \<open>Device_Config\<close> (the schemas of an
    account's configuration), \<open>Device_Provider\<close> (\<open>deviceProvider.ts\<close>, \<open>evidence.ts\<close>; the locale
    \<open>device_provider\<close>), \<open>Containers\<close> (what both providers share), \<open>Redroid\<close>, \<open>Emulator\<close>, \<open>Reaper\<close>.
  \<^item> \<open>Android_Publisher\<close> (\<open>lib/publisher/android.ts\<close>), with its properties in \<open>Android_Safety\<close>,
    \<open>Android_Success\<close>, \<open>Android_Rules\<close>; those of the containers in \<open>Container_Safety\<close> and
    \<open>Container_Egress\<close>; concrete runs in \<open>Android_World\<close> and \<open>Container_World\<close>.

  What the lemmas show.
  \<^item> Jobs: one job per idempotency key under any interleaving, the life cycle of a job as a
    refinement, what each failure leaves on the row, no slot kept, no job lost at start-up.
  \<^item> Secrets and proxies: round trips, rotation of keys, invariants of the stored proxies.
  \<^item> Devices: acquired once and released once and last; errors classified; runs that end; success only
    with Appium's own answers; an account with a proxy only behind its gateway, with its egress
    checked; the effect of the firewall chain on a packet; containers and leases given back.
  \<^item> Interfaces: each locale is interpreted on the model's own definitions, where they are defined.

  Conventions.
  \<^item> A synchronous function is a function; asynchronous code over the tables is a function of the
    world that returns a result and the world after it (an error is \<open>Inl\<close>); asynchronous code of a
    device run is an \<open>eff\<close>: \<open>None\<close> when it never settles, else a result and the run after it, with
    the trace. A loop that may not end is a \<open>partial_function (option)\<close>, and its end is a theorem
    under the hypothesis that time passes; no fuel is used anywhere.
  \<^item> What is not in the repository (Redis, BullMQ, the cipher, HTTP, Docker, adb, the clock, the URL
    and date parsers, zod's URL rule) is a parameter; what the code relies on is a named predicate such as
    \<open>redis_laws\<close>, \<open>crypto_laws\<close>, \<open>clock_laws\<close>, \<open>set_nx_law\<close>, with a witness for each.
  \<^item> Strings are those whose code units are below 256, and a dash in a message is a hyphen. Times are
    milliseconds, as integers. A database call succeeds unless it breaks a unique constraint.
    \<open>Promise.all\<close> runs its parts in order. Lines on the console are log lines in the reaper's model.

  Not modelled: the pages and components of \<open>app/\<close>, the process set-up (\<open>worker/index.ts\<close>,
  \<open>lib/db.ts\<close>, \<open>lib/env.ts\<close>, \<open>lib/queue/\<close>), the command-line tools of \<open>scripts/\<close>, and the texts of zod's
  issues: they wire the parts above together, show them or describe them.
\<close>

end
